(* ===== verification/Prelude.thy ===== *)
theory Prelude
  imports Complex_Main "HOL-Library.Product_Lexorder" "HOL-Library.Sublist"
begin

section \<open>Shared vocabulary of the development\<close>

text \<open>
  This theory holds what every component uses and nothing that belongs to one component only:
  timestamps and durations, the rounding of \<open>timedelta(seconds=...)\<close>, tables as lists of rows
  with the few SQL statement shapes the repositories issue, results of fallible code, and the
  state-and-exception programs in which the handlers are written.

  \<^item> A Python \<open>datetime\<close> is an instant in microseconds together with the flag that
    \<open>utcoffset()\<close> is not \<open>None\<close>. Every clock of the program is \<open>utc_now\<close> and every stored
    timestamp is a \<open>timestamptz\<close>, so an aware value is kept in UTC. Python refuses to compare an
    aware with a naive value; all comparisons of the program come after the awareness check, and on
    aware values the order below is the order of the instants.
  \<^item> A Python \<open>float\<close> of the configuration is a rational number, a \<open>timedelta\<close> an \<open>int\<close> number of
    microseconds, a \<open>UUID\<close> its integer value (its order is the order of Python and PostgreSQL).
  \<^item> A table is a list of rows; a statement is a filter, a map or an append on it.
\<close>

named_theorems res_simps \<open>equations of results and of state-and-exception programs\<close>
named_theorems keeps_intros \<open>introduction rules for preserved invariants\<close>

type_synonym uuid = nat
type_synonym bytes = "nat list"
type_synonym seconds = rat
type_synonym timedelta = int


subsection \<open>Timestamps\<close>

datatype datetime = Datetime (instant: int) (tz_aware: bool)

instantiation datetime :: linorder
begin

definition less_eq_datetime :: "datetime \<Rightarrow> datetime \<Rightarrow> bool" where
  "less_eq_datetime a b \<longleftrightarrow> (instant a, tz_aware a) \<le> (instant b, tz_aware b)"

definition less_datetime :: "datetime \<Rightarrow> datetime \<Rightarrow> bool" where
  "less_datetime a b \<longleftrightarrow> (instant a, tz_aware a) < (instant b, tz_aware b)"

instance
proof
  fix x y z :: datetime
  show "x < y \<longleftrightarrow> x \<le> y \<and> \<not> y \<le> x"
    unfolding less_eq_datetime_def less_datetime_def by (rule less_le_not_le)
  show "x \<le> x"
    unfolding less_eq_datetime_def by (rule order_refl)
  show "x \<le> y \<Longrightarrow> y \<le> z \<Longrightarrow> x \<le> z"
    unfolding less_eq_datetime_def by (rule order_trans)
  show "x \<le> y \<Longrightarrow> y \<le> x \<Longrightarrow> x = y"
    unfolding less_eq_datetime_def
    by (cases x; cases y) auto
  show "x \<le> y \<or> y \<le> x"
    unfolding less_eq_datetime_def by (rule linear)
qed

end

lemma datetime_le_same [simp]: "Datetime i a \<le> Datetime j a \<longleftrightarrow> i \<le> j"
  by (auto simp: less_eq_datetime_def)

lemma datetime_less_same [simp]: "Datetime i a < Datetime j a \<longleftrightarrow> i < j"
  by (auto simp: less_datetime_def)

lemma datetime_le_iff: "tz_aware a = tz_aware b \<Longrightarrow> a \<le> b \<longleftrightarrow> instant a \<le> instant b"
  by (cases a; cases b) simp

lemma datetime_less_iff: "tz_aware a = tz_aware b \<Longrightarrow> a < b \<longleftrightarrow> instant a < instant b"
  by (cases a; cases b) simp

text \<open>\<open>datetime + timedelta\<close> and \<open>datetime - datetime\<close>.\<close>

definition plus_delta :: "datetime \<Rightarrow> timedelta \<Rightarrow> datetime" where
  "plus_delta t d = Datetime (instant t + d) (tz_aware t)"

definition minus_datetime :: "datetime \<Rightarrow> datetime \<Rightarrow> timedelta" where
  "minus_datetime a b = instant a - instant b"

lemma plus_delta_sel [simp]:
  "instant (plus_delta t d) = instant t + d" "tz_aware (plus_delta t d) = tz_aware t"
  by (simp_all add: plus_delta_def)

lemma plus_delta_less [simp]: "t < plus_delta t d \<longleftrightarrow> 0 < d"
  by (cases t) (simp add: plus_delta_def)

lemma plus_delta_le [simp]: "plus_delta t d \<le> t \<longleftrightarrow> d \<le> 0"
  by (cases t) (simp add: plus_delta_def)

text \<open>
  \<open>timedelta(seconds=x)\<close> keeps whole microseconds and rounds half to even.
\<close>

definition round_half_even :: "rat \<Rightarrow> int" where
  "round_half_even x =
     (let f = \<lfloor>x\<rfloor>; d = x - of_int f
      in if d < 1 / 2 then f else if d > 1 / 2 then f + 1 else if even f then f else f + 1)"

definition timedelta_seconds :: "seconds \<Rightarrow> timedelta" where
  "timedelta_seconds s = round_half_even (s * 1000000)"

text \<open>\<open>math.ceil(delta.total_seconds())\<close>.\<close>

definition ceil_total_seconds :: "timedelta \<Rightarrow> int" where
  "ceil_total_seconds d = \<lceil>(of_int d :: rat) / 1000000\<rceil>"

lemma round_half_even_mono_int: "of_int n \<le> x \<Longrightarrow> n \<le> round_half_even x"
proof -
  assume "of_int n \<le> x"
  then have "n \<le> \<lfloor>x\<rfloor>" by (simp add: le_floor_iff)
  then show ?thesis by (auto simp: round_half_even_def Let_def)
qed

lemma round_half_even_le_int: "x \<le> of_int n \<Longrightarrow> round_half_even x \<le> n"
proof -
  assume le: "x \<le> of_int n"
  show ?thesis
  proof (cases "x = of_int n")
    case True
    then show ?thesis by (simp add: round_half_even_def)
  next
    case False
    with le have "\<lfloor>x\<rfloor> < n" by (simp add: floor_less_iff)
    then show ?thesis by (auto simp: round_half_even_def Let_def)
  qed
qed

lemma round_half_even_of_int [simp]: "round_half_even (of_int n) = n"
  by (simp add: round_half_even_def)

lemma timedelta_seconds_pos: "1 / 1000000 \<le> s \<Longrightarrow> 0 < timedelta_seconds s"
  using round_half_even_mono_int [of 1 "s * 1000000"] by (simp add: timedelta_seconds_def)

lemma timedelta_seconds_bounds:
  assumes "of_int lo \<le> s * 1000000" and "s * 1000000 \<le> of_int hi"
  shows "lo \<le> timedelta_seconds s" and "timedelta_seconds s \<le> hi"
  unfolding timedelta_seconds_def
  using round_half_even_mono_int [OF assms(1)] round_half_even_le_int [OF assms(2)] by simp_all


subsection \<open>Tables\<close>

text \<open>
  \<open>UPDATE t SET ... WHERE p RETURNING ...\<close>: the rows after the statement and the updated rows.
  \<open>scalar_one_or_none\<close> is the accessor of SQLAlchemy: no row, the only row, or an error.
\<close>

definition update_where :: "('r \<Rightarrow> bool) \<Rightarrow> ('r \<Rightarrow> 'r) \<Rightarrow> 'r list \<Rightarrow> 'r list" where
  "update_where p f rows = map (\<lambda>r. if p r then f r else r) rows"

definition returning :: "('r \<Rightarrow> bool) \<Rightarrow> ('r \<Rightarrow> 'r) \<Rightarrow> 'r list \<Rightarrow> 'r list" where
  "returning p f rows = map f (filter p rows)"

lemma update_where_Nil [simp]: "update_where p f [] = []"
  by (simp add: update_where_def)

lemma update_where_Cons [simp]:
  "update_where p f (r # rs) = (if p r then f r else r) # update_where p f rs"
  by (simp add: update_where_def)

lemma length_update_where [simp]: "length (update_where p f rows) = length rows"
  by (simp add: update_where_def)

lemma update_where_none: "(\<And>r. r \<in> set rows \<Longrightarrow> \<not> p r) \<Longrightarrow> update_where p f rows = rows"
  by (induction rows) auto

lemma update_where_filter_Nil: "filter p rows = [] \<Longrightarrow> update_where p f rows = rows"
  by (rule update_where_none) (auto simp: filter_empty_conv)

lemma in_set_update_where:
  "x \<in> set (update_where p f rows) \<longleftrightarrow>
     (\<exists>r \<in> set rows. (p r \<and> x = f r) \<or> (\<not> p r \<and> x = r))"
  by (induction rows) auto

lemma update_where_map_eq:
  "(\<And>r. r \<in> set rows \<Longrightarrow> p r \<Longrightarrow> k (f r) = k r) \<Longrightarrow> map k (update_where p f rows) = map k rows"
  by (induction rows) auto

lemma returning_Nil_iff: "returning p f rows = [] \<longleftrightarrow> (\<forall>r \<in> set rows. \<not> p r)"
  by (simp add: returning_def filter_empty_conv)

text \<open>Rows found by a unique key.\<close>

lemma unique_key:
  "distinct (map k rows) \<Longrightarrow> r \<in> set rows \<Longrightarrow> r' \<in> set rows \<Longrightarrow> k r = k r' \<Longrightarrow> r = r'"
  by (metis distinct_map inj_onD)

lemma filter_unique_key:
  assumes "distinct (map k rows)" and "r \<in> set rows" and "p r" and "\<And>r. p r \<Longrightarrow> k r = x"
  shows "filter p rows = [r]"
  using assms
proof (induction rows)
  case Nil
  then show ?case by simp
next
  case (Cons a rows)
  show ?case
  proof (cases "a = r")
    case True
    with Cons.prems have "\<forall>b \<in> set rows. \<not> p b" by (auto simp: image_iff)
    then have "filter p rows = []" by (simp add: filter_empty_conv)
    with True Cons.prems show ?thesis by simp
  next
    case False
    with Cons.prems have "\<not> p a" by (metis image_eqI distinct.simps(2) list.set_map list.simps(9) set_ConsD)
    with False Cons show ?thesis by simp
  qed
qed

lemma filter_unique_key_length:
  assumes "distinct (map k rows)" and "\<And>r. p r \<Longrightarrow> k r = x"
  shows "filter p rows = [] \<or> (\<exists>r. r \<in> set rows \<and> p r \<and> filter p rows = [r])"
proof (cases "filter p rows")
  case Nil
  then show ?thesis by simp
next
  case (Cons r rs)
  then have r: "r \<in> set rows" "p r"
    using filter_set [of p rows] by (auto simp: filter_eq_Cons_iff)
  have "filter p rows = [r]"
    by (rule filter_unique_key [where k = k and x = x]) (use assms r in auto)
  with r show ?thesis by auto
qed

lemma filter_key_in:
  "distinct (map k rows) \<Longrightarrow> r \<in> set rows \<Longrightarrow> filter (\<lambda>q. k q = k r) rows = [r]"
  by (rule filter_unique_key [where k = k and x = "k r"]) auto

lemma find_unique_key:
  "distinct (map k rows) \<Longrightarrow> r \<in> set rows \<Longrightarrow> find (\<lambda>q. k q = k r) rows = Some r"
  by (induction rows) (auto simp: image_iff)

lemma find_SomeD: "find p xs = Some x \<Longrightarrow> x \<in> set xs \<and> p x"
  by (auto simp: find_Some_iff in_set_conv_nth)

lemma find_update_where_other:
  "(\<And>r. r \<in> set rows \<Longrightarrow> p r \<Longrightarrow> q (f r) = q r) \<Longrightarrow>
   find q (update_where p f rows) = map_option (\<lambda>r. if p r then f r else r) (find q rows)"
  by (induction rows) auto

text \<open>The first rows in an order: \<open>ORDER BY ... LIMIT n FOR UPDATE SKIP LOCKED\<close>.\<close>

definition take_ordered :: "('r \<Rightarrow> 'k::linorder) \<Rightarrow> nat \<Rightarrow> ('r \<Rightarrow> bool) \<Rightarrow> 'r list \<Rightarrow> 'r list" where
  "take_ordered key n p rows = take n (sort_key key (filter p rows))"

lemma set_take_ordered: "set (take_ordered key n p rows) \<subseteq> {r \<in> set rows. p r}"
  unfolding take_ordered_def using set_take_subset [of n "sort_key key (filter p rows)"] by auto

lemma length_take_ordered: "length (take_ordered key n p rows) \<le> n"
  by (simp add: take_ordered_def)

lemma sorted_take_ordered: "sorted (map key (take_ordered key n p rows))"
proof -
  have "sorted (map key (sort_key key (filter p rows)))"
    by simp
  then show ?thesis
    by (simp add: take_ordered_def take_map [symmetric])
qed

lemma take_ordered_least:
  assumes "r \<in> set rows" "p r" "r \<notin> set (take_ordered key n p rows)"
    and "q \<in> set (take_ordered key n p rows)"
  shows "key q \<le> key r"
proof -
  let ?s = "sort_key key (filter p rows)"
  have sorted: "sorted (map key (take n ?s @ drop n ?s))"
    by simp
  have "r \<in> set (take n ?s @ drop n ?s)"
    using assms(1,2) by simp
  then have "r \<in> set (drop n ?s)"
    using assms(3) unfolding take_ordered_def by (metis Un_iff set_append)
  with sorted assms(4) show ?thesis
    unfolding map_append sorted_append take_ordered_def by auto
qed


subsection \<open>Character classes and \<open>str.strip\<close>\<close>

definition py_isspace :: "char \<Rightarrow> bool" where
  "py_isspace c \<longleftrightarrow>
     (let n = (of_char c :: nat) in (9 \<le> n \<and> n \<le> 13) \<or> (28 \<le> n \<and> n \<le> 32) \<or> n = 133 \<or> n = 160)"

definition py_strip :: "string \<Rightarrow> string" where
  "py_strip s = rev (dropWhile py_isspace (rev (dropWhile py_isspace s)))"

lemma py_strip_empty_iff: "py_strip s = [] \<longleftrightarrow> (\<forall>c \<in> set s. py_isspace c)"
proof
  assume "py_strip s = []"
  then have "\<forall>c \<in> set (dropWhile py_isspace s). py_isspace c"
    by (simp add: py_strip_def)
  then show "\<forall>c \<in> set s. py_isspace c"
    by (metis dropWhile_eq_Nil_conv hd_dropWhile list.set_sel(1))
next
  assume "\<forall>c \<in> set s. py_isspace c"
  then show "py_strip s = []" by (auto simp: py_strip_def dest: set_dropWhileD)
qed

end
