(* ===== verification/Errors.thy ===== *)
theory Errors
  imports Prelude
begin

section \<open>Exceptions, results and programs\<close>

text \<open>
  The exception classes of \<open>domain/exceptions\<close> and \<open>application/exceptions\<close>, the few built-in and
  library classes the program raises or catches, the class hierarchy that decides which
  \<open>except\<close> clause takes an exception, and the two shapes of fallible code used by every other
  theory: a result \<open>exn + 'a\<close> and a state-and-exception program \<open>'s \<Rightarrow> (exn + 'a) \<times> 's\<close>.
\<close>

subsection \<open>Errors of the database driver\<close>

text \<open>
  What a statement, a commit or a rollback may raise. \<open>DBAPIError\<close> carries \<open>orig.sqlstate\<close>,
  \<open>orig.pgcode\<close> and \<open>connection_invalidated\<close>; \<open>IntegrityError\<close> is a subclass of it.
\<close>

datatype db_error =
    DbConnectionError
  | DbTimeoutError
  | DBAPIError (sqlstate: "string option") (pgcode: "string option") (connection_invalidated: bool)
  | IntegrityError (sqlstate: "string option") (pgcode: "string option") (connection_invalidated: bool)
  | PoolTimeoutError
  | DisconnectionError
  | MultipleResultsFound
  | OtherSQLAlchemyError

subsection \<open>Exception classes\<close>

text \<open>A Python float, for the one place where it comes from outside (\<open>float(retry_after)\<close>).\<close>

datatype pyfloat = Finite rat | PosInf | NegInf | NaN

datatype (plugins only: size code) exn =
  \<comment> \<open>built-in classes\<close>
    ValueError | TypeError | RuntimeError | OverflowError | KeyError | CancelledError
  \<comment> \<open>pydantic and FastAPI\<close>
  | ValidationError | RequestValidationError
  \<comment> \<open>domain\<close>
  | DomainError | InvalidDomainStateError | InvalidEmailError | InvalidPasswordHashError
  | InvalidPasswordError | InvalidTimestampError | InvalidSessionLifetimeError
  | InvalidCredentialsError | UserAlreadyExistsError | UserNotFoundError
  | InvalidRefreshTokenError | AuthSessionInactiveError | RefreshTokenReuseError
  \<comment> \<open>application\<close>
  | InvalidCommandError
  | IdempotencyError | IdempotencyStorageUnavailableError | IdempotencyKeyConflictError
  | IdempotencyRequestInProgressError | RefreshReplayUnavailableError
  | OutboxError | PublishError | TransientPublishError | PermanentPublishError
  | RetryExhaustedError
  | PersistenceError | PersistenceUnavailableError | TransactionConflictError
  | PersistenceIntegrityError | StoredStateError | EntityNotFoundError
  | ProfileProvisioningUnavailableError | ProfileProvisioningRejectedError
  | SecurityError | InvalidTokenError | InvalidTokenDataError | TokenExpiredError
  | TokenMalformedError | TokenIssuanceError | InvalidTokenConfigurationError
  | InvalidTokenSigningKeyError | PasswordHashingError
  \<comment> \<open>private classes of single modules\<close>
  | LostRegistrationClaim | RegistrationFinalizationConflict | ConcurrentWinnerCommitted
  | CircuitBreakerError
  \<comment> \<open>SQLAlchemy and connection errors\<close>
  | DatabaseFailure db_error
  \<comment> \<open>the private error of the profile client: retryable, \<open>retry_after_seconds\<close>\<close>
  | ProfileCallError bool "pyfloat option"

text \<open>
  The direct base classes, as far as they are classes of the program or classes it catches.
  \<open>BaseException\<close> and \<open>Exception\<close> themselves are left out: \<open>except Exception\<close> takes everything
  but a cancellation. There is one definition per module of exception classes.
\<close>

definition domain_bases :: "exn \<Rightarrow> exn list" where
  \<comment> \<open>\<open>domain/exceptions/auth.py\<close>\<close>
  "domain_bases e = (case e of
      InvalidDomainStateError \<Rightarrow> [DomainError]
    | InvalidEmailError \<Rightarrow> [InvalidDomainStateError]
    | InvalidPasswordHashError \<Rightarrow> [InvalidDomainStateError]
    | InvalidPasswordError \<Rightarrow> [InvalidDomainStateError]
    | InvalidTimestampError \<Rightarrow> [InvalidDomainStateError]
    | InvalidSessionLifetimeError \<Rightarrow> [InvalidDomainStateError]
    | InvalidCredentialsError \<Rightarrow> [DomainError]
    | UserAlreadyExistsError \<Rightarrow> [DomainError]
    | UserNotFoundError \<Rightarrow> [DomainError]
    | InvalidRefreshTokenError \<Rightarrow> [DomainError]
    | AuthSessionInactiveError \<Rightarrow> [InvalidRefreshTokenError]
    | RefreshTokenReuseError \<Rightarrow> [InvalidRefreshTokenError]
    | _ \<Rightarrow> [])"

definition idempotency_bases :: "exn \<Rightarrow> exn list" where
  \<comment> \<open>\<open>application/exceptions/idempotency.py\<close>\<close>
  "idempotency_bases e = (case e of
      IdempotencyStorageUnavailableError \<Rightarrow> [IdempotencyError]
    | IdempotencyKeyConflictError \<Rightarrow> [IdempotencyError]
    | IdempotencyRequestInProgressError \<Rightarrow> [IdempotencyError]
    | RefreshReplayUnavailableError \<Rightarrow> [IdempotencyError]
    | _ \<Rightarrow> [])"

definition outbox_bases :: "exn \<Rightarrow> exn list" where
  \<comment> \<open>\<open>application/exceptions/outbox.py\<close>\<close>
  "outbox_bases e = (case e of
      PublishError \<Rightarrow> [OutboxError]
    | TransientPublishError \<Rightarrow> [PublishError]
    | PermanentPublishError \<Rightarrow> [PublishError]
    | RetryExhaustedError \<Rightarrow> [PermanentPublishError]
    | _ \<Rightarrow> [])"

definition persistence_bases :: "exn \<Rightarrow> exn list" where
  \<comment> \<open>\<open>application/exceptions/persistence.py\<close>\<close>
  "persistence_bases e = (case e of
      PersistenceUnavailableError \<Rightarrow> [PersistenceError]
    | TransactionConflictError \<Rightarrow> [PersistenceError]
    | PersistenceIntegrityError \<Rightarrow> [PersistenceError]
    | StoredStateError \<Rightarrow> [PersistenceError]
    | EntityNotFoundError \<Rightarrow> [PersistenceError]
    | _ \<Rightarrow> [])"

definition profile_bases :: "exn \<Rightarrow> exn list" where
  \<comment> \<open>\<open>application/exceptions/profiles.py\<close>\<close>
  "profile_bases e = (case e of
      ProfileProvisioningRejectedError \<Rightarrow> [ProfileProvisioningUnavailableError]
    | _ \<Rightarrow> [])"

definition security_bases :: "exn \<Rightarrow> exn list" where
  \<comment> \<open>\<open>application/exceptions/security.py\<close>\<close>
  "security_bases e = (case e of
      InvalidTokenError \<Rightarrow> [SecurityError]
    | InvalidTokenDataError \<Rightarrow> [InvalidTokenError]
    | TokenExpiredError \<Rightarrow> [InvalidTokenError]
    | TokenMalformedError \<Rightarrow> [InvalidTokenError]
    | TokenIssuanceError \<Rightarrow> [SecurityError]
    | InvalidTokenConfigurationError \<Rightarrow> [SecurityError, RuntimeError]
    | InvalidTokenSigningKeyError \<Rightarrow> [InvalidTokenConfigurationError]
    | PasswordHashingError \<Rightarrow> [SecurityError]
    | _ \<Rightarrow> [])"

definition bases :: "exn \<Rightarrow> exn list" where
  "bases e =
     (if e = ValidationError then [ValueError]
      else domain_bases e @ idempotency_bases e @ outbox_bases e @ persistence_bases e @
           profile_bases e @ security_bases e)"

lemmas bases_defs = bases_def domain_bases_def idempotency_bases_def outbox_bases_def
  persistence_bases_def profile_bases_def security_bases_def

lemma bases_simps [simp]:
  "bases ValidationError = [ValueError]"
  "bases InvalidDomainStateError = [DomainError]"
  "bases InvalidEmailError = [InvalidDomainStateError]"
  "bases InvalidPasswordHashError = [InvalidDomainStateError]"
  "bases InvalidPasswordError = [InvalidDomainStateError]"
  "bases InvalidTimestampError = [InvalidDomainStateError]"
  "bases InvalidSessionLifetimeError = [InvalidDomainStateError]"
  "bases InvalidCredentialsError = [DomainError]"
  "bases UserAlreadyExistsError = [DomainError]"
  "bases UserNotFoundError = [DomainError]"
  "bases InvalidRefreshTokenError = [DomainError]"
  "bases AuthSessionInactiveError = [InvalidRefreshTokenError]"
  "bases RefreshTokenReuseError = [InvalidRefreshTokenError]"
  "bases IdempotencyStorageUnavailableError = [IdempotencyError]"
  "bases IdempotencyKeyConflictError = [IdempotencyError]"
  "bases IdempotencyRequestInProgressError = [IdempotencyError]"
  "bases RefreshReplayUnavailableError = [IdempotencyError]"
  "bases PublishError = [OutboxError]"
  "bases TransientPublishError = [PublishError]"
  "bases PermanentPublishError = [PublishError]"
  "bases RetryExhaustedError = [PermanentPublishError]"
  "bases PersistenceUnavailableError = [PersistenceError]"
  "bases TransactionConflictError = [PersistenceError]"
  "bases PersistenceIntegrityError = [PersistenceError]"
  "bases StoredStateError = [PersistenceError]"
  "bases EntityNotFoundError = [PersistenceError]"
  "bases ProfileProvisioningRejectedError = [ProfileProvisioningUnavailableError]"
  "bases InvalidTokenError = [SecurityError]"
  "bases InvalidTokenDataError = [InvalidTokenError]"
  "bases TokenExpiredError = [InvalidTokenError]"
  "bases TokenMalformedError = [InvalidTokenError]"
  "bases TokenIssuanceError = [SecurityError]"
  "bases InvalidTokenConfigurationError = [SecurityError, RuntimeError]"
  "bases InvalidTokenSigningKeyError = [InvalidTokenConfigurationError]"
  "bases PasswordHashingError = [SecurityError]"
  by (simp_all add: bases_defs)

lemma bases_roots [simp]:
  "bases ValueError = []" "bases TypeError = []" "bases RuntimeError = []"
  "bases OverflowError = []" "bases KeyError = []" "bases CancelledError = []"
  "bases RequestValidationError = []" "bases DomainError = []" "bases InvalidCommandError = []"
  "bases IdempotencyError = []" "bases OutboxError = []" "bases PersistenceError = []"
  "bases ProfileProvisioningUnavailableError = []" "bases SecurityError = []" "bases LostRegistrationClaim = []"
  "bases RegistrationFinalizationConflict = []" "bases ConcurrentWinnerCommitted = []" "bases CircuitBreakerError = []"
  "bases (DatabaseFailure d) = []" "bases (ProfileCallError r t) = []"
  by (simp_all add: bases_defs)

text \<open>
  \<open>isinstance\<close> follows the base classes upwards. No chain of the hierarchy is longer than three
  steps (\<open>bases_depth\<close>), so the bound below never cuts a search short.
\<close>

fun subclass_within :: "nat \<Rightarrow> exn \<Rightarrow> exn \<Rightarrow> bool" where
  "subclass_within 0 e c \<longleftrightarrow> e = c"
| "subclass_within (Suc n) e c \<longleftrightarrow> e = c \<or> list_ex (\<lambda>b. subclass_within n b c) (bases e)"

definition isinstance :: "exn \<Rightarrow> exn \<Rightarrow> bool" where
  "isinstance e c = subclass_within 3 e c"

inductive subclass_of :: "exn \<Rightarrow> exn \<Rightarrow> bool" where
  subclass_refl: "subclass_of e e"
| subclass_step: "b \<in> set (bases e) \<Longrightarrow> subclass_of b c \<Longrightarrow> subclass_of e c"

definition is_exception :: "exn \<Rightarrow> bool" where
  "is_exception e \<longleftrightarrow> e \<noteq> CancelledError"

lemma bases_depth:
  "b \<in> set (bases e) \<Longrightarrow> subclass_within 3 b c \<Longrightarrow> subclass_within 2 b c"
  by (cases e) (auto simp: numeral_3_eq_3 numeral_2_eq_2)

lemma subclass_within_sound: "subclass_within n e c \<Longrightarrow> subclass_of e c"
  by (induction n arbitrary: e) (auto simp: list_ex_iff intro: subclass_of.intros)

lemma subclass_within_mono: "subclass_within n e c \<Longrightarrow> subclass_within (Suc n) e c"
proof (induction n arbitrary: e)
  case 0
  then show ?case by simp
next
  case (Suc n)
  then show ?case by (auto simp: list_ex_iff)
qed

lemma isinstance_iff_subclass: "isinstance e c \<longleftrightarrow> subclass_of e c"
proof
  show "isinstance e c \<Longrightarrow> subclass_of e c"
    unfolding isinstance_def by (rule subclass_within_sound)
next
  assume "subclass_of e c"
  then show "isinstance e c"
  proof (induction rule: subclass_of.induct)
    case (subclass_refl e)
    show ?case by (simp add: isinstance_def numeral_3_eq_3)
  next
    case (subclass_step b e c)
    then have "subclass_within 3 b c" by (simp add: isinstance_def)
    with subclass_step.hyps(1) have "subclass_within 2 b c" by (rule bases_depth)
    with subclass_step.hyps(1) show ?case
      by (auto simp: isinstance_def numeral_3_eq_3 numeral_2_eq_2 list_ex_iff)
  qed
qed


text \<open>\<open>type(error).__name__\<close>, as it is stored in \<open>last_error_class\<close>.\<close>

definition db_error_name :: "db_error \<Rightarrow> string" where
  "db_error_name e = (case e of
      DbConnectionError \<Rightarrow> ''ConnectionError''
    | DbTimeoutError \<Rightarrow> ''TimeoutError''
    | DBAPIError _ _ _ \<Rightarrow> ''DBAPIError''
    | IntegrityError _ _ _ \<Rightarrow> ''IntegrityError''
    | PoolTimeoutError \<Rightarrow> ''TimeoutError''
    | DisconnectionError \<Rightarrow> ''DisconnectionError''
    | MultipleResultsFound \<Rightarrow> ''MultipleResultsFound''
    | OtherSQLAlchemyError \<Rightarrow> ''SQLAlchemyError'')"

definition class_name :: "exn \<Rightarrow> string" where
  "class_name e = (case e of
      ValueError \<Rightarrow> ''ValueError'' | TypeError \<Rightarrow> ''TypeError''
    | RuntimeError \<Rightarrow> ''RuntimeError'' | OverflowError \<Rightarrow> ''OverflowError''
    | KeyError \<Rightarrow> ''KeyError'' | CancelledError \<Rightarrow> ''CancelledError''
    | ValidationError \<Rightarrow> ''ValidationError''
    | RequestValidationError \<Rightarrow> ''RequestValidationError''
    | DomainError \<Rightarrow> ''DomainError''
    | InvalidDomainStateError \<Rightarrow> ''InvalidDomainStateError''
    | InvalidEmailError \<Rightarrow> ''InvalidEmailError''
    | InvalidPasswordHashError \<Rightarrow> ''InvalidPasswordHashError''
    | InvalidPasswordError \<Rightarrow> ''InvalidPasswordError''
    | InvalidTimestampError \<Rightarrow> ''InvalidTimestampError''
    | InvalidSessionLifetimeError \<Rightarrow> ''InvalidSessionLifetimeError''
    | InvalidCredentialsError \<Rightarrow> ''InvalidCredentialsError''
    | UserAlreadyExistsError \<Rightarrow> ''UserAlreadyExistsError''
    | UserNotFoundError \<Rightarrow> ''UserNotFoundError''
    | InvalidRefreshTokenError \<Rightarrow> ''InvalidRefreshTokenError''
    | AuthSessionInactiveError \<Rightarrow> ''AuthSessionInactiveError''
    | RefreshTokenReuseError \<Rightarrow> ''RefreshTokenReuseError''
    | InvalidCommandError \<Rightarrow> ''InvalidCommandError''
    | IdempotencyError \<Rightarrow> ''IdempotencyError''
    | IdempotencyStorageUnavailableError \<Rightarrow> ''IdempotencyStorageUnavailableError''
    | IdempotencyKeyConflictError \<Rightarrow> ''IdempotencyKeyConflictError''
    | IdempotencyRequestInProgressError \<Rightarrow> ''IdempotencyRequestInProgressError''
    | RefreshReplayUnavailableError \<Rightarrow> ''RefreshReplayUnavailableError''
    | OutboxError \<Rightarrow> ''OutboxError'' | PublishError \<Rightarrow> ''PublishError''
    | TransientPublishError \<Rightarrow> ''TransientPublishError''
    | PermanentPublishError \<Rightarrow> ''PermanentPublishError''
    | RetryExhaustedError \<Rightarrow> ''RetryExhaustedError''
    | PersistenceError \<Rightarrow> ''PersistenceError''
    | PersistenceUnavailableError \<Rightarrow> ''PersistenceUnavailableError''
    | TransactionConflictError \<Rightarrow> ''TransactionConflictError''
    | PersistenceIntegrityError \<Rightarrow> ''PersistenceIntegrityError''
    | StoredStateError \<Rightarrow> ''StoredStateError''
    | EntityNotFoundError \<Rightarrow> ''EntityNotFoundError''
    | ProfileProvisioningUnavailableError \<Rightarrow> ''ProfileProvisioningUnavailableError''
    | ProfileProvisioningRejectedError \<Rightarrow> ''ProfileProvisioningRejectedError''
    | SecurityError \<Rightarrow> ''SecurityError'' | InvalidTokenError \<Rightarrow> ''InvalidTokenError''
    | InvalidTokenDataError \<Rightarrow> ''InvalidTokenDataError''
    | TokenExpiredError \<Rightarrow> ''TokenExpiredError''
    | TokenMalformedError \<Rightarrow> ''TokenMalformedError''
    | TokenIssuanceError \<Rightarrow> ''TokenIssuanceError''
    | InvalidTokenConfigurationError \<Rightarrow> ''InvalidTokenConfigurationError''
    | InvalidTokenSigningKeyError \<Rightarrow> ''InvalidTokenSigningKeyError''
    | PasswordHashingError \<Rightarrow> ''PasswordHashingError''
    | LostRegistrationClaim \<Rightarrow> ''_LostRegistrationClaim''
    | RegistrationFinalizationConflict \<Rightarrow> ''_RegistrationFinalizationConflict''
    | ConcurrentWinnerCommitted \<Rightarrow> ''_ConcurrentWinnerCommitted''
    | CircuitBreakerError \<Rightarrow> ''CircuitBreakerError''
    | DatabaseFailure d \<Rightarrow> db_error_name d
    | ProfileCallError _ _ \<Rightarrow> ''_ProfileCallError'')"

lemma class_name_fits [simp]: "length (class_name e) \<le> 255"
  by (cases e) (simp_all add: class_name_def db_error_name_def split: db_error.splits)


subsection \<open>Results\<close>

definition bind_res :: "exn + 'a \<Rightarrow> ('a \<Rightarrow> exn + 'b) \<Rightarrow> exn + 'b" where
  "bind_res r f = (case r of Inl e \<Rightarrow> Inl e | Inr a \<Rightarrow> f a)"

definition guard_res :: "bool \<Rightarrow> exn \<Rightarrow> exn + unit" where
  "guard_res b e = (if b then Inr () else Inl e)"

lemma bind_res_simps [simp]: "bind_res (Inl e) f = Inl e" "bind_res (Inr a) f = f a"
  by (simp_all add: bind_res_def)

lemma bind_res_eq_Inr: "bind_res r f = Inr y \<longleftrightarrow> (\<exists>x. r = Inr x \<and> f x = Inr y)"
  by (cases r) auto

lemma bind_res_eq_Inl: "bind_res r f = Inl e \<longleftrightarrow> r = Inl e \<or> (\<exists>x. r = Inr x \<and> f x = Inl e)"
  by (cases r) auto

lemma guard_res_eq_Inr [simp]: "guard_res b e = Inr u \<longleftrightarrow> b"
  by (simp add: guard_res_def)

lemma guard_res_eq_Inl [simp]: "guard_res b e = Inl e' \<longleftrightarrow> \<not> b \<and> e' = e"
  by (auto simp: guard_res_def)

lemma guard_res_simps [simp]: "guard_res True e = Inr ()" "guard_res False e = Inl e"
  by (simp_all add: guard_res_def)

lemmas bind_res_iffs = bind_res_eq_Inr bind_res_eq_Inl


subsection \<open>State-and-exception programs\<close>

text \<open>
  A program of the application layer reads and writes a state and may raise; the state it leaves
  behind when it raises matters, because an earlier transaction of the same handler may already
  be committed.
\<close>

type_synonym ('s, 'a) prog = "'s \<Rightarrow> (exn + 'a) \<times> 's"

definition return :: "'a \<Rightarrow> ('s, 'a) prog" where
  "return a s = (Inr a, s)"

definition throw :: "exn \<Rightarrow> ('s, 'a) prog" where
  "throw e s = (Inl e, s)"

definition bind :: "('s, 'a) prog \<Rightarrow> ('a \<Rightarrow> ('s, 'b) prog) \<Rightarrow> ('s, 'b) prog" where
  "bind m f s = (case m s of (Inl e, s') \<Rightarrow> (Inl e, s') | (Inr a, s') \<Rightarrow> f a s')"

definition catch :: "('s, 'a) prog \<Rightarrow> (exn \<Rightarrow> ('s, 'a) prog) \<Rightarrow> ('s, 'a) prog" where
  "catch m h s = (case m s of (Inl e, s') \<Rightarrow> h e s' | (Inr a, s') \<Rightarrow> (Inr a, s'))"

definition try_else ::
    "('s, 'a) prog \<Rightarrow> (exn \<Rightarrow> ('s, 'b) prog) \<Rightarrow> ('a \<Rightarrow> ('s, 'b) prog) \<Rightarrow> ('s, 'b) prog" where
  \<comment> \<open>\<open>try: a = m; except e: h; else: f a\<close>; errors of \<open>f\<close> are not handled by \<open>h\<close>\<close>
  "try_else m h f s = (case m s of (Inl e, s') \<Rightarrow> h e s' | (Inr a, s') \<Rightarrow> f a s')"

definition liftr :: "(exn + 'a) \<Rightarrow> ('s, 'a) prog" where
  "liftr r s = (r, s)"

definition gets :: "('s \<Rightarrow> 'a) \<Rightarrow> ('s, 'a) prog" where
  "gets f s = (Inr (f s), s)"

definition modify :: "('s \<Rightarrow> 's) \<Rightarrow> ('s, unit) prog" where
  "modify f s = (Inr (), f s)"

lemmas prog_defs = return_def throw_def bind_def catch_def try_else_def liftr_def gets_def modify_def

lemma bind_eq_Inr [res_simps]:
  "bind m f s = (Inr b, t) \<longleftrightarrow> (\<exists>a s'. m s = (Inr a, s') \<and> f a s' = (Inr b, t))"
  by (auto simp: bind_def split: prod.splits sum.splits)

lemma bind_eq_Inl [res_simps]:
  "bind m f s = (Inl e, t) \<longleftrightarrow>
     m s = (Inl e, t) \<or> (\<exists>a s'. m s = (Inr a, s') \<and> f a s' = (Inl e, t))"
  by (auto simp: bind_def split: prod.splits sum.splits)

lemma return_eq [res_simps]: "return a s = (r, t) \<longleftrightarrow> r = Inr a \<and> t = s"
  by (auto simp: return_def)

lemma throw_eq [res_simps]: "throw e s = (r, t) \<longleftrightarrow> r = Inl e \<and> t = s"
  by (auto simp: throw_def)

lemma liftr_eq [res_simps]: "liftr r s = (r', t) \<longleftrightarrow> r = r' \<and> t = s"
  by (auto simp: liftr_def)

lemma gets_eq [res_simps]: "gets f s = (r, t) \<longleftrightarrow> r = Inr (f s) \<and> t = s"
  by (auto simp: gets_def)

lemma modify_eq [res_simps]: "modify f s = (r, t) \<longleftrightarrow> r = Inr () \<and> t = f s"
  by (auto simp: modify_def)

text \<open>A program keeps an invariant when it holds afterwards on every outcome, errors included.\<close>

definition keeps :: "('s \<Rightarrow> bool) \<Rightarrow> ('s, 'a) prog \<Rightarrow> bool" where
  "keeps I m \<longleftrightarrow> (\<forall>s. I s \<longrightarrow> I (snd (m s)))"

lemma keepsI: "(\<And>s. I s \<Longrightarrow> I (snd (m s))) \<Longrightarrow> keeps I m"
  by (simp add: keeps_def)

lemma keepsD: "keeps I m \<Longrightarrow> I s \<Longrightarrow> m s = (r, t) \<Longrightarrow> I t"
  unfolding keeps_def by (metis snd_conv)

lemma keeps_basic [keeps_intros]:
  "keeps I (return a)" "keeps I (throw e)" "keeps I (liftr r)" "keeps I (gets f)"
  by (simp_all add: keeps_def prog_defs)

lemma keeps_bind [keeps_intros]:
  assumes "keeps I m" and "\<And>a. keeps I (f a)"
  shows "keeps I (bind m f)"
proof (rule keepsI)
  fix s assume "I s"
  with assms(1) have "I (snd (m s))" by (simp add: keeps_def)
  with assms(2) show "I (snd (bind m f s))"
    by (auto simp: bind_def keeps_def split: prod.splits sum.splits)
qed

lemma keeps_try_else [keeps_intros]:
  assumes "keeps I m" and "\<And>e. keeps I (h e)" and "\<And>a. keeps I (f a)"
  shows "keeps I (try_else m h f)"
proof (rule keepsI)
  fix s assume "I s"
  with assms(1) have "I (snd (m s))" by (simp add: keeps_def)
  with assms(2,3) show "I (snd (try_else m h f s))"
    by (auto simp: try_else_def keeps_def split: prod.splits sum.splits)
qed

lemma catch_eq_try_else: "catch m h = try_else m h return"
  by (rule ext) (auto simp: prog_defs split: prod.splits sum.splits)

lemma keeps_catch [keeps_intros]:
  "keeps I m \<Longrightarrow> (\<And>e. keeps I (h e)) \<Longrightarrow> keeps I (catch m h)"
  unfolding catch_eq_try_else by (intro keeps_intros)

lemma keeps_if [keeps_intros]:
  "(b \<Longrightarrow> keeps I m) \<Longrightarrow> (\<not> b \<Longrightarrow> keeps I n) \<Longrightarrow> keeps I (if b then m else n)"
  by simp

lemma keeps_option [keeps_intros]:
  "(x = None \<Longrightarrow> keeps I m) \<Longrightarrow> (\<And>a. x = Some a \<Longrightarrow> keeps I (f a)) \<Longrightarrow>
   keeps I (case x of None \<Rightarrow> m | Some a \<Rightarrow> f a)"
  by (cases x) auto

lemma keeps_modify: "(\<And>s. I s \<Longrightarrow> I (f s)) \<Longrightarrow> keeps I (modify f)"
  by (simp add: keeps_def modify_def)

lemma try_else_eq [res_simps]:
  "try_else m h f s = (r, t) \<longleftrightarrow>
     (\<exists>e s'. m s = (Inl e, s') \<and> h e s' = (r, t)) \<or> (\<exists>a s'. m s = (Inr a, s') \<and> f a s' = (r, t))"
  by (auto simp: try_else_def split: prod.splits sum.splits)

lemma catch_eq [res_simps]:
  "catch m h s = (r, t) \<longleftrightarrow>
     (\<exists>e s'. m s = (Inl e, s') \<and> h e s' = (r, t)) \<or> (\<exists>a. m s = (Inr a, t) \<and> r = Inr a)"
  by (auto simp: catch_def split: prod.splits sum.splits)

text \<open>
  Specifications: from a state with \<open>P\<close> a program ends with \<open>Q\<close> of its value and state, or raises
  in a state with \<open>E\<close>.
\<close>

definition spec ::
    "('s \<Rightarrow> bool) \<Rightarrow> ('s, 'a) prog \<Rightarrow> ('a \<Rightarrow> 's \<Rightarrow> bool) \<Rightarrow> ('s \<Rightarrow> bool) \<Rightarrow> bool" where
  "spec P m Q E \<longleftrightarrow>
     (\<forall>s. P s \<longrightarrow> (case m s of (Inl e, t) \<Rightarrow> E t | (Inr a, t) \<Rightarrow> Q a t))"

lemma specI:
  "(\<And>s a t. P s \<Longrightarrow> m s = (Inr a, t) \<Longrightarrow> Q a t) \<Longrightarrow> (\<And>s e t. P s \<Longrightarrow> m s = (Inl e, t) \<Longrightarrow> E t) \<Longrightarrow>
   spec P m Q E"
  by (auto simp: spec_def split: prod.splits sum.splits)

lemma specD:
  "spec P m Q E \<Longrightarrow> P s \<Longrightarrow> m s = (Inr a, t) \<Longrightarrow> Q a t"
  "spec P m Q E \<Longrightarrow> P s \<Longrightarrow> m s = (Inl e, t) \<Longrightarrow> E t"
  unfolding spec_def by fastforce+

lemma keeps_spec: "keeps I m \<longleftrightarrow> spec I m (\<lambda>_. I) I"
proof
  assume "keeps I m" then show "spec I m (\<lambda>_. I) I" by (intro specI) (auto dest: keepsD)
next
  assume sp: "spec I m (\<lambda>_. I) I"
  show "keeps I m"
  proof (rule keepsI)
    fix s assume "I s"
    obtain r t where run: "m s = (r, t)" by fastforce
    have "I t"
    proof (cases r)
      case (Inl e)
      with run show ?thesis by (intro specD(2) [OF sp \<open>I s\<close>]) simp
    next
      case (Inr a)
      with run show ?thesis by (intro specD(1) [OF sp \<open>I s\<close>]) simp
    qed
    with run show "I (snd (m s))" by simp
  qed
qed

lemma spec_bind:
  assumes "spec P m Q E" and "\<And>a. spec (Q a) (f a) R E"
  shows "spec P (bind m f) R E"
  using assms by (fastforce simp: spec_def bind_def split: prod.splits sum.splits)

lemma spec_weaken:
  assumes "spec P m Q E" and "\<And>s. P' s \<Longrightarrow> P s" and "\<And>a s. Q a s \<Longrightarrow> Q' a s" and "\<And>s. E s \<Longrightarrow> E' s"
  shows "spec P' m Q' E'"
  using assms by (fastforce simp: spec_def split: prod.splits sum.splits)

lemma keeps_bind_spec:
  "spec I m Q I \<Longrightarrow> (\<And>a. spec (Q a) (f a) (\<lambda>_. I) I) \<Longrightarrow> keeps I (bind m f)"
  unfolding keeps_spec by (rule spec_bind)

lemma keeps_bind_liftr: "(\<And>a. r = Inr a \<Longrightarrow> keeps I (f a)) \<Longrightarrow> keeps I (bind (liftr r) f)"
  by (cases r) (simp_all add: keeps_def bind_def liftr_def)

end
