(* ===== verification/Store.thy ===== *)
theory Store
  imports Errors
begin

section \<open>Statements on tables and leases\<close>

text \<open>
  The statement shapes that the repositories of \<open>infrastructure/database/repositories\<close> share, with
  the errors SQLAlchemy raises on them, and the contract behind both work queues of the service:
  a row is taken for a limited time by a random owner token, the owner settles it, and a row whose
  lease has run out may be taken again by somebody else.
\<close>

subsection \<open>Statements\<close>

definition scalar_one_or_none :: "'r list \<Rightarrow> exn + 'r option" where
  "scalar_one_or_none rows =
     (case rows of
        [] \<Rightarrow> Inr None
      | [r] \<Rightarrow> Inr (Some r)
      | _ \<Rightarrow> Inl (DatabaseFailure MultipleResultsFound))"

definition update_one :: "('r \<Rightarrow> bool) \<Rightarrow> ('r \<Rightarrow> 'r) \<Rightarrow> 'r list \<Rightarrow> exn + 'r option \<times> 'r list" where
  "update_one p f rows =
     bind_res (scalar_one_or_none (returning p f rows)) (\<lambda>r. Inr (r, update_where p f rows))"

definition update_flag :: "('r \<Rightarrow> bool) \<Rightarrow> ('r \<Rightarrow> 'r) \<Rightarrow> 'r list \<Rightarrow> exn + bool \<times> 'r list" where
  "update_flag p f rows =
     bind_res (update_one p f rows) (\<lambda>(r, rows'). Inr (r \<noteq> None, rows'))"

definition check_violation :: exn where
  "check_violation = DatabaseFailure (IntegrityError (Some ''23514'') None False)"

definition unique_violation :: exn where
  "unique_violation = DatabaseFailure (IntegrityError (Some ''23505'') None False)"

definition value_too_long :: exn where
  "value_too_long = DatabaseFailure (DBAPIError (Some ''22001'') None False)"

fun map_res :: "('a \<Rightarrow> exn + 'b) \<Rightarrow> 'a list \<Rightarrow> exn + 'b list" where
  "map_res f [] = Inr []"
| "map_res f (x # xs) = bind_res (f x) (\<lambda>y. bind_res (map_res f xs) (\<lambda>ys. Inr (y # ys)))"

lemma scalar_one_or_none_simps [simp]:
  "scalar_one_or_none [] = Inr None" "scalar_one_or_none [r] = Inr (Some r)"
  by (simp_all add: scalar_one_or_none_def)

lemma scalar_one_or_none_Some: "scalar_one_or_none rows = Inr (Some r) \<longleftrightarrow> rows = [r]"
  by (auto simp: scalar_one_or_none_def split: list.splits)

lemma scalar_one_or_none_None: "scalar_one_or_none rows = Inr None \<longleftrightarrow> rows = []"
  by (auto simp: scalar_one_or_none_def split: list.splits)

lemma map_res_id: "(\<And>x. x \<in> set xs \<Longrightarrow> f x = Inr x) \<Longrightarrow> map_res f xs = Inr xs"
  by (induction xs) auto

lemma map_res_result: "map_res f xs = Inr ys \<longleftrightarrow> list_all2 (\<lambda>x y. f x = Inr y) xs ys"
  by (induction xs arbitrary: ys) (auto simp: bind_res_iffs list_all2_Cons1)

text \<open>An update addressed by a unique key touches one row or none, and never fails.\<close>

lemma find_filter: "find p rows = (case filter p rows of [] \<Rightarrow> None | r # _ \<Rightarrow> Some r)"
  by (induction rows) auto

lemma update_one_unique:
  assumes "distinct (map k rows)" and "\<And>r. p r \<Longrightarrow> k r = x"
  shows "update_one p f rows = Inr (map_option f (find p rows), update_where p f rows)"
  using filter_unique_key_length [OF assms]
proof
  assume nil: "filter p rows = []"
  then have "find p rows = None"
    by (auto simp: find_None_iff filter_empty_conv)
  with nil show ?thesis by (simp add: update_one_def returning_def)
next
  assume "\<exists>r. r \<in> set rows \<and> p r \<and> filter p rows = [r]"
  then obtain r where r: "filter p rows = [r]" by blast
  then have "find p rows = Some r" by (simp add: find_filter)
  with r show ?thesis by (simp add: update_one_def returning_def)
qed

lemma update_flag_unique:
  assumes "distinct (map k rows)" and "\<And>r. p r \<Longrightarrow> k r = x"
  shows "update_flag p f rows = Inr (\<exists>r \<in> set rows. p r, update_where p f rows)"
proof -
  have "(\<exists>r \<in> set rows. p r) \<longleftrightarrow> find p rows \<noteq> None"
    by (auto simp: find_None_iff)
  with update_one_unique [OF assms] show ?thesis by (simp add: update_flag_def)
qed


lemma update_flag_Inr: "update_flag p f rows = Inr (b, rows') \<Longrightarrow> rows' = update_where p f rows"
  by (auto simp: update_flag_def update_one_def bind_res_iffs)

lemma update_flag_True: "update_flag p f rows = Inr (True, rows') \<Longrightarrow> \<exists>r \<in> set rows. p r"
  by (cases "filter p rows = []")
    (auto simp: update_flag_def update_one_def returning_def bind_res_iffs filter_empty_conv)

text \<open>The rows whose key is among the keys of an ordered and limited selection.\<close>

lemma taken_rows:
  assumes "distinct (map k rows)" and "r \<in> set rows"
  shows "k r \<in> set (map k (take_ordered ord n p rows)) \<longleftrightarrow> r \<in> set (take_ordered ord n p rows)"
proof
  assume "k r \<in> set (map k (take_ordered ord n p rows))"
  then obtain q where q: "q \<in> set (take_ordered ord n p rows)" "k q = k r" by auto
  with set_take_ordered [of ord n p rows] have "q \<in> set rows" by fast
  with q unique_key [OF assms(1)] assms(2) show "r \<in> set (take_ordered ord n p rows)" by metis
qed simp

lemma taken_keys:
  assumes "distinct (map k rows)" and "r \<in> set rows" and "k r \<in> set (map k (take_ordered ord n p rows))"
  shows "p r"
  using assms taken_rows [OF assms(1,2)] set_take_ordered [of ord n p rows] by blast

lemma taken_length:
  assumes "distinct (map k rows)"
  shows "length (filter (\<lambda>r. k r \<in> set (map k (take_ordered ord n p rows))) rows) \<le> n"
proof -
  let ?taken = "take_ordered ord n p rows" and ?p = "\<lambda>r. k r \<in> set (map k (take_ordered ord n p rows))"
  have "set (filter ?p rows) \<subseteq> set ?taken"
    using taken_rows [OF assms, of _ ord n p] by fastforce
  then have "card (set (filter ?p rows)) \<le> length ?taken"
    by (meson card_length card_mono finite_set le_trans)
  moreover have "distinct rows" using assms by (simp add: distinct_map)
  ultimately show ?thesis
    using length_take_ordered [of ord n p rows] by (simp add: distinct_card [symmetric])
qed

lemma taken_first:
  assumes "distinct (map k rows)" and "r \<in> set rows" and "k r \<in> set (map k (take_ordered ord n p rows))"
    and "q \<in> set rows" and "p q" and "ord q < ord r"
  shows "k q \<in> set (map k (take_ordered ord n p rows))"
proof (rule ccontr)
  assume "k q \<notin> set (map k (take_ordered ord n p rows))"
  then have "q \<notin> set (take_ordered ord n p rows)" by auto
  then have "ord r \<le> ord q"
    using take_ordered_least [of q rows p ord n r] assms(3-5) taken_rows [OF assms(1,2), of ord n p]
    by blast
  with assms(6) show False by simp
qed


subsection \<open>Leases\<close>

text \<open>
  The contract of a leased row. \<open>holder\<close> and \<open>expiry\<close> read the claim of a row, \<open>eligible t\<close> is the
  guard of the claiming statement at time \<open>t\<close>, \<open>grant\<close> its effect (owner, end of the lease, time of
  the statement), \<open>owned\<close> the guard of the statements by which an owner settles a row, and \<open>wf\<close> the
  row constraint of the table.
\<close>

locale lease =
  fixes key :: "'r \<Rightarrow> uuid"
    and holder :: "'r \<Rightarrow> uuid option"
    and expiry :: "'r \<Rightarrow> datetime option"
    and eligible :: "datetime \<Rightarrow> 'r \<Rightarrow> bool"
    and grant :: "uuid \<Rightarrow> datetime \<Rightarrow> datetime \<Rightarrow> 'r \<Rightarrow> 'r"
    and owned :: "uuid \<Rightarrow> datetime \<Rightarrow> 'r \<Rightarrow> bool"
    and wf :: "'r \<Rightarrow> bool"
  assumes grant_holder: "holder (grant ow e ts r) = Some ow"
    and grant_expiry: "expiry (grant ow e ts r) = Some e"
    and grant_key: "key (grant ow e ts r) = key r"
    and grant_wf: "wf r \<Longrightarrow> eligible t r \<Longrightarrow> wf (grant ow e ts r)"
    and owned_holder: "owned ow t r \<Longrightarrow> holder r = Some ow"
    and eligible_free: "wf r \<Longrightarrow> eligible t r \<Longrightarrow> holder r = Some ow \<Longrightarrow> \<exists>e. expiry r = Some e \<and> e \<le> t"
begin

definition held :: "uuid \<Rightarrow> datetime \<Rightarrow> 'r \<Rightarrow> bool" where
  "held ow t r \<longleftrightarrow> holder r = Some ow \<and> (\<exists>e. expiry r = Some e \<and> t < e)"

lemma held_unique: "held a t r \<Longrightarrow> held b t' r \<Longrightarrow> a = b"
  by (simp add: held_def)

lemma granted_held: "t < e \<Longrightarrow> held ow t (grant ow e ts r)"
  by (simp add: held_def grant_holder grant_expiry)

lemma held_not_eligible:
  assumes "wf r" and "held ow t r"
  shows "\<not> eligible t r"
proof
  assume "eligible t r"
  with assms obtain e where "expiry r = Some e" "e \<le> t"
    unfolding held_def using eligible_free by blast
  with assms(2) show False by (auto simp: held_def)
qed

lemma foreign_not_owned: "holder r = Some a \<Longrightarrow> a \<noteq> b \<Longrightarrow> \<not> owned b t r"
  using owned_holder by fastforce

text \<open>
  On a table: while a lease is live no claim takes the row away, and nobody but its holder ever
  settles it.
\<close>

lemma claim_spares_held:
  assumes "r \<in> set rows" and "wf r" and "held ow t r" and "\<And>q. p q \<Longrightarrow> eligible t q"
  shows "r \<in> set (update_where p f rows)"
  using assms held_not_eligible [OF assms(2,3)] by (auto simp: in_set_update_where)

lemma settle_spares_foreign:
  assumes "r \<in> set rows" and "holder r = Some a" and "a \<noteq> b" and "\<And>q. p q \<Longrightarrow> owned b t q"
  shows "r \<in> set (update_where p f rows)"
  using assms foreign_not_owned [OF assms(2,3)] by (fastforce simp: in_set_update_where)

text \<open>Fencing: once a row has been granted to somebody else, the former holder settles nothing.\<close>

lemma regranted_fences:
  assumes "distinct (map key rows)" and "r \<in> set rows" and "a \<noteq> b"
    and "\<And>q. p q \<Longrightarrow> key q = key r \<and> owned a t q"
    and "rows' = update_where (\<lambda>q. key q = key r) (grant b e ts) rows"
  shows "update_flag p f rows' = Inr (False, rows')"
proof -
  have keys: "map key rows' = map key rows"
    unfolding assms(5) by (rule update_where_map_eq) (simp add: grant_key)
  have none: "\<not> p q" if "q \<in> set rows'" for q
  proof
    assume "p q"
    with assms(4) have "key q = key r" "holder q = Some a"
      using owned_holder by blast+
    with that assms(3) show False
      unfolding assms(5) by (auto simp: in_set_update_where grant_holder)
  qed
  have "update_flag p f rows' = Inr (\<exists>q \<in> set rows'. p q, update_where p f rows')"
    by (rule update_flag_unique [where k = key and x = "key r"]) (use keys assms(1,4) in auto)
  moreover have "update_where p f rows' = rows'"
    using none by (rule update_where_none)
  ultimately show ?thesis using none by auto
qed

end

end
