(* ===== verification/Domain.thy ===== *)
theory Domain
  imports Errors
begin

section \<open>The domain model: \<open>User\<close>, \<open>RefreshToken\<close> and \<open>AuthSession\<close>\<close>

text \<open>
  \<open>src/app/domain\<close>. A domain object is a record; validation is a function into \<open>exn + 'm\<close> that
  runs the field constraints (a \<open>ValidationError\<close> of pydantic becomes \<open>InvalidDomainStateError\<close>)
  and then the \<open>after\<close> validators, those of the base classes first. A method that changes \<open>self\<close>
  returns the changed object; one that raises leaves the object as it was, because
  \<open>_change_state\<close> validates the whole candidate before it touches the instance.

  Identifiers made by \<open>uuid7()\<close> are arguments. The e-mail syntax check of pydantic
  (\<open>EmailStr\<close>, package \<open>email-validator\<close>) is the argument \<open>email_str\<close>; strings are ASCII, where
  \<open>str.casefold\<close> is the lower-casing of letters.
\<close>

subsection \<open>\<open>domain/base.py\<close>\<close>

definition require_aware :: "datetime \<Rightarrow> exn + unit" where
  "require_aware value = (if \<not> tz_aware value then Inl InvalidTimestampError else Inr ())"

text \<open>\<open>DomainModel._change_state\<close>: the candidate is validated before the object changes.\<close>

definition change_state :: "('m \<Rightarrow> exn + 'm) \<Rightarrow> ('m \<Rightarrow> 'm) \<Rightarrow> 'm \<Rightarrow> exn + 'm" where
  "change_state validate changes self = validate (changes self)"

subsection \<open>Value objects and the password policy\<close>

definition casefold :: "string \<Rightarrow> string" where
  "casefold s =
     map (\<lambda>c. let n = (of_char c :: nat) in if 65 \<le> n \<and> n \<le> 90 then char_of (n + 32) else c) s"

definition NormalizedEmail :: "(string \<Rightarrow> string option) \<Rightarrow> string \<Rightarrow> exn + string" where
  "NormalizedEmail email_str value =
     (case email_str value of
        None \<Rightarrow> Inl InvalidEmailError
      | Some e \<Rightarrow> Inr (casefold e))"

definition PasswordHash :: "string \<Rightarrow> exn + string" where
  "PasswordHash value = (if py_strip value = [] then Inl InvalidPasswordHashError else Inr value)"

definition validate_registration_password :: "string \<Rightarrow> exn + string" where
  "validate_registration_password password =
     (if \<not> (8 \<le> length password \<and> length password \<le> 128) then Inl InvalidPasswordError
      else Inr password)"

subsection \<open>\<open>User\<close>\<close>

datatype user_status = ACTIVE | DISABLED

datatype user_role = USER | ADMIN

record user =
  u_id :: uuid
  u_created_at :: datetime
  u_updated_at :: "datetime option"
  u_email :: string
  u_password_hash :: string
  u_role :: user_role
  u_status :: user_status

definition validate_created_at :: "datetime \<Rightarrow> exn + unit" where
  "validate_created_at created_at = require_aware created_at"

definition validate_updated_at :: "datetime \<Rightarrow> datetime option \<Rightarrow> exn + unit" where
  "validate_updated_at created_at updated_at =
     (case updated_at of
        None \<Rightarrow> Inr ()
      | Some t \<Rightarrow> bind_res (require_aware t) (\<lambda>_.
          if t < created_at then Inl InvalidTimestampError else Inr ()))"

definition validate_user :: "(string \<Rightarrow> string option) \<Rightarrow> user \<Rightarrow> exn + user" where
  "validate_user email_str u =
     bind_res (NormalizedEmail email_str (u_email u)) (\<lambda>email.
     bind_res (PasswordHash (u_password_hash u)) (\<lambda>password_hash.
     bind_res (validate_created_at (u_created_at u)) (\<lambda>_.
     bind_res (validate_updated_at (u_created_at u) (u_updated_at u)) (\<lambda>_.
       Inr (u\<lparr>u_email := email, u_password_hash := password_hash\<rparr>)))))"

definition can_authenticate :: "user \<Rightarrow> bool" where
  "can_authenticate u \<longleftrightarrow> u_status u = ACTIVE"

definition change_at ::
    "(string \<Rightarrow> string option) \<Rightarrow> datetime \<Rightarrow> (user \<Rightarrow> user) \<Rightarrow> user \<Rightarrow> exn + user" where
  "change_at email_str now changes u =
     bind_res (require_aware now) (\<lambda>_.
       if now < (case u_updated_at u of None \<Rightarrow> u_created_at u | Some t \<Rightarrow> t)
       then Inl InvalidTimestampError
       else change_state (validate_user email_str) (\<lambda>u. changes u\<lparr>u_updated_at := Some now\<rparr>) u)"

definition disable :: "(string \<Rightarrow> string option) \<Rightarrow> datetime \<Rightarrow> user \<Rightarrow> exn + user" where
  "disable email_str now u =
     (if u_status u \<noteq> DISABLED
      then change_at email_str now (\<lambda>u. u\<lparr>u_status := DISABLED\<rparr>) u
      else Inr u)"

subsection \<open>\<open>RefreshToken\<close>\<close>

record refresh_token =
  t_id :: uuid
  t_created_at :: datetime
  t_session_id :: uuid
  t_token_hash :: bytes
  t_used_at :: "datetime option"

definition validate_refresh_token :: "refresh_token \<Rightarrow> exn + refresh_token" where
  "validate_refresh_token t =
     (if length (t_token_hash t) \<noteq> 32 then Inl InvalidDomainStateError
      else bind_res (validate_created_at (t_created_at t)) (\<lambda>_.
        case t_used_at t of
          None \<Rightarrow> Inr t
        | Some used \<Rightarrow> bind_res (require_aware used) (\<lambda>_.
            if used < t_created_at t then Inl InvalidTimestampError else Inr t)))"

definition is_used :: "refresh_token \<Rightarrow> bool" where
  "is_used t \<longleftrightarrow> t_used_at t \<noteq> None"

definition consumed :: "datetime \<Rightarrow> refresh_token \<Rightarrow> exn + refresh_token" where
  "consumed now t =
     (if is_used t then Inl RefreshTokenReuseError
      else change_state validate_refresh_token (\<lambda>t. t\<lparr>t_used_at := Some now\<rparr>) t)"

subsection \<open>\<open>AuthSession\<close>\<close>

record auth_session =
  s_id :: uuid
  s_created_at :: datetime
  s_user_id :: uuid
  s_idle_expires_at :: datetime
  s_revoked_at :: "datetime option"
  s_refresh_token :: "refresh_token option"
  s_replacement_token :: "refresh_token option"

definition foreign_token :: "auth_session \<Rightarrow> refresh_token option \<Rightarrow> bool" where
  "foreign_token s token \<longleftrightarrow>
     (case token of
        None \<Rightarrow> False
      | Some t \<Rightarrow> t_session_id t \<noteq> s_id s \<or> t_created_at t < s_created_at s)"

definition bad_replacement :: "auth_session \<Rightarrow> bool" where
  "bad_replacement s \<longleftrightarrow>
     (case s_replacement_token s of
        None \<Rightarrow> False
      | Some r \<Rightarrow> (case s_refresh_token s of
            None \<Rightarrow> True
          | Some t \<Rightarrow> \<not> is_used t \<or> is_used r \<or> t_id r = t_id t \<or> t_token_hash r = t_token_hash t))"

definition validate_auth_session :: "auth_session \<Rightarrow> exn + auth_session" where
  "validate_auth_session s =
     bind_res (validate_created_at (s_created_at s)) (\<lambda>_.
     bind_res (require_aware (s_idle_expires_at s)) (\<lambda>_.
     if s_idle_expires_at s \<le> s_created_at s then Inl InvalidTimestampError
     else bind_res
       (case s_revoked_at s of
          None \<Rightarrow> Inr ()
        | Some r \<Rightarrow> bind_res (require_aware r) (\<lambda>_.
            if r < s_created_at s then Inl InvalidTimestampError else Inr ()))
       (\<lambda>_. if list_ex (foreign_token s) [s_refresh_token s, s_replacement_token s]
            then Inl InvalidDomainStateError
            else if bad_replacement s then Inl InvalidDomainStateError
            else Inr s)))"

definition validate_ttl :: "timedelta \<Rightarrow> exn + unit" where
  "validate_ttl idle_ttl = (if idle_ttl \<le> 0 then Inl InvalidSessionLifetimeError else Inr ())"

definition start ::
    "uuid \<Rightarrow> bytes \<Rightarrow> datetime \<Rightarrow> timedelta \<Rightarrow> uuid \<Rightarrow> uuid \<Rightarrow> exn + auth_session" where
  "start user_id token_hash now idle_ttl session_id token_id =
     bind_res (validate_ttl idle_ttl) (\<lambda>_.
     bind_res (validate_refresh_token
         \<lparr>t_id = token_id, t_created_at = now, t_session_id = session_id,
          t_token_hash = token_hash, t_used_at = None\<rparr>) (\<lambda>token.
       validate_auth_session
         \<lparr>s_id = session_id, s_created_at = now, s_user_id = user_id,
          s_idle_expires_at = plus_delta now idle_ttl, s_revoked_at = None,
          s_refresh_token = Some token, s_replacement_token = None\<rparr>))"

definition is_active :: "datetime \<Rightarrow> auth_session \<Rightarrow> exn + bool" where
  "is_active now s =
     bind_res (require_aware now) (\<lambda>_.
       Inr (s_revoked_at s = None \<and> s_created_at s \<le> now \<and> now < s_idle_expires_at s))"

definition require_token :: "auth_session \<Rightarrow> exn + refresh_token" where
  "require_token s =
     (case s_refresh_token s of None \<Rightarrow> Inl InvalidRefreshTokenError | Some t \<Rightarrow> Inr t)"

definition revoke :: "datetime \<Rightarrow> auth_session \<Rightarrow> exn + auth_session" where
  "revoke now s =
     (case s_revoked_at s of
        None \<Rightarrow> change_state validate_auth_session (\<lambda>s. s\<lparr>s_revoked_at := Some now\<rparr>) s
      | Some _ \<Rightarrow> Inr s)"

definition accepts_refresh ::
    "datetime \<Rightarrow> bool \<Rightarrow> auth_session \<Rightarrow> exn + bool \<times> auth_session" where
  "accepts_refresh now user_can_authenticate s =
     bind_res (require_token s) (\<lambda>token.
       if is_used token then bind_res (revoke now s) (\<lambda>s'. Inr (False, s'))
       else bind_res (is_active now s) (\<lambda>active.
         if \<not> active then Inl AuthSessionInactiveError
         else if \<not> user_can_authenticate then bind_res (revoke now s) (\<lambda>s'. Inr (False, s'))
         else Inr (True, s)))"

definition rotate ::
    "datetime \<Rightarrow> timedelta \<Rightarrow> bytes \<Rightarrow> uuid \<Rightarrow> auth_session \<Rightarrow> exn + refresh_token \<times> auth_session" where
  "rotate now idle_ttl token_hash replacement_id s =
     bind_res (validate_ttl idle_ttl) (\<lambda>_.
     bind_res (is_active now s) (\<lambda>active.
       if \<not> active then Inl AuthSessionInactiveError
       else bind_res (require_token s) (\<lambda>token.
         if is_used token then Inl RefreshTokenReuseError
         else bind_res (validate_refresh_token
             \<lparr>t_id = replacement_id, t_created_at = now, t_session_id = s_id s,
              t_token_hash = token_hash, t_used_at = None\<rparr>) (\<lambda>replacement.
           bind_res (consumed now token) (\<lambda>used_token.
           bind_res (change_state validate_auth_session
               (\<lambda>s. s\<lparr>s_refresh_token := Some used_token, s_replacement_token := Some replacement,
                      s_idle_expires_at := plus_delta now idle_ttl\<rparr>) s) (\<lambda>s'.
             Inr (replacement, s')))))))"

definition can_replay :: "datetime \<Rightarrow> auth_session \<Rightarrow> exn + bool" where
  "can_replay now s =
     bind_res (require_token s) (\<lambda>token.
       if is_used token then Inr False else is_active now s)"


text \<open>The states a constructed token, session or account can be in.\<close>

definition valid_token :: "refresh_token \<Rightarrow> bool" where
  "valid_token t \<longleftrightarrow> validate_refresh_token t = Inr t"

definition valid_session :: "auth_session \<Rightarrow> bool" where
  "valid_session s \<longleftrightarrow>
     validate_auth_session s = Inr s \<and>
     pred_option valid_token (s_refresh_token s) \<and> pred_option valid_token (s_replacement_token s)"

definition valid_user :: "(string \<Rightarrow> string option) \<Rightarrow> user \<Rightarrow> bool" where
  "valid_user email_str u \<longleftrightarrow> validate_user email_str u = Inr u"

text \<open>
  The life of a loaded session object: any sequence of the methods that change it.
\<close>

inductive session_step :: "auth_session \<Rightarrow> auth_session \<Rightarrow> bool" where
  step_accepts: "accepts_refresh now ok s = Inr (b, s') \<Longrightarrow> session_step s s'"
| step_rotate: "rotate now ttl h rid s = Inr (r, s') \<Longrightarrow> session_step s s'"
| step_revoke: "revoke now s = Inr s' \<Longrightarrow> session_step s s'"

text \<open>Concrete objects for the worked instances of this theory.\<close>

definition sample_now :: datetime where
  "sample_now = Datetime 0 True"

definition sample_session :: auth_session where
  "sample_session =
     \<lparr>s_id = 5, s_created_at = sample_now, s_user_id = 3,
      s_idle_expires_at = plus_delta sample_now 100,
      s_revoked_at = None,
      s_refresh_token = Some \<lparr>t_id = 6, t_created_at = sample_now, t_session_id = 5,
                              t_token_hash = replicate 32 0, t_used_at = None\<rparr>,
      s_replacement_token = None\<rparr>"

definition sample_rotated :: auth_session where
  "sample_rotated = sample_session
     \<lparr>s_refresh_token := Some \<lparr>t_id = 6, t_created_at = sample_now, t_session_id = 5,
        t_token_hash = replicate 32 0, t_used_at = Some (Datetime 10 True)\<rparr>,
      s_replacement_token := Some \<lparr>t_id = 7, t_created_at = Datetime 10 True, t_session_id = 5,
        t_token_hash = replicate 32 9, t_used_at = None\<rparr>,
      s_idle_expires_at := Datetime 110 True\<rparr>"

subsection \<open>Validation, characterised\<close>

lemma casefold_casefold [simp]: "casefold (casefold s) = casefold s"
  by (auto simp: casefold_def Let_def)

lemma at_sign_casefold: "CHR ''@'' \<in> set s \<Longrightarrow> CHR ''@'' \<in> set (casefold s)"
  by (force simp: casefold_def Let_def image_iff)

lemma require_aware_eq [simp]: "require_aware t = Inr u \<longleftrightarrow> tz_aware t"
  by (simp add: require_aware_def)

lemma require_aware_Inl [simp]: "require_aware t = Inl e \<longleftrightarrow> \<not> tz_aware t \<and> e = InvalidTimestampError"
  by (auto simp: require_aware_def)

lemma validate_ttl_eq [simp]: "validate_ttl d = Inr u \<longleftrightarrow> 0 < d"
  by (auto simp: validate_ttl_def)

lemma validate_refresh_token_result:
  "validate_refresh_token t = Inr t' \<longleftrightarrow>
     t' = t \<and> length (t_token_hash t) = 32 \<and> tz_aware (t_created_at t) \<and>
     (\<forall>u. t_used_at t = Some u \<longrightarrow> tz_aware u \<and> t_created_at t \<le> u)"
  by (auto simp: validate_refresh_token_def validate_created_at_def bind_res_iffs not_less
      split: option.splits if_splits)

lemma validate_auth_session_result:
  "validate_auth_session s = Inr s' \<longleftrightarrow>
     s' = s \<and> tz_aware (s_created_at s) \<and> tz_aware (s_idle_expires_at s) \<and>
     s_created_at s < s_idle_expires_at s \<and>
     (\<forall>r. s_revoked_at s = Some r \<longrightarrow> tz_aware r \<and> s_created_at s \<le> r) \<and>
     \<not> foreign_token s (s_refresh_token s) \<and> \<not> foreign_token s (s_replacement_token s) \<and>
     \<not> bad_replacement s"
  by (auto simp: validate_auth_session_def validate_created_at_def bind_res_iffs not_less not_le
      split: option.splits if_splits)

lemma validate_user_result:
  "validate_user email_str u = Inr u' \<longleftrightarrow>
     (\<exists>e. email_str (u_email u) = Some e \<and> u' = u\<lparr>u_email := casefold e\<rparr>) \<and>
     py_strip (u_password_hash u) \<noteq> [] \<and> tz_aware (u_created_at u) \<and>
     (\<forall>t. u_updated_at u = Some t \<longrightarrow> tz_aware t \<and> u_created_at u \<le> t)"
  by (auto simp: validate_user_def NormalizedEmail_def PasswordHash_def validate_created_at_def
      validate_updated_at_def bind_res_iffs not_less split: option.splits if_splits)

lemmas validation_results =
  validate_refresh_token_result validate_auth_session_result validate_user_result

text \<open>
  \<open>DomainModel\<close> promises its subclasses that whatever \<open>_change_state\<close> produces is again a
  state that validates. The interface is the validator; tokens and sessions provide it.
\<close>

locale domain_model =
  fixes validate :: "'m \<Rightarrow> exn + 'm"
  assumes validate_stable: "validate m = Inr n \<Longrightarrow> validate n = Inr n"
begin

lemma change_state_valid: "change_state validate changes m = Inr n \<Longrightarrow> validate n = Inr n"
  unfolding change_state_def by (rule validate_stable)

end

interpretation token_model: domain_model validate_refresh_token
  by unfold_locales (simp add: validate_refresh_token_result)

interpretation session_model: domain_model validate_auth_session
  by unfold_locales (simp add: validate_auth_session_result)

lemma is_active_result:
  "is_active now s = Inr b \<longleftrightarrow>
     tz_aware now \<and>
     b = (s_revoked_at s = None \<and> s_created_at s \<le> now \<and> now < s_idle_expires_at s)"
  by (auto simp: is_active_def bind_res_iffs)

lemma is_active_error: "is_active now s = Inl e \<longleftrightarrow> \<not> tz_aware now \<and> e = InvalidTimestampError"
  by (auto simp: is_active_def bind_res_iffs)

lemma require_token_result: "require_token s = Inr t \<longleftrightarrow> s_refresh_token s = Some t"
  by (auto simp: require_token_def split: option.splits)

lemma consumed_result:
  "consumed now t = Inr t' \<longleftrightarrow>
     t_used_at t = None \<and> t' = t\<lparr>t_used_at := Some now\<rparr> \<and> length (t_token_hash t) = 32 \<and>
     tz_aware (t_created_at t) \<and> tz_aware now \<and> t_created_at t \<le> now"
  by (auto simp: consumed_def is_used_def change_state_def validate_refresh_token_result)

subsection \<open>Revocation\<close>

lemma revoke_result:
  assumes "valid_session s"
  shows "revoke now s = Inr s' \<longleftrightarrow>
     (case s_revoked_at s of
        None \<Rightarrow> tz_aware now \<and> s_created_at s \<le> now \<and> s' = s\<lparr>s_revoked_at := Some now\<rparr>
      | Some _ \<Rightarrow> s' = s)"
  using assms
  by (auto simp: revoke_def valid_session_def change_state_def validate_auth_session_result
      foreign_token_def bad_replacement_def split: option.splits)

lemma revoke_valid: "valid_session s \<Longrightarrow> revoke now s = Inr s' \<Longrightarrow> valid_session s'"
  by (auto simp: revoke_def valid_session_def change_state_def validate_auth_session_result
      foreign_token_def bad_replacement_def split: option.splits)

lemma revoke_revoked: "revoke now s = Inr s' \<Longrightarrow> s_revoked_at s' \<noteq> None"
  by (auto simp: revoke_def change_state_def validate_auth_session_result split: option.splits)

lemma revoke_frame:
  "revoke now s = Inr s' \<Longrightarrow>
     s_id s' = s_id s \<and> s_user_id s' = s_user_id s \<and> s_created_at s' = s_created_at s \<and>
     s_idle_expires_at s' = s_idle_expires_at s \<and> s_refresh_token s' = s_refresh_token s \<and>
     s_replacement_token s' = s_replacement_token s"
  by (auto simp: revoke_def change_state_def validate_auth_session_result split: option.splits)

subsection \<open>Rotation\<close>

lemma rotate_result:
  "rotate now ttl h rid s = Inr (r, s') \<longleftrightarrow>
     0 < ttl \<and> tz_aware now \<and>
     s_revoked_at s = None \<and> s_created_at s \<le> now \<and> now < s_idle_expires_at s \<and>
     (\<exists>t. s_refresh_token s = Some t \<and> t_used_at t = None \<and> length (t_token_hash t) = 32 \<and>
        tz_aware (t_created_at t) \<and> t_created_at t \<le> now \<and> length h = 32 \<and>
        r = \<lparr>t_id = rid, t_created_at = now, t_session_id = s_id s, t_token_hash = h, t_used_at = None\<rparr> \<and>
        s' = s\<lparr>s_refresh_token := Some (t\<lparr>t_used_at := Some now\<rparr>), s_replacement_token := Some r,
               s_idle_expires_at := plus_delta now ttl\<rparr> \<and>
        validate_auth_session s' = Inr s')"
  by (auto simp: rotate_def bind_res_iffs is_active_result require_token_result consumed_result
      change_state_def validate_refresh_token_result is_used_def validate_auth_session_result
      split: if_splits)

lemma rotate_valid:
  assumes "valid_session s" and "rotate now ttl h rid s = Inr (r, s')"
  shows "valid_session s'" and "valid_token r"
  using assms
  by (auto simp: rotate_result valid_session_def valid_token_def validate_refresh_token_result)

lemma start_result:
  "start uid h now ttl sid tid = Inr s \<longleftrightarrow>
     0 < ttl \<and> length h = 32 \<and> tz_aware now \<and>
     s = \<lparr>s_id = sid, s_created_at = now, s_user_id = uid, s_idle_expires_at = plus_delta now ttl,
          s_revoked_at = None,
          s_refresh_token = Some \<lparr>t_id = tid, t_created_at = now, t_session_id = sid,
                                  t_token_hash = h, t_used_at = None\<rparr>,
          s_replacement_token = None\<rparr>"
  by (auto simp: start_def bind_res_iffs validate_refresh_token_result validate_auth_session_result
      foreign_token_def bad_replacement_def)

lemma start_valid: "start uid h now ttl sid tid = Inr s \<Longrightarrow> valid_session s"
  by (auto simp: start_result valid_session_def valid_token_def validate_refresh_token_result
      validate_auth_session_result foreign_token_def bad_replacement_def)

lemma accepts_refresh_result:
  "accepts_refresh now ok s = Inr (b, s') \<longleftrightarrow>
     (\<exists>t. s_refresh_token s = Some t \<and>
        (if t_used_at t \<noteq> None then \<not> b \<and> revoke now s = Inr s'
         else tz_aware now \<and> s_revoked_at s = None \<and> s_created_at s \<le> now \<and>
              now < s_idle_expires_at s \<and>
              (if ok then b \<and> s' = s else \<not> b \<and> revoke now s = Inr s')))"
  by (auto simp: accepts_refresh_def bind_res_iffs require_token_result is_used_def
      is_active_result split: if_splits)

lemma accepts_refresh_valid:
  "valid_session s \<Longrightarrow> accepts_refresh now ok s = Inr (b, s') \<Longrightarrow> valid_session s'"
  by (auto simp: accepts_refresh_result intro: revoke_valid split: if_splits)

lemma can_replay_result:
  "can_replay now s = Inr b \<longleftrightarrow>
     (\<exists>t. s_refresh_token s = Some t \<and>
        (if t_used_at t \<noteq> None then \<not> b else is_active now s = Inr b))"
  by (auto simp: can_replay_def bind_res_iffs require_token_result is_used_def split: if_splits)


subsection \<open>The life of a session\<close>

inductive_cases session_stepE: "session_step s s'"

lemma session_step_valid: "session_step s s' \<Longrightarrow> valid_session s \<Longrightarrow> valid_session s'"
  by (induction rule: session_step.induct)
    (auto intro: accepts_refresh_valid rotate_valid revoke_valid)

lemma session_step_revoked:
  "session_step s s' \<Longrightarrow> s_revoked_at s = Some r \<Longrightarrow> s_revoked_at s' = Some r"
  by (erule session_stepE)
    (auto simp: accepts_refresh_result rotate_result revoke_def split: if_splits)

lemma session_steps_valid: "session_step\<^sup>*\<^sup>* s s' \<Longrightarrow> valid_session s \<Longrightarrow> valid_session s'"
  by (induction rule: rtranclp_induct) (auto intro: session_step_valid)

lemma session_steps_revoked:
  "session_step\<^sup>*\<^sup>* s s' \<Longrightarrow> s_revoked_at s = Some r \<Longrightarrow> s_revoked_at s' = Some r"
  by (induction rule: rtranclp_induct) (auto intro: session_step_revoked)

lemma rotate_inactive:
  assumes "tz_aware now" "0 < ttl" "s_revoked_at s \<noteq> None"
  shows "rotate now ttl h rid s = Inl AuthSessionInactiveError"
  using assms by (auto simp: rotate_def validate_ttl_def is_active_def require_aware_def)

text \<open>
  Every object a login starts, whatever methods run on it afterwards, is a valid session: its
  timestamps are aware and ordered, its tokens belong to it, and a replacement exists only beside
  a consumed token and differs from it in id and hash.
\<close>

theorem started_sessions_stay_valid:
  assumes "start uid h now ttl sid tid = Inr s" and "session_step\<^sup>*\<^sup>* s s'"
  shows "valid_session s'"
  using session_steps_valid [OF assms(2) start_valid [OF assms(1)]] .

text \<open>
  A refresh token is consumed at most once: a successful rotation marks the presented token
  used at the time of the rotation, hands out an unused replacement for the same session under a
  new hash, restarts the idle window, and every later rotation of that object is refused.
\<close>

theorem rotation_consumes_the_token:
  assumes "valid_session s" and "rotate now ttl h rid s = Inr (r, s')"
    and "tz_aware now'" and "0 < ttl'"
  shows "valid_session s' \<and> valid_token r \<and>
    (\<exists>t. s_refresh_token s = Some t \<and> \<not> is_used t \<and> t_token_hash r \<noteq> t_token_hash t \<and>
       s_refresh_token s' = Some (t\<lparr>t_used_at := Some now\<rparr>)) \<and>
    s_replacement_token s' = Some r \<and> \<not> is_used r \<and> t_session_id r = s_id s \<and>
    t_token_hash r = h \<and> s_idle_expires_at s' = plus_delta now ttl \<and>
    rotate now' ttl' h' rid' s' =
      Inl (if s_created_at s \<le> now' \<and> now' < plus_delta now ttl
           then RefreshTokenReuseError else AuthSessionInactiveError)"
proof -
  from assms(1,2) have valid: "valid_session s'" "valid_token r"
    by (rule rotate_valid)+
  from assms(2) obtain t where t: "s_refresh_token s = Some t" "t_used_at t = None"
    and s': "s' = s\<lparr>s_refresh_token := Some (t\<lparr>t_used_at := Some now\<rparr>),
                    s_replacement_token := Some r, s_idle_expires_at := plus_delta now ttl\<rparr>"
    and r: "r = \<lparr>t_id = rid, t_created_at = now, t_session_id = s_id s, t_token_hash = h,
                 t_used_at = None\<rparr>"
    and ok: "\<not> bad_replacement s'" and act: "s_revoked_at s = None"
    by (auto simp: rotate_result validate_auth_session_result)
  from ok t s' have hash: "t_token_hash r \<noteq> t_token_hash t"
    by (auto simp: bad_replacement_def)
  have "rotate now' ttl' h' rid' s' =
      Inl (if s_created_at s \<le> now' \<and> now' < plus_delta now ttl
           then RefreshTokenReuseError else AuthSessionInactiveError)"
    using assms(3,4) s' act
    by (auto simp: rotate_def validate_ttl_def is_active_def require_aware_def require_token_def
        is_used_def)
  with valid t s' r hash show ?thesis by (simp add: is_used_def)
qed

text \<open>
  Presenting a consumed token revokes the whole session: \<open>accepts_refresh\<close> answers \<open>False\<close>,
  the session is revoked from then on through every later method, and it is never active, never
  rotated and never replayed again.
\<close>

theorem reuse_kills_the_session:
  assumes "valid_session s" and "s_refresh_token s = Some t" and "is_used t"
    and "tz_aware now" and "s_created_at s \<le> now" and "tz_aware later" and "0 < ttl"
  shows "\<exists>s'. accepts_refresh now ok s = Inr (False, s') \<and> s_revoked_at s' \<noteq> None \<and>
    (\<forall>s''. session_step\<^sup>*\<^sup>* s' s'' \<longrightarrow>
       s_revoked_at s'' = s_revoked_at s' \<and> is_active later s'' = Inr False \<and>
       can_replay later s'' \<noteq> Inr True \<and>
       rotate later ttl h rid s'' = Inl AuthSessionInactiveError)"
proof -
  from assms(1,4,5) obtain s' where s': "revoke now s = Inr s'"
    by (cases "s_revoked_at s") (auto simp: revoke_result)
  with assms(2,3) have accepts: "accepts_refresh now ok s = Inr (False, s')"
    by (simp add: accepts_refresh_result is_used_def)
  from s' obtain r where r: "s_revoked_at s' = Some r"
    using revoke_revoked by blast
  have "s_revoked_at s'' = s_revoked_at s' \<and> is_active later s'' = Inr False \<and>
      can_replay later s'' \<noteq> Inr True \<and> rotate later ttl h rid s'' = Inl AuthSessionInactiveError"
    if "session_step\<^sup>*\<^sup>* s' s''" for s''
  proof -
    from that r have r'': "s_revoked_at s'' = Some r"
      by (rule session_steps_revoked)
    then have "rotate later ttl h rid s'' = Inl AuthSessionInactiveError"
      by (intro rotate_inactive assms(6,7)) simp
    with r r'' assms(6) show ?thesis
      by (auto simp: is_active_def require_aware_def can_replay_result is_active_result)
  qed
  with accepts r show ?thesis by blast
qed


subsection \<open>Worked instances\<close>

lemmas sample_defs = sample_session_def sample_rotated_def sample_now_def plus_delta_def

lemma sample_start: "start 3 (replicate 32 0) sample_now 100 5 6 = Inr sample_session"
  by (simp add: start_result sample_defs)

lemma sample_valid: "valid_session sample_session"
  by (rule start_valid [OF sample_start])

lemma sample_rotate:
  "rotate (Datetime 10 True) 100 (replicate 32 9) 7 sample_session =
     Inr (\<lparr>t_id = 7, t_created_at = Datetime 10 True, t_session_id = 5, t_token_hash = replicate 32 9,
           t_used_at = None\<rparr>, sample_rotated)"
  by (simp add: rotate_result sample_defs validate_auth_session_result foreign_token_def
      bad_replacement_def is_used_def)

theorem started_sessions_stay_valid_witness:
  "\<exists>s s'. start 3 (replicate 32 0) sample_now 100 5 6 = Inr s \<and> session_step\<^sup>*\<^sup>* s s' \<and>
     valid_session s' \<and> s_replacement_token s' \<noteq> None"
proof -
  have "session_step\<^sup>*\<^sup>* sample_session sample_rotated"
    using step_rotate [OF sample_rotate] by auto
  moreover from this have "valid_session sample_rotated"
    by (rule started_sessions_stay_valid [OF sample_start])
  moreover have "s_replacement_token sample_rotated \<noteq> None"
    by (simp add: sample_defs)
  ultimately show ?thesis using sample_start by blast
qed

theorem rotation_consumes_the_token_witness:
  "\<exists>r. rotate (Datetime 10 True) 100 (replicate 32 9) 7 sample_session = Inr (r, sample_rotated) \<and>
     rotate (Datetime 20 True) 100 (replicate 32 2) 8 sample_rotated = Inl RefreshTokenReuseError"
proof -
  have "rotate (Datetime 20 True) 100 (replicate 32 2) 8 sample_rotated = Inl RefreshTokenReuseError"
    using rotation_consumes_the_token [OF sample_valid sample_rotate,
        of "Datetime 20 True" 100 "replicate 32 2" 8]
    by (simp add: sample_session_def sample_now_def plus_delta_def)
  with sample_rotate show ?thesis by blast
qed

theorem reuse_kills_the_session_witness:
  "\<exists>s'. accepts_refresh (Datetime 20 True) True sample_rotated = Inr (False, s') \<and>
     is_active (Datetime 30 True) s' = Inr False"
proof -
  have "valid_session sample_rotated"
    by (rule rotate_valid [OF sample_valid sample_rotate])
  then obtain s' where "accepts_refresh (Datetime 20 True) True sample_rotated = Inr (False, s')"
    and "\<And>s''. session_step\<^sup>*\<^sup>* s' s'' \<Longrightarrow> is_active (Datetime 30 True) s'' = Inr False"
    using reuse_kills_the_session [of sample_rotated "the (s_refresh_token sample_rotated)"
        "Datetime 20 True" "Datetime 30 True" 5 True "[]" 8]
    by (auto simp: sample_rotated_def sample_session_def sample_now_def is_used_def)
  then show ?thesis by blast
qed

end
