(* ===== verification/Registration_Store.thy ===== *)
theory Registration_Store
  imports Store Domain
begin

section \<open>Durable registration operations\<close>

text \<open>
  \<open>application/ports/dto/registration.py\<close>, the table of
  \<open>infrastructure/database/models/registration_operations.py\<close> and the repository
  \<open>infrastructure/database/repositories/registration_operation_repository.py\<close>.

  A row of the table has the fields of the DTO. Each method of the repository is a function from
  the table to a result and the new table; an error leaves no new table, since it aborts the
  surrounding transaction. \<open>ts\<close> is the value of PostgreSQL's \<open>now()\<close> that \<open>onupdate\<close> writes to
  \<open>updated_at\<close>; \<open>locked\<close> tells which rows another transaction has locked, for \<open>SKIP LOCKED\<close>.
\<close>

subsection \<open>Data\<close>

datatype registration_status = R_PENDING | R_CLAIMED | R_COMPLETED | R_BLOCKED

datatype registration_outcome = OUTCOME_COMPLETED | OUTCOME_PENDING

record registration_operation =
  r_id :: uuid
  r_user_id :: uuid
  r_email :: string
  r_password_hash :: "string option"
  r_key_hash :: bytes
  r_status :: registration_status
  r_attempts :: int
  r_available_at :: datetime
  r_claim_token :: "uuid option"
  r_claim_expires_at :: "datetime option"
  r_last_error_class :: "string option"
  r_terminal_at :: "datetime option"
  r_redrive_count :: int
  r_created_at :: datetime
  r_updated_at :: "datetime option"

record registration_result =
  res_operation_id :: uuid
  res_user_id :: uuid
  res_outcome :: registration_outcome
  res_retry_after_seconds :: "int option"

type_synonym registration_table = "registration_operation list"

definition registration_lifecycle :: "registration_operation \<Rightarrow> bool" where
  "registration_lifecycle op \<longleftrightarrow>
     (let has_token = r_claim_token op \<noteq> None; has_expiration = r_claim_expires_at op \<noteq> None in
      \<not> list_ex (\<lambda>v. case v of None \<Rightarrow> False | Some t \<Rightarrow> \<not> tz_aware t)
          [Some (r_available_at op), r_claim_expires_at op, r_terminal_at op,
           Some (r_created_at op), r_updated_at op] \<and>
      has_token = has_expiration \<and>
      (if r_status op = R_CLAIMED then has_token \<and> r_terminal_at op = None else \<not> has_token) \<and>
      (if r_status op = R_COMPLETED \<or> r_status op = R_BLOCKED then r_terminal_at op \<noteq> None
       else r_terminal_at op = None) \<and>
      (if r_status op = R_COMPLETED then r_password_hash op = None
       else r_password_hash op \<noteq> None))"

definition RegistrationOperation ::
    "(string \<Rightarrow> string option) \<Rightarrow> registration_operation \<Rightarrow> exn + registration_operation" where
  "RegistrationOperation email_str op =
     bind_res (NormalizedEmail email_str (r_email op)) (\<lambda>email.
       if length (r_key_hash op) \<noteq> 32 \<or> r_attempts op < 0 \<or> r_redrive_count op < 0
       then Inl ValidationError
       else if \<not> registration_lifecycle op then Inl ValidationError
       else Inr (op\<lparr>r_email := email\<rparr>))"

definition RegistrationResult :: "registration_result \<Rightarrow> exn + registration_result" where
  "RegistrationResult res =
     (case res_retry_after_seconds res of
        None \<Rightarrow> Inr res
      | Some n \<Rightarrow> if n \<ge> 1 then Inr res else Inl ValidationError)"

subsection \<open>The table\<close>

definition registration_widths :: "registration_operation \<Rightarrow> bool" where
  "registration_widths r \<longleftrightarrow>
     length (r_email r) \<le> 320 \<and>
     (case r_password_hash r of None \<Rightarrow> True | Some h \<Rightarrow> length h \<le> 255) \<and>
     (case r_last_error_class r of None \<Rightarrow> True | Some c \<Rightarrow> length c \<le> 255)"

definition registration_checks :: "registration_operation \<Rightarrow> bool" where
  "registration_checks r \<longleftrightarrow>
     length (r_key_hash r) = 32 \<and>
     0 \<le> r_attempts r \<and> 0 \<le> r_redrive_count r \<and>
     (r_status r = R_PENDING \<and> r_password_hash r \<noteq> None \<and> r_claim_token r = None \<and>
        r_claim_expires_at r = None \<and> r_terminal_at r = None \<or>
      r_status r = R_CLAIMED \<and> r_password_hash r \<noteq> None \<and> r_claim_token r \<noteq> None \<and>
        r_claim_expires_at r \<noteq> None \<and> r_terminal_at r = None \<or>
      r_status r = R_COMPLETED \<and> r_password_hash r = None \<and> r_claim_token r = None \<and>
        r_claim_expires_at r = None \<and> r_terminal_at r \<noteq> None \<or>
      r_status r = R_BLOCKED \<and> r_password_hash r \<noteq> None \<and> r_claim_token r = None \<and>
        r_claim_expires_at r = None \<and> r_terminal_at r \<noteq> None)"

definition registration_conflict :: "registration_operation \<Rightarrow> registration_operation \<Rightarrow> bool" where
  "registration_conflict op r \<longleftrightarrow>
     r_id r = r_id op \<or> r_user_id r = r_user_id op \<or> r_email r = r_email op \<or>
     r_key_hash r = r_key_hash op"

subsection \<open>Repository\<close>

definition registration_to_domain ::
    "(string \<Rightarrow> string option) \<Rightarrow> registration_operation \<Rightarrow> exn + registration_operation" where
  "registration_to_domain email_str row =
     (case RegistrationOperation email_str row of
        Inl e \<Rightarrow> (if isinstance e InvalidDomainStateError \<or> isinstance e ValidationError
                  then Inl StoredStateError else Inl e)
      | Inr op \<Rightarrow> Inr op)"

definition optional_to_domain ::
    "(string \<Rightarrow> string option) \<Rightarrow> registration_operation option \<Rightarrow> exn + registration_operation option" where
  "optional_to_domain email_str row =
     (case row of
        None \<Rightarrow> Inr None
      | Some r \<Rightarrow> bind_res (registration_to_domain email_str r) (\<lambda>op. Inr (Some op)))"

definition try_create ::
    "(string \<Rightarrow> string option) \<Rightarrow> registration_operation \<Rightarrow> registration_table
     \<Rightarrow> exn + registration_operation option \<times> registration_table" where
  "try_create email_str operation rows =
     (if \<not> registration_widths operation then Inl value_too_long
      else if \<not> registration_checks operation then Inl check_violation
      else if list_ex (registration_conflict operation) rows then Inr (None, rows)
      else bind_res (registration_to_domain email_str operation)
             (\<lambda>op. Inr (Some op, rows @ [operation])))"

definition get_by_key_hash ::
    "(string \<Rightarrow> string option) \<Rightarrow> bytes \<Rightarrow> registration_table \<Rightarrow> exn + registration_operation option" where
  "get_by_key_hash email_str key_hash rows =
     optional_to_domain email_str (find (\<lambda>r. r_key_hash r = key_hash) rows)"

definition registration_get_by_email ::
    "(string \<Rightarrow> string option) \<Rightarrow> string \<Rightarrow> registration_table \<Rightarrow> exn + registration_operation option" where
  "registration_get_by_email email_str email rows =
     optional_to_domain email_str (find (\<lambda>r. r_email r = email) rows)"

definition registration_eligible :: "datetime \<Rightarrow> registration_operation \<Rightarrow> bool" where
  "registration_eligible claimed_at r \<longleftrightarrow>
     r_status r = R_PENDING \<and> r_available_at r \<le> claimed_at \<or>
     r_status r = R_CLAIMED \<and>
       (case r_claim_expires_at r of None \<Rightarrow> False | Some t \<Rightarrow> t \<le> claimed_at)"

definition validate_claim_window :: "datetime \<Rightarrow> datetime \<Rightarrow> exn + unit" where
  "validate_claim_window claimed_at claim_expires_at =
     (if claim_expires_at \<le> claimed_at then Inl ValueError else Inr ())"

definition registration_grant ::
    "uuid \<Rightarrow> datetime \<Rightarrow> datetime \<Rightarrow> registration_operation \<Rightarrow> registration_operation" where
  "registration_grant owner_token claim_expires_at ts r =
     r\<lparr>r_status := R_CLAIMED, r_claim_token := Some owner_token,
       r_claim_expires_at := Some claim_expires_at, r_terminal_at := None,
       r_updated_at := Some ts\<rparr>"

definition registration_claim ::
    "(string \<Rightarrow> string option) \<Rightarrow> (registration_operation \<Rightarrow> bool) \<Rightarrow> uuid \<Rightarrow> datetime \<Rightarrow> datetime
     \<Rightarrow> datetime \<Rightarrow> registration_table \<Rightarrow> exn + registration_operation option \<times> registration_table" where
  "registration_claim email_str predicate owner_token claimed_at claim_expires_at ts rows =
     bind_res (validate_claim_window claimed_at claim_expires_at) (\<lambda>_.
     bind_res (update_one (\<lambda>r. predicate r \<and> registration_eligible claimed_at r)
                 (registration_grant owner_token claim_expires_at ts) rows) (\<lambda>(row, rows').
     bind_res (optional_to_domain email_str row) (\<lambda>op. Inr (op, rows'))))"

definition claim_by_key_hash ::
    "(string \<Rightarrow> string option) \<Rightarrow> bytes \<Rightarrow> uuid \<Rightarrow> datetime \<Rightarrow> datetime
     \<Rightarrow> datetime \<Rightarrow> registration_table \<Rightarrow> exn + registration_operation option \<times> registration_table" where
  "claim_by_key_hash email_str key_hash owner_token claimed_at claim_expires_at ts rows =
     registration_claim email_str (\<lambda>r. r_key_hash r = key_hash) owner_token claimed_at
       claim_expires_at ts rows"

definition registration_order :: "registration_operation \<Rightarrow> datetime \<times> datetime \<times> uuid" where
  "registration_order r = (r_available_at r, r_created_at r, r_id r)"

definition registration_claim_batch ::
    "(string \<Rightarrow> string option) \<Rightarrow> (uuid \<Rightarrow> bool) \<Rightarrow> uuid \<Rightarrow> datetime \<Rightarrow> datetime \<Rightarrow> int
     \<Rightarrow> datetime \<Rightarrow> registration_table \<Rightarrow> exn + registration_operation list \<times> registration_table" where
  "registration_claim_batch email_str locked owner_token claimed_at claim_expires_at limit ts rows =
     (if limit \<le> 0 then Inl ValueError
      else bind_res (validate_claim_window claimed_at claim_expires_at) (\<lambda>_.
        let claimable_ids = map r_id (take_ordered registration_order (nat limit)
              (\<lambda>r. registration_eligible claimed_at r \<and> \<not> locked (r_id r)) rows);
            p = (\<lambda>r. r_id r \<in> set claimable_ids);
            f = registration_grant owner_token claim_expires_at ts
        in bind_res (map_res (registration_to_domain email_str)
                       (sort_key registration_order (returning p f rows))) (\<lambda>ops.
             Inr (ops, update_where p f rows))))"

text \<open>The guard shared by the three statements that settle a claimed operation.\<close>

definition registration_owned :: "uuid \<Rightarrow> datetime \<Rightarrow> registration_operation \<Rightarrow> bool" where
  "registration_owned owner_token t r \<longleftrightarrow>
     r_status r = R_CLAIMED \<and> r_claim_token r = Some owner_token \<and>
     (case r_claim_expires_at r of None \<Rightarrow> False | Some e \<Rightarrow> t < e)"

definition set_completed :: "datetime \<Rightarrow> datetime \<Rightarrow> registration_operation \<Rightarrow> registration_operation" where
  "set_completed completed_at ts r =
     r\<lparr>r_status := R_COMPLETED, r_attempts := r_attempts r + 1, r_password_hash := None,
       r_last_error_class := None, r_claim_token := None, r_claim_expires_at := None,
       r_terminal_at := Some completed_at, r_updated_at := Some ts\<rparr>"

definition complete ::
    "uuid \<Rightarrow> uuid \<Rightarrow> datetime \<Rightarrow> datetime \<Rightarrow> registration_table \<Rightarrow> exn + bool \<times> registration_table" where
  "complete operation_id owner_token completed_at ts rows =
     update_flag (\<lambda>r. r_id r = operation_id \<and> registration_owned owner_token completed_at r)
       (set_completed completed_at ts) rows"

definition set_retry ::
    "datetime \<Rightarrow> string \<Rightarrow> datetime \<Rightarrow> registration_operation \<Rightarrow> registration_operation" where
  "set_retry available_at error_class ts r =
     r\<lparr>r_status := R_PENDING, r_attempts := r_attempts r + 1,
       r_last_error_class := Some error_class, r_available_at := available_at,
       r_claim_token := None, r_claim_expires_at := None, r_terminal_at := None,
       r_updated_at := Some ts\<rparr>"

definition registration_schedule_retry ::
    "uuid \<Rightarrow> uuid \<Rightarrow> datetime \<Rightarrow> datetime \<Rightarrow> string \<Rightarrow> datetime \<Rightarrow> registration_table
     \<Rightarrow> exn + bool \<times> registration_table" where
  "registration_schedule_retry operation_id owner_token failed_at available_at error_class ts rows =
     update_flag (\<lambda>r. r_id r = operation_id \<and> registration_owned owner_token failed_at r)
       (set_retry available_at error_class ts) rows"

definition set_blocked :: "datetime \<Rightarrow> string \<Rightarrow> datetime \<Rightarrow> registration_operation \<Rightarrow> registration_operation" where
  "set_blocked blocked_at error_class ts r =
     r\<lparr>r_status := R_BLOCKED, r_attempts := r_attempts r + 1,
       r_last_error_class := Some error_class, r_claim_token := None, r_claim_expires_at := None,
       r_terminal_at := Some blocked_at, r_updated_at := Some ts\<rparr>"

definition block ::
    "uuid \<Rightarrow> uuid \<Rightarrow> datetime \<Rightarrow> string \<Rightarrow> datetime \<Rightarrow> registration_table
     \<Rightarrow> exn + bool \<times> registration_table" where
  "block operation_id owner_token blocked_at error_class ts rows =
     update_flag (\<lambda>r. r_id r = operation_id \<and> registration_owned owner_token blocked_at r)
       (set_blocked blocked_at error_class ts) rows"

definition set_redriven :: "datetime \<Rightarrow> datetime \<Rightarrow> registration_operation \<Rightarrow> registration_operation" where
  "set_redriven available_at ts r =
     r\<lparr>r_status := R_PENDING, r_attempts := 0, r_last_error_class := None,
       r_available_at := available_at, r_claim_token := None, r_claim_expires_at := None,
       r_terminal_at := None, r_redrive_count := r_redrive_count r + 1,
       r_updated_at := Some ts\<rparr>"

definition redrive_blocked ::
    "uuid \<Rightarrow> datetime \<Rightarrow> datetime \<Rightarrow> registration_table \<Rightarrow> exn + bool \<times> registration_table" where
  "redrive_blocked operation_id available_at ts rows =
     update_flag (\<lambda>r. r_id r = operation_id \<and> r_status r = R_BLOCKED)
       (set_redriven available_at ts) rows"

subsection \<open>Histories of the table\<close>

text \<open>
  One committed statement of any process. The relation ranges over all arguments, so that a
  reachable table is the result of any interleaving of registrations, workers and operators whose
  clocks are aware and whose error classes fit the column.
\<close>

inductive registration_step ::
    "(string \<Rightarrow> string option) \<Rightarrow> registration_table \<Rightarrow> registration_table \<Rightarrow> bool"
  for email_str where
  reg_create: "RegistrationOperation email_str op = Inr op \<Longrightarrow>
     try_create email_str op rows = Inr (res, rows') \<Longrightarrow> registration_step email_str rows rows'"
| reg_claim: "registration_claim email_str p ow t e ts rows = Inr (res, rows') \<Longrightarrow>
     tz_aware e \<Longrightarrow> tz_aware ts \<Longrightarrow> registration_step email_str rows rows'"
| reg_batch: "registration_claim_batch email_str lk ow t e n ts rows = Inr (ops, rows') \<Longrightarrow>
     tz_aware e \<Longrightarrow> tz_aware ts \<Longrightarrow> registration_step email_str rows rows'"
| reg_complete: "complete i ow t ts rows = Inr (b, rows') \<Longrightarrow>
     tz_aware t \<Longrightarrow> tz_aware ts \<Longrightarrow> registration_step email_str rows rows'"
| reg_retry: "registration_schedule_retry i ow t a c ts rows = Inr (b, rows') \<Longrightarrow>
     tz_aware a \<Longrightarrow> tz_aware ts \<Longrightarrow> length c \<le> 255 \<Longrightarrow> registration_step email_str rows rows'"
| reg_block: "block i ow t c ts rows = Inr (b, rows') \<Longrightarrow>
     tz_aware t \<Longrightarrow> tz_aware ts \<Longrightarrow> length c \<le> 255 \<Longrightarrow> registration_step email_str rows rows'"
| reg_redrive: "redrive_blocked i a ts rows = Inr (b, rows') \<Longrightarrow>
     tz_aware a \<Longrightarrow> tz_aware ts \<Longrightarrow> registration_step email_str rows rows'"

definition registration_row_ok :: "(string \<Rightarrow> string option) \<Rightarrow> registration_operation \<Rightarrow> bool" where
  "registration_row_ok email_str r \<longleftrightarrow>
     registration_checks r \<and> registration_widths r \<and> RegistrationOperation email_str r = Inr r"

definition registration_table_ok :: "(string \<Rightarrow> string option) \<Rightarrow> registration_table \<Rightarrow> bool" where
  "registration_table_ok email_str rows \<longleftrightarrow>
     distinct (map r_id rows) \<and> distinct (map r_user_id rows) \<and>
     distinct (map r_email rows) \<and> distinct (map r_key_hash rows) \<and>
     list_all (registration_row_ok email_str) rows"

subsection \<open>Row invariant\<close>

definition registration_times_aware :: "registration_operation \<Rightarrow> bool" where
  "registration_times_aware op \<longleftrightarrow>
     tz_aware (r_available_at op) \<and> tz_aware (r_created_at op) \<and>
     (\<forall>t. r_claim_expires_at op = Some t \<longrightarrow> tz_aware t) \<and>
     (\<forall>t. r_terminal_at op = Some t \<longrightarrow> tz_aware t) \<and>
     (\<forall>t. r_updated_at op = Some t \<longrightarrow> tz_aware t)"

text \<open>
  The validators of the DTO and the check constraints of the table describe the same lifecycle;
  the DTO asks for aware timestamps besides, the table for the widths of its columns.
\<close>

lemma registration_lifecycle_checks:
  "length (r_key_hash op) = 32 \<and> 0 \<le> r_attempts op \<and> 0 \<le> r_redrive_count op \<and>
     registration_lifecycle op \<longleftrightarrow> registration_checks op \<and> registration_times_aware op"
  unfolding registration_lifecycle_def registration_checks_def registration_times_aware_def Let_def
  by (cases "r_status op") (auto split: option.splits)

lemma registration_row_ok_iff:
  "registration_row_ok email_str r \<longleftrightarrow>
     NormalizedEmail email_str (r_email r) = Inr (r_email r) \<and>
     registration_checks r \<and> registration_widths r \<and> registration_times_aware r"
proof -
  have "RegistrationOperation email_str r = Inr r \<longleftrightarrow>
      NormalizedEmail email_str (r_email r) = Inr (r_email r) \<and>
      length (r_key_hash r) = 32 \<and> 0 \<le> r_attempts r \<and> 0 \<le> r_redrive_count r \<and>
      registration_lifecycle r"
    by (cases r) (auto simp: RegistrationOperation_def bind_res_iffs)
  then show ?thesis
    unfolding registration_row_ok_def using registration_lifecycle_checks [of r] by blast
qed

lemma registration_row_ok_to_domain:
  "registration_row_ok email_str r \<Longrightarrow> registration_to_domain email_str r = Inr r"
  by (simp add: registration_row_ok_def registration_to_domain_def)

lemmas registration_row_defs =
  registration_checks_def registration_widths_def registration_times_aware_def

lemma registration_grant_ok:
  "registration_row_ok email_str r \<Longrightarrow> registration_eligible t r \<Longrightarrow> tz_aware e \<Longrightarrow> tz_aware ts \<Longrightarrow>
   registration_row_ok email_str (registration_grant ow e ts r)"
  by (auto simp: registration_row_ok_iff registration_row_defs registration_eligible_def
      registration_grant_def)

lemma set_completed_ok:
  "registration_row_ok email_str r \<Longrightarrow> tz_aware t \<Longrightarrow> tz_aware ts \<Longrightarrow>
   registration_row_ok email_str (set_completed t ts r)"
  by (auto simp: registration_row_ok_iff registration_row_defs set_completed_def)

lemma set_retry_ok:
  "registration_row_ok email_str r \<Longrightarrow> registration_owned ow t r \<Longrightarrow> tz_aware a \<Longrightarrow> tz_aware ts \<Longrightarrow>
   length c \<le> 255 \<Longrightarrow> registration_row_ok email_str (set_retry a c ts r)"
  by (auto simp: registration_row_ok_iff registration_row_defs registration_owned_def set_retry_def)

lemma set_blocked_ok:
  "registration_row_ok email_str r \<Longrightarrow> registration_owned ow t r \<Longrightarrow> tz_aware b \<Longrightarrow> tz_aware ts \<Longrightarrow>
   length c \<le> 255 \<Longrightarrow> registration_row_ok email_str (set_blocked b c ts r)"
  by (auto simp: registration_row_ok_iff registration_row_defs registration_owned_def set_blocked_def)

lemma set_redriven_ok:
  "registration_row_ok email_str r \<Longrightarrow> r_status r = R_BLOCKED \<Longrightarrow> tz_aware a \<Longrightarrow> tz_aware ts \<Longrightarrow>
   registration_row_ok email_str (set_redriven a ts r)"
  by (auto simp: registration_row_ok_iff registration_row_defs set_redriven_def)

subsection \<open>Table invariant\<close>

text \<open>No statement changes the four columns with a unique index.\<close>

definition registration_keys :: "registration_operation \<Rightarrow> uuid \<times> uuid \<times> string \<times> bytes" where
  "registration_keys r = (r_id r, r_user_id r, r_email r, r_key_hash r)"

lemma registration_setters_keys [simp]:
  "registration_keys (registration_grant ow e ts r) = registration_keys r"
  "registration_keys (set_completed t ts r) = registration_keys r"
  "registration_keys (set_retry a c ts r) = registration_keys r"
  "registration_keys (set_blocked t c ts r) = registration_keys r"
  "registration_keys (set_redriven a ts r) = registration_keys r"
  by (simp_all add: registration_keys_def registration_grant_def set_completed_def set_retry_def
      set_blocked_def set_redriven_def)

lemma registration_table_ok_update:
  assumes ok: "registration_table_ok email_str rows"
    and keys: "\<And>r. registration_keys (f r) = registration_keys r"
    and row: "\<And>r. r \<in> set rows \<Longrightarrow> p r \<Longrightarrow> registration_row_ok email_str r \<Longrightarrow>
               registration_row_ok email_str (f r)"
  shows "registration_table_ok email_str (update_where p f rows)"
proof -
  have "map r_id (update_where p f rows) = map r_id rows"
    "map r_user_id (update_where p f rows) = map r_user_id rows"
    "map r_email (update_where p f rows) = map r_email rows"
    "map r_key_hash (update_where p f rows) = map r_key_hash rows"
    using keys by (auto intro!: update_where_map_eq simp: registration_keys_def)
  moreover have "list_all (registration_row_ok email_str) (update_where p f rows)"
    using ok row by (auto simp: registration_table_ok_def list_all_iff in_set_update_where)
  ultimately show ?thesis using ok by (simp add: registration_table_ok_def)
qed

lemma registration_table_ok_append:
  assumes "registration_table_ok email_str rows" and "registration_row_ok email_str op"
    and "\<not> list_ex (registration_conflict op) rows"
  shows "registration_table_ok email_str (rows @ [op])"
proof -
  have "r_id r \<noteq> r_id op \<and> r_user_id r \<noteq> r_user_id op \<and> r_email r \<noteq> r_email op \<and>
      r_key_hash r \<noteq> r_key_hash op" if "r \<in> set rows" for r
    using assms(3) that by (auto simp: list_ex_iff registration_conflict_def)
  with assms(1,2) show ?thesis
    unfolding registration_table_ok_def by force
qed

lemma registration_table_okD:
  assumes "registration_table_ok email_str rows"
  shows "distinct (map r_id rows)" and "distinct (map r_key_hash rows)"
    and "distinct (map r_email rows)" and "distinct (map r_user_id rows)"
    and "r \<in> set rows \<Longrightarrow> registration_row_ok email_str r"
  using assms by (auto simp: registration_table_ok_def list_all_iff)

text \<open>What each statement does to the table.\<close>

lemma registration_claim_Inr:
  "registration_claim email_str p ow t e ts rows = Inr (res, rows') \<Longrightarrow>
   rows' = update_where (\<lambda>r. p r \<and> registration_eligible t r) (registration_grant ow e ts) rows
   \<and> t < e"
  by (auto simp: registration_claim_def update_one_def bind_res_iffs validate_claim_window_def
      split: if_splits)

lemma registration_claim_batch_Inr:
  assumes "registration_claim_batch email_str lk ow t e n ts rows = Inr (ops, rows')"
  obtains ids where "rows' = update_where (\<lambda>r. r_id r \<in> set ids) (registration_grant ow e ts) rows"
    and "ids = map r_id (take_ordered registration_order (nat n)
            (\<lambda>r. registration_eligible t r \<and> \<not> lk (r_id r)) rows)"
    and "map_res (registration_to_domain email_str) (sort_key registration_order
           (returning (\<lambda>r. r_id r \<in> set ids) (registration_grant ow e ts) rows)) = Inr ops"
    and "0 < n" and "t < e"
  using assms by (auto simp: registration_claim_batch_def Let_def bind_res_iffs
      validate_claim_window_def split: if_splits)

lemma registration_step_ok:
  assumes "registration_step email_str rows rows'" and ok: "registration_table_ok email_str rows"
  shows "registration_table_ok email_str rows'"
  using assms(1)
proof cases
  case (reg_create op res)
  then show ?thesis
    using ok by (auto simp: try_create_def bind_res_iffs registration_row_ok_def
        intro!: registration_table_ok_append split: if_splits)
next
  case (reg_claim p ow t e ts res)
  then show ?thesis using registration_grant_ok
    by (auto dest!: registration_claim_Inr intro!: registration_table_ok_update [OF ok])
next
  case (reg_batch lk ow t e n ts ops)
  from reg_batch(1) obtain ids
    where r': "rows' = update_where (\<lambda>r. r_id r \<in> set ids) (registration_grant ow e ts) rows"
    and ids: "ids = map r_id (take_ordered registration_order (nat n)
            (\<lambda>r. registration_eligible t r \<and> \<not> lk (r_id r)) rows)"
    by (rule registration_claim_batch_Inr)
  have "registration_eligible t r" if "r \<in> set rows" "r_id r \<in> set ids" for r
    using taken_keys [OF registration_table_okD(1) [OF ok] that(1) that(2) [unfolded ids]] by simp
  then show ?thesis unfolding r' using reg_batch(2,3) registration_grant_ok
    by (blast intro: registration_table_ok_update [OF ok] registration_setters_keys(1))
next
  case (reg_complete i ow t ts b)
  then show ?thesis unfolding complete_def using set_completed_ok
    by (auto dest!: update_flag_Inr intro!: registration_table_ok_update [OF ok])
next
  case (reg_retry i ow t a c ts b)
  then show ?thesis unfolding registration_schedule_retry_def using set_retry_ok
    by (auto dest!: update_flag_Inr intro!: registration_table_ok_update [OF ok])
next
  case (reg_block i ow t c ts b)
  then show ?thesis unfolding block_def using set_blocked_ok
    by (auto dest!: update_flag_Inr intro!: registration_table_ok_update [OF ok])
next
  case (reg_redrive i a ts b)
  then show ?thesis unfolding redrive_blocked_def using set_redriven_ok
    by (auto dest!: update_flag_Inr intro!: registration_table_ok_update [OF ok])
qed

subsection \<open>Leases of registration operations\<close>

interpretation reg_lease: lease r_id r_claim_token r_claim_expires_at registration_eligible
    registration_grant registration_owned registration_checks
  by unfold_locales
    (auto simp: registration_grant_def registration_checks_def registration_eligible_def
      registration_owned_def split: option.splits)

lemma registration_settle_result:
  assumes "distinct (map r_id rows)"
  shows "update_flag (\<lambda>r. r_id r = i \<and> registration_owned ow t r) f rows =
     Inr (\<exists>r \<in> set rows. r_id r = i \<and> registration_owned ow t r,
          update_where (\<lambda>r. r_id r = i \<and> registration_owned ow t r) f rows)"
  by (rule update_flag_unique [where k = r_id and x = i])
    (use assms in auto)

lemma registration_claim_result:
  assumes ok: "registration_table_ok email_str rows" and "t < e" "tz_aware e" "tz_aware ts"
  shows "claim_by_key_hash email_str k ow t e ts rows =
     (let p = (\<lambda>r. r_key_hash r = k \<and> registration_eligible t r) in
      Inr (map_option (registration_grant ow e ts) (find p rows),
           update_where p (registration_grant ow e ts) rows))"
proof -
  let ?p = "\<lambda>r. r_key_hash r = k \<and> registration_eligible t r"
  let ?g = "registration_grant ow e ts"
  have upd: "update_one ?p ?g rows = Inr (map_option ?g (find ?p rows), update_where ?p ?g rows)"
    by (rule update_one_unique [where k = r_key_hash and x = k])
      (use registration_table_okD(2) [OF ok] in auto)
  have "optional_to_domain email_str (map_option ?g (find ?p rows)) = Inr (map_option ?g (find ?p rows))"
  proof (cases "find ?p rows")
    case (Some r)
    then have "r \<in> set rows" "registration_eligible t r" by (auto dest: find_SomeD)
    with assms have "registration_row_ok email_str (?g r)"
      by (auto intro: registration_grant_ok registration_table_okD(5))
    with Some show ?thesis by (simp add: optional_to_domain_def registration_row_ok_to_domain)
  qed (simp add: optional_to_domain_def)
  with upd assms(2) show ?thesis
    by (simp add: claim_by_key_hash_def registration_claim_def validate_claim_window_def Let_def
        not_le)
qed

lemma completed_not_settled:
  "r_status r = R_COMPLETED \<Longrightarrow> \<not> registration_eligible t r \<and> \<not> registration_owned ow t r"
  by (simp add: registration_eligible_def registration_owned_def)

lemma update_where_spares: "r \<in> set rows \<Longrightarrow> \<not> p r \<Longrightarrow> r \<in> set (update_where p f rows)"
  by (auto simp: in_set_update_where)

lemma registration_step_completed:
  assumes "registration_step email_str rows rows'" and ok: "registration_table_ok email_str rows"
    and r: "r \<in> set rows" "r_status r = R_COMPLETED"
  shows "r \<in> set rows'"
  using assms(1)
proof cases
  case (reg_create op res)
  then show ?thesis using r by (auto simp: try_create_def bind_res_iffs split: if_splits)
next
  case (reg_batch lk ow t e n ts ops)
  from reg_batch(1) show ?thesis
  proof (rule registration_claim_batch_Inr)
    fix ids
    assume r': "rows' = update_where (\<lambda>r. r_id r \<in> set ids) (registration_grant ow e ts) rows"
      and ids: "ids = map r_id (take_ordered registration_order (nat n)
            (\<lambda>r. registration_eligible t r \<and> \<not> lk (r_id r)) rows)"
    have "r_id r \<notin> set ids"
      using taken_keys [OF registration_table_okD(1) [OF ok] r(1), of registration_order "nat n"]
        completed_not_settled [OF r(2)] unfolding ids by blast
    then show ?thesis unfolding r' using r(1) by (intro update_where_spares) auto
  qed
qed (use r in \<open>auto simp: complete_def registration_schedule_retry_def block_def
       redrive_blocked_def completed_not_settled
       dest!: update_flag_Inr registration_claim_Inr intro!: update_where_spares\<close>)

lemma registration_history_ok:
  "(registration_step email_str)\<^sup>*\<^sup>* rows rows' \<Longrightarrow> registration_table_ok email_str rows \<Longrightarrow>
   registration_table_ok email_str rows'"
  by (induction rule: rtranclp_induct) (auto intro: registration_step_ok)

lemma registration_table_ok_Nil [simp]: "registration_table_ok email_str []"
  by (simp add: registration_table_ok_def)

text \<open>A batch on a sound table.\<close>

lemma registration_order_grant [simp]:
  "registration_order (registration_grant ow e ts r) = registration_order r"
  by (simp add: registration_order_def registration_grant_def)

lemma registration_claim_batch_result:
  assumes ok: "registration_table_ok email_str rows" and "0 < n" "t < e" "tz_aware e" "tz_aware ts"
    and ids: "ids = map r_id (take_ordered registration_order (nat n)
            (\<lambda>r. registration_eligible t r \<and> \<not> lk (r_id r)) rows)"
  shows "registration_claim_batch email_str lk ow t e n ts rows =
     Inr (sort_key registration_order
            (returning (\<lambda>r. r_id r \<in> set ids) (registration_grant ow e ts) rows),
          update_where (\<lambda>r. r_id r \<in> set ids) (registration_grant ow e ts) rows)"
proof -
  let ?g = "registration_grant ow e ts"
  have "registration_row_ok email_str (?g r)" if "r \<in> set rows" "r_id r \<in> set ids" for r
    using taken_keys [OF registration_table_okD(1) [OF ok] that(1) that(2) [unfolded ids]] assms(4,5)
      registration_table_okD(5) [OF ok that(1)] by (blast intro: registration_grant_ok)
  then have "map_res (registration_to_domain email_str)
      (sort_key registration_order (returning (\<lambda>r. r_id r \<in> set ids) ?g rows)) =
      Inr (sort_key registration_order (returning (\<lambda>r. r_id r \<in> set ids) ?g rows))"
    by (intro map_res_id) (auto simp: returning_def registration_row_ok_to_domain)
  with assms(2,3) show ?thesis
    by (simp add: registration_claim_batch_def validate_claim_window_def ids [symmetric] Let_def)
qed


lemma registration_claim_batch_contract_rows:
  assumes "registration_table_ok email_str rows" "0 < n" "t < e" "tz_aware e" "tz_aware ts"
    and "registration_claim_batch email_str lk ow t e n ts rows = Inr (ops, rows')" and "op \<in> set ops"
  shows "op \<in> set rows'"
proof -
  let ?ids = "map r_id (take_ordered registration_order (nat n)
            (\<lambda>r. registration_eligible t r \<and> \<not> lk (r_id r)) rows)"
  have "ops = sort_key registration_order
        (returning (\<lambda>r. r_id r \<in> set ?ids) (registration_grant ow e ts) rows)"
    and "rows' = update_where (\<lambda>r. r_id r \<in> set ?ids) (registration_grant ow e ts) rows"
    using registration_claim_batch_result [OF assms(1-5) refl] assms(6) by auto
  with assms(7) show ?thesis by (auto simp: returning_def in_set_update_where)
qed

lemma registration_lease_spares:
  assumes "registration_table_ok email_str rows"
    and "r \<in> set rows" and "r_claim_token r = Some ow" and "r_claim_expires_at r = Some e"
    and "t < e" and "ow' \<noteq> ow"
  shows "claim_by_key_hash email_str k ow' t e' ts rows = Inr (res, rows1) \<Longrightarrow> r \<in> set rows1"
    and "registration_claim_batch email_str lk ow' t e' n ts rows = Inr (ops, rows2) \<Longrightarrow> r \<in> set rows2"
    and "complete i ow' t' ts rows = Inr (b, rows3) \<Longrightarrow> r \<in> set rows3"
    and "registration_schedule_retry i ow' t' a c ts rows = Inr (b, rows4) \<Longrightarrow> r \<in> set rows4"
    and "block i ow' t' c ts rows = Inr (b, rows5) \<Longrightarrow> r \<in> set rows5"
proof -
  have wf: "registration_checks r"
    using registration_table_okD(5) [OF assms(1,2)] by (simp add: registration_row_ok_iff)
  have held: "reg_lease.held ow t r"
    using assms(3,4,5) by (simp add: reg_lease.held_def)
  show "claim_by_key_hash email_str k ow' t e' ts rows = Inr (res, rows1) \<Longrightarrow> r \<in> set rows1"
    unfolding claim_by_key_hash_def
    by (drule registration_claim_Inr) (auto intro: reg_lease.claim_spares_held [OF assms(2) wf held])
  show "r \<in> set rows2" if "registration_claim_batch email_str lk ow' t e' n ts rows = Inr (ops, rows2)"
    using that
  proof (rule registration_claim_batch_Inr)
    fix ids
    assume r2: "rows2 = update_where (\<lambda>r. r_id r \<in> set ids) (registration_grant ow' e' ts) rows"
      and ids: "ids = map r_id (take_ordered registration_order (nat n)
            (\<lambda>r. registration_eligible t r \<and> \<not> lk (r_id r)) rows)"
    have "r_id r \<notin> set ids"
      using taken_keys [OF registration_table_okD(1) [OF assms(1)] assms(2), of registration_order "nat n"]
        reg_lease.held_not_eligible [OF wf held] unfolding ids by blast
    then show ?thesis unfolding r2 using assms(2) by (intro update_where_spares) auto
  qed
  have settle: "r \<in> set (update_where (\<lambda>q. r_id q = i \<and> registration_owned ow' t' q) f rows)" for f
    by (rule reg_lease.settle_spares_foreign [OF assms(2,3), of ow' _ t']) (use assms(6) in auto)
  show "complete i ow' t' ts rows = Inr (b, rows3) \<Longrightarrow> r \<in> set rows3"
    "registration_schedule_retry i ow' t' a c ts rows = Inr (b, rows4) \<Longrightarrow> r \<in> set rows4"
    "block i ow' t' c ts rows = Inr (b, rows5) \<Longrightarrow> r \<in> set rows5"
    unfolding complete_def registration_schedule_retry_def block_def
    using settle by (auto dest!: update_flag_Inr)
qed

subsection \<open>Properties\<close>

text \<open>
  C19. Whatever committed statements of registrations, workers and operators build the table, its
  identifiers, users, addresses and key hashes are pairwise different and every row obeys the
  lifecycle: the password hash is kept exactly until completion, a row has an owner exactly while
  it is claimed, a terminal time exactly when it is completed or blocked, and it always loads
  back into the DTO, so that \<open>StoredStateError\<close> never arises from a row the service wrote.
\<close>
theorem registration_history_invariant:
  assumes "(registration_step email_str)\<^sup>*\<^sup>* [] rows"
  shows "distinct (map r_id rows) \<and> distinct (map r_user_id rows) \<and> distinct (map r_email rows) \<and>
     distinct (map r_key_hash rows) \<and>
     (\<forall>r \<in> set rows.
        (r_password_hash r = None \<longleftrightarrow> r_status r = R_COMPLETED) \<and>
        (r_claim_token r \<noteq> None \<longleftrightarrow> r_status r = R_CLAIMED) \<and>
        (r_terminal_at r \<noteq> None \<longleftrightarrow> r_status r \<in> {R_COMPLETED, R_BLOCKED}) \<and>
        registration_to_domain email_str r = Inr r)"
proof -
  from assms have ok: "registration_table_ok email_str rows"
    by (rule registration_history_ok) simp
  have "(r_password_hash r = None \<longleftrightarrow> r_status r = R_COMPLETED) \<and>
        (r_claim_token r \<noteq> None \<longleftrightarrow> r_status r = R_CLAIMED) \<and>
        (r_terminal_at r \<noteq> None \<longleftrightarrow> r_status r \<in> {R_COMPLETED, R_BLOCKED}) \<and>
        registration_to_domain email_str r = Inr r" if "r \<in> set rows" for r
    using registration_table_okD(5) [OF ok that] registration_row_ok_to_domain [of email_str r]
    by (auto simp: registration_row_ok_iff registration_checks_def)
  with registration_table_okD [OF ok] show ?thesis by blast
qed

text \<open>
  A completed registration is final: no later claim, batch, settlement, redrive or creation
  changes or removes its row.
\<close>
theorem completed_registration_is_final:
  assumes "(registration_step email_str)\<^sup>*\<^sup>* [] rows" and "(registration_step email_str)\<^sup>*\<^sup>* rows rows'"
    and "r \<in> set rows" and "r_status r = R_COMPLETED"
  shows "r \<in> set rows'"
proof -
  have "registration_table_ok email_str rows"
    using assms(1) by (rule registration_history_ok) simp
  with assms(2,3) show ?thesis
  proof (induction rule: converse_rtranclp_induct)
    case (step y z)
    then show ?case
      using registration_step_completed [OF step(1) step(5) step(4) assms(4)]
        registration_step_ok by blast
  qed
qed

text \<open>
  While a claim is live, that is before its expiry, no other owner can take the operation over,
  neither by its key nor in a batch, and no other owner's settlement touches it at any time.
\<close>
theorem registration_lease_exclusive:
  assumes "registration_table_ok email_str rows"
    and "r \<in> set rows" and "r_claim_token r = Some ow" and "r_claim_expires_at r = Some e"
    and "t < e" and "ow' \<noteq> ow"
  shows "(claim_by_key_hash email_str k ow' t e' ts rows = Inr (res, rows1) \<longrightarrow> r \<in> set rows1) \<and>
     (registration_claim_batch email_str lk ow' t e' n ts rows = Inr (ops, rows2) \<longrightarrow> r \<in> set rows2) \<and>
     (complete i ow' t' ts rows = Inr (b, rows3) \<longrightarrow> r \<in> set rows3) \<and>
     (registration_schedule_retry i ow' t' a c ts rows = Inr (b, rows4) \<longrightarrow> r \<in> set rows4) \<and>
     (block i ow' t' c ts rows = Inr (b, rows5) \<longrightarrow> r \<in> set rows5)"
  by (intro conjI impI) (erule registration_lease_spares [OF assms])+

text \<open>
  A claim is settled at most once: when one of \<open>complete\<close>, \<open>schedule_retry\<close> and \<open>block\<close> has
  reported success for an owner, every later settlement by that owner reports failure and leaves
  the table as it is.
\<close>
theorem registration_settled_once:
  assumes "registration_table_ok email_str rows"
    and "settle \<in> {complete i ow t ts, registration_schedule_retry i ow t a c ts, block i ow t c ts}"
    and "settle' \<in> {complete i ow t' ts', registration_schedule_retry i ow t' a' c' ts', block i ow t' c' ts'}"
    and "settle rows = Inr (True, rows')"
  shows "settle' rows' = Inr (False, rows')"
proof -
  from assms(2) obtain f where
    settle: "settle rows = update_flag (\<lambda>r. r_id r = i \<and> registration_owned ow t r) f rows"
    and f: "\<And>r. r_id (f r) = r_id r" "\<And>r. r_claim_token (f r) = None"
    by (auto simp: complete_def registration_schedule_retry_def block_def set_completed_def
        set_retry_def set_blocked_def)
  from assms(3) obtain f' where
    settle': "settle' rows' = update_flag (\<lambda>r. r_id r = i \<and> registration_owned ow t' r) f' rows'"
    by (auto simp: complete_def registration_schedule_retry_def block_def)
  let ?p = "\<lambda>r. r_id r = i \<and> registration_owned ow t r"
  have rows': "rows' = update_where ?p f rows" and "\<exists>r \<in> set rows. ?p r"
    using assms(4) registration_settle_result [OF registration_table_okD(1) [OF assms(1)]]
    unfolding settle by auto
  then obtain r where r: "r \<in> set rows" "?p r" by blast
  have "map r_id rows' = map r_id rows"
    unfolding rows' using f(1) by (rule update_where_map_eq)
  then have dist: "distinct (map r_id rows')"
    using registration_table_okD(1) [OF assms(1)] by simp
  have none: "\<not> (r_id q = i \<and> registration_owned ow t' q)" if "q \<in> set rows'" for q
  proof
    assume "r_id q = i \<and> registration_owned ow t' q"
    moreover have "f r \<in> set rows'" unfolding rows' using r by (auto simp: in_set_update_where)
    ultimately have "q = f r"
      using unique_key [OF dist that, of "f r"] f(1) r(2) by simp
    with \<open>r_id q = i \<and> _\<close> f(2) show False by (simp add: registration_owned_def)
  qed
  show ?thesis
    unfolding settle' registration_settle_result [OF dist]
    using none update_where_none [of rows' "\<lambda>r. r_id r = i \<and> registration_owned ow t' r"] by auto
qed

text \<open>
  On a sound table a batch claim succeeds; it returns at most \<open>limit\<close> operations in the order
  of availability, each of them held by the caller until the expiry and taken from an eligible row
  that nobody had locked, and it leaves out no eligible unlocked row that comes before a row it
  took.
\<close>
theorem registration_batch_contract:
  assumes "registration_table_ok email_str rows" and "0 < n" and "t < e" and "tz_aware e" and "tz_aware ts"
  shows "\<exists>ops rows'. registration_claim_batch email_str lk ow t e n ts rows = Inr (ops, rows') \<and>
     length ops \<le> nat n \<and> sorted (map registration_order ops) \<and> set ops \<subseteq> set rows' \<and>
     (\<forall>op \<in> set ops. registration_owned ow t op \<and>
        (\<exists>r \<in> set rows. op = registration_grant ow e ts r \<and> registration_eligible t r \<and> \<not> lk (r_id r) \<and>
           (\<forall>q \<in> set rows. registration_eligible t q \<and> \<not> lk (r_id q) \<and>
               registration_order q < registration_order r \<longrightarrow>
               registration_grant ow e ts q \<in> set ops)))"
proof -
  let ?el = "\<lambda>r. registration_eligible t r \<and> \<not> lk (r_id r)"
  let ?g = "registration_grant ow e ts"
  define ids where ids: "ids = map r_id (take_ordered registration_order (nat n) ?el rows)"
  let ?p = "\<lambda>r. r_id r \<in> set ids"
  let ?ops = "sort_key registration_order (returning ?p ?g rows)"
  note dist = registration_table_okD(1) [OF assms(1)]
  have len: "length ?ops \<le> nat n"
    unfolding ids using taken_length [OF dist] by (simp add: returning_def)
  have batch: "registration_owned ow t op \<and>
        (\<exists>r \<in> set rows. op = ?g r \<and> registration_eligible t r \<and> \<not> lk (r_id r) \<and>
           (\<forall>q \<in> set rows. registration_eligible t q \<and> \<not> lk (r_id q) \<and>
               registration_order q < registration_order r \<longrightarrow> ?g q \<in> set ?ops))"
    if mem: "op \<in> set ?ops" for op
  proof -
    obtain r where r: "r \<in> set rows" "?p r" and op: "op = ?g r" using mem by (auto simp: returning_def)
    have "registration_owned ow t op"
      unfolding op using assms(3) by (simp add: registration_owned_def registration_grant_def)
    moreover have "?el r" using taken_keys [OF dist r(1) r(2) [unfolded ids]] .
    moreover have "?g q \<in> set ?ops" if "q \<in> set rows" "?el q" "registration_order q < registration_order r" for q
      using taken_first [OF dist r(1) r(2) [unfolded ids] that] that(1)
      by (auto simp: returning_def ids)
    ultimately show ?thesis using r(1) op by blast
  qed
  have "set ?ops \<subseteq> set (update_where ?p ?g rows)"
    by (auto simp: returning_def in_set_update_where)
  then show ?thesis
    using registration_claim_batch_result [OF assms ids] len batch
    by (intro exI [of _ ?ops] exI [of _ "update_where ?p ?g rows"] conjI ballI) simp_all
qed

subsection \<open>Witnesses\<close>

definition sample_email_str :: "string \<Rightarrow> string option" where
  "sample_email_str s = (if CHR ''@'' \<in> set s then Some s else None)"

definition sample_operation :: registration_operation where
  "sample_operation =
     \<lparr>r_id = 10, r_user_id = 20, r_email = ''a@b.c'', r_password_hash = Some ''h'',
      r_key_hash = replicate 32 0, r_status = R_PENDING, r_attempts = 0,
      r_available_at = Datetime 5 True, r_claim_token = None, r_claim_expires_at = None,
      r_last_error_class = None, r_terminal_at = None, r_redrive_count = 0,
      r_created_at = Datetime 5 True, r_updated_at = None\<rparr>"

definition sample_claimed :: registration_operation where
  "sample_claimed = registration_grant 7 (Datetime 50 True) (Datetime 9 True) sample_operation"

definition sample_completed :: registration_operation where
  "sample_completed = set_completed (Datetime 20 True) (Datetime 20 True) sample_claimed"

lemmas sample_operation_defs = sample_operation_def sample_claimed_def sample_completed_def
  registration_grant_def set_completed_def

lemma sample_operation_ok: "registration_table_ok sample_email_str [sample_operation]"
  by (simp add: registration_table_ok_def registration_row_ok_iff registration_row_defs
      sample_operation_def NormalizedEmail_def casefold_def sample_email_str_def)

lemma sample_claimed_ok: "registration_table_ok sample_email_str [sample_claimed]"
  by (simp add: registration_table_ok_def registration_row_ok_iff registration_row_defs
      sample_operation_defs NormalizedEmail_def casefold_def sample_email_str_def)

lemma sample_create:
  "try_create sample_email_str sample_operation [] = Inr (Some sample_operation, [sample_operation])"
  using registration_table_okD(5) [OF sample_operation_ok, of sample_operation]
  by (simp add: try_create_def registration_row_ok_to_domain registration_row_ok_iff)

lemma sample_complete:
  "complete 10 7 (Datetime 20 True) (Datetime 20 True) [sample_claimed] = Inr (True, [sample_completed])"
  by (simp add: complete_def update_flag_def update_one_def returning_def registration_owned_def
      sample_operation_defs)

lemma sample_registration_history:
  "(registration_step sample_email_str)\<^sup>*\<^sup>* [] [sample_completed]"
proof -
  have "registration_step sample_email_str [] [sample_operation]"
    using sample_create registration_table_okD(5) [OF sample_operation_ok, of sample_operation]
    by (auto intro: reg_create simp: registration_row_ok_def)
  moreover have "registration_claim sample_email_str (\<lambda>r. r_key_hash r = replicate 32 0) 7
      (Datetime 9 True) (Datetime 50 True) (Datetime 9 True) [sample_operation] =
      Inr (Some sample_claimed, [sample_claimed])"
    using registration_claim_result [OF sample_operation_ok, of "Datetime 9 True" "Datetime 50 True"
        "Datetime 9 True" "replicate 32 0" 7]
    by (simp add: claim_by_key_hash_def registration_eligible_def sample_operation_defs)
  then have "registration_step sample_email_str [sample_operation] [sample_claimed]"
    by (rule reg_claim) simp_all
  moreover have "registration_step sample_email_str [sample_claimed] [sample_completed]"
    using sample_complete by (rule reg_complete) simp_all
  ultimately show ?thesis by (meson converse_rtranclp_into_rtranclp rtranclp.rtrancl_refl)
qed

theorem registration_history_invariant_witness:
  "(registration_step sample_email_str)\<^sup>*\<^sup>* [] [sample_completed] \<and>
   (r_password_hash sample_completed = None \<longleftrightarrow> r_status sample_completed = R_COMPLETED)"
  using registration_history_invariant [OF sample_registration_history] sample_registration_history
  by simp

theorem completed_registration_is_final_witness:
  "sample_completed \<in> set [sample_completed] \<and> r_status sample_completed = R_COMPLETED"
  using completed_registration_is_final [OF sample_registration_history rtranclp.rtrancl_refl,
      of sample_completed]
  by (simp add: sample_completed_def set_completed_def)

theorem registration_lease_exclusive_witness:
  "complete 10 8 (Datetime 20 True) (Datetime 20 True) [sample_claimed] = Inr (False, [sample_claimed]) \<and>
   sample_claimed \<in> set [sample_claimed]"
proof -
  have eq: "complete 10 8 (Datetime 20 True) (Datetime 20 True) [sample_claimed] =
      Inr (False, [sample_claimed])"
    by (simp add: complete_def update_flag_def update_one_def returning_def registration_owned_def
        sample_operation_defs)
  moreover have "sample_claimed \<in> set [sample_claimed]"
    using registration_lease_exclusive [OF sample_claimed_ok, of sample_claimed 7 "Datetime 50 True"
      "Datetime 20 True" 8] eq
    by (simp add: sample_operation_defs)
  ultimately show ?thesis by blast
qed

theorem registration_settled_once_witness:
  "complete 10 7 (Datetime 20 True) (Datetime 20 True) [sample_claimed] = Inr (True, [sample_completed]) \<and>
   block 10 7 (Datetime 21 True) ''X'' (Datetime 21 True) [sample_completed] =
     Inr (False, [sample_completed])"
  using registration_settled_once [OF sample_claimed_ok insertI1 insertI2 [OF insertI2 [OF insertI1]]
      sample_complete] sample_complete
  by blast

theorem registration_batch_contract_witness:
  "\<exists>ops rows'. registration_claim_batch sample_email_str (\<lambda>_. False) 7 (Datetime 9 True)
     (Datetime 50 True) 5 (Datetime 9 True) [sample_operation] = Inr (ops, rows') \<and>
     length ops \<le> 5 \<and> sorted (map registration_order ops)"
  using registration_batch_contract [OF sample_operation_ok, of 5 "Datetime 9 True" "Datetime 50 True"
      "Datetime 9 True" "\<lambda>_. False" 7]
  by fastforce

end
