(* ===== verification/Events.thy ===== *)
theory Events
  imports Errors
begin

section \<open>Integration events\<close>

text \<open>
  \<open>application/ports/events\<close>: the event \<open>identity.user_registered.v1\<close> and its envelope, with what
  it uses of the standard library: \<open>str(uuid.UUID)\<close>, \<open>datetime.isoformat\<close> of an aware UTC value
  or a naive one, and JSON values. A JSON object keeps the order of its Python dictionary.
\<close>

subsection \<open>Text of identifiers and timestamps\<close>

definition hex_digit :: "nat \<Rightarrow> char" where
  "hex_digit d = (if d < 10 then char_of (48 + d) else char_of (87 + d))"

text \<open>The \<open>k\<close> lowest digits of a number in a base, most significant first.\<close>

fun digits :: "nat \<Rightarrow> nat \<Rightarrow> nat \<Rightarrow> nat list" where
  "digits b 0 n = []"
| "digits b (Suc k) n = digits b k (n div b) @ [n mod b]"

definition uuid_str :: "uuid \<Rightarrow> string" where
  "uuid_str u =
     (let h = map hex_digit (digits 16 32 u)
      in take 8 h @ ''-'' @ take 4 (drop 8 h) @ ''-'' @ take 4 (drop 12 h) @ ''-'' @
         take 4 (drop 16 h) @ ''-'' @ drop 20 h)"

definition decimal :: "nat \<Rightarrow> nat \<Rightarrow> string" where
  "decimal k n = map hex_digit (digits 10 k n)"

text \<open>The proleptic Gregorian date of a number of days since 1970-01-01.\<close>

definition civil_from_days :: "int \<Rightarrow> int \<times> int \<times> int" where
  "civil_from_days days =
     (let z = days + 719468;
          era = z div 146097;
          doe = z mod 146097;
          yoe = (doe - doe div 1460 + doe div 36524 - doe div 146096) div 365;
          doy = doe - (365 * yoe + yoe div 4 - yoe div 100);
          mp = (5 * doy + 2) div 153;
          d = doy - (153 * mp + 2) div 5 + 1;
          m = (if mp < 10 then mp + 3 else mp - 9);
          y = yoe + era * 400 + (if m \<le> 2 then 1 else 0)
      in (y, m, d))"

definition isoformat :: "datetime \<Rightarrow> string" where
  "isoformat t =
     (let (y, m, d) = civil_from_days (instant t div 86400000000);
          us = nat (instant t mod 86400000000);
          sec = us div 1000000;
          frac = us mod 1000000
      in decimal 4 (nat y) @ ''-'' @ decimal 2 (nat m) @ ''-'' @ decimal 2 (nat d) @ ''T'' @
         decimal 2 (sec div 3600) @ '':'' @ decimal 2 (sec div 60 mod 60) @ '':'' @
         decimal 2 (sec mod 60) @ (if frac = 0 then [] else ''.'' @ decimal 6 frac) @
         (if tz_aware t then ''+00:00'' else []))"

subsection \<open>JSON\<close>

datatype json =
    JNull | JBool bool | JInt int | JStr string | JList "json list" | JObj "(string \<times> json) list"

definition json_field :: "string \<Rightarrow> json \<Rightarrow> json option" where
  "json_field k j = (case j of JObj fs \<Rightarrow> map_of fs k | _ \<Rightarrow> None)"

subsection \<open>\<open>UserRegisteredEvent\<close>\<close>

record user_registered_event =
  e_user_id :: uuid
  e_registered_at :: datetime
  e_correlation_id :: uuid
  e_causation_id :: "uuid option"
  e_event_id :: uuid

definition event_type :: "user_registered_event \<Rightarrow> string" where
  "event_type e = ''identity.user_registered.v1''"

definition partition_key :: "user_registered_event \<Rightarrow> string" where
  "partition_key e = uuid_str (e_user_id e)"

definition occurred_at :: "user_registered_event \<Rightarrow> datetime" where
  "occurred_at e = e_registered_at e"

definition to_envelope_dict :: "string \<Rightarrow> user_registered_event \<Rightarrow> json" where
  "to_envelope_dict producer e =
     JObj [(''eventId'', JStr (uuid_str (e_event_id e))),
           (''eventType'', JStr (event_type e)),
           (''schemaVersion'', JInt 1),
           (''occurredAt'', JStr (isoformat (occurred_at e))),
           (''producer'', JStr producer),
           (''correlationId'', JStr (uuid_str (e_correlation_id e))),
           (''causationId'', JStr (uuid_str
              (case e_causation_id e of Some c \<Rightarrow> c | None \<Rightarrow> e_correlation_id e))),
           (''payload'', JObj
              [(''userId'', JStr (uuid_str (e_user_id e))),
               (''registeredAt'', JStr (isoformat (e_registered_at e)))])]"

subsection \<open>Lemmas\<close>

lemma length_digits [simp]: "length (digits b k n) = k"
  by (induction b k n rule: digits.induct) auto

lemma digits_bound: "0 < b \<Longrightarrow> d \<in> set (digits b k n) \<Longrightarrow> d < b"
  by (induction b k n rule: digits.induct) auto

fun from_digits :: "nat \<Rightarrow> nat list \<Rightarrow> nat" where
  "from_digits b [] = 0"
| "from_digits b (d # ds) = d * b ^ length ds + from_digits b ds"

lemma from_digits_snoc: "from_digits b (ds @ [d]) = from_digits b ds * b + d"
  by (induction ds) (auto simp: algebra_simps)

lemma from_digits_digits: "from_digits b (digits b k n) = n mod b ^ k"
proof (induction b k n rule: digits.induct)
  case (2 b k n)
  then show ?case by (simp add: from_digits_snoc mod_mult2_eq mult.commute)
qed simp

lemma digits_inj: "m < b ^ k \<Longrightarrow> n < b ^ k \<Longrightarrow> digits b k m = digits b k n \<Longrightarrow> m = n"
  by (metis from_digits_digits mod_less)

lemma hex_digit_inj: "a < 16 \<Longrightarrow> b < 16 \<Longrightarrow> hex_digit a = hex_digit b \<Longrightarrow> a = b"
proof -
  assume ab: "a < 16" "b < 16" and eq: "hex_digit a = hex_digit b"
  from ab have "of_char (hex_digit a) = (if a < 10 then 48 + a else 87 + a)"
    "of_char (hex_digit b) = (if b < 10 then 48 + b else 87 + b)"
    by (simp_all add: hex_digit_def)
  then have "(if a < 10 then 48 + a else 87 + a) = (if b < 10 then 48 + b else 87 + b)"
    unfolding eq by simp
  with ab show "a = b" by (simp split: if_splits)
qed

lemma drop_split: "drop n xs = take k (drop n xs) @ drop (n + k) xs"
  by (metis add.commute append_take_drop_id drop_drop)

text \<open>The text of a UUID has 36 characters and determines it.\<close>

lemma length_uuid_str [simp]: "length (uuid_str u) = 36"
  by (simp add: uuid_str_def Let_def)

lemma uuid_str_inj:
  assumes "u < 2 ^ 128" and "v < 2 ^ 128" and "uuid_str u = uuid_str v"
  shows "u = v"
proof -
  let ?h = "\<lambda>u. map hex_digit (digits 16 32 u)"
  have parts: "?h w = take 8 (?h w) @ take 4 (drop 8 (?h w)) @ take 4 (drop 12 (?h w)) @
      take 4 (drop 16 (?h w)) @ drop 20 (?h w)" for w
    using drop_split [of 0 "?h w" 8] drop_split [of 8 "?h w" 4] drop_split [of 12 "?h w" 4]
      drop_split [of 16 "?h w" 4] by simp
  have "take 8 (?h u) = take 8 (?h v) \<and> take 4 (drop 8 (?h u)) = take 4 (drop 8 (?h v)) \<and>
      take 4 (drop 12 (?h u)) = take 4 (drop 12 (?h v)) \<and>
      take 4 (drop 16 (?h u)) = take 4 (drop 16 (?h v)) \<and> drop 20 (?h u) = drop 20 (?h v)"
    using assms(3) unfolding uuid_str_def Let_def by (simp add: append_eq_append_conv)
  then have "?h u = ?h v" using parts by metis
  then have "digits 16 32 u = digits 16 32 v"
    by (rule map_inj_on) (auto intro!: inj_onI hex_digit_inj dest: digits_bound [rotated])
  moreover have "(16::nat) ^ 32 = 2 ^ 128" by simp
  ultimately show ?thesis using digits_inj assms(1,2) by metis
qed

end
