(* ===== verification/Outbox_Store.thy ===== *)
theory Outbox_Store
  imports Store Events
begin

section \<open>The transactional outbox\<close>

text \<open>
  \<open>application/ports/dto/outbox.py\<close>, the table of \<open>infrastructure/database/models/outbox.py\<close> and
  the repository \<open>infrastructure/database/repositories/outbox_repository.py\<close>.

  As for registrations, a row has the fields of the DTO and a method is a function on the table.
  \<open>locked\<close> tells which rows another transaction has locked and \<open>ts\<close> is the \<open>now()\<close> that \<open>onupdate\<close>
  writes. \<open>publish\<close> only adds the object to the session; its insert is flushed before the next
  statement or at the commit of the same transaction, so the model inserts at once.
\<close>

subsection \<open>Data\<close>

datatype outbox_status = O_PENDING | O_CLAIMED | O_SUCCESS | O_QUARANTINED

datatype outbox_kind = KIND_COMMAND | KIND_EVENT

record outbox_message =
  o_id :: uuid
  o_kind :: outbox_kind
  o_topic :: string
  o_key :: string
  o_type :: string
  o_payload :: json
  o_status :: outbox_status
  o_attempts :: int
  o_last_error_class :: "string option"
  o_available_at :: datetime
  o_claim_token :: "uuid option"
  o_claim_expires_at :: "datetime option"
  o_terminal_at :: "datetime option"
  o_redrive_count :: int
  o_created_at :: datetime
  o_updated_at :: "datetime option"

type_synonym outbox_table = "outbox_message list"

definition opt_aware :: "datetime option \<Rightarrow> bool" where
  "opt_aware t = (case t of None \<Rightarrow> True | Some t \<Rightarrow> tz_aware t)"

definition outbox_lifecycle :: "outbox_message \<Rightarrow> bool" where
  "outbox_lifecycle m \<longleftrightarrow>
     (let has_claim = o_claim_token m \<noteq> None; has_claim_expiration = o_claim_expires_at m \<noteq> None in
      tz_aware (o_available_at m) \<and> opt_aware (o_claim_expires_at m) \<and> opt_aware (o_terminal_at m) \<and>
      has_claim = has_claim_expiration \<and>
      (if o_status m = O_CLAIMED then has_claim \<and> o_terminal_at m = None else \<not> has_claim) \<and>
      (if o_status m = O_SUCCESS \<or> o_status m = O_QUARANTINED then o_terminal_at m \<noteq> None
       else o_terminal_at m = None))"

definition outbox_entity_timestamps :: "outbox_message \<Rightarrow> bool" where
  "outbox_entity_timestamps m \<longleftrightarrow> tz_aware (o_created_at m) \<and> opt_aware (o_updated_at m)"

definition OutboxMessage :: "outbox_message \<Rightarrow> exn + outbox_message" where
  "OutboxMessage m =
     (if o_attempts m < 0 \<or> o_redrive_count m < 0 then Inl ValidationError
      else if \<not> outbox_lifecycle m \<or> \<not> outbox_entity_timestamps m then Inl ValidationError
      else Inr m)"

subsection \<open>The table\<close>

definition outbox_widths :: "outbox_message \<Rightarrow> bool" where
  "outbox_widths m \<longleftrightarrow>
     length (o_topic m) \<le> 255 \<and> length (o_key m) \<le> 255 \<and> length (o_type m) \<le> 100 \<and>
     (case o_last_error_class m of None \<Rightarrow> True | Some c \<Rightarrow> length c \<le> 255)"

definition outbox_checks :: "outbox_message \<Rightarrow> bool" where
  "outbox_checks m \<longleftrightarrow>
     (o_status m = O_PENDING \<and> o_claim_token m = None \<and> o_claim_expires_at m = None \<and>
        o_terminal_at m = None \<or>
      o_status m = O_CLAIMED \<and> o_claim_token m \<noteq> None \<and> o_claim_expires_at m \<noteq> None \<and>
        o_terminal_at m = None \<or>
      (o_status m = O_SUCCESS \<or> o_status m = O_QUARANTINED) \<and> o_claim_token m = None \<and>
        o_claim_expires_at m = None \<and> o_terminal_at m \<noteq> None) \<and>
     0 \<le> o_attempts m \<and> 0 \<le> o_redrive_count m"

subsection \<open>Repository\<close>

definition outbox_to_domain :: "outbox_message \<Rightarrow> exn + outbox_message" where
  "outbox_to_domain row =
     (case OutboxMessage row of
        Inl e \<Rightarrow> (if isinstance e InvalidDomainStateError \<or> isinstance e ValidationError
                  then Inl StoredStateError else Inl e)
      | Inr m \<Rightarrow> Inr m)"

definition outbox_row :: "string \<Rightarrow> string \<Rightarrow> user_registered_event \<Rightarrow> outbox_message" where
  "outbox_row topic producer event =
     \<lparr>o_id = e_event_id event, o_kind = KIND_EVENT, o_topic = topic,
      o_key = partition_key event, o_type = event_type event,
      o_payload = to_envelope_dict producer event, o_status = O_PENDING, o_attempts = 0,
      o_last_error_class = None, o_available_at = occurred_at event, o_claim_token = None,
      o_claim_expires_at = None, o_terminal_at = None, o_redrive_count = 0,
      o_created_at = occurred_at event, o_updated_at = None\<rparr>"

definition publish ::
    "string \<Rightarrow> string \<Rightarrow> user_registered_event \<Rightarrow> outbox_table \<Rightarrow> exn + unit \<times> outbox_table" where
  "publish topic producer event rows =
     (let row = outbox_row topic producer event in
      if \<not> outbox_widths row then Inl value_too_long
      else if list_ex (\<lambda>r. o_id r = o_id row) rows then Inl unique_violation
      else Inr ((), rows @ [row]))"

text \<open>\<open>earlier_position\<close>: creation time, then identifier.\<close>

definition outbox_order :: "outbox_message \<Rightarrow> datetime \<times> uuid" where
  "outbox_order m = (o_created_at m, o_id m)"

definition earlier_position :: "outbox_message \<Rightarrow> outbox_message \<Rightarrow> bool" where
  "earlier_position earlier candidate \<longleftrightarrow>
     o_created_at earlier < o_created_at candidate \<or>
     o_created_at earlier = o_created_at candidate \<and> o_id earlier < o_id candidate"

definition unfinished :: "outbox_message \<Rightarrow> bool" where
  "unfinished m \<longleftrightarrow> o_status m = O_PENDING \<or> o_status m = O_CLAIMED"

definition has_earlier_nonterminal_for_key :: "outbox_table \<Rightarrow> outbox_message \<Rightarrow> bool" where
  "has_earlier_nonterminal_for_key rows candidate =
     list_ex (\<lambda>earlier. o_key earlier = o_key candidate \<and> unfinished earlier \<and>
                earlier_position earlier candidate) rows"

definition outbox_eligible :: "datetime \<Rightarrow> outbox_message \<Rightarrow> bool" where
  "outbox_eligible claimed_at m \<longleftrightarrow>
     o_status m = O_PENDING \<and> o_available_at m \<le> claimed_at \<or>
     o_status m = O_CLAIMED \<and>
       (case o_claim_expires_at m of None \<Rightarrow> False | Some t \<Rightarrow> t \<le> claimed_at)"

definition outbox_grant :: "uuid \<Rightarrow> datetime \<Rightarrow> datetime \<Rightarrow> outbox_message \<Rightarrow> outbox_message" where
  "outbox_grant owner_token claim_expires_at ts m =
     m\<lparr>o_status := O_CLAIMED, o_claim_token := Some owner_token,
       o_claim_expires_at := Some claim_expires_at, o_terminal_at := None, o_updated_at := Some ts\<rparr>"

definition claimable_ids :: "(uuid \<Rightarrow> bool) \<Rightarrow> datetime \<Rightarrow> int \<Rightarrow> outbox_table \<Rightarrow> uuid list" where
  "claimable_ids locked claimed_at limit rows =
     map o_id (take_ordered outbox_order (nat limit)
       (\<lambda>m. outbox_eligible claimed_at m \<and> \<not> has_earlier_nonterminal_for_key rows m \<and>
            \<not> locked (o_id m)) rows)"

definition outbox_claim_batch ::
    "(uuid \<Rightarrow> bool) \<Rightarrow> uuid \<Rightarrow> datetime \<Rightarrow> datetime \<Rightarrow> int \<Rightarrow> datetime \<Rightarrow> outbox_table
     \<Rightarrow> exn + outbox_message list \<times> outbox_table" where
  "outbox_claim_batch locked owner_token claimed_at claim_expires_at limit ts rows =
     (if limit \<le> 0 then Inl ValueError
      else if claim_expires_at \<le> claimed_at then Inl ValueError
      else
        let ids = claimable_ids locked claimed_at limit rows;
            p = (\<lambda>m. o_id m \<in> set ids);
            f = outbox_grant owner_token claim_expires_at ts
        in bind_res (map_res outbox_to_domain (sort_key outbox_order (returning p f rows)))
             (\<lambda>ms. Inr (ms, update_where p f rows)))"

text \<open>The guard of the statements that settle a claimed message; unlike for registrations it does
  not look at the expiry of the claim, hence the unused time.\<close>

definition outbox_owned :: "uuid \<Rightarrow> datetime \<Rightarrow> outbox_message \<Rightarrow> bool" where
  "outbox_owned owner_token t m \<longleftrightarrow> o_status m = O_CLAIMED \<and> o_claim_token m = Some owner_token"

definition set_published :: "datetime \<Rightarrow> datetime \<Rightarrow> outbox_message \<Rightarrow> outbox_message" where
  "set_published published_at ts m =
     m\<lparr>o_status := O_SUCCESS, o_attempts := o_attempts m + 1, o_last_error_class := None,
       o_claim_token := None, o_claim_expires_at := None, o_terminal_at := Some published_at,
       o_updated_at := Some ts\<rparr>"

definition finalize_published ::
    "uuid \<Rightarrow> uuid \<Rightarrow> datetime \<Rightarrow> datetime \<Rightarrow> outbox_table \<Rightarrow> exn + bool \<times> outbox_table" where
  "finalize_published message_id owner_token published_at ts rows =
     update_flag (\<lambda>m. o_id m = message_id \<and> outbox_owned owner_token published_at m)
       (set_published published_at ts) rows"

definition set_outbox_retry ::
    "datetime \<Rightarrow> string \<Rightarrow> datetime \<Rightarrow> outbox_message \<Rightarrow> outbox_message" where
  "set_outbox_retry available_at error_class ts m =
     m\<lparr>o_status := O_PENDING, o_attempts := o_attempts m + 1,
       o_last_error_class := Some error_class, o_available_at := available_at,
       o_claim_token := None, o_claim_expires_at := None, o_terminal_at := None,
       o_updated_at := Some ts\<rparr>"

definition outbox_schedule_retry ::
    "uuid \<Rightarrow> uuid \<Rightarrow> datetime \<Rightarrow> string \<Rightarrow> datetime \<Rightarrow> outbox_table \<Rightarrow> exn + bool \<times> outbox_table" where
  "outbox_schedule_retry message_id owner_token available_at error_class ts rows =
     update_flag (\<lambda>m. o_id m = message_id \<and> outbox_owned owner_token available_at m)
       (set_outbox_retry available_at error_class ts) rows"

definition set_quarantined :: "datetime \<Rightarrow> string \<Rightarrow> datetime \<Rightarrow> outbox_message \<Rightarrow> outbox_message" where
  "set_quarantined quarantined_at error_class ts m =
     m\<lparr>o_status := O_QUARANTINED, o_attempts := o_attempts m + 1,
       o_last_error_class := Some error_class, o_claim_token := None, o_claim_expires_at := None,
       o_terminal_at := Some quarantined_at, o_updated_at := Some ts\<rparr>"

definition quarantine ::
    "uuid \<Rightarrow> uuid \<Rightarrow> datetime \<Rightarrow> string \<Rightarrow> datetime \<Rightarrow> outbox_table \<Rightarrow> exn + bool \<times> outbox_table" where
  "quarantine message_id owner_token quarantined_at error_class ts rows =
     update_flag (\<lambda>m. o_id m = message_id \<and> outbox_owned owner_token quarantined_at m)
       (set_quarantined quarantined_at error_class ts) rows"

definition later_exists :: "uuid \<Rightarrow> outbox_table \<Rightarrow> bool" where
  "later_exists message_id rows =
     list_ex (\<lambda>target. o_id target = message_id \<and>
        list_ex (\<lambda>later. o_key later = o_key target \<and> earlier_position target later) rows) rows"

definition set_outbox_redriven :: "datetime \<Rightarrow> datetime \<Rightarrow> outbox_message \<Rightarrow> outbox_message" where
  "set_outbox_redriven available_at ts m =
     m\<lparr>o_status := O_PENDING, o_attempts := 0, o_last_error_class := None,
       o_available_at := available_at, o_claim_token := None, o_claim_expires_at := None,
       o_terminal_at := None, o_redrive_count := o_redrive_count m + 1, o_updated_at := Some ts\<rparr>"

definition redrive_quarantined ::
    "uuid \<Rightarrow> datetime \<Rightarrow> datetime \<Rightarrow> outbox_table \<Rightarrow> exn + bool \<times> outbox_table" where
  "redrive_quarantined message_id available_at ts rows =
     update_flag (\<lambda>m. o_id m = message_id \<and> o_status m = O_QUARANTINED \<and>
                    \<not> later_exists message_id rows)
       (set_outbox_redriven available_at ts) rows"

definition terminal_before :: "datetime \<Rightarrow> outbox_message \<Rightarrow> bool" where
  "terminal_before cutoff m \<longleftrightarrow>
     (o_status m = O_SUCCESS \<or> o_status m = O_QUARANTINED) \<and>
     (case o_terminal_at m of None \<Rightarrow> False | Some t \<Rightarrow> t < cutoff)"

definition cleanup_order :: "outbox_message \<Rightarrow> datetime \<times> datetime \<times> uuid" where
  "cleanup_order m =
     (case o_terminal_at m of
        None \<Rightarrow> (o_created_at m, o_created_at m, o_id m)  \<comment> \<open>not among the candidates\<close>
      | Some t \<Rightarrow> (t, o_created_at m, o_id m))"

definition delete_terminal_before ::
    "(uuid \<Rightarrow> bool) \<Rightarrow> datetime \<Rightarrow> int \<Rightarrow> outbox_table \<Rightarrow> exn + nat \<times> outbox_table" where
  "delete_terminal_before locked terminal_at limit rows =
     (if limit \<le> 0 then Inl ValueError
      else
        let ids = map o_id (take_ordered cleanup_order (nat limit)
              (\<lambda>m. terminal_before terminal_at m \<and> \<not> locked (o_id m)) rows)
        in Inr (length (filter (\<lambda>m. o_id m \<in> set ids) rows),
                filter (\<lambda>m. o_id m \<notin> set ids) rows))"

subsection \<open>Histories of the table\<close>

text \<open>
  One committed statement of any process. The events of one key are published in the order of
  their positions, each with a fresh identifier; that is what the order of delivery rests on.
\<close>

definition published_last :: "outbox_message \<Rightarrow> outbox_table \<Rightarrow> bool" where
  "published_last m rows = list_all (\<lambda>r. o_key r = o_key m \<longrightarrow> earlier_position r m) rows"

inductive outbox_step :: "outbox_table \<Rightarrow> outbox_table \<Rightarrow> bool" where
  out_publish: "publish topic producer event rows = Inr ((), rows') \<Longrightarrow>
     published_last (outbox_row topic producer event) rows \<Longrightarrow> tz_aware (occurred_at event) \<Longrightarrow>
     outbox_step rows rows'"
| out_claim: "outbox_claim_batch lk ow t e n ts rows = Inr (ms, rows') \<Longrightarrow>
     tz_aware e \<Longrightarrow> tz_aware ts \<Longrightarrow> outbox_step rows rows'"
| out_finalize: "finalize_published i ow t ts rows = Inr (b, rows') \<Longrightarrow>
     tz_aware t \<Longrightarrow> tz_aware ts \<Longrightarrow> outbox_step rows rows'"
| out_retry: "outbox_schedule_retry i ow a c ts rows = Inr (b, rows') \<Longrightarrow>
     tz_aware a \<Longrightarrow> tz_aware ts \<Longrightarrow> length c \<le> 255 \<Longrightarrow> outbox_step rows rows'"
| out_quarantine: "quarantine i ow t c ts rows = Inr (b, rows') \<Longrightarrow>
     tz_aware t \<Longrightarrow> tz_aware ts \<Longrightarrow> length c \<le> 255 \<Longrightarrow> outbox_step rows rows'"
| out_redrive: "redrive_quarantined i a ts rows = Inr (b, rows') \<Longrightarrow>
     tz_aware a \<Longrightarrow> tz_aware ts \<Longrightarrow> outbox_step rows rows'"
| out_cleanup: "delete_terminal_before lk t n rows = Inr (k, rows') \<Longrightarrow> outbox_step rows rows'"

definition outbox_row_ok :: "outbox_message \<Rightarrow> bool" where
  "outbox_row_ok m \<longleftrightarrow> outbox_checks m \<and> outbox_widths m \<and> OutboxMessage m = Inr m"

definition outbox_ordered :: "outbox_table \<Rightarrow> bool" where
  "outbox_ordered rows \<longleftrightarrow>
     (\<forall>q \<in> set rows. \<forall>m \<in> set rows. o_key q = o_key m \<longrightarrow> earlier_position q m \<longrightarrow> unfinished q \<longrightarrow>
        o_status m = O_PENDING)"

definition outbox_table_ok :: "outbox_table \<Rightarrow> bool" where
  "outbox_table_ok rows \<longleftrightarrow>
     distinct (map o_id rows) \<and> list_all outbox_row_ok rows \<and> outbox_ordered rows"

subsection \<open>Row invariant\<close>

lemma outbox_row_ok_iff:
  "outbox_row_ok m \<longleftrightarrow>
     outbox_checks m \<and> outbox_widths m \<and> tz_aware (o_available_at m) \<and> tz_aware (o_created_at m) \<and>
     opt_aware (o_claim_expires_at m) \<and> opt_aware (o_terminal_at m) \<and> opt_aware (o_updated_at m)"
  unfolding outbox_row_ok_def OutboxMessage_def outbox_lifecycle_def outbox_entity_timestamps_def
    outbox_checks_def Let_def
  by (cases "o_status m") auto

lemma opt_aware_simps [simp]: "opt_aware None" "opt_aware (Some t) \<longleftrightarrow> tz_aware t"
  by (simp_all add: opt_aware_def)

lemma outbox_row_ok_to_domain: "outbox_row_ok m \<Longrightarrow> outbox_to_domain m = Inr m"
  by (simp add: outbox_row_ok_def outbox_to_domain_def)

lemmas outbox_row_defs = outbox_row_ok_iff outbox_checks_def outbox_widths_def

lemma outbox_grant_ok:
  "outbox_row_ok m \<Longrightarrow> tz_aware e \<Longrightarrow> tz_aware ts \<Longrightarrow> outbox_row_ok (outbox_grant ow e ts m)"
  by (auto simp: outbox_row_defs outbox_grant_def)

lemma set_published_ok:
  "outbox_row_ok m \<Longrightarrow> tz_aware t \<Longrightarrow> tz_aware ts \<Longrightarrow> outbox_row_ok (set_published t ts m)"
  by (auto simp: outbox_row_defs set_published_def)

lemma set_outbox_retry_ok:
  "outbox_row_ok m \<Longrightarrow> tz_aware a \<Longrightarrow> tz_aware ts \<Longrightarrow> length c \<le> 255 \<Longrightarrow>
   outbox_row_ok (set_outbox_retry a c ts m)"
  by (auto simp: outbox_row_defs set_outbox_retry_def)

lemma set_quarantined_ok:
  "outbox_row_ok m \<Longrightarrow> tz_aware t \<Longrightarrow> tz_aware ts \<Longrightarrow> length c \<le> 255 \<Longrightarrow>
   outbox_row_ok (set_quarantined t c ts m)"
  by (auto simp: outbox_row_defs set_quarantined_def)

lemma set_outbox_redriven_ok:
  "outbox_row_ok m \<Longrightarrow> tz_aware a \<Longrightarrow> tz_aware ts \<Longrightarrow> outbox_row_ok (set_outbox_redriven a ts m)"
  by (auto simp: outbox_row_defs set_outbox_redriven_def)

lemma outbox_row_row_ok:
  "outbox_widths (outbox_row topic producer event) \<Longrightarrow> tz_aware (occurred_at event) \<Longrightarrow>
   outbox_row_ok (outbox_row topic producer event)"
  by (simp add: outbox_row_ok_iff outbox_checks_def outbox_row_def)

subsection \<open>Table invariant\<close>

definition outbox_position :: "outbox_message \<Rightarrow> uuid \<times> string \<times> datetime" where
  "outbox_position m = (o_id m, o_key m, o_created_at m)"

lemma outbox_setters_position [simp]:
  "outbox_position (outbox_grant ow e ts m) = outbox_position m"
  "outbox_position (set_published t ts m) = outbox_position m"
  "outbox_position (set_outbox_retry a c ts m) = outbox_position m"
  "outbox_position (set_quarantined t c ts m) = outbox_position m"
  "outbox_position (set_outbox_redriven a ts m) = outbox_position m"
  by (simp_all add: outbox_position_def outbox_grant_def set_published_def set_outbox_retry_def
      set_quarantined_def set_outbox_redriven_def)

lemma earlier_position_order: "earlier_position q m \<longleftrightarrow> outbox_order q < outbox_order m"
  by (auto simp: earlier_position_def outbox_order_def)

lemma position_order: "outbox_position q = outbox_position m \<Longrightarrow> outbox_order q = outbox_order m"
  by (simp add: outbox_position_def outbox_order_def)

lemma outbox_table_okD:
  assumes "outbox_table_ok rows"
  shows "distinct (map o_id rows)" and "m \<in> set rows \<Longrightarrow> outbox_row_ok m" and "outbox_ordered rows"
  using assms by (auto simp: outbox_table_ok_def list_all_iff)

text \<open>
  An update keeps the order of delivery when it revives no finished message that has a successor
  and lets no message leave the state \<open>PENDING\<close> that has an unfinished predecessor.
\<close>

lemma outbox_ordered_update:
  assumes "outbox_ordered rows"
    and pos: "\<And>m. outbox_position (f m) = outbox_position m"
    and revive: "\<And>m n. m \<in> set rows \<Longrightarrow> p m \<Longrightarrow> unfinished (f m) \<Longrightarrow> \<not> unfinished m \<Longrightarrow>
        n \<in> set rows \<Longrightarrow> o_key n = o_key m \<Longrightarrow> \<not> earlier_position m n"
    and leave: "\<And>m n. m \<in> set rows \<Longrightarrow> p m \<Longrightarrow> o_status m = O_PENDING \<Longrightarrow> o_status (f m) \<noteq> O_PENDING \<Longrightarrow>
        n \<in> set rows \<Longrightarrow> o_key n = o_key m \<Longrightarrow> unfinished n \<Longrightarrow> \<not> earlier_position n m"
  shows "outbox_ordered (update_where p f rows)"
  unfolding outbox_ordered_def
proof (intro ballI impI)
  fix q' m'
  assume "q' \<in> set (update_where p f rows)" "m' \<in> set (update_where p f rows)"
  then obtain q m where q: "q \<in> set rows" "q' = (if p q then f q else q)"
    and m: "m \<in> set rows" "m' = (if p m then f m else m)"
    by (auto simp: in_set_update_where)
  have eqs: "o_key q' = o_key q" "o_key m' = o_key m" "outbox_order q' = outbox_order q"
    "outbox_order m' = outbox_order m"
    using pos [of q] pos [of m] q m by (auto simp: outbox_position_def outbox_order_def)
  assume "o_key q' = o_key m'" "earlier_position q' m'" and live: "unfinished q'"
  then have qm: "o_key q = o_key m" "earlier_position q m"
    by (simp_all add: eqs earlier_position_order)
  have "unfinished q"
    using revive [OF q(1) _ _ _ m(1)] qm live q(2) by (cases "p q") auto
  with assms(1) q(1) m(1) qm have "o_status m = O_PENDING" by (auto simp: outbox_ordered_def)
  then show "o_status m' = O_PENDING"
    using leave [OF m(1) _ _ _ q(1) qm(1) \<open>unfinished q\<close>] qm(2) m(2) by (cases "p m") auto
qed

lemma outbox_table_ok_update:
  assumes ok: "outbox_table_ok rows"
    and pos: "\<And>m. outbox_position (f m) = outbox_position m"
    and row: "\<And>m. m \<in> set rows \<Longrightarrow> p m \<Longrightarrow> outbox_row_ok m \<Longrightarrow> outbox_row_ok (f m)"
    and ord: "outbox_ordered (update_where p f rows)"
  shows "outbox_table_ok (update_where p f rows)"
proof -
  have "map o_id (update_where p f rows) = map o_id rows"
    by (rule update_where_map_eq) (use pos in \<open>simp add: outbox_position_def\<close>)
  with ok row ord show ?thesis
    by (auto simp: outbox_table_ok_def list_all_iff in_set_update_where)
qed

lemma outbox_settle_ok:
  assumes "outbox_table_ok rows" and "\<And>m. outbox_position (f m) = outbox_position m"
    and "\<And>m. p m \<Longrightarrow> o_status m = O_CLAIMED"
    and "\<And>m. outbox_row_ok m \<Longrightarrow> outbox_row_ok (f m)"
  shows "outbox_table_ok (update_where p f rows)"
proof (rule outbox_table_ok_update)
  show "outbox_ordered (update_where p f rows)"
    by (rule outbox_ordered_update [OF outbox_table_okD(3) [OF assms(1)] assms(2)])
      (auto simp: unfinished_def dest: assms(3))
qed (use assms in auto)

lemma outbox_claim_batch_Inr:
  assumes "outbox_claim_batch lk ow t e n ts rows = Inr (ms, rows')"
  obtains ids where "ids = claimable_ids lk t n rows"
    and "rows' = update_where (\<lambda>m. o_id m \<in> set ids) (outbox_grant ow e ts) rows"
    and "map_res outbox_to_domain (sort_key outbox_order
           (returning (\<lambda>m. o_id m \<in> set ids) (outbox_grant ow e ts) rows)) = Inr ms"
    and "0 < n" and "t < e"
  using assms by (auto simp: outbox_claim_batch_def Let_def bind_res_iffs split: if_splits)

lemma claimable_id:
  assumes "distinct (map o_id rows)" and "m \<in> set rows" and "o_id m \<in> set (claimable_ids lk t n rows)"
  shows "outbox_eligible t m \<and> \<not> has_earlier_nonterminal_for_key rows m \<and> \<not> lk (o_id m)"
  using taken_keys [OF assms(1,2) assms(3) [unfolded claimable_ids_def]] .

lemma claimable_unfinished:
  "distinct (map o_id rows) \<Longrightarrow> m \<in> set rows \<Longrightarrow> o_id m \<in> set (claimable_ids lk t n rows) \<Longrightarrow> unfinished m"
  using claimable_id by (fastforce simp: outbox_eligible_def unfinished_def)

lemma claimable_first:
  "distinct (map o_id rows) \<Longrightarrow> m \<in> set rows \<Longrightarrow> o_id m \<in> set (claimable_ids lk t n rows) \<Longrightarrow>
   q \<in> set rows \<Longrightarrow> o_key q = o_key m \<Longrightarrow> unfinished q \<Longrightarrow> \<not> earlier_position q m"
  using claimable_id by (fastforce simp: has_earlier_nonterminal_for_key_def list_ex_iff)

lemma outbox_claim_ok:
  assumes ok: "outbox_table_ok rows" and "tz_aware e" "tz_aware ts"
  shows "outbox_table_ok (update_where (\<lambda>m. o_id m \<in> set (claimable_ids lk t n rows))
           (outbox_grant ow e ts) rows)"
proof (rule outbox_table_ok_update [OF ok])
  show "outbox_ordered (update_where (\<lambda>m. o_id m \<in> set (claimable_ids lk t n rows))
           (outbox_grant ow e ts) rows)"
    using claimable_unfinished [OF outbox_table_okD(1) [OF ok]]
      claimable_first [OF outbox_table_okD(1) [OF ok]]
    by (intro outbox_ordered_update [OF outbox_table_okD(3) [OF ok]]) auto
qed (use assms outbox_grant_ok in auto)

lemma outbox_redrive_ok:
  assumes ok: "outbox_table_ok rows" and "tz_aware a" "tz_aware ts"
  shows "outbox_table_ok (update_where
           (\<lambda>m. o_id m = i \<and> o_status m = O_QUARANTINED \<and> \<not> later_exists i rows)
           (set_outbox_redriven a ts) rows)"
proof (rule outbox_table_ok_update [OF ok])
  show "outbox_ordered (update_where
      (\<lambda>m. o_id m = i \<and> o_status m = O_QUARANTINED \<and> \<not> later_exists i rows)
      (set_outbox_redriven a ts) rows)"
    by (rule outbox_ordered_update [OF outbox_table_okD(3) [OF ok]])
      (auto simp: later_exists_def list_ex_iff)
qed (use assms set_outbox_redriven_ok in auto)

lemma outbox_table_ok_filter: "outbox_table_ok rows \<Longrightarrow> outbox_table_ok (filter p rows)"
  by (auto simp: outbox_table_ok_def outbox_ordered_def list_all_iff distinct_map_filter)

lemma outbox_publish_ok:
  assumes "outbox_table_ok rows" and "publish topic producer event rows = Inr ((), rows')"
    and "published_last (outbox_row topic producer event) rows" and "tz_aware (occurred_at event)"
  shows "outbox_table_ok rows'"
proof -
  let ?m = "outbox_row topic producer event"
  have new: "rows' = rows @ [?m]" "outbox_widths ?m" "\<And>r. r \<in> set rows \<Longrightarrow> o_id r \<noteq> o_id ?m"
    using assms(2) by (auto simp: publish_def Let_def list_ex_iff split: if_splits)
  have last: "earlier_position r ?m" if "r \<in> set rows" "o_key r = o_key ?m" for r
    using assms(3) that by (auto simp: published_last_def list_all_iff)
  have "outbox_ordered (rows @ [?m])"
    using outbox_table_okD(3) [OF assms(1)] last
    by (auto simp: outbox_ordered_def earlier_position_order outbox_row_def
        dest: order_less_asym)
  moreover have "outbox_row_ok ?m" using new(2) assms(4) by (rule outbox_row_row_ok)
  moreover have "o_id ?m \<notin> o_id ` set rows" using new(3) by (metis imageE)
  ultimately show ?thesis using assms(1) by (simp add: outbox_table_ok_def new(1))
qed

lemma outbox_step_ok:
  assumes "outbox_step rows rows'" and ok: "outbox_table_ok rows"
  shows "outbox_table_ok rows'"
  using assms(1)
proof cases
  case out_publish
  then show ?thesis using outbox_publish_ok [OF ok] by blast
next
  case (out_claim lk ow t e n ts ms)
  from out_claim(1) show ?thesis
    by (rule outbox_claim_batch_Inr) (use outbox_claim_ok [OF ok out_claim(2,3)] in auto)
next
  case (out_finalize i ow t ts b)
  then show ?thesis unfolding finalize_published_def
    by (auto dest!: update_flag_Inr simp: outbox_owned_def intro!: outbox_settle_ok [OF ok] set_published_ok)
next
  case (out_retry i ow a c ts b)
  then show ?thesis unfolding outbox_schedule_retry_def
    by (auto dest!: update_flag_Inr simp: outbox_owned_def intro!: outbox_settle_ok [OF ok] set_outbox_retry_ok)
next
  case (out_quarantine i ow t c ts b)
  then show ?thesis unfolding quarantine_def
    by (auto dest!: update_flag_Inr simp: outbox_owned_def intro!: outbox_settle_ok [OF ok] set_quarantined_ok)
next
  case (out_redrive i a ts b)
  then show ?thesis unfolding redrive_quarantined_def
    using outbox_redrive_ok [OF ok] by (auto dest!: update_flag_Inr)
next
  case (out_cleanup lk t n k)
  then show ?thesis
    by (auto simp: delete_terminal_before_def Let_def split: if_splits intro!: outbox_table_ok_filter [OF ok])
qed

lemma outbox_history_ok:
  "outbox_step\<^sup>*\<^sup>* rows rows' \<Longrightarrow> outbox_table_ok rows \<Longrightarrow> outbox_table_ok rows'"
  by (induction rule: rtranclp_induct) (auto intro: outbox_step_ok)

lemma outbox_table_ok_Nil [simp]: "outbox_table_ok []"
  by (simp add: outbox_table_ok_def outbox_ordered_def)

subsection \<open>Leases and batches\<close>

interpretation out_lease: lease o_id o_claim_token o_claim_expires_at outbox_eligible outbox_grant
    outbox_owned outbox_checks
  by unfold_locales
    (auto simp: outbox_grant_def outbox_checks_def outbox_eligible_def outbox_owned_def
      split: option.splits)

lemma outbox_settle_result:
  assumes "distinct (map o_id rows)"
  shows "update_flag (\<lambda>m. o_id m = i \<and> outbox_owned ow t m) f rows =
     Inr (\<exists>m \<in> set rows. o_id m = i \<and> outbox_owned ow t m,
          update_where (\<lambda>m. o_id m = i \<and> outbox_owned ow t m) f rows)"
  by (rule update_flag_unique [where k = o_id and x = i]) (use assms in auto)

lemma outbox_claim_batch_result:
  assumes ok: "outbox_table_ok rows" and "0 < n" "t < e" "tz_aware e" "tz_aware ts"
  shows "outbox_claim_batch lk ow t e n ts rows =
     Inr (sort_key outbox_order (returning (\<lambda>m. o_id m \<in> set (claimable_ids lk t n rows))
            (outbox_grant ow e ts) rows),
          update_where (\<lambda>m. o_id m \<in> set (claimable_ids lk t n rows)) (outbox_grant ow e ts) rows)"
proof -
  have "outbox_to_domain (outbox_grant ow e ts m) = Inr (outbox_grant ow e ts m)" if "m \<in> set rows" for m
    using outbox_table_okD(2) [OF ok that] assms(4,5)
    by (intro outbox_row_ok_to_domain outbox_grant_ok)
  then have "map_res outbox_to_domain (sort_key outbox_order
       (returning (\<lambda>m. o_id m \<in> set (claimable_ids lk t n rows)) (outbox_grant ow e ts) rows)) =
      Inr (sort_key outbox_order
       (returning (\<lambda>m. o_id m \<in> set (claimable_ids lk t n rows)) (outbox_grant ow e ts) rows))"
    by (intro map_res_id) (auto simp: returning_def)
  with assms(2,3) show ?thesis by (simp add: outbox_claim_batch_def Let_def)
qed

lemma claimed_same_key:
  assumes "distinct (map o_id rows)" and "m \<in> set rows" "q \<in> set rows" and "o_key q = o_key m"
    and "o_id m \<in> set (claimable_ids lk t n rows)" "o_id q \<in> set (claimable_ids lk t n rows)"
  shows "q = m"
proof -
  have "\<not> earlier_position q m" "\<not> earlier_position m q"
    using claimable_first [OF assms(1,2,5,3,4)] claimable_first [OF assms(1,3,6,2) assms(4) [symmetric]]
      claimable_unfinished [OF assms(1,2,5)] claimable_unfinished [OF assms(1,3,6)] by blast+
  then have "outbox_order q = outbox_order m" by (auto simp: earlier_position_order)
  with unique_key [OF assms(1)] assms(2,3) show ?thesis by (simp add: outbox_order_def)
qed

lemma claimed_keys_distinct:
  assumes "distinct (map o_id rows)"
  shows "distinct (map o_key (filter (\<lambda>m. o_id m \<in> set (claimable_ids lk t n rows)) rows))"
proof -
  have "distinct rows" using assms by (simp add: distinct_map)
  then show ?thesis
    using claimed_same_key [OF assms] by (auto simp: distinct_map inj_on_def)
qed

lemma outbox_order_grant [simp]:
  "outbox_order (outbox_grant ow e ts m) = outbox_order m" "o_key (outbox_grant ow e ts m) = o_key m"
  "o_id (outbox_grant ow e ts m) = o_id m"
  by (simp_all add: outbox_order_def outbox_grant_def)

lemma distinct_map_sort_key: "distinct (map k (sort_key g xs)) \<longleftrightarrow> distinct (map k xs)"
  by (simp add: distinct_map)


subsection \<open>Properties\<close>


text \<open>
  On a sound table a batch claim succeeds; it returns at most \<open>limit\<close> messages in the order of
  their positions, no two of the same key, each held by the caller until the expiry and taken from
  an eligible row that nobody had locked and that has no unfinished predecessor of its key.
\<close>
theorem outbox_batch_contract:
  assumes "outbox_table_ok rows" and "0 < n" and "t < e" and "tz_aware e" and "tz_aware ts"
  shows "\<exists>ms rows'. outbox_claim_batch lk ow t e n ts rows = Inr (ms, rows') \<and>
     length ms \<le> nat n \<and> sorted (map outbox_order ms) \<and> distinct (map o_key ms) \<and> set ms \<subseteq> set rows' \<and>
     (\<forall>m \<in> set ms. outbox_owned ow t m \<and> o_claim_expires_at m = Some e \<and>
        (\<exists>r \<in> set rows. m = outbox_grant ow e ts r \<and> outbox_eligible t r \<and> \<not> lk (o_id r) \<and>
           (\<forall>q \<in> set rows. o_key q = o_key r \<and> unfinished q \<longrightarrow> \<not> earlier_position q r)))"
proof -
  let ?p = "\<lambda>m. o_id m \<in> set (claimable_ids lk t n rows)" and ?g = "outbox_grant ow e ts"
  let ?ms = "sort_key outbox_order (returning ?p ?g rows)"
  note dist = outbox_table_okD(1) [OF assms(1)]
  have len: "length ?ms \<le> nat n"
    using taken_length [OF dist] by (simp add: returning_def claimable_ids_def)
  have keys: "distinct (map o_key ?ms)"
    unfolding distinct_map_sort_key using claimed_keys_distinct [OF dist, of lk t n]
    by (simp add: returning_def comp_def)
  have held: "outbox_owned ow t m \<and> o_claim_expires_at m = Some e \<and>
        (\<exists>r \<in> set rows. m = ?g r \<and> outbox_eligible t r \<and> \<not> lk (o_id r) \<and>
           (\<forall>q \<in> set rows. o_key q = o_key r \<and> unfinished q \<longrightarrow> \<not> earlier_position q r))"
    if mem: "m \<in> set ?ms" for m
  proof -
    obtain r where r: "r \<in> set rows" "?p r" and m: "m = ?g r" using mem by (auto simp: returning_def)
    have "outbox_owned ow t m \<and> o_claim_expires_at m = Some e"
      unfolding m by (simp add: outbox_owned_def outbox_grant_def)
    with r m claimable_id [OF dist r] claimable_first [OF dist r] show ?thesis by blast
  qed
  have "set ?ms \<subseteq> set (update_where ?p ?g rows)"
    by (auto simp: returning_def in_set_update_where)
  then show ?thesis
    using outbox_claim_batch_result [OF assms] len keys held
    by (intro exI [of _ ?ms] exI [of _ "update_where ?p ?g rows"] conjI ballI) simp_all
qed

text \<open>
  Fencing. Once a relay has claimed a message, the former owner of an expired claim can neither
  mark it published nor reschedule nor quarantine it: each attempt reports failure and leaves the
  table as it is.
\<close>
theorem outbox_stale_owner_is_fenced:
  assumes "outbox_table_ok rows" and "outbox_claim_batch lk ow t e n ts rows = Inr (ms, rows')"
    and "m \<in> set ms" and "stale \<noteq> ow"
    and "settle \<in> {finalize_published (o_id m) stale t' ts', outbox_schedule_retry (o_id m) stale t' c ts',
           quarantine (o_id m) stale t' c ts'}"
  shows "settle rows' = Inr (False, rows')"
proof -
  let ?ids = "claimable_ids lk t n rows" and ?g = "outbox_grant ow e ts"
  have rows': "rows' = update_where (\<lambda>m. o_id m \<in> set ?ids) ?g rows"
    and ms: "list_all2 (\<lambda>r y. outbox_to_domain r = Inr y)
        (sort_key outbox_order (returning (\<lambda>m. o_id m \<in> set ?ids) ?g rows)) ms"
    using assms(2) by (auto elim!: outbox_claim_batch_Inr simp: map_res_result)
  then obtain y where "y \<in> set (returning (\<lambda>m. o_id m \<in> set ?ids) ?g rows)" "outbox_to_domain y = Inr m"
    using assms(3) unfolding list_all2_conv_all_nth by (metis in_set_conv_nth set_sort)
  then have id: "o_id m \<in> set ?ids"
    by (auto simp: returning_def outbox_to_domain_def OutboxMessage_def split: if_splits)
  have dist: "distinct (map o_id rows')"
    using outbox_table_okD(1) [OF assms(1)] update_where_map_eq [of rows _ o_id ?g]
    unfolding rows' by simp
  have none: "\<not> (o_id q = o_id m \<and> outbox_owned stale t' q)" if "q \<in> set rows'" for q
    using that id assms(4) unfolding rows'
    by (auto simp: in_set_update_where outbox_owned_def outbox_grant_def)
  from assms(5) obtain f where
    "settle rows' = update_flag (\<lambda>q. o_id q = o_id m \<and> outbox_owned stale t' q) f rows'"
    by (auto simp: finalize_published_def outbox_schedule_retry_def quarantine_def)
  with outbox_settle_result [OF dist] none
    update_where_none [of rows' "\<lambda>q. o_id q = o_id m \<and> outbox_owned stale t' q" f]
  show ?thesis by auto
qed

text \<open>
  While a claim is live no relay's batch takes the message away, and no other owner's
  settlement touches it at any time.
\<close>
theorem outbox_lease_exclusive:
  assumes "outbox_table_ok rows" and "m \<in> set rows" and "o_claim_token m = Some ow"
    and "o_claim_expires_at m = Some e" and "t < e" and "ow' \<noteq> ow"
  shows "(outbox_claim_batch lk ow' t e' n ts rows = Inr (ms, rows1) \<longrightarrow> m \<in> set rows1) \<and>
     (finalize_published i ow' t' ts rows = Inr (b, rows2) \<longrightarrow> m \<in> set rows2) \<and>
     (outbox_schedule_retry i ow' t' c ts rows = Inr (b, rows3) \<longrightarrow> m \<in> set rows3) \<and>
     (quarantine i ow' t' c ts rows = Inr (b, rows4) \<longrightarrow> m \<in> set rows4)"
proof -
  have wf: "outbox_checks m"
    using outbox_table_okD(2) [OF assms(1,2)] by (simp add: outbox_row_ok_def)
  have held: "out_lease.held ow t m" using assms(3-5) by (simp add: out_lease.held_def)
  have "o_id m \<notin> set (claimable_ids lk t n rows)"
    using claimable_id [OF outbox_table_okD(1) [OF assms(1)] assms(2)]
      out_lease.held_not_eligible [OF wf held] by blast
  then have "m \<in> set rows1" if "outbox_claim_batch lk ow' t e' n ts rows = Inr (ms, rows1)"
    using that assms(2) by (auto elim!: outbox_claim_batch_Inr simp: in_set_update_where)
  moreover have "m \<in> set (update_where (\<lambda>q. o_id q = i \<and> outbox_owned ow' t' q) f rows)" for f
    by (rule out_lease.settle_spares_foreign [OF assms(2,3), of ow' _ t']) (use assms(6) in auto)
  ultimately show ?thesis
    unfolding finalize_published_def outbox_schedule_retry_def quarantine_def
    by (auto dest!: update_flag_Inr)
qed

text \<open>
  Clean-up removes at most \<open>limit\<close> rows, each of them finished before the cutoff and unlocked,
  keeps every other row, reports how many it removed, and never removes a row while an eligible
  one that finished earlier remains.
\<close>
theorem outbox_cleanup_contract:
  assumes "distinct (map o_id rows)" and "delete_terminal_before lk cutoff n rows = Inr (k, rows')"
  shows "k \<le> nat n \<and> length rows = k + length rows' \<and> set rows' \<subseteq> set rows \<and>
     (\<forall>m \<in> set rows - set rows'. terminal_before cutoff m \<and> \<not> lk (o_id m) \<and>
        (\<forall>q \<in> set rows'. terminal_before cutoff q \<and> \<not> lk (o_id q) \<longrightarrow> cleanup_order m \<le> cleanup_order q))"
proof -
  let ?c = "\<lambda>m. terminal_before cutoff m \<and> \<not> lk (o_id m)"
  let ?ids = "map o_id (take_ordered cleanup_order (nat n) ?c rows)"
  have k: "k = length (filter (\<lambda>m. o_id m \<in> set ?ids) rows)"
    and rows': "rows' = filter (\<lambda>m. o_id m \<notin> set ?ids) rows"
    using assms(2) by (auto simp: delete_terminal_before_def Let_def split: if_splits)
  have "?c m \<and> (\<forall>q \<in> set rows'. ?c q \<longrightarrow> cleanup_order m \<le> cleanup_order q)"
    if "m \<in> set rows - set rows'" for m
  proof -
    from that have m: "m \<in> set rows" "o_id m \<in> set ?ids" by (auto simp: rows')
    moreover have "cleanup_order m \<le> cleanup_order q" if "q \<in> set rows'" "?c q" for q
      using taken_first [OF assms(1) m _ that(2)] that(1) unfolding rows'
      by (metis (no_types, lifting) filter_is_subset mem_Collect_eq not_le set_filter subsetD)
    ultimately show ?thesis using taken_keys [OF assms(1) m] by blast
  qed
  moreover have "k \<le> nat n" unfolding k by (rule taken_length [OF assms(1)])
  moreover have "length rows = k + length rows'"
    unfolding k rows' by (rule sum_length_filter_compl [symmetric])
  moreover have "set rows' \<subseteq> set rows" by (auto simp: rows')
  ultimately show ?thesis by blast
qed

subsection \<open>Witnesses\<close>

definition sample_event :: user_registered_event where
  "sample_event = \<lparr>e_user_id = 20, e_registered_at = Datetime 5 True, e_correlation_id = 30,
     e_causation_id = None, e_event_id = 40\<rparr>"

definition sample_message :: outbox_message where
  "sample_message = outbox_row ''topic'' ''identity'' sample_event"

definition sample_taken :: outbox_message where
  "sample_taken = outbox_grant 7 (Datetime 50 True) (Datetime 9 True) sample_message"

definition sample_delivered :: outbox_message where
  "sample_delivered = set_published (Datetime 20 True) (Datetime 20 True) sample_taken"

lemmas sample_message_defs = sample_message_def sample_taken_def sample_delivered_def outbox_row_def
  sample_event_def occurred_at_def

lemma sample_message_ok: "outbox_row_ok sample_message"
  unfolding sample_message_def
  by (rule outbox_row_row_ok)
    (simp_all add: outbox_widths_def outbox_row_def partition_key_def event_type_def occurred_at_def
      sample_event_def)

lemma sample_outbox_ok: "outbox_table_ok [sample_message]"
  by (simp add: outbox_table_ok_def sample_message_ok outbox_ordered_def earlier_position_def)

lemma sample_taken_ok: "outbox_table_ok [sample_taken]"
  using outbox_grant_ok [OF sample_message_ok]
  by (simp add: outbox_table_ok_def sample_taken_def outbox_ordered_def earlier_position_def)

lemma sample_claim:
  "outbox_claim_batch (\<lambda>_. False) 7 (Datetime 9 True) (Datetime 50 True) 5 (Datetime 9 True)
     [sample_message] = Inr ([sample_taken], [sample_taken])"
proof -
  have "claimable_ids (\<lambda>_. False) (Datetime 9 True) 5 [sample_message] = [40]"
    by (simp add: claimable_ids_def take_ordered_def outbox_eligible_def
        has_earlier_nonterminal_for_key_def earlier_position_def sample_message_defs)
  with outbox_claim_batch_result [OF sample_outbox_ok, of 5 "Datetime 9 True" "Datetime 50 True"
      "Datetime 9 True" "\<lambda>_. False" 7]
  show ?thesis by (simp add: returning_def sample_taken_def sample_message_def outbox_row_def sample_event_def)
qed

lemma sample_outbox_history: "outbox_step\<^sup>*\<^sup>* [] [sample_taken]"
proof -
  have "publish ''topic'' ''identity'' sample_event [] = Inr ((), [sample_message])"
    using sample_message_ok by (simp add: publish_def outbox_row_ok_iff sample_message_def)
  then have "outbox_step [] [sample_message]"
    by (rule out_publish) (simp_all add: published_last_def sample_event_def occurred_at_def)
  moreover have "outbox_step [sample_message] [sample_taken]"
    using sample_claim by (rule out_claim) simp_all
  ultimately show ?thesis by (meson converse_rtranclp_into_rtranclp rtranclp.rtrancl_refl)
qed


theorem outbox_batch_contract_witness:
  "\<exists>ms rows'. outbox_claim_batch (\<lambda>_. False) 7 (Datetime 9 True) (Datetime 50 True) 5
     (Datetime 9 True) [sample_message] = Inr (ms, rows') \<and> ms = [sample_taken] \<and> distinct (map o_key ms)"
  using outbox_batch_contract [OF sample_outbox_ok, of 5 "Datetime 9 True" "Datetime 50 True"
      "Datetime 9 True" "\<lambda>_. False" 7] sample_claim
  by auto

theorem outbox_stale_owner_is_fenced_witness:
  "finalize_published (o_id sample_taken) 6 (Datetime 30 True) (Datetime 30 True) [sample_taken] =
     Inr (False, [sample_taken])"
  by (rule outbox_stale_owner_is_fenced [OF sample_outbox_ok sample_claim _ _ insertI1]) simp_all

theorem outbox_lease_exclusive_witness:
  "quarantine 40 6 (Datetime 30 True) ''X'' (Datetime 30 True) [sample_taken] = Inr (False, [sample_taken]) \<and>
   sample_taken \<in> set [sample_taken]"
proof -
  have q: "quarantine 40 6 (Datetime 30 True) ''X'' (Datetime 30 True) [sample_taken] =
      Inr (False, [sample_taken])"
    by (simp add: quarantine_def update_flag_def update_one_def returning_def outbox_owned_def
        sample_taken_def outbox_grant_def)
  moreover have "sample_taken \<in> set [sample_taken]"
    using outbox_lease_exclusive [OF sample_taken_ok, of sample_taken 7 "Datetime 50 True"
        "Datetime 30 True" 6] q
    by (simp add: sample_taken_def outbox_grant_def)
  ultimately show ?thesis by blast
qed

theorem outbox_cleanup_contract_witness:
  "delete_terminal_before (\<lambda>_. False) (Datetime 90 True) 5 [sample_delivered] = Inr (Suc 0, []) \<and>
   terminal_before (Datetime 90 True) sample_delivered"
proof -
  have del: "delete_terminal_before (\<lambda>_. False) (Datetime 90 True) 5 [sample_delivered] = Inr (Suc 0, [])"
    by (simp add: delete_terminal_before_def take_ordered_def terminal_before_def sample_delivered_def
        set_published_def)
  moreover have "terminal_before (Datetime 90 True) sample_delivered"
    using outbox_cleanup_contract [OF _ del] by simp
  ultimately show ?thesis by blast
qed

end
