(* ===== verification/Idempotency_Store.thy ===== *)
theory Idempotency_Store
  imports Store Events
begin

section \<open>Idempotency records\<close>

text \<open>
  \<open>application/value_objects/idempotency.py\<close>, \<open>application/ports/dto/idempotency.py\<close>, the table of
  \<open>infrastructure/database/models/idempotency_records.py\<close> and the repository
  \<open>infrastructure/database/repositories/idempotency_record_repository.py\<close>.

  A completed result extends a stored result by the hash of the request, as the classes do. The
  repository reads the clock itself; the reading is an argument of its methods.
\<close>

subsection \<open>Value objects and DTOs\<close>

record idempotency_identity =
  id_subject_id :: string
  id_operation :: string
  id_key_hash :: bytes

definition IdempotencyIdentity :: "idempotency_identity \<Rightarrow> exn + idempotency_identity" where
  "IdempotencyIdentity i =
     (if 1 \<le> length (id_subject_id i) \<and> length (id_subject_id i) \<le> 255 \<and>
         1 \<le> length (id_operation i) \<and> length (id_operation i) \<le> 100 \<and>
         length (id_key_hash i) = 32
      then Inr i else Inl ValidationError)"

datatype begin_action = BEGIN_ACQUIRED | BEGIN_REPLAY | BEGIN_CONFLICT | BEGIN_IN_PROGRESS

datatype execution_outcome =
    OUTCOME_EXECUTED | OUTCOME_REPLAY | OUTCOME_CONFLICT | OUTCOME_IN_PROGRESS

record stored_result =
  sr_result_type :: string
  sr_result_payload :: "json option"
  sr_result_version :: int
  sr_resource_type :: "string option"
  sr_resource_id :: "string option"
  sr_resource_version :: "int option"

definition stored_fields :: "'a stored_result_scheme \<Rightarrow> bool" where
  "stored_fields r \<longleftrightarrow>
     1 \<le> length (sr_result_type r) \<and> length (sr_result_type r) \<le> 100 \<and> 0 < sr_result_version r \<and>
     (case sr_resource_type r of None \<Rightarrow> True | Some t \<Rightarrow> 1 \<le> length t \<and> length t \<le> 100) \<and>
     (case sr_resource_version r of None \<Rightarrow> True | Some v \<Rightarrow> 0 < v)"

definition validate_replayability :: "'a stored_result_scheme \<Rightarrow> bool" where
  "validate_replayability r \<longleftrightarrow>
     (let has_type = sr_resource_type r \<noteq> None; has_id = sr_resource_id r \<noteq> None in
      has_type = has_id \<and> \<not> (sr_result_payload r = None \<and> \<not> has_id) \<and>
      \<not> (sr_resource_version r \<noteq> None \<and> \<not> has_id))"

definition StoredResult :: "stored_result \<Rightarrow> exn + stored_result" where
  "StoredResult r =
     (if stored_fields r \<and> validate_replayability r then Inr r else Inl ValidationError)"

record completed_result = stored_result +
  cr_request_hash :: bytes

definition CompletedIdempotencyResult :: "completed_result \<Rightarrow> exn + completed_result" where
  "CompletedIdempotencyResult c =
     (if stored_fields c \<and> length (cr_request_hash c) = 32 \<and> validate_replayability c
      then Inr c else Inl ValidationError)"

record begin_result =
  br_action :: begin_action
  br_completed :: "completed_result option"

definition BeginResult :: "begin_result \<Rightarrow> exn + begin_result" where
  "BeginResult b =
     (if br_action b = BEGIN_REPLAY \<and> br_completed b = None then Inl ValidationError
      else if br_action b \<noteq> BEGIN_REPLAY \<and> br_completed b \<noteq> None then Inl ValidationError
      else Inr b)"

record execution_result =
  er_outcome :: execution_outcome
  er_completed :: "completed_result option"

definition ExecutionResult :: "execution_result \<Rightarrow> exn + execution_result" where
  "ExecutionResult r =
     (let carries_result = er_outcome r = OUTCOME_EXECUTED \<or> er_outcome r = OUTCOME_REPLAY in
      if carries_result \<noteq> (er_completed r \<noteq> None) then Inl ValidationError else Inr r)"

text \<open>\<open>CompletedIdempotencyResult(request_hash=..., **stored.model_dump())\<close>.\<close>

definition completed_of :: "bytes \<Rightarrow> stored_result \<Rightarrow> completed_result" where
  "completed_of request_hash r =
     \<lparr>sr_result_type = sr_result_type r, sr_result_payload = sr_result_payload r,
      sr_result_version = sr_result_version r, sr_resource_type = sr_resource_type r,
      sr_resource_id = sr_resource_id r, sr_resource_version = sr_resource_version r,
      cr_request_hash = request_hash\<rparr>"

subsection \<open>The table\<close>

record idempotency_record =
  i_id :: uuid
  i_identity :: idempotency_identity
  i_request_hash :: bytes
  i_fingerprint_version :: int
  i_result :: stored_result
  i_created_at :: datetime
  i_completed_at :: datetime
  i_expires_at :: datetime

type_synonym idempotency_table = "idempotency_record list"

definition fits :: "nat \<Rightarrow> string option \<Rightarrow> bool" where
  "fits n s = (case s of None \<Rightarrow> True | Some s \<Rightarrow> length s \<le> n)"

definition idempotency_widths :: "idempotency_record \<Rightarrow> bool" where
  "idempotency_widths r \<longleftrightarrow>
     length (id_subject_id (i_identity r)) \<le> 255 \<and> length (id_operation (i_identity r)) \<le> 100 \<and>
     length (sr_result_type (i_result r)) \<le> 100 \<and> fits 100 (sr_resource_type (i_result r)) \<and>
     fits 255 (sr_resource_id (i_result r))"

definition idempotency_checks :: "idempotency_record \<Rightarrow> bool" where
  "idempotency_checks r \<longleftrightarrow>
     (let s = i_result r in
      length (id_key_hash (i_identity r)) = 32 \<and> length (i_request_hash r) = 32 \<and>
      0 < i_fingerprint_version r \<and> 0 < sr_result_version s \<and>
      (sr_resource_type s = None \<and> sr_resource_id s = None \<or>
       sr_resource_type s \<noteq> None \<and> sr_resource_id s \<noteq> None) \<and>
      (case sr_resource_version s of
         None \<Rightarrow> True
       | Some v \<Rightarrow> sr_resource_type s \<noteq> None \<and> sr_resource_id s \<noteq> None \<and> 0 < v) \<and>
      (sr_result_payload s \<noteq> None \<or> sr_resource_type s \<noteq> None \<and> sr_resource_id s \<noteq> None) \<and>
      i_created_at r \<le> i_completed_at r \<and> i_completed_at r < i_expires_at r)"

subsection \<open>Repository\<close>

definition record_completed :: "idempotency_record \<Rightarrow> exn + completed_result" where
  "record_completed row =
     (case CompletedIdempotencyResult (completed_of (i_request_hash row) (i_result row)) of
        Inl e \<Rightarrow> Inl StoredStateError
      | Inr c \<Rightarrow> Inr c)"

definition get_completed ::
    "datetime \<Rightarrow> idempotency_identity \<Rightarrow> idempotency_table \<Rightarrow> exn + completed_result option" where
  "get_completed now identity rows =
     bind_res (scalar_one_or_none (filter (\<lambda>r. i_identity r = identity) rows)) (\<lambda>row.
       case row of
         None \<Rightarrow> Inr None
       | Some r \<Rightarrow>
           if i_expires_at r \<le> now then Inr None
           else bind_res (record_completed r) (\<lambda>c. Inr (Some c)))"

definition completed_row ::
    "int \<Rightarrow> datetime \<Rightarrow> uuid \<Rightarrow> idempotency_identity \<Rightarrow> completed_result \<Rightarrow> idempotency_record" where
  "completed_row retention_seconds now new_id identity completed =
     \<lparr>i_id = new_id, i_identity = identity, i_request_hash = cr_request_hash completed,
      i_fingerprint_version = 1, i_result = stored_result.truncate completed,
      i_created_at = now, i_completed_at = now,
      i_expires_at = plus_delta now (timedelta_seconds (of_int retention_seconds))\<rparr>"

definition try_add_completed ::
    "int \<Rightarrow> datetime \<Rightarrow> uuid \<Rightarrow> idempotency_identity \<Rightarrow> completed_result \<Rightarrow> idempotency_table
     \<Rightarrow> exn + bool \<times> idempotency_table" where
  "try_add_completed retention_seconds now new_id identity completed rows =
     (let row = completed_row retention_seconds now new_id identity completed in
      if \<not> idempotency_widths row then Inl value_too_long
      else if \<not> idempotency_checks row then Inl check_violation
      else if list_ex (\<lambda>r. i_identity r = identity) rows then Inr (False, rows)
      else if list_ex (\<lambda>r. i_id r = new_id) rows then Inl unique_violation
      else Inr (True, rows @ [row]))"

definition expiry_order :: "idempotency_record \<Rightarrow> datetime \<times> uuid" where
  "expiry_order r = (i_expires_at r, i_id r)"

definition delete_expired ::
    "(uuid \<Rightarrow> bool) \<Rightarrow> datetime \<Rightarrow> int \<Rightarrow> idempotency_table \<Rightarrow> exn + nat \<times> idempotency_table" where
  "delete_expired locked expires_at limit rows =
     (if limit \<le> 0 then Inl ValueError
      else
        let ids = map i_id (take_ordered expiry_order (nat limit)
              (\<lambda>r. i_expires_at r \<le> expires_at \<and> \<not> locked (i_id r)) rows)
        in Inr (length (filter (\<lambda>r. i_id r \<in> set ids) rows),
                filter (\<lambda>r. i_id r \<notin> set ids) rows))"

subsection \<open>Table invariant\<close>

definition idempotency_row_ok :: "idempotency_record \<Rightarrow> bool" where
  "idempotency_row_ok r \<longleftrightarrow>
     idempotency_widths r \<and> idempotency_checks r \<and>
     CompletedIdempotencyResult (completed_of (i_request_hash r) (i_result r)) =
       Inr (completed_of (i_request_hash r) (i_result r))"

definition idempotency_table_ok :: "idempotency_table \<Rightarrow> bool" where
  "idempotency_table_ok rows \<longleftrightarrow>
     distinct (map i_id rows) \<and> distinct (map i_identity rows) \<and> list_all idempotency_row_ok rows"

lemma completed_of_truncate [simp]:
  "completed_of (cr_request_hash c) (stored_result.truncate c) = c"
  by (cases c) (simp add: completed_of_def stored_result.truncate_def)

lemma idempotency_table_okD:
  assumes "idempotency_table_ok rows"
  shows "distinct (map i_id rows)" and "distinct (map i_identity rows)"
    and "r \<in> set rows \<Longrightarrow> idempotency_row_ok r"
  using assms by (auto simp: idempotency_table_ok_def list_all_iff)

lemma record_completed_ok:
  "idempotency_row_ok r \<Longrightarrow> record_completed r = Inr (completed_of (i_request_hash r) (i_result r))"
  by (simp add: record_completed_def idempotency_row_ok_def)

lemma get_completed_result:
  assumes "idempotency_table_ok rows"
  shows "get_completed now identity rows =
     Inr (case find (\<lambda>r. i_identity r = identity) rows of
            None \<Rightarrow> None
          | Some r \<Rightarrow> if i_expires_at r \<le> now then None
                      else Some (completed_of (i_request_hash r) (i_result r)))"
proof (cases "find (\<lambda>r. i_identity r = identity) rows")
  case None
  then have "filter (\<lambda>r. i_identity r = identity) rows = []"
    by (auto simp: find_None_iff filter_empty_conv)
  with None show ?thesis by (simp add: get_completed_def)
next
  case (Some r)
  then have r: "r \<in> set rows" "i_identity r = identity" by (auto dest: find_SomeD)
  with idempotency_table_okD(2) [OF assms] have "filter (\<lambda>q. i_identity q = identity) rows = [r]"
    using filter_key_in by fastforce
  with Some record_completed_ok [OF idempotency_table_okD(3) [OF assms r(1)]] show ?thesis
    by (simp add: get_completed_def)
qed

lemma try_add_completed_ok:
  assumes "idempotency_table_ok rows" and "CompletedIdempotencyResult c = Inr c"
    and "try_add_completed n now i identity c rows = Inr (b, rows')"
  shows "idempotency_table_ok rows'"
proof -
  let ?row = "completed_row n now i identity c"
  have "rows' = rows \<or> (rows' = rows @ [?row] \<and> idempotency_widths ?row \<and> idempotency_checks ?row \<and>
      (\<forall>r \<in> set rows. i_identity r \<noteq> identity \<and> i_id r \<noteq> i))"
    using assms(3) by (auto simp: try_add_completed_def Let_def list_ex_iff split: if_splits)
  moreover have "idempotency_row_ok ?row" if "idempotency_widths ?row" "idempotency_checks ?row"
    using that assms(2) by (simp add: idempotency_row_ok_def) (simp add: completed_row_def)
  moreover have "i_id ?row = i" "i_identity ?row = identity" by (simp_all add: completed_row_def)
  ultimately show ?thesis using assms(1) by (auto simp: idempotency_table_ok_def)
qed

text \<open>Once an identity has a row, whether expired or not, no completed result can be added.\<close>

lemma try_add_completed_conflict:
  "try_add_completed n now i identity c rows = Inr (True, rows') \<Longrightarrow>
     \<not> list_ex (\<lambda>r. i_identity r = identity) rows \<and> rows' = rows @ [completed_row n now i identity c]"
  by (auto simp: try_add_completed_def Let_def split: if_splits)

lemma try_add_completed_refused:
  assumes "r \<in> set rows" and "i_identity r = identity"
    and "try_add_completed n now i identity c rows = Inr (b, rows')"
  shows "\<not> b \<and> rows' = rows"
  using assms by (auto simp: try_add_completed_def Let_def list_ex_iff split: if_splits)


subsection \<open>Properties\<close>

text \<open>
  A recorded result is the result that later requests see: after \<open>try_add_completed\<close> has
  accepted a result, every lookup of the identity before the end of the retention returns exactly
  that result, no second result is accepted for the identity, and the table stays sound.
\<close>
theorem recorded_result_is_replayed:
  assumes "idempotency_table_ok rows" and "CompletedIdempotencyResult c = Inr c"
    and "try_add_completed n now i identity c rows = Inr (True, rows')"
    and "later < plus_delta now (timedelta_seconds (of_int n))"
  shows "idempotency_table_ok rows' \<and> get_completed later identity rows' = Inr (Some c) \<and>
     (\<forall>n' now' i' c' b rows''. try_add_completed n' now' i' identity c' rows' = Inr (b, rows'') \<longrightarrow>
        \<not> b \<and> rows'' = rows')"
proof -
  let ?row = "completed_row n now i identity c"
  have ok: "idempotency_table_ok rows'" by (rule try_add_completed_ok [OF assms(1-3)])
  from try_add_completed_conflict [OF assms(3)]
  have new: "\<not> list_ex (\<lambda>r. i_identity r = identity) rows" and rows': "rows' = rows @ [?row]" by auto
  have row: "?row \<in> set rows'" "i_identity ?row = identity" by (simp_all add: rows' completed_row_def)
  then have "find (\<lambda>r. i_identity r = identity) rows' = Some ?row"
    using find_unique_key [OF idempotency_table_okD(2) [OF ok] row(1)] by simp
  then have "get_completed later identity rows' = Inr (Some c)"
    using get_completed_result [OF ok] assms(4) by (simp add: completed_row_def)
  with ok try_add_completed_refused [OF row] show ?thesis by blast
qed

text \<open>
  An expired record is invisible but still occupies its key: from the end of its retention on,
  as long as no clean-up has removed it, the lookup answers \<open>None\<close> while every attempt to record
  a result for the same identity is refused.
\<close>
theorem expired_record_blocks_its_key:
  assumes "idempotency_table_ok rows" and "r \<in> set rows" and "i_expires_at r \<le> now"
  shows "get_completed now (i_identity r) rows = Inr None \<and>
     (\<forall>n now' i c b rows'. try_add_completed n now' i (i_identity r) c rows = Inr (b, rows') \<longrightarrow>
        \<not> b \<and> rows' = rows)"
proof -
  have "find (\<lambda>q. i_identity q = i_identity r) rows = Some r"
    by (rule find_unique_key [OF idempotency_table_okD(2) [OF assms(1)] assms(2)])
  with get_completed_result [OF assms(1)] assms(3) have "get_completed now (i_identity r) rows = Inr None"
    by simp
  with try_add_completed_refused [OF assms(2) refl] show ?thesis by blast
qed

subsection \<open>Witnesses\<close>

lemma timedelta_seconds_of_int [simp]: "timedelta_seconds (of_int n) = n * 1000000"
proof -
  have "(of_int n :: rat) * 1000000 = of_int (n * 1000000)" by simp
  then show ?thesis unfolding timedelta_seconds_def by (simp only: round_half_even_of_int)
qed

definition sample_identity :: idempotency_identity where
  "sample_identity = \<lparr>id_subject_id = ''public-refresh'', id_operation = ''auth.refresh'',
     id_key_hash = replicate 32 4\<rparr>"

definition sample_result :: completed_result where
  "sample_result = \<lparr>sr_result_type = ''auth.refresh.rejected'', sr_result_payload = Some (JObj []),
     sr_result_version = 1, sr_resource_type = None, sr_resource_id = None,
     sr_resource_version = None, cr_request_hash = replicate 32 5\<rparr>"

definition sample_record :: idempotency_record where
  "sample_record = completed_row 300 (Datetime 0 True) 11 sample_identity sample_result"

lemma sample_result_ok: "CompletedIdempotencyResult sample_result = Inr sample_result"
  by (simp add: CompletedIdempotencyResult_def stored_fields_def validate_replayability_def sample_result_def)

lemma sample_record_add:
  "try_add_completed 300 (Datetime 0 True) 11 sample_identity sample_result [] =
     Inr (True, [sample_record])"
  using timedelta_seconds_of_int [of 300]
  by (simp add: try_add_completed_def sample_record_def idempotency_widths_def idempotency_checks_def
      completed_row_def sample_identity_def sample_result_def fits_def plus_delta_def
      stored_result.truncate_def)

lemma sample_record_expiry: "i_expires_at sample_record = Datetime 300000000 True"
  using timedelta_seconds_of_int [of 300]
  by (simp add: sample_record_def completed_row_def plus_delta_def)

theorem recorded_result_is_replayed_witness:
  "get_completed (Datetime 7 True) sample_identity [sample_record] = Inr (Some sample_result)"
  using recorded_result_is_replayed [OF _ sample_result_ok sample_record_add, of "Datetime 7 True"]
    timedelta_seconds_of_int [of 300]
  by (simp add: idempotency_table_ok_def plus_delta_def)

theorem expired_record_blocks_its_key_witness:
  "get_completed (Datetime 400000000 True) sample_identity [sample_record] = Inr None \<and>
   try_add_completed 300 (Datetime 400000000 True) 12 sample_identity sample_result [sample_record] =
     Inr (False, [sample_record])"
proof -
  have ok: "idempotency_table_ok [sample_record]"
    using try_add_completed_ok [OF _ sample_result_ok sample_record_add]
    by (simp add: idempotency_table_ok_def)
  have id: "i_identity sample_record = sample_identity"
    by (simp add: sample_record_def completed_row_def)
  have "\<exists>b rows'. try_add_completed 300 (Datetime 400000000 True) 12 sample_identity
      sample_result [sample_record] = Inr (b, rows')"
    using timedelta_seconds_of_int [of 300] id
    by (auto simp: try_add_completed_def idempotency_widths_def idempotency_checks_def
        completed_row_def sample_identity_def sample_result_def fits_def plus_delta_def
        stored_result.truncate_def)
  then obtain b rows' where add: "try_add_completed 300 (Datetime 400000000 True) 12 sample_identity
      sample_result [sample_record] = Inr (b, rows')" by blast
  have "i_expires_at sample_record \<le> Datetime 400000000 True" by (simp add: sample_record_expiry)
  from expired_record_blocks_its_key [OF ok list.set_intros(1) this] add show ?thesis
    unfolding id by (metis (full_types))
qed

end
