(* ===== verification/Database.thy ===== *)
theory Database
  imports Registration_Store Outbox_Store Idempotency_Store
begin

section \<open>The database and its transactions\<close>

text \<open>
  The repositories of accounts, sessions and refresh tokens with their base class
  (\<open>infrastructure/database/repositories\<close>), the tables behind them
  (\<open>infrastructure/database/models\<close>), the translation of driver errors
  (\<open>infrastructure/database/exceptions.py\<close>) and the unit of work
  (\<open>infrastructure/database/uow.py\<close>).

  The application runs in a \<open>world\<close>: the committed tables, and for every source of non-determinism
  a script that is read in order: the readings of \<open>utc_now\<close> and of the server's \<open>now()\<close>, the
  identifiers drawn from \<open>uuid7\<close> and \<open>uuid4\<close>, the jitter samples, what other processes commit between two
  transactions of ours (\<open>w_rival\<close>), the rows they have locked, and the fate of each transaction.
  \<open>w_env\<close> is the state of the ports that the running component has beside the database. A
  property that holds for every world holds for every schedule of that shape. A transaction runs
  alone: what PostgreSQL lets concurrent transactions see of each other is decided at the row
  level by the guards of the statements, which the store theories describe.
\<close>

subsection \<open>Accounts\<close>

definition user_widths :: "user \<Rightarrow> bool" where
  "user_widths u \<longleftrightarrow> length (u_email u) \<le> 320 \<and> length (u_password_hash u) \<le> 255"

definition user_to_domain :: "(string \<Rightarrow> string option) \<Rightarrow> user \<Rightarrow> exn + user" where
  "user_to_domain email_str row =
     (case validate_user email_str row of
        Inl e \<Rightarrow> (if isinstance e InvalidDomainStateError \<or> isinstance e ValidationError
                  then Inl StoredStateError else Inl e)
      | Inr u \<Rightarrow> Inr u)"

definition optional :: "('r \<Rightarrow> exn + 'd) \<Rightarrow> 'r option \<Rightarrow> exn + 'd option" where
  "optional to_domain row =
     (case row of None \<Rightarrow> Inr None | Some r \<Rightarrow> bind_res (to_domain r) (\<lambda>d. Inr (Some d)))"

definition create_if_absent ::
    "(string \<Rightarrow> string option) \<Rightarrow> user \<Rightarrow> user list \<Rightarrow> exn + user option \<times> user list" where
  "create_if_absent email_str user rows =
     (if \<not> user_widths user then Inl value_too_long
      else if list_ex (\<lambda>r. u_email r = u_email user) rows then Inr (None, rows)
      else if list_ex (\<lambda>r. u_id r = u_id user) rows then Inl unique_violation
      else bind_res (user_to_domain email_str user) (\<lambda>u. Inr (Some u, rows @ [user])))"

definition user_get_by_email ::
    "(string \<Rightarrow> string option) \<Rightarrow> string \<Rightarrow> user list \<Rightarrow> exn + user option" where
  "user_get_by_email email_str email rows =
     optional (user_to_domain email_str) (find (\<lambda>r. u_email r = email) rows)"

definition user_get :: "(string \<Rightarrow> string option) \<Rightarrow> uuid \<Rightarrow> user list \<Rightarrow> exn + user option" where
  "user_get email_str user_id rows =
     optional (user_to_domain email_str) (find (\<lambda>r. u_id r = user_id) rows)"

definition get_for_update :: "(string \<Rightarrow> string option) \<Rightarrow> uuid \<Rightarrow> user list \<Rightarrow> exn + user option" where
  "get_for_update email_str user_id rows =
     optional (user_to_domain email_str) (find (\<lambda>r. u_id r = user_id) rows)"

subsection \<open>The base repository\<close>

text \<open>
  \<open>create\<close> and \<open>update\<close> of \<open>SQLAlchemyAsyncRepository\<close>: \<open>violation\<close> gives the error of the first
  constraint that the flushed row violates beside the other rows of the table.
\<close>

definition repo_create ::
    "('r \<Rightarrow> 'r list \<Rightarrow> exn option) \<Rightarrow> ('r \<Rightarrow> exn + 'r) \<Rightarrow> 'r \<Rightarrow> 'r list \<Rightarrow> exn + 'r \<times> 'r list" where
  "repo_create violation to_domain entity rows =
     (case violation entity rows of
        Some e \<Rightarrow> Inl e
      | None \<Rightarrow> bind_res (to_domain entity) (\<lambda>d. Inr (d, rows @ [entity])))"

definition repo_get ::
    "('r \<Rightarrow> uuid) \<Rightarrow> ('r \<Rightarrow> exn + 'r) \<Rightarrow> uuid \<Rightarrow> 'r list \<Rightarrow> exn + 'r option" where
  "repo_get key to_domain entity_id rows =
     optional to_domain (find (\<lambda>r. key r = entity_id) rows)"

definition repo_update ::
    "('r \<Rightarrow> uuid) \<Rightarrow> ('r \<Rightarrow> 'r list \<Rightarrow> exn option) \<Rightarrow> ('r \<Rightarrow> exn + 'r) \<Rightarrow> 'r \<Rightarrow> 'r list
     \<Rightarrow> exn + 'r \<times> 'r list" where
  "repo_update key violation to_domain entity rows =
     (if \<not> list_ex (\<lambda>r. key r = key entity) rows then Inl EntityNotFoundError
      else case violation entity (filter (\<lambda>r. key r \<noteq> key entity) rows) of
        Some e \<Rightarrow> Inl e
      | None \<Rightarrow> bind_res (to_domain entity) (\<lambda>d.
          Inr (d, update_where (\<lambda>r. key r = key entity) (\<lambda>_. entity) rows)))"

subsection \<open>Refresh tokens and sessions\<close>

definition foreign_key_violation :: exn where
  "foreign_key_violation = DatabaseFailure (IntegrityError (Some ''23503'') None False)"

definition token_checks :: "refresh_token \<Rightarrow> bool" where
  "token_checks t \<longleftrightarrow>
     length (t_token_hash t) = 32 \<and>
     (case t_used_at t of None \<Rightarrow> True | Some u \<Rightarrow> t_created_at t \<le> u)"

definition token_violation ::
    "auth_session list \<Rightarrow> refresh_token \<Rightarrow> refresh_token list \<Rightarrow> exn option" where
  "token_violation sessions t others =
     (if \<not> token_checks t then Some check_violation
      else if list_ex (\<lambda>r. t_id r = t_id t \<or> t_token_hash r = t_token_hash t) others
      then Some unique_violation
      else if \<not> list_ex (\<lambda>s. s_id s = t_session_id t) sessions then Some foreign_key_violation
      else None)"

definition token_to_domain :: "refresh_token \<Rightarrow> exn + refresh_token" where
  "token_to_domain row =
     (case validate_refresh_token row of
        Inl e \<Rightarrow> (if isinstance e InvalidDomainStateError \<or> isinstance e ValidationError
                  then Inl StoredStateError else Inl e)
      | Inr t \<Rightarrow> Inr t)"

definition get_by_hash_for_update :: "bytes \<Rightarrow> refresh_token list \<Rightarrow> exn + refresh_token option" where
  "get_by_hash_for_update token_hash rows =
     optional token_to_domain (find (\<lambda>r. t_token_hash r = token_hash) rows)"

text \<open>
  A row of \<open>auth_sessions\<close> is a session without its tokens, which \<open>model_dump\<close> excludes.
\<close>

definition session_row :: "auth_session \<Rightarrow> auth_session" where
  "session_row s = s\<lparr>s_refresh_token := None, s_replacement_token := None\<rparr>"

definition session_checks :: "auth_session \<Rightarrow> bool" where
  "session_checks s \<longleftrightarrow>
     s_created_at s < s_idle_expires_at s \<and>
     (case s_revoked_at s of None \<Rightarrow> True | Some r \<Rightarrow> s_created_at s \<le> r)"

definition session_violation ::
    "user list \<Rightarrow> auth_session \<Rightarrow> auth_session list \<Rightarrow> exn option" where
  "session_violation users s others =
     (if \<not> session_checks s then Some check_violation
      else if list_ex (\<lambda>r. s_id r = s_id s) others then Some unique_violation
      else if \<not> list_ex (\<lambda>u. u_id u = s_user_id s) users then Some foreign_key_violation
      else None)"

definition session_to_domain :: "auth_session \<Rightarrow> exn + auth_session" where
  "session_to_domain row =
     (case validate_auth_session row of
        Inl e \<Rightarrow> (if isinstance e InvalidDomainStateError \<or> isinstance e ValidationError
                  then Inl StoredStateError else Inl e)
      | Inr s \<Rightarrow> Inr s)"

definition with_token :: "auth_session option \<Rightarrow> refresh_token \<Rightarrow> exn + auth_session option" where
  "with_token row token =
     (case row of
        None \<Rightarrow> Inr None
      | Some r \<Rightarrow> (case validate_auth_session r of
            Inl e \<Rightarrow> (if isinstance e InvalidDomainStateError then Inl StoredStateError else Inl e)
          | Inr s \<Rightarrow> Inr (Some (s\<lparr>s_refresh_token := Some token\<rparr>))))"

subsection \<open>All tables\<close>

record db =
  db_users :: "user list"
  db_sessions :: "auth_session list"
  db_tokens :: "refresh_token list"
  db_records :: idempotency_table
  db_outbox :: outbox_table
  db_registrations :: registration_table

definition session_create :: "auth_session \<Rightarrow> db \<Rightarrow> exn + auth_session \<times> db" where
  "session_create session d =
     bind_res (repo_create (session_violation (db_users d)) session_to_domain (session_row session)
                 (db_sessions d)) (\<lambda>(_, ss).
     bind_res
       (case s_refresh_token session of
          None \<Rightarrow> Inr (db_tokens d)
        | Some t \<Rightarrow> bind_res (repo_create (token_violation ss) token_to_domain t (db_tokens d))
                      (\<lambda>(_, ts). Inr ts)) (\<lambda>ts.
       Inr (session, d\<lparr>db_sessions := ss, db_tokens := ts\<rparr>)))"

definition session_save :: "auth_session \<Rightarrow> db \<Rightarrow> exn + unit \<times> db" where
  "session_save session d =
     bind_res (repo_update s_id (session_violation (db_users d)) session_to_domain
                 (session_row session) (db_sessions d)) (\<lambda>(_, ss).
     bind_res
       (case s_refresh_token session of
          None \<Rightarrow> Inr (db_tokens d)
        | Some t \<Rightarrow> bind_res (repo_update t_id (token_violation ss) token_to_domain t (db_tokens d))
                      (\<lambda>(_, ts). Inr ts)) (\<lambda>ts.
     bind_res
       (case s_replacement_token session of
          None \<Rightarrow> Inr ts
        | Some t \<Rightarrow> bind_res (repo_create (token_violation ss) token_to_domain t ts)
                      (\<lambda>(_, ts'). Inr ts')) (\<lambda>ts'.
       Inr ((), d\<lparr>db_sessions := ss, db_tokens := ts'\<rparr>))))"

definition get_by_refresh_hash_for_update :: "bytes \<Rightarrow> db \<Rightarrow> exn + auth_session option" where
  "get_by_refresh_hash_for_update token_hash d =
     bind_res (get_by_hash_for_update token_hash (db_tokens d)) (\<lambda>token.
       case token of
         None \<Rightarrow> Inr None
       | Some t \<Rightarrow> with_token (find (\<lambda>s. s_id s = t_session_id t) (db_sessions d)) t)"

definition get_by_refresh_id :: "uuid \<Rightarrow> db \<Rightarrow> exn + auth_session option" where
  "get_by_refresh_id token_id d =
     bind_res (repo_get t_id token_to_domain token_id (db_tokens d)) (\<lambda>token.
       case token of
         None \<Rightarrow> Inr None
       | Some t \<Rightarrow> with_token (find (\<lambda>s. s_id s = t_session_id t) (db_sessions d)) t)"

subsection \<open>Error translation\<close>

definition sqlstate_of :: "string option \<Rightarrow> string option \<Rightarrow> string option" where
  "sqlstate_of st pg = (case st of Some (c # cs) \<Rightarrow> Some (c # cs) | _ \<Rightarrow> pg)"

definition translate_dbapi :: "string option \<Rightarrow> string option \<Rightarrow> bool \<Rightarrow> exn option" where
  "translate_dbapi st pg invalidated =
     (case sqlstate_of st pg of
        Some state \<Rightarrow>
          if state = ''40001'' \<or> state = ''40P01'' then Some TransactionConflictError
          else if invalidated \<or> take 2 state = ''08'' \<or>
                  state = ''57P01'' \<or> state = ''57P02'' \<or> state = ''57P03''
          then Some PersistenceUnavailableError else None
      | None \<Rightarrow> if invalidated then Some PersistenceUnavailableError else None)"

definition translate_database_error :: "db_error \<Rightarrow> exn" where
  "translate_database_error error =
     (case error of
        DbConnectionError \<Rightarrow> PersistenceUnavailableError
      | DbTimeoutError \<Rightarrow> PersistenceUnavailableError
      | DBAPIError st pg iv \<Rightarrow> (case translate_dbapi st pg iv of Some e \<Rightarrow> e | None \<Rightarrow> PersistenceError)
      | IntegrityError st pg iv \<Rightarrow>
          (case translate_dbapi st pg iv of Some e \<Rightarrow> e | None \<Rightarrow> PersistenceIntegrityError)
      | PoolTimeoutError \<Rightarrow> PersistenceUnavailableError
      | DisconnectionError \<Rightarrow> PersistenceUnavailableError
      | MultipleResultsFound \<Rightarrow> PersistenceError
      | OtherSQLAlchemyError \<Rightarrow> PersistenceError)"

subsection \<open>The world\<close>

text \<open>
  The fate of a transaction: it commits; one of its statements raises; the commit raises and
  nothing is committed; the commit raises although the server has committed; the rollback of a
  failed body raises.
\<close>

datatype tx_fate =
    Commits | StatementFails exn | CommitFails exn | CommitLost exn | RollbackFails exn

text \<open>What the rest of the world sees of a run.\<close>

datatype effect =
    HttpPut string json
  | ProfileCreated uuid
  | BrokerCalled uuid
  | BrokerAccepted uuid
  | Slept pyfloat
  | Observed string string

record 'e world =
  w_db :: db
  w_clock :: "nat \<Rightarrow> datetime"
  w_ticks :: nat
  w_uuids :: "nat \<Rightarrow> uuid"
  w_drawn :: nat
  w_jitter :: "nat \<Rightarrow> rat"
  w_jitters :: nat
  w_rival :: "nat \<Rightarrow> db \<Rightarrow> db"
  w_locked :: "nat \<Rightarrow> uuid \<Rightarrow> bool"
  w_db_now :: "nat \<Rightarrow> datetime"
  w_fate :: "nat \<Rightarrow> tx_fate"
  w_txs :: nat
  w_trace :: "effect list"
  w_env :: 'e

type_synonym ('e, 'a) io = "('e world, 'a) prog"

definition utc_now :: "('e, datetime) io" where
  "utc_now w = (Inr (w_clock w (w_ticks w)), w\<lparr>w_ticks := Suc (w_ticks w)\<rparr>)"

definition new_uuid :: "('e, uuid) io" where
  "new_uuid w = (Inr (w_uuids w (w_drawn w)), w\<lparr>w_drawn := Suc (w_drawn w)\<rparr>)"

definition jitter_source :: "('e, rat) io" where
  "jitter_source w = (Inr (w_jitter w (w_jitters w)), w\<lparr>w_jitters := Suc (w_jitters w)\<rparr>)"

definition emit :: "effect \<Rightarrow> ('e, unit) io" where
  "emit x = modify (\<lambda>w. w\<lparr>w_trace := w_trace w @ [x]\<rparr>)"

text \<open>A statement of the running transaction; a query leaves the tables alone.\<close>

definition stmt :: "(db \<Rightarrow> exn + 'a \<times> db) \<Rightarrow> ('e, 'a) io" where
  "stmt f w = (case f (w_db w) of Inl e \<Rightarrow> (Inl e, w) | Inr (a, d) \<Rightarrow> (Inr a, w\<lparr>w_db := d\<rparr>))"

definition query :: "(db \<Rightarrow> exn + 'a) \<Rightarrow> ('e, 'a) io" where
  "query f w = (f (w_db w), w)"

definition db_now :: "('e, datetime) io" where
  "db_now = gets (\<lambda>w. w_db_now w (w_txs w))"

definition tx_locked :: "('e, (uuid \<Rightarrow> bool)) io" where
  "tx_locked = gets (\<lambda>w. w_locked w (w_txs w))"

definition on_users :: "(user list \<Rightarrow> exn + 'a \<times> user list) \<Rightarrow> db \<Rightarrow> exn + 'a \<times> db" where
  "on_users f d = bind_res (f (db_users d)) (\<lambda>(a, t). Inr (a, d\<lparr>db_users := t\<rparr>))"

definition on_records ::
    "(idempotency_table \<Rightarrow> exn + 'a \<times> idempotency_table) \<Rightarrow> db \<Rightarrow> exn + 'a \<times> db" where
  "on_records f d = bind_res (f (db_records d)) (\<lambda>(a, t). Inr (a, d\<lparr>db_records := t\<rparr>))"

definition on_outbox :: "(outbox_table \<Rightarrow> exn + 'a \<times> outbox_table) \<Rightarrow> db \<Rightarrow> exn + 'a \<times> db" where
  "on_outbox f d = bind_res (f (db_outbox d)) (\<lambda>(a, t). Inr (a, d\<lparr>db_outbox := t\<rparr>))"

definition on_registrations ::
    "(registration_table \<Rightarrow> exn + 'a \<times> registration_table) \<Rightarrow> db \<Rightarrow> exn + 'a \<times> db" where
  "on_registrations f d =
     bind_res (f (db_registrations d)) (\<lambda>(a, t). Inr (a, d\<lparr>db_registrations := t\<rparr>))"

text \<open>
  \<open>__aexit__\<close>. An error of the driver is translated, any other exception passes; the tables are
  those of the body after a commit and those before the transaction otherwise.
\<close>

definition translated :: "exn \<Rightarrow> exn" where
  "translated e = (case e of DatabaseFailure d \<Rightarrow> translate_database_error d | _ \<Rightarrow> e)"

definition aexit :: "tx_fate \<Rightarrow> db \<Rightarrow> exn + 'a \<Rightarrow> 'e world \<Rightarrow> (exn + 'a) \<times> 'e world" where
  "aexit fate before res w =
     (case res of
        Inr a \<Rightarrow>
          (case fate of
             CommitFails e \<Rightarrow> (Inl (translated e), w\<lparr>w_db := before\<rparr>)
           | CommitLost e \<Rightarrow> (Inl (translated e), w)
           | _ \<Rightarrow> (Inr a, w))
      | Inl e \<Rightarrow>
          (case fate of
             RollbackFails e' \<Rightarrow> (Inl (translated e'), w\<lparr>w_db := before\<rparr>)
           | _ \<Rightarrow> (Inl (translated e), w\<lparr>w_db := before\<rparr>)))"

definition uow :: "('e, 'a) io \<Rightarrow> ('e, 'a) io" where
  "uow body w =
     (let n = w_txs w;
          before = w_rival w n (w_db w);
          w1 = w\<lparr>w_db := before, w_txs := Suc n\<rparr>
      in case w_fate w n of
           StatementFails e \<Rightarrow> aexit (StatementFails e) before (Inl e) w1
         | fate \<Rightarrow> (case body w1 of (res, w2) \<Rightarrow> aexit fate before res w2))"

subsection \<open>Transactions, characterised\<close>

definition begin_tx :: "'e world \<Rightarrow> 'e world" where
  "begin_tx w = w\<lparr>w_db := w_rival w (w_txs w) (w_db w), w_txs := Suc (w_txs w)\<rparr>"

lemma begin_tx_sel [simp]:
  "w_db (begin_tx w) = w_rival w (w_txs w) (w_db w)" "w_txs (begin_tx w) = Suc (w_txs w)"
  "w_trace (begin_tx w) = w_trace w" "w_clock (begin_tx w) = w_clock w" "w_ticks (begin_tx w) = w_ticks w"
  "w_rival (begin_tx w) = w_rival w" "w_fate (begin_tx w) = w_fate w" "w_db_now (begin_tx w) = w_db_now w"
  "w_locked (begin_tx w) = w_locked w" "w_uuids (begin_tx w) = w_uuids w" "w_drawn (begin_tx w) = w_drawn w"
  "w_jitter (begin_tx w) = w_jitter w" "w_jitters (begin_tx w) = w_jitters w"
  "w_env (begin_tx w) = w_env w"
  by (simp_all add: begin_tx_def)

text \<open>
  The three ways a transaction ends: it reports what its body returned and has committed; it
  raises and has committed nothing; it raises although it has committed.
\<close>

lemma uow_cases:
  assumes "uow body w = (r, w')"
  obtains (committed) a where "r = Inr a" and "body (begin_tx w) = (Inr a, w')"
  | (rolled_back) e where "r = Inl (translated e)" and "w_db w' = w_db (begin_tx w)"
      and "w' = (begin_tx w) \<or> (\<exists>res w2. body (begin_tx w) = (res, w2) \<and> w' = w2\<lparr>w_db := w_db (begin_tx w)\<rparr>)"
  | (lost) a e where "r = Inl (translated e)" and "body (begin_tx w) = (Inr a, w')"
      and "w_fate w (w_txs w) = CommitLost e"
  using assms unfolding uow_def Let_def begin_tx_def [symmetric]
  by (cases "w_fate w (w_txs w)"; cases "body (begin_tx w)"; cases "fst (body (begin_tx w))")
    (auto simp: aexit_def begin_tx_def split: tx_fate.splits)

lemma uow_commits:
  "w_fate w (w_txs w) = Commits \<Longrightarrow> body (begin_tx w) = (Inr a, w') \<Longrightarrow> uow body w = (Inr a, w')"
  by (simp add: uow_def aexit_def begin_tx_def Let_def)

lemma uow_Inr: "uow body w = (Inr a, w') \<Longrightarrow> body (begin_tx w) = (Inr a, w')"
  by (erule uow_cases) auto

lemma translate_database_error_neq [simp]: "translate_database_error d \<noteq> DatabaseFailure d'"
  by (auto simp: translate_database_error_def translate_dbapi_def split: db_error.splits option.splits)

lemma translated_neq [simp]: "translated e \<noteq> DatabaseFailure d"
  by (auto simp: translated_def split: exn.splits)

lemma translated_id: "(\<And>d. e \<noteq> DatabaseFailure d) \<Longrightarrow> translated e = e"
  by (simp add: translated_def split: exn.splits)

subsection \<open>Invariants of a run\<close>

definition scripts :: "'e world \<Rightarrow> _" where
  "scripts w = (w_clock w, w_uuids w, w_jitter w, w_rival w, w_locked w, w_db_now w, w_fate w)"

definition world_ok :: "(db \<Rightarrow> bool) \<Rightarrow> 'e world \<Rightarrow> bool" where
  "world_ok I w \<longleftrightarrow>
     I (w_db w) \<and> (\<forall>n d. I d \<longrightarrow> I (w_rival w n d)) \<and>
     (\<forall>n. tz_aware (w_clock w n)) \<and> (\<forall>n. tz_aware (w_db_now w n))"

lemma world_ok_db: "world_ok I w \<Longrightarrow> I (w_db w)"
  by (simp add: world_ok_def)

lemma world_ok_begin_tx: "world_ok I w \<Longrightarrow> world_ok I (begin_tx w)"
  by (simp add: world_ok_def)

lemma world_ok_scripts: "world_ok I w \<Longrightarrow> scripts w' = scripts w \<Longrightarrow> I (w_db w') \<Longrightarrow> world_ok I w'"
  by (simp add: world_ok_def scripts_def)

lemma keeps_primitives [keeps_intros]:
  "keeps (\<lambda>w. scripts w = s) utc_now" "keeps (\<lambda>w. scripts w = s) new_uuid"
  "keeps (\<lambda>w. scripts w = s) jitter_source" "keeps (\<lambda>w. scripts w = s) (emit x)"
  "keeps (\<lambda>w. scripts w = s) (stmt f)" "keeps (\<lambda>w. scripts w = s) (query g)"
  "keeps (\<lambda>w. scripts w = s) db_now" "keeps (\<lambda>w. scripts w = s) tx_locked"
  by (auto simp: keeps_def utc_now_def new_uuid_def jitter_source_def emit_def modify_def stmt_def
      query_def db_now_def tx_locked_def gets_def scripts_def split: sum.splits prod.splits)

lemma keeps_world_primitives [keeps_intros]:
  "keeps (world_ok I) utc_now" "keeps (world_ok I) new_uuid" "keeps (world_ok I) jitter_source"
  "keeps (world_ok I) (emit x)" "keeps (world_ok I) (query g)" "keeps (world_ok I) db_now"
  "keeps (world_ok I) tx_locked"
  by (auto simp: keeps_def utc_now_def new_uuid_def jitter_source_def emit_def modify_def
      query_def db_now_def tx_locked_def gets_def world_ok_def)

lemma scripts_begin_tx [simp]: "scripts (begin_tx w) = scripts w"
  by (simp add: scripts_def)

lemma scripts_db [simp]: "scripts (w\<lparr>w_db := d\<rparr>) = scripts w"
  by (simp add: scripts_def)

lemma keeps_scriptsD:
  assumes "\<And>s. keeps (\<lambda>w. scripts w = s) m" and "m w = (r, w')"
  shows "scripts w' = scripts w"
  using assms(1) [of "scripts w"] refl assms(2) by (rule keepsD)

lemma keeps_uow_scripts [keeps_intros]:
  fixes body :: "('e, 'a) io"
  assumes "\<And>s. keeps (\<lambda>w. scripts w = s) body"
  shows "keeps (\<lambda>w. scripts w = s) (uow body)"
proof (rule keepsI)
  fix w :: "'e world"
  assume "scripts w = s"
  moreover obtain r w' where run: "uow body w = (r, w')" by fastforce
  from run have "scripts w' = scripts w"
  proof (cases rule: uow_cases)
    case rolled_back
    then show ?thesis using keeps_scriptsD [OF assms, of "begin_tx w"] by auto
  qed (use keeps_scriptsD [OF assms, of "begin_tx w"] in auto)
  ultimately show "scripts (snd (uow body w)) = s" using run by simp
qed

text \<open>
  A transaction keeps an invariant of the tables if its body, when it succeeds, leads from a sound
  database to a sound one; in between, statement by statement, it may break it.
\<close>

lemma keeps_uow:
  fixes body :: "('e, 'a) io"
  assumes scr: "\<And>s. keeps (\<lambda>w. scripts w = s) body"
    and body: "\<And>w a w'. world_ok I w \<Longrightarrow> body w = (Inr a, w') \<Longrightarrow> I (w_db w')"
  shows "keeps (world_ok I) (uow body)"
proof (rule keepsI)
  fix w :: "'e world"
  assume ok: "world_ok I w"
  obtain r w' where run: "uow body w = (r, w')" by fastforce
  note ok1 = world_ok_begin_tx [OF ok]
  have "scripts w' = scripts w"
    using keeps_scriptsD [OF keeps_uow_scripts [OF scr] run] .
  moreover from run have "I (w_db w')"
    by (cases rule: uow_cases) (use body [OF ok1] world_ok_db [OF ok1] in auto)
  ultimately show "world_ok I (snd (uow body w))"
    using run world_ok_scripts [OF ok] by simp
qed

lemma stmt_Inr [res_simps]:
  "stmt f w = (Inr a, w') \<longleftrightarrow> (\<exists>d. f (w_db w) = Inr (a, d) \<and> w' = w\<lparr>w_db := d\<rparr>)"
  by (auto simp: stmt_def split: sum.splits prod.splits)

lemma stmt_Inl [res_simps]: "stmt f w = (Inl e, w') \<longleftrightarrow> f (w_db w) = Inl e \<and> w' = w"
  by (auto simp: stmt_def split: sum.splits prod.splits)

lemma query_eq [res_simps]: "query f w = (r, w') \<longleftrightarrow> f (w_db w) = r \<and> w' = w"
  by (auto simp: query_def)

lemma db_now_eq [res_simps]: "db_now w = (r, w') \<longleftrightarrow> r = Inr (w_db_now w (w_txs w)) \<and> w' = w"
  by (auto simp: db_now_def gets_def)

lemma tx_locked_eq [res_simps]: "tx_locked w = (r, w') \<longleftrightarrow> r = Inr (w_locked w (w_txs w)) \<and> w' = w"
  by (auto simp: tx_locked_def gets_def)

lemma utc_now_eq [res_simps]:
  "utc_now w = (r, w') \<longleftrightarrow> r = Inr (w_clock w (w_ticks w)) \<and> w' = w\<lparr>w_ticks := Suc (w_ticks w)\<rparr>"
  by (auto simp: utc_now_def)

lemma new_uuid_eq [res_simps]:
  "new_uuid w = (r, w') \<longleftrightarrow> r = Inr (w_uuids w (w_drawn w)) \<and> w' = w\<lparr>w_drawn := Suc (w_drawn w)\<rparr>"
  by (auto simp: new_uuid_def)

lemma jitter_source_eq [res_simps]:
  "jitter_source w = (r, w') \<longleftrightarrow> r = Inr (w_jitter w (w_jitters w)) \<and> w' = w\<lparr>w_jitters := Suc (w_jitters w)\<rparr>"
  by (auto simp: jitter_source_def)

lemma emit_eq [res_simps]:
  "emit x w = (r, w') \<longleftrightarrow> r = Inr () \<and> w' = w\<lparr>w_trace := w_trace w @ [x]\<rparr>"
  by (auto simp: emit_def modify_def)

text \<open>
  C20. A transaction is all or nothing and shows no driver error. If it returns, its body returned
  that value and all its writes are committed; if it raises, either nothing of it is committed or
  the commit itself was lost on the way back; and what it raises is never an exception of the
  database driver.
\<close>
theorem transaction_is_atomic:
  assumes "uow body w = (r, w')"
  shows "(\<forall>a. r = Inr a \<longrightarrow> body (begin_tx w) = (Inr a, w')) \<and>
     (\<forall>e. r = Inl e \<longrightarrow> (\<forall>d. e \<noteq> DatabaseFailure d) \<and>
        (w_db w' = w_rival w (w_txs w) (w_db w) \<or>
         (\<exists>a e'. w_fate w (w_txs w) = CommitLost e' \<and> e = translated e' \<and>
            body (begin_tx w) = (Inr a, w'))))"
  using assms by (cases rule: uow_cases) auto

lemma on_table_Inr [res_simps]:
  "on_users f d = Inr (a, d') \<longleftrightarrow> (\<exists>t. f (db_users d) = Inr (a, t) \<and> d' = d\<lparr>db_users := t\<rparr>)"
  "on_records g d = Inr (b, d') \<longleftrightarrow> (\<exists>t. g (db_records d) = Inr (b, t) \<and> d' = d\<lparr>db_records := t\<rparr>)"
  "on_outbox h d = Inr (c, d') \<longleftrightarrow> (\<exists>t. h (db_outbox d) = Inr (c, t) \<and> d' = d\<lparr>db_outbox := t\<rparr>)"
  "on_registrations k d = Inr (e, d') \<longleftrightarrow>
     (\<exists>t. k (db_registrations d) = Inr (e, t) \<and> d' = d\<lparr>db_registrations := t\<rparr>)"
  by (auto simp: on_users_def on_records_def on_outbox_def on_registrations_def bind_res_iffs)


subsection \<open>A quiet world\<close>

definition empty_db :: db where
  "empty_db = \<lparr>db_users = [], db_sessions = [], db_tokens = [], db_records = [], db_outbox = [],
     db_registrations = []\<rparr>"

text \<open>
  No rivals and no failures; the clock advances a second with every reading, and fresh identifiers
  start at 100.
\<close>

definition quiet_world :: "db \<Rightarrow> 'e \<Rightarrow> 'e world" where
  "quiet_world d env =
     \<lparr>w_db = d, w_clock = (\<lambda>n. Datetime (int (Suc n) * 1000000) True), w_ticks = 0,
      w_uuids = (\<lambda>n. 100 + n), w_drawn = 0, w_jitter = (\<lambda>_. 0), w_jitters = 0,
      w_rival = (\<lambda>_ d. d), w_locked = (\<lambda>_ _. False), w_db_now = (\<lambda>_. Datetime 1000000 True),
      w_fate = (\<lambda>_. Commits), w_txs = 0, w_trace = [], w_env = env\<rparr>"

lemma quiet_world_ok: "I d \<Longrightarrow> world_ok I (quiet_world d env)"
  by (simp add: world_ok_def quiet_world_def)

text \<open>The commit of an insert is lost: the caller sees an error, the row is there.\<close>

theorem transaction_is_atomic_witness:
  "\<exists>(w :: unit world) w'. uow (stmt (on_outbox (publish ''topic'' ''identity'' sample_event))) w =
      (Inl PersistenceUnavailableError, w') \<and>
     db_outbox (w_db w) = [] \<and> db_outbox (w_db w') = [sample_message] \<and>
     (\<forall>d. PersistenceUnavailableError \<noteq> DatabaseFailure d)"
proof -
  define w where "w = (quiet_world empty_db ())\<lparr>w_fate := \<lambda>_. CommitLost (DatabaseFailure DbConnectionError)\<rparr>"
  define w' where "w' = (begin_tx w)\<lparr>w_db := empty_db\<lparr>db_outbox := [sample_message]\<rparr>\<rparr>"
  have pub: "publish ''topic'' ''identity'' sample_event [] = Inr ((), [sample_message])"
    using sample_message_ok by (simp add: publish_def outbox_row_ok_iff sample_message_def)
  have run: "uow (stmt (on_outbox (publish ''topic'' ''identity'' sample_event))) w =
      (Inl PersistenceUnavailableError, w')"
    by (simp add: uow_def Let_def aexit_def w_def w'_def quiet_world_def stmt_def on_outbox_def pub
        empty_db_def begin_tx_def translated_def translate_database_error_def)
  moreover have "\<forall>d. PersistenceUnavailableError \<noteq> DatabaseFailure d"
    using transaction_is_atomic [OF run] by blast
  moreover have "db_outbox (w_db w) = []" "db_outbox (w_db w') = [sample_message]"
    by (simp_all add: w_def w'_def quiet_world_def empty_db_def)
  ultimately show ?thesis by blast
qed

end
