(* ===== verification/Circuit_Breaker.thy ===== *)
theory Circuit_Breaker
  imports Database
begin

section \<open>The circuit breaker\<close>

text \<open>
  \<open>infrastructure/resilience/circuit_breaker.py\<close>. The critical sections under \<open>_lock\<close> are
  functions of the breaker: \<open>enter\<close> admits or refuses a call, \<open>handle_success\<close>, \<open>handle_failure\<close>
  and \<open>release_probe\<close> account for its end. Between them the protected function runs without the
  lock and other calls enter and leave; \<open>breaker_step\<close> is that interleaving. \<open>time.monotonic()\<close> is
  a rational argument, an \<open>object()\<close> token a number never used before.
\<close>

subsection \<open>State\<close>

datatype circuit_state = CLOSED | OPEN | HALF_OPEN

record breaker =
  cb_fail_max :: int
  cb_recovery_timeout :: seconds
  cb_state :: circuit_state
  cb_failure_count :: int
  cb_opened_at :: "seconds option"
  cb_probe_in_progress :: bool
  cb_probe_token :: "nat option"
  cb_generation :: nat

definition CircuitBreaker :: "int \<Rightarrow> seconds \<Rightarrow> exn + breaker" where
  "CircuitBreaker fail_max recovery_timeout =
     (if fail_max \<le> 0 then Inl ValueError
      else if recovery_timeout \<le> 0 then Inl ValueError
      else Inr \<lparr>cb_fail_max = fail_max, cb_recovery_timeout = recovery_timeout, cb_state = CLOSED,
                cb_failure_count = 0, cb_opened_at = None, cb_probe_in_progress = False,
                cb_probe_token = None, cb_generation = 0\<rparr>)"

subsection \<open>Critical sections\<close>

definition check_state :: "seconds \<Rightarrow> breaker \<Rightarrow> breaker" where
  "check_state now b =
     (if cb_state b = OPEN
      then (case cb_opened_at b of
              None \<Rightarrow> b
            | Some opened_at \<Rightarrow>
                if cb_recovery_timeout b \<le> now - opened_at then b\<lparr>cb_state := HALF_OPEN\<rparr> else b)
      else b)"

definition trip :: "seconds \<Rightarrow> breaker \<Rightarrow> breaker" where
  "trip now b =
     b\<lparr>cb_state := OPEN, cb_opened_at := Some now, cb_probe_in_progress := False,
       cb_probe_token := None, cb_generation := Suc (cb_generation b)\<rparr>"

definition handle_success :: "nat \<Rightarrow> nat option \<Rightarrow> breaker \<Rightarrow> breaker" where
  "handle_success generation probe_token b =
     (if probe_token \<noteq> None \<and> cb_state b = HALF_OPEN \<and> cb_probe_token b = probe_token
      then b\<lparr>cb_state := CLOSED, cb_failure_count := 0, cb_opened_at := None,
             cb_probe_in_progress := False, cb_probe_token := None,
             cb_generation := Suc (cb_generation b)\<rparr>
      else if probe_token = None \<and> cb_state b = CLOSED \<and> cb_generation b = generation
      then b\<lparr>cb_failure_count := 0\<rparr>
      else b)"

definition handle_failure :: "seconds \<Rightarrow> nat \<Rightarrow> nat option \<Rightarrow> breaker \<Rightarrow> breaker" where
  "handle_failure now generation probe_token b =
     (let is_current_probe =
            probe_token \<noteq> None \<and> cb_state b = HALF_OPEN \<and> cb_probe_token b = probe_token;
          is_current_closed_call =
            probe_token = None \<and> cb_state b = CLOSED \<and> cb_generation b = generation
      in if \<not> is_current_probe \<and> \<not> is_current_closed_call then b
         else
           let b1 = b\<lparr>cb_failure_count := cb_failure_count b + 1\<rparr>
           in if is_current_closed_call
              then (if cb_fail_max b1 \<le> cb_failure_count b1 then trip now b1 else b1)
              else trip now b1)"

definition release_probe :: "nat option \<Rightarrow> breaker \<Rightarrow> breaker" where
  "release_probe probe_token b =
     (if probe_token = None then b
      else if cb_state b = HALF_OPEN \<and> cb_probe_token b = probe_token
      then b\<lparr>cb_probe_in_progress := False, cb_probe_token := None\<rparr>
      else b)"

definition enter :: "seconds \<Rightarrow> nat \<Rightarrow> (breaker, nat \<times> nat option) prog" where
  "enter now token b0 =
     (let b = check_state now b0 in
      if cb_state b = OPEN then (Inl CircuitBreakerError, b)
      else if cb_state b = HALF_OPEN
      then (if cb_probe_in_progress b then (Inl CircuitBreakerError, b)
            else let b' = b\<lparr>cb_probe_in_progress := True, cb_probe_token := Some token\<rparr>
                 in (Inr (cb_generation b', Some token), b'))
      else (Inr (cb_generation b, None), b))"

text \<open>
  How the protected function ends: it returns, it raises an error that counts as a failure, it
  raises an error that shows the dependency to be alive, or it is cancelled (or the classifier
  itself raises).
\<close>

datatype call_end = Returned | Failed | Rejected | Cancelled

definition leave :: "seconds \<Rightarrow> call_end \<Rightarrow> nat \<times> nat option \<Rightarrow> breaker \<Rightarrow> breaker" where
  "leave now how admission b =
     (case how of
        Returned \<Rightarrow> handle_success (fst admission) (snd admission) b
      | Failed \<Rightarrow> handle_failure now (fst admission) (snd admission) b
      | Rejected \<Rightarrow> handle_success (fst admission) (snd admission) b
      | Cancelled \<Rightarrow> release_probe (snd admission) b)"

subsection \<open>\<open>call\<close> as a program\<close>

text \<open>
  The part of a component's environment that a breaker needs: the breaker, the monotonic clock,
  the tokens drawn so far, and what concurrent calls do to the breaker while the protected
  function runs.
\<close>

record breaker_env =
  be_breaker :: breaker
  be_mono :: "nat \<Rightarrow> seconds"
  be_monos :: nat
  be_tokens :: nat
  be_rival :: "nat \<Rightarrow> breaker \<Rightarrow> breaker"

definition monotonic :: "('x breaker_env_scheme, seconds) io" where
  "monotonic w =
     (let env = w_env w in (Inr (be_mono env (be_monos env)), w\<lparr>w_env := env\<lparr>be_monos := Suc (be_monos env)\<rparr>\<rparr>))"

definition on_breaker :: "(breaker, 'a) prog \<Rightarrow> ('x breaker_env_scheme, 'a) io" where
  "on_breaker m w =
     (case m (be_breaker (w_env w)) of (r, b) \<Rightarrow> (r, w\<lparr>w_env := (w_env w)\<lparr>be_breaker := b\<rparr>\<rparr>))"

definition fresh_token :: "('x breaker_env_scheme, nat) io" where
  "fresh_token w =
     (let env = w_env w in (Inr (be_tokens env), w\<lparr>w_env := env\<lparr>be_tokens := Suc (be_tokens env)\<rparr>\<rparr>))"

definition interleave :: "('x breaker_env_scheme, unit) io" where
  "interleave =
     modify (\<lambda>w. w\<lparr>w_env := (w_env w)\<lparr>be_breaker := be_rival (w_env w) (be_monos (w_env w)) (be_breaker (w_env w))\<rparr>\<rparr>)"

definition leave_call :: "call_end \<Rightarrow> nat \<times> nat option \<Rightarrow> ('x breaker_env_scheme, unit) io" where
  "leave_call how admission =
     bind interleave (\<lambda>_. bind monotonic (\<lambda>now. on_breaker (modify (leave now how admission))))"

definition breaker_call ::
    "(exn \<Rightarrow> bool) \<Rightarrow> ('x breaker_env_scheme, 'a) io \<Rightarrow> ('x breaker_env_scheme, 'a) io" where
  "breaker_call is_failure func =
     bind monotonic (\<lambda>now. bind fresh_token (\<lambda>token.
     bind (on_breaker (enter now token)) (\<lambda>admission.
       try_else func
         (\<lambda>error.
            bind (if \<not> is_exception error then leave_call Cancelled admission
                  else if is_failure error then leave_call Failed admission
                  else leave_call Rejected admission) (\<lambda>_. throw error))
         (\<lambda>result. bind (leave_call Returned admission) (\<lambda>_. return result)))))"

subsection \<open>Interleaved calls\<close>

record breaker_sys =
  sys_breaker :: breaker
  sys_inflight :: "(nat \<times> nat option) list"
  sys_next :: nat

inductive breaker_step :: "breaker_sys \<Rightarrow> breaker_sys \<Rightarrow> bool" where
  call_admitted: "enter now (sys_next s) (sys_breaker s) = (Inr adm, b) \<Longrightarrow>
     breaker_step s \<lparr>sys_breaker = b, sys_inflight = adm # sys_inflight s, sys_next = Suc (sys_next s)\<rparr>"
| call_refused: "enter now (sys_next s) (sys_breaker s) = (Inl e, b) \<Longrightarrow>
     breaker_step s (s\<lparr>sys_breaker := b\<rparr>)"
| call_finished: "adm \<in> set (sys_inflight s) \<Longrightarrow>
     breaker_step s (s\<lparr>sys_breaker := leave now how adm (sys_breaker s),
                       sys_inflight := remove1 adm (sys_inflight s)\<rparr>)"

definition breaker_ok :: "breaker \<Rightarrow> bool" where
  "breaker_ok b \<longleftrightarrow>
     0 < cb_fail_max b \<and> 0 < cb_recovery_timeout b \<and> 0 \<le> cb_failure_count b \<and>
     (cb_probe_in_progress b \<longleftrightarrow> cb_probe_token b \<noteq> None) \<and>
     (case cb_state b of
        CLOSED \<Rightarrow> cb_failure_count b < cb_fail_max b \<and> cb_opened_at b = None \<and> cb_probe_token b = None
      | OPEN \<Rightarrow> cb_opened_at b \<noteq> None \<and> cb_probe_token b = None
      | HALF_OPEN \<Rightarrow> cb_opened_at b \<noteq> None)"

definition probes :: "(nat \<times> nat option) list \<Rightarrow> nat list" where
  "probes calls = map (\<lambda>c. the (snd c)) (filter (\<lambda>c. snd c \<noteq> None) calls)"

definition sys_ok :: "breaker_sys \<Rightarrow> bool" where
  "sys_ok s \<longleftrightarrow>
     breaker_ok (sys_breaker s) \<and> distinct (probes (sys_inflight s)) \<and>
     (\<forall>t \<in> set (probes (sys_inflight s)). t < sys_next s) \<and>
     (\<forall>t. cb_probe_token (sys_breaker s) = Some t \<longrightarrow> t \<in> set (probes (sys_inflight s)))"

subsection \<open>Invariant of the breaker\<close>

lemma breaker_ok_initial: "CircuitBreaker m r = Inr b \<Longrightarrow> breaker_ok b"
  by (auto simp: CircuitBreaker_def breaker_ok_def split: if_splits)

lemma check_state_ok: "breaker_ok b \<Longrightarrow> breaker_ok (check_state now b)"
  by (auto simp: check_state_def breaker_ok_def split: option.splits circuit_state.splits)

lemma check_state_fields [simp]:
  "cb_probe_token (check_state now b) = cb_probe_token b"
  "cb_probe_in_progress (check_state now b) = cb_probe_in_progress b"
  "cb_generation (check_state now b) = cb_generation b"
  "cb_failure_count (check_state now b) = cb_failure_count b"
  "cb_fail_max (check_state now b) = cb_fail_max b"
  by (auto simp: check_state_def split: option.splits)

lemma trip_ok: "0 < cb_fail_max b \<Longrightarrow> 0 < cb_recovery_timeout b \<Longrightarrow> 0 \<le> cb_failure_count b \<Longrightarrow> breaker_ok (trip now b)"
  by (simp add: trip_def breaker_ok_def)

lemma handle_success_ok: "breaker_ok b \<Longrightarrow> breaker_ok (handle_success g t b)"
  by (auto simp: handle_success_def breaker_ok_def split: circuit_state.splits)

lemma handle_failure_cases:
  "handle_failure now g t b = b \<or>
   handle_failure now g t b = trip now (b\<lparr>cb_failure_count := cb_failure_count b + 1\<rparr>) \<or>
   handle_failure now g t b = b\<lparr>cb_failure_count := cb_failure_count b + 1\<rparr> \<and>
     cb_state b = CLOSED \<and> cb_failure_count b + 1 < cb_fail_max b"
  by (auto simp: handle_failure_def Let_def)

lemma handle_failure_ok:
  assumes "breaker_ok b"
  shows "breaker_ok (handle_failure now g t b)"
proof -
  have "breaker_ok (trip now (b\<lparr>cb_failure_count := cb_failure_count b + 1\<rparr>))"
    using assms by (intro trip_ok) (simp_all add: breaker_ok_def)
  moreover have "breaker_ok (b\<lparr>cb_failure_count := cb_failure_count b + 1\<rparr>)"
    if "cb_state b = CLOSED" "cb_failure_count b + 1 < cb_fail_max b"
    using assms that by (simp add: breaker_ok_def)
  ultimately show ?thesis
    using handle_failure_cases [of now g t b] assms by metis
qed

lemma release_probe_ok: "breaker_ok b \<Longrightarrow> breaker_ok (release_probe t b)"
  by (auto simp: release_probe_def breaker_ok_def split: circuit_state.splits)

lemma leave_ok: "breaker_ok b \<Longrightarrow> breaker_ok (leave now how adm b)"
  by (auto simp: leave_def handle_success_ok handle_failure_ok release_probe_ok split: call_end.splits)

lemma enter_ok: "breaker_ok b \<Longrightarrow> enter now t b = (r, b') \<Longrightarrow> breaker_ok b'"
  using check_state_ok [of b now]
  by (auto simp: enter_def Let_def breaker_ok_def split: if_splits circuit_state.splits)

text \<open>What \<open>enter\<close> does.\<close>

lemma enter_admitted:
  assumes "enter now t b = (Inr adm, b')"
  shows "adm = (cb_generation b, None) \<and> b' = check_state now b \<and> cb_state b' = CLOSED \<or>
     adm = (cb_generation b, Some t) \<and> cb_probe_token b' = Some t \<and> cb_state b' = HALF_OPEN \<and>
     \<not> cb_probe_in_progress b"
  using assms by (cases "cb_state (check_state now b)") (auto simp: enter_def Let_def split: if_splits)

lemma enter_refused:
  assumes "enter now t b = (Inl e, b')"
  shows "e = CircuitBreakerError \<and> b' = check_state now b \<and>
     (cb_state b' = OPEN \<or> cb_state b' = HALF_OPEN \<and> cb_probe_in_progress b)"
  using assms by (auto simp: enter_def Let_def split: if_splits)

text \<open>
  A call is current while its token is the probe of the half-open breaker, or while it entered in
  the present closed generation. Only a current call changes the breaker when it ends.
\<close>

definition current :: "nat \<times> nat option \<Rightarrow> breaker \<Rightarrow> bool" where
  "current adm b \<longleftrightarrow>
     (case snd adm of
        Some t \<Rightarrow> cb_state b = HALF_OPEN \<and> cb_probe_token b = Some t
      | None \<Rightarrow> cb_state b = CLOSED \<and> cb_generation b = fst adm)"

lemma leave_stale: "\<not> current adm b \<Longrightarrow> leave now how adm b = b"
  by (auto simp: current_def leave_def handle_success_def handle_failure_def release_probe_def Let_def
      split: call_end.splits option.splits)

lemma leave_token: "cb_probe_token (leave now how adm b) = cb_probe_token b \<or>
   cb_probe_token (leave now how adm b) = None"
  by (auto simp: leave_def handle_success_def handle_failure_def release_probe_def trip_def Let_def
      split: call_end.splits)

lemma leave_own_token:
  "breaker_ok b \<Longrightarrow> snd adm = Some t \<Longrightarrow> cb_probe_token b = Some t \<Longrightarrow> cb_probe_token (leave now how adm b) = None"
  by (auto simp: leave_def handle_success_def handle_failure_def release_probe_def trip_def Let_def
      breaker_ok_def split: call_end.splits circuit_state.splits)

subsection \<open>One call\<close>

text \<open>
  Outside the protected function a call touches only the breaker's own part of the environment; it
  is refused at once or runs the function exactly once and ends as the function did.
\<close>

definition beside_breaker :: "'x breaker_env_scheme world \<Rightarrow> 'x breaker_env_scheme world \<Rightarrow> bool" where
  "beside_breaker w w' \<longleftrightarrow>
     (\<exists>env. w' = w\<lparr>w_env := env\<rparr> \<and> breaker_env.more env = breaker_env.more (w_env w))"

lemma beside_breaker_trans: "beside_breaker u v \<Longrightarrow> beside_breaker v w \<Longrightarrow> beside_breaker u w"
  by (auto simp: beside_breaker_def)

lemma beside_breaker_primitives:
  "monotonic w = (r1, w') \<Longrightarrow> beside_breaker w w'" "fresh_token w = (r2, w') \<Longrightarrow> beside_breaker w w'"
  "on_breaker m w = (r3, w') \<Longrightarrow> beside_breaker w w'" "interleave w = (r4, w') \<Longrightarrow> beside_breaker w w'"
  by (auto simp: beside_breaker_def monotonic_def fresh_token_def on_breaker_def interleave_def modify_def Let_def
      split: prod.splits)

lemma leave_call_total: "\<exists>w'. leave_call how adm w = (Inr (), w') \<and> beside_breaker w w'"
proof -
  obtain w1 where 1: "interleave w = (Inr (), w1)" by (simp add: interleave_def modify_def)
  obtain now w2 where 2: "monotonic w1 = (Inr now, w2)" by (simp add: monotonic_def Let_def)
  obtain w3 where 3: "on_breaker (modify (leave now how adm)) w2 = (Inr (), w3)"
    by (simp add: on_breaker_def modify_def)
  have "leave_call how adm w = (Inr (), w3)" using 1 2 3 by (simp add: leave_call_def bind_def)
  with beside_breaker_primitives(4) [OF 1] beside_breaker_primitives(1) [OF 2] beside_breaker_primitives(3) [OF 3]
  show ?thesis by (blast intro: beside_breaker_trans)
qed

lemma breaker_call_outcome:
  fixes func :: "('x breaker_env_scheme, 'a) io"
  assumes "breaker_call f func w = (r, w')"
  obtains (refused) "r = Inl CircuitBreakerError" and "beside_breaker w w'"
  | (ran) w1 w2 where "func w1 = (r, w2)" and "beside_breaker w w1" and "beside_breaker w2 w'"
proof -
  obtain now w1 where 1: "monotonic w = (Inr now, w1)" by (simp add: monotonic_def Let_def)
  obtain tok w2 where 2: "fresh_token w1 = (Inr tok, w2)" by (simp add: fresh_token_def Let_def)
  obtain adm w3 where 3: "on_breaker (enter now tok) w2 = (adm, w3)" by fastforce
  have before: "beside_breaker w w3"
    using beside_breaker_primitives(1) [OF 1] beside_breaker_primitives(2) [OF 2] beside_breaker_primitives(3) [OF 3]
    by (blast intro: beside_breaker_trans)
  have call: "breaker_call f func w = (case adm of Inl e \<Rightarrow> (Inl e, w3)
      | Inr a \<Rightarrow> try_else func
         (\<lambda>error. bind (if \<not> is_exception error then leave_call Cancelled a
            else if f error then leave_call Failed a else leave_call Rejected a) (\<lambda>_. throw error))
         (\<lambda>result. bind (leave_call Returned a) (\<lambda>_. return result)) w3)"
    using 1 2 3 by (simp add: breaker_call_def bind_def split: sum.splits)
  show thesis
  proof (cases adm)
    case (Inl e)
    then have "e = CircuitBreakerError"
      using 3 by (auto simp: on_breaker_def split: prod.splits dest: enter_refused)
    with Inl call assms before show thesis by (intro refused) auto
  next
    case (Inr a)
    obtain r' w4 where run: "func w3 = (r', w4)" by fastforce
    have end_: "\<exists>w5. bind (leave_call how a) (\<lambda>_. m) w4 = m w5 \<and> beside_breaker w4 w5"
      for how and m :: "('x breaker_env_scheme, 'a) io"
      using leave_call_total [of how a w4] by (auto simp: bind_def)
    have "r = r' \<and> beside_breaker w4 w'"
    proof (cases r')
      case (Inl e)
      with end_ [of _ "throw e"] call assms Inr run show ?thesis
        by (auto simp: try_else_def throw_def split: if_splits) (metis prod.inject)+
    next
      case (Inr v)
      with end_ [of Returned "return v"] call assms \<open>adm = Inr a\<close> run show ?thesis
        by (auto simp: try_else_def return_def)
    qed
    with run before show thesis by (intro ran [of w3 w4]) auto
  qed
qed

subsection \<open>Invariant of the interleaving\<close>

lemma probes_Cons: "probes (c # cs) = (case snd c of None \<Rightarrow> probes cs | Some t \<Rightarrow> t # probes cs)"
  by (auto simp: probes_def split: option.splits)

lemma in_probes: "t \<in> set (probes cs) \<longleftrightarrow> (\<exists>g. (g, Some t) \<in> set cs)"
  by (force simp: probes_def image_iff)

lemma set_probes_remove1: "set (probes (remove1 c cs)) \<subseteq> set (probes cs)"
  using set_remove1_subset [of c cs] in_probes by blast

lemma distinct_probes_remove1: "distinct (probes cs) \<Longrightarrow> distinct (probes (remove1 c cs))"
  by (induction cs)
    (use set_probes_remove1 in \<open>fastforce simp: probes_Cons split: option.splits\<close>)+

lemma in_probes_remove1:
  assumes "t \<in> set (probes cs)" and "snd c \<noteq> Some t"
  shows "t \<in> set (probes (remove1 c cs))"
proof -
  obtain g where "(g, Some t) \<in> set cs" using assms(1) by (auto simp: in_probes)
  moreover have "(g, Some t) \<noteq> c" using assms(2) by auto
  ultimately show ?thesis by (auto simp: in_probes intro: in_set_remove1 [THEN iffD2])
qed

lemma breaker_step_ok:
  assumes "breaker_step s s'" and ok: "sys_ok s"
  shows "sys_ok s'"
  using assms(1)
proof cases
  case (call_admitted now adm b)
  have "breaker_ok b" using ok enter_ok [OF _ call_admitted(2)] by (simp add: sys_ok_def)
  then show ?thesis
    using ok enter_admitted [OF call_admitted(2)] unfolding call_admitted(1)
    by (auto simp: sys_ok_def probes_Cons breaker_ok_def intro: less_SucI)
next
  case (call_refused now e b)
  then show ?thesis
    using ok enter_ok [OF _ call_refused(2)] enter_refused [OF call_refused(2)] by (auto simp: sys_ok_def)
next
  case (call_finished adm now how)
  let ?b = "sys_breaker s" and ?b' = "leave now how adm (sys_breaker s)"
  have bok: "breaker_ok ?b" using ok by (simp add: sys_ok_def)
  have "t \<in> set (probes (remove1 adm (sys_inflight s)))" if "cb_probe_token ?b' = Some t" for t
  proof (rule in_probes_remove1)
    have "cb_probe_token ?b = Some t" using leave_token [of now how adm ?b] that by auto
    with ok show "t \<in> set (probes (sys_inflight s))" by (simp add: sys_ok_def)
    show "snd adm \<noteq> Some t"
      using leave_own_token [OF bok, of adm t now how] \<open>cb_probe_token ?b = Some t\<close> that by auto
  qed
  then show ?thesis
    using ok leave_ok [OF bok] distinct_probes_remove1 set_probes_remove1 [of adm "sys_inflight s"]
    unfolding call_finished(1) by (auto simp: sys_ok_def)
qed

definition breaker_init :: "breaker \<Rightarrow> breaker_sys" where
  "breaker_init b = \<lparr>sys_breaker = b, sys_inflight = [], sys_next = 0\<rparr>"

lemma sys_ok_init: "CircuitBreaker m r = Inr b \<Longrightarrow> sys_ok (breaker_init b)"
  using breaker_ok_initial [of m r b]
  by (auto simp: sys_ok_def breaker_init_def probes_def CircuitBreaker_def split: if_splits)

lemma breaker_steps_ok: "breaker_step\<^sup>*\<^sup>* s s' \<Longrightarrow> sys_ok s \<Longrightarrow> sys_ok s'"
  by (induction rule: rtranclp_induct) (auto intro: breaker_step_ok)

lemma breaker_step_params:
  "breaker_step s s' \<Longrightarrow> cb_fail_max (sys_breaker s') = cb_fail_max (sys_breaker s)"
  by (induction rule: breaker_step.induct)
    (auto dest!: enter_admitted enter_refused simp: leave_def handle_success_def handle_failure_def
      release_probe_def trip_def Let_def enter_def check_state_def split: if_splits call_end.splits option.splits)

lemma leave_generation: "cb_generation b \<le> cb_generation (leave now how adm b)"
  by (auto simp: leave_def handle_success_def handle_failure_def release_probe_def trip_def Let_def
      split: call_end.splits)

lemma enter_generation: "enter now t b = (r, b') \<Longrightarrow> cb_generation b' = cb_generation b"
  by (auto simp: enter_def Let_def split: if_splits)

lemma breaker_step_generation:
  "breaker_step s s' \<Longrightarrow> cb_generation (sys_breaker s) \<le> cb_generation (sys_breaker s')"
  by (induction rule: breaker_step.induct) (auto simp: leave_generation dest: enter_generation)

lemma breaker_steps_generation:
  "breaker_step\<^sup>*\<^sup>* s s' \<Longrightarrow> cb_generation (sys_breaker s) \<le> cb_generation (sys_breaker s')"
  by (induction rule: rtranclp_induct) (auto dest: breaker_step_generation)

lemma breaker_steps_params:
  "breaker_step\<^sup>*\<^sup>* s s' \<Longrightarrow> cb_fail_max (sys_breaker s') = cb_fail_max (sys_breaker s)"
  by (induction rule: rtranclp_induct) (auto dest: breaker_step_params)

lemma probes_current_distinct:
  assumes "distinct (probes cs)"
  shows "length (filter (\<lambda>c. snd c = Some t) cs) \<le> 1"
  using assms
proof (induction cs)
  case (Cons c cs)
  have none: "filter (\<lambda>c. snd c = Some t) cs = []" if "t \<notin> set (probes cs)"
    using that in_probes [of t cs] by (auto simp: filter_empty_conv)
  show ?case
    using Cons none by (cases "snd c = Some t") (auto simp: probes_Cons split: option.splits)
qed simp

lemma leave_failed_closed:
  assumes "cb_state b = CLOSED"
  shows "leave now Failed (cb_generation b, None) b =
    (let b1 = b\<lparr>cb_failure_count := cb_failure_count b + 1\<rparr>
     in if cb_fail_max b \<le> cb_failure_count b + 1 then trip now b1 else b1)"
  using assms by (simp add: leave_def handle_failure_def Let_def)

lemma fail_run:
  assumes "cb_state b = CLOSED" and "cb_failure_count b = 0" and "int k < cb_fail_max b"
  shows "((\<lambda>b. leave now Failed (cb_generation b, None) b) ^^ k) b = b\<lparr>cb_failure_count := int k\<rparr>"
  using assms(3)
proof (induction k)
  case 0
  then show ?case using assms(2) by (cases b) simp
next
  case (Suc k)
  then have "((\<lambda>b. leave now Failed (cb_generation b, None) b) ^^ k) b = b\<lparr>cb_failure_count := int k\<rparr>"
    by simp
  moreover have "leave now Failed (cb_generation b, None) (b\<lparr>cb_failure_count := int k\<rparr>) =
      b\<lparr>cb_failure_count := int (Suc k)\<rparr>"
    using leave_failed_closed [of "b\<lparr>cb_failure_count := int k\<rparr>" now] assms(1) Suc.prems
    by (simp add: add.commute)
  ultimately show ?case by simp
qed


subsection \<open>Properties\<close>


text \<open>
  An open breaker fails fast: before the recovery timeout has passed, a call raises
  \<open>CircuitBreakerError\<close> without running the protected function, and neither the tables nor the trace
  nor the breaker change.
\<close>
theorem open_breaker_fails_fast:
  assumes "cb_state (be_breaker (w_env w)) = OPEN" and "cb_opened_at (be_breaker (w_env w)) = Some t"
    and "be_mono (w_env w) (be_monos (w_env w)) - t < cb_recovery_timeout (be_breaker (w_env w))"
  shows "\<exists>w'. breaker_call is_failure func w = (Inl CircuitBreakerError, w') \<and>
     w_db w' = w_db w \<and> w_trace w' = w_trace w \<and> be_breaker (w_env w') = be_breaker (w_env w)"
  using assms
  by (simp add: breaker_call_def bind_def monotonic_def fresh_token_def on_breaker_def enter_def
      check_state_def Let_def)

text \<open>
  The breaker opens exactly at the limit: starting closed with no failures counted, fewer than
  \<open>fail_max\<close> failing calls in a row leave it closed, and the call number \<open>fail_max\<close> opens it.
\<close>
theorem breaker_opens_at_the_limit:
  assumes "breaker_ok b" and "cb_state b = CLOSED" and "cb_failure_count b = 0"
    and "run = (\<lambda>b. leave now Failed (cb_generation b, None) b)"
  shows "(\<forall>k. int k < cb_fail_max b \<longrightarrow> cb_state ((run ^^ k) b) = CLOSED) \<and>
     cb_state ((run ^^ nat (cb_fail_max b)) b) = OPEN \<and>
     cb_opened_at ((run ^^ nat (cb_fail_max b)) b) = Some now"
proof -
  obtain k where k: "nat (cb_fail_max b) = Suc k" "int k = cb_fail_max b - 1"
    using assms(1) by (cases "nat (cb_fail_max b)") (auto simp: breaker_ok_def)
  have "run ((run ^^ k) b) = run (b\<lparr>cb_failure_count := int k\<rparr>)"
    using fail_run [OF assms(2,3), of k] k(2) unfolding assms(4) by simp
  moreover have "run (b\<lparr>cb_failure_count := int k\<rparr>) = trip now (b\<lparr>cb_failure_count := cb_fail_max b\<rparr>)"
    using leave_failed_closed [of "b\<lparr>cb_failure_count := int k\<rparr>" now] assms(2) k(2)
    by (simp add: assms(4))
  ultimately show ?thesis
    using fail_run [OF assms(2,3)] assms(2) by (simp add: assms(4) k(1) trip_def)
qed

text \<open>
  Late answers are ignored: once the breaker has opened or closed anew since a call entered, the
  end of that call, whatever it is and whenever it comes, changes nothing.
\<close>
theorem late_answers_are_ignored:
  assumes "breaker_step\<^sup>*\<^sup>* s s'" and "g < cb_generation (sys_breaker s)"
  shows "leave now how (g, None) (sys_breaker s') = sys_breaker s'"
  using breaker_steps_generation [OF assms(1)] assms(2) by (intro leave_stale) (simp add: current_def)

subsection \<open>Witnesses\<close>

definition sample_breaker :: breaker where
  "sample_breaker = \<lparr>cb_fail_max = 2, cb_recovery_timeout = 30, cb_state = CLOSED,
     cb_failure_count = 0, cb_opened_at = None, cb_probe_in_progress = False, cb_probe_token = None,
     cb_generation = 0\<rparr>"

lemma sample_breaker_new: "CircuitBreaker 2 30 = Inr sample_breaker"
  by (simp add: CircuitBreaker_def sample_breaker_def)

definition sample_open :: breaker where
  "sample_open = sample_breaker\<lparr>cb_state := OPEN, cb_failure_count := 2, cb_opened_at := Some 5,
     cb_generation := 1\<rparr>"


theorem open_breaker_fails_fast_witness:
  "\<exists>(w :: breaker_env world) w'. breaker_call (\<lambda>_. True) (return ()) w = (Inl CircuitBreakerError, w') \<and>
     be_breaker (w_env w') = sample_open"
proof -
  let ?env = "\<lparr>be_breaker = sample_open, be_mono = \<lambda>n. 20, be_monos = 0, be_tokens = 0,
     be_rival = \<lambda>_ b. b\<rparr>"
  have "\<exists>w'. breaker_call (\<lambda>_. True) (return ()) (quiet_world empty_db ?env) = (Inl CircuitBreakerError, w') \<and>
     w_db w' = w_db (quiet_world empty_db ?env) \<and> w_trace w' = w_trace (quiet_world empty_db ?env) \<and>
     be_breaker (w_env w') = be_breaker (w_env (quiet_world empty_db ?env))"
    by (rule open_breaker_fails_fast [where t = 5])
      (simp_all add: quiet_world_def sample_open_def sample_breaker_def)
  then show ?thesis by (auto simp: quiet_world_def)
qed

theorem breaker_opens_at_the_limit_witness:
  "cb_state (((\<lambda>b. leave 5 Failed (cb_generation b, None) b) ^^ 2) sample_breaker) = OPEN"
  using breaker_opens_at_the_limit [of sample_breaker, OF _ _ _ refl]
    breaker_ok_initial [OF sample_breaker_new]
  by (simp add: sample_breaker_def)

theorem late_answers_are_ignored_witness:
  "leave 9 Failed (0, None) sample_open = sample_open"
  using late_answers_are_ignored [of "breaker_init sample_open" "breaker_init sample_open" 0 9 Failed]
  by (simp add: breaker_init_def sample_open_def)

end
