(* ===== verification/Retry.thy ===== *)
theory Retry
  imports Errors
begin

section \<open>Retry policies\<close>

text \<open>
  \<open>application/policies/outbox_retry.py\<close> and \<open>application/policies/registration_retry.py\<close>:
  exponential backoff with a proportional jitter. The two classes have the same fields, the same
  validation and the same \<open>delay_seconds\<close>; they are one record here, with one definition per
  class so that each use site names its own policy.

  Floats are rational numbers; the one float effect the code can meet is written out: Python's
  \<open>float ** int\<close> raises \<open>OverflowError\<close> when the power leaves the range of a double.
\<close>

record retry_policy =
  initial_seconds :: seconds
  max_seconds :: seconds
  exponent :: rat
  jitter_ratio :: rat
  max_attempts :: int

subsection \<open>Construction and delay\<close>

definition OutboxRetryPolicy :: "retry_policy \<Rightarrow> exn + retry_policy" where
  "OutboxRetryPolicy p =
     (if initial_seconds p \<le> 0 then Inl ValueError
      else if max_seconds p < initial_seconds p then Inl ValueError
      else if exponent p < 1 then Inl ValueError
      else if \<not> (0 \<le> jitter_ratio p \<and> jitter_ratio p \<le> 1) then Inl ValueError
      else if max_attempts p \<le> 0 then Inl ValueError
      else Inr p)"

definition RegistrationRetryPolicy :: "retry_policy \<Rightarrow> exn + retry_policy" where
  "RegistrationRetryPolicy p =
     (if initial_seconds p \<le> 0 then Inl ValueError
      else if max_seconds p < initial_seconds p then Inl ValueError
      else if exponent p < 1 then Inl ValueError
      else if \<not> (0 \<le> jitter_ratio p \<and> jitter_ratio p \<le> 1) then Inl ValueError
      else if max_attempts p \<le> 0 then Inl ValueError
      else Inr p)"

definition default_retry_policy :: retry_policy where
  "default_retry_policy =
     \<lparr>initial_seconds = 1, max_seconds = 60, exponent = 2, jitter_ratio = 1 / 5,
      max_attempts = 10\<rparr>"

definition float_limit :: rat where
  "float_limit = 2 ^ 1024"

definition float_pow :: "rat \<Rightarrow> nat \<Rightarrow> exn + rat" where
  "float_pow b n = (if b ^ n < float_limit then Inr (b ^ n) else Inl OverflowError)"

definition delay_seconds :: "retry_policy \<Rightarrow> int \<Rightarrow> rat \<Rightarrow> exn + seconds" where
  "delay_seconds p attempt jitter_sample =
     (let growth_steps = max 0 (attempt - 1)
      in bind_res (float_pow (exponent p) (nat growth_steps)) (\<lambda>power.
           let capped = min (max_seconds p) (initial_seconds p * power);
               jittered = capped * (1 + jitter_ratio p * jitter_sample)
           in Inr (min (max_seconds p) (max (1 / 10) jittered))))"

definition retry_policy_ok :: "retry_policy \<Rightarrow> bool" where
  "retry_policy_ok p \<longleftrightarrow> OutboxRetryPolicy p = Inr p"

subsection \<open>What the policy guarantees\<close>

lemma retry_policy_okD:
  assumes "retry_policy_ok p"
  shows "0 < initial_seconds p" "initial_seconds p \<le> max_seconds p" "1 \<le> exponent p"
    "0 \<le> jitter_ratio p" "jitter_ratio p \<le> 1" "0 < max_attempts p" "0 < max_seconds p"
  using assms by (auto simp: retry_policy_ok_def OutboxRetryPolicy_def split: if_splits)

lemma RegistrationRetryPolicy_eq: "RegistrationRetryPolicy p = OutboxRetryPolicy p"
  by (simp add: RegistrationRetryPolicy_def OutboxRetryPolicy_def)

lemma delay_seconds_result:
  "delay_seconds p attempt j = Inr d \<longleftrightarrow>
     exponent p ^ nat (max 0 (attempt - 1)) < float_limit \<and>
     d = min (max_seconds p) (max (1 / 10)
           (min (max_seconds p) (initial_seconds p * exponent p ^ nat (max 0 (attempt - 1)))
            * (1 + jitter_ratio p * j)))"
  by (auto simp: delay_seconds_def float_pow_def Let_def)

lemma delay_seconds_pos:
  assumes "retry_policy_ok p" and "delay_seconds p attempt j = Inr d"
  shows "0 < d"
  using assms retry_policy_okD(7) [OF assms(1)] by (auto simp: delay_seconds_result min_def max_def)

lemma delay_seconds_le_max: "delay_seconds p attempt j = Inr d \<Longrightarrow> d \<le> max_seconds p"
  by (auto simp: delay_seconds_result)

end
