(* ===== verification/Text.thy ===== *)
theory Text
  imports Events "HOL-Library.List_Lexorder" "HOL-Library.Char_ord"
begin

section \<open>Python text\<close>

text \<open>
  What the service uses of Python's text processing: \<open>int\<close> of a string, \<open>str\<close> of an integer,
  \<open>str.encode\<close>, \<open>bytes.hex\<close> and \<open>bytes.fromhex\<close>, and the constructor \<open>UUID(str)\<close>. A character is
  a code point below 256.
\<close>

subsection \<open>Digits\<close>

definition is_digit :: "char \<Rightarrow> bool" where
  "is_digit c \<longleftrightarrow> (let n = (of_char c :: nat) in 48 \<le> n \<and> n \<le> 57)"

definition digit_value :: "char \<Rightarrow> nat" where
  "digit_value c = of_char c - 48"

definition number_of_digits :: "string \<Rightarrow> nat" where
  "number_of_digits ds = foldl (\<lambda>n c. 10 * n + digit_value c) 0 ds"

text \<open>An underscore is allowed between two digits only.\<close>

fun drop_underscores :: "(char \<Rightarrow> bool) \<Rightarrow> bool \<Rightarrow> string \<Rightarrow> string option" where
  "drop_underscores digit after_digit [] = Some []"
| "drop_underscores digit after_digit (c # cs) =
     (if c = CHR ''_''
      then (if after_digit \<and> cs \<noteq> [] \<and> digit (hd cs) then drop_underscores digit False cs else None)
      else map_option (Cons c) (drop_underscores digit (digit c) cs))"

lemma drop_underscores_none:
  "(\<And>c. c \<in> set s \<Longrightarrow> c \<noteq> CHR ''_'') \<Longrightarrow> drop_underscores digit b s = Some s"
  by (induction s arbitrary: b) auto

definition take_sign :: "string \<Rightarrow> int \<times> string" where
  "take_sign s =
     (case s of
        [] \<Rightarrow> (1, s)
      | c # cs \<Rightarrow> if c = CHR ''-'' then (-1, cs) else if c = CHR ''+'' then (1, cs) else (1, s))"

text \<open>\<open>int(s)\<close>; \<open>None\<close> is the \<open>ValueError\<close>.\<close>

definition py_int :: "string \<Rightarrow> int option" where
  "py_int s =
     (case drop_underscores is_digit False (py_strip s) of
        None \<Rightarrow> None
      | Some cs \<Rightarrow> (case take_sign cs of (sg, ds) \<Rightarrow>
          if ds \<noteq> [] \<and> list_all is_digit ds then Some (sg * int (number_of_digits ds)) else None))"

text \<open>\<open>str(n)\<close> of an integer.\<close>

fun nat_str :: "nat \<Rightarrow> string" where
  "nat_str n = (if n < 10 then [hex_digit n] else nat_str (n div 10) @ [hex_digit (n mod 10)])"

declare nat_str.simps [simp del]

definition int_str :: "int \<Rightarrow> string" where
  "int_str i = (if i < 0 then CHR ''-'' # nat_str (nat (- i)) else nat_str (nat i))"

lemma number_of_digits_snoc: "number_of_digits (ds @ [d]) = 10 * number_of_digits ds + digit_value d"
  by (simp add: number_of_digits_def)

lemma is_digit_hex_digit: "n < 10 \<Longrightarrow> is_digit (hex_digit n)"
  by (simp add: is_digit_def hex_digit_def)

lemma digit_value_hex_digit: "n < 10 \<Longrightarrow> digit_value (hex_digit n) = n"
  by (simp add: digit_value_def hex_digit_def)

lemma nat_str_value: "number_of_digits (nat_str n) = n"
proof (induction n rule: nat_str.induct)
  case (1 n)
  show ?case
  proof (cases "n < 10")
    case True
    then show ?thesis
      by (simp add: nat_str.simps [of n] number_of_digits_def digit_value_hex_digit)
  next
    case False
    with 1 show ?thesis
      by (simp add: nat_str.simps [of n] number_of_digits_snoc digit_value_hex_digit)
  qed
qed

lemma nat_str_digits: "list_all is_digit (nat_str n)"
proof (induction n rule: nat_str.induct)
  case (1 n)
  then show ?case by (cases "n < 10") (simp_all add: nat_str.simps [of n] is_digit_hex_digit)
qed

lemma nat_str_not_Nil [simp]: "nat_str n \<noteq> []"
  by (simp add: nat_str.simps [of n])

subsection \<open>Bytes\<close>

definition utf8_char :: "char \<Rightarrow> bytes" where
  "utf8_char c =
     (let n = (of_char c :: nat) in if n < 128 then [n] else [192 + n div 64, 128 + n mod 64])"

definition utf8 :: "string \<Rightarrow> bytes" where
  "utf8 s = concat (map utf8_char s)"

definition bytes_hex :: "bytes \<Rightarrow> string" where
  "bytes_hex bs = concat (map (\<lambda>b. [hex_digit (b div 16), hex_digit (b mod 16)]) bs)"

definition hex_value :: "char \<Rightarrow> nat option" where
  "hex_value c =
     (let n = (of_char c :: nat) in
      if 48 \<le> n \<and> n \<le> 57 then Some (n - 48)
      else if 97 \<le> n \<and> n \<le> 102 then Some (n - 87)
      else if 65 \<le> n \<and> n \<le> 70 then Some (n - 55) else None)"

definition is_hex_digit :: "char \<Rightarrow> bool" where
  "is_hex_digit c \<longleftrightarrow> hex_value c \<noteq> None"

definition ascii_space :: "char \<Rightarrow> bool" where
  "ascii_space c \<longleftrightarrow> (let n = (of_char c :: nat) in (9 \<le> n \<and> n \<le> 13) \<or> n = 32)"

text \<open>\<open>bytes.fromhex\<close> skips white space between the bytes.\<close>

fun bytes_fromhex :: "string \<Rightarrow> bytes option" where
  "bytes_fromhex [] = Some []"
| "bytes_fromhex [c] = (if ascii_space c then Some [] else None)"
| "bytes_fromhex (c # d # cs) =
     (if ascii_space c then bytes_fromhex (d # cs)
      else (case (hex_value c, hex_value d) of
              (Some a, Some b) \<Rightarrow> map_option (Cons (16 * a + b)) (bytes_fromhex cs)
            | _ \<Rightarrow> None))"

lemma utf8_char_not_Nil [simp]: "utf8_char c \<noteq> []"
  by (simp add: utf8_char_def Let_def)

lemma of_char_below: "(of_char c :: nat) < 256"
  by simp

lemma utf8_char_prefix:
  assumes "utf8_char c @ xs = utf8_char d @ ys"
  shows "c = d \<and> xs = ys"
proof -
  let ?m = "of_char c :: nat" and ?n = "of_char d :: nat"
  have bound: "?m < 256" "?n < 256" by simp_all
  have parts: "?m = 64 * (?m div 64) + ?m mod 64" "?n = 64 * (?n div 64) + ?n mod 64" by simp_all
  have "?m = ?n \<and> xs = ys"
    using assms bound by (auto simp: utf8_char_def Let_def simp del: of_char_eq_iff split: if_splits)
      (use parts in presburger)
  then show ?thesis by simp
qed

lemma utf8_inj: "utf8 s = utf8 t \<Longrightarrow> s = t"
proof (induction s arbitrary: t)
  case Nil
  then show ?case by (cases t) (auto simp: utf8_def)
next
  case (Cons c s)
  then obtain d t' where t: "t = d # t'" by (cases t) (auto simp: utf8_def)
  with Cons.prems have "utf8_char c @ utf8 s = utf8_char d @ utf8 t'" by (simp add: utf8_def)
  with utf8_char_prefix Cons.IH t show ?case by blast
qed

lemma hex_value_hex_digit [simp]: "n < 16 \<Longrightarrow> hex_value (hex_digit n) = Some n"
  by (auto simp: hex_value_def hex_digit_def Let_def)

lemma not_space_hex_digit [simp]: "n < 16 \<Longrightarrow> \<not> ascii_space (hex_digit n)"
  by (auto simp: ascii_space_def hex_digit_def Let_def)

lemma bytes_fromhex_hex:
  "(\<And>b. b \<in> set bs \<Longrightarrow> b < 256) \<Longrightarrow> bytes_fromhex (bytes_hex bs) = Some bs"
proof (induction bs)
  case (Cons b bs)
  have "b div 16 < 16" using Cons.prems [of b] by simp
  with Cons show ?case by (simp add: bytes_hex_def)
qed (simp add: bytes_hex_def)

subsection \<open>\<open>UUID(str)\<close>\<close>

text \<open>
  The constructor removes \<open>urn:\<close>, \<open>uuid:\<close>, braces at the ends and hyphens; 32 characters must
  remain, and \<open>int(h, 16)\<close> must accept them.
\<close>

fun remove_all :: "string \<Rightarrow> nat \<Rightarrow> string \<Rightarrow> string" where
  "remove_all pat skip [] = []"
| "remove_all pat (Suc skip) (c # cs) = remove_all pat skip cs"
| "remove_all pat 0 (c # cs) =
     (if prefix pat (c # cs) then remove_all pat (length pat - 1) cs else c # remove_all pat 0 cs)"

definition strip_braces :: "string \<Rightarrow> string" where
  "strip_braces s =
     (let brace = (\<lambda>c. c = CHR ''{'' \<or> c = CHR ''}'') in rev (dropWhile brace (rev (dropWhile brace s))))"

fun hex_number :: "nat \<Rightarrow> string \<Rightarrow> nat option" where
  "hex_number acc [] = Some acc"
| "hex_number acc (c # cs) =
     (case hex_value c of None \<Rightarrow> None | Some v \<Rightarrow> hex_number (16 * acc + v) cs)"

definition py_int16 :: "string \<Rightarrow> int option" where
  "py_int16 s =
     (case take_sign (py_strip s) of (sg, r) \<Rightarrow>
        let prefixed = prefix ''0x'' r \<or> prefix ''0X'' r;
            body = (if prefixed then drop 2 r else r)
        in case drop_underscores is_hex_digit prefixed body of
             None \<Rightarrow> None
           | Some [] \<Rightarrow> None
           | Some ds \<Rightarrow> map_option (\<lambda>n. sg * int n) (hex_number 0 ds))"

definition uuid_of_str :: "string \<Rightarrow> uuid option" where
  "uuid_of_str s =
     (let h = filter (\<lambda>c. c \<noteq> CHR ''-'') (strip_braces (remove_all ''uuid:'' 0 (remove_all ''urn:'' 0 s)))
      in if length h \<noteq> 32 then None
         else case py_int16 h of None \<Rightarrow> None | Some n \<Rightarrow> if 0 \<le> n \<and> n < 2 ^ 128 then Some (nat n) else None)"

lemma hex_number_digits:
  "hex_number acc (map hex_digit (digits 16 k n)) = Some (acc * 16 ^ k + n mod 16 ^ k)"
proof -
  have general: "hex_number acc (map hex_digit ds) = Some (acc * 16 ^ length ds + from_digits 16 ds)"
    if "\<And>d. d \<in> set ds \<Longrightarrow> d < 16" for ds acc
    using that by (induction ds arbitrary: acc) (simp_all add: algebra_simps)
  have "d \<in> set (digits 16 k n) \<Longrightarrow> d < 16" for d using digits_bound [of 16 d k n] by simp
  from general [OF this] show ?thesis by (simp add: from_digits_digits)
qed

lemma hex_digit_neq: "n < 16 \<Longrightarrow> \<not> is_hex_digit c \<Longrightarrow> hex_digit n \<noteq> c"
  by (auto simp: is_hex_digit_def)

definition uuid_char :: "char \<Rightarrow> bool" where
  "uuid_char c \<longleftrightarrow> is_hex_digit c \<or> c = CHR ''-''"

lemma uuid_str_chars: "list_all uuid_char (uuid_str u)"
proof -
  have "list_all uuid_char (map hex_digit (digits 16 32 u))"
    using digits_bound [of 16 _ 32 u] by (auto simp: list_all_iff uuid_char_def is_hex_digit_def)
  then show ?thesis
    unfolding uuid_str_def Let_def list_all_append list_all_iff
    by (auto simp: uuid_char_def dest!: in_set_takeD in_set_dropD simp del: set_map)
qed

lemma remove_all_none:
  assumes "list_all uuid_char s" and "pat \<noteq> []" and "\<not> uuid_char (hd pat)"
  shows "remove_all pat 0 s = s"
  using assms(1)
proof (induction s)
  case (Cons c s)
  have "\<not> prefix pat (c # s)" using Cons.prems assms(2,3) by (cases pat) auto
  with Cons show ?case by simp
qed simp

lemma strip_braces_none:
  assumes "list_all uuid_char s"
  shows "strip_braces s = s"
proof -
  let ?brace = "\<lambda>c. c = CHR ''{'' \<or> c = CHR ''}''"
  have "\<not> ?brace c" if "c \<in> set s" for c
    using assms that by (auto simp: list_all_iff uuid_char_def is_hex_digit_def hex_value_def)
  then have "dropWhile ?brace s = s" "dropWhile ?brace (rev s) = rev s"
    unfolding dropWhile_eq_self_iff by (metis hd_in_set set_rev)+
  then show ?thesis unfolding strip_braces_def Let_def by (simp only: rev_rev_ident)
qed

lemma py_int16_plain:
  assumes "list_all is_hex_digit s" and "s \<noteq> []"
  shows "py_int16 s = map_option int (hex_number 0 s)"
proof -
  have hex: "is_hex_digit c" if "c \<in> set s" for c using assms(1) that by (simp add: list_all_iff)
  have no: "c \<notin> set s" if "\<not> is_hex_digit c" for c using hex that by blast
  have "\<not> py_isspace c" if "c \<in> set s" for c
    using hex [OF that] by (auto simp: is_hex_digit_def hex_value_def py_isspace_def Let_def split: if_splits)
  then have "dropWhile py_isspace s = s" "dropWhile py_isspace (rev s) = rev s"
    using assms(2) by (simp_all add: dropWhile_eq_self_iff hd_rev)
  then have strip: "py_strip s = s" by (simp add: py_strip_def)
  have bad: "CHR ''-'' \<notin> set s" "CHR ''+'' \<notin> set s" "CHR ''_'' \<notin> set s" "CHR ''x'' \<notin> set s" "CHR ''X'' \<notin> set s"
    by (rule no; simp add: is_hex_digit_def hex_value_def)+
  then have "take_sign s = (1, s)" using assms(2) by (cases s) (auto simp: take_sign_def)
  moreover have "\<not> prefix ''0x'' s" "\<not> prefix ''0X'' s" using bad(4,5) by (auto simp: prefix_def)
  moreover have "drop_underscores is_hex_digit False s = Some s"
    by (rule drop_underscores_none) (use bad(3) in auto)
  ultimately show ?thesis
    using assms(2) unfolding py_int16_def strip
    by (simp add: Let_def option.case_eq_if list.case_eq_if del: drop_underscores.simps)
qed

text \<open>\<open>UUID(str(u)) == u\<close>.\<close>

lemma uuid_of_str_str:
  assumes "u < 2 ^ 128"
  shows "uuid_of_str (uuid_str u) = Some u"
proof -
  let ?h = "map hex_digit (digits 16 32 u)"
  have hex: "c \<noteq> CHR ''-''" if "c \<in> set ?h" for c
    using that digits_bound [of 16 _ 32 u] hex_digit_neq [of _ "CHR ''-''"]
    by (auto simp: is_hex_digit_def hex_value_def)
  have "filter (\<lambda>c. c \<noteq> CHR ''-'') (uuid_str u) =
      take 8 ?h @ take 4 (drop 8 ?h) @ take 4 (drop 12 ?h) @ take 4 (drop 16 ?h) @ drop 20 ?h"
  proof -
    have keep: "filter (\<lambda>c. c \<noteq> CHR ''-'') xs = xs" if "set xs \<subseteq> set ?h" for xs
      using hex that by (intro filter_True) (metis subsetD)
    have sub: "set (take m (drop k ?h)) \<subseteq> set ?h" "set (take m ?h) \<subseteq> set ?h" "set (drop k ?h) \<subseteq> set ?h" for m k
      by (auto dest!: in_set_takeD in_set_dropD simp del: set_map)
    show ?thesis unfolding uuid_str_def Let_def by (simp add: keep [OF sub(1)] keep [OF sub(2)] keep [OF sub(3)])
  qed
  also have "\<dots> = ?h"
    using drop_split [of 0 ?h 8] drop_split [of 8 ?h 4] drop_split [of 12 ?h 4] drop_split [of 16 ?h 4] by simp
  finally have "filter (\<lambda>c. c \<noteq> CHR ''-'') (uuid_str u) = ?h" .
  moreover have "remove_all ''urn:'' 0 (uuid_str u) = uuid_str u" "remove_all ''uuid:'' 0 (uuid_str u) = uuid_str u"
    by (rule remove_all_none [OF uuid_str_chars]; simp add: uuid_char_def is_hex_digit_def hex_value_def)+
  moreover have "py_int16 ?h = Some (int u)"
  proof -
    have "list_all is_hex_digit ?h"
      using digits_bound [of 16 _ 32 u] by (auto simp: list_all_iff is_hex_digit_def)
    moreover have "(16::nat) ^ 32 = 2 ^ 128" by simp
    moreover have "?h \<noteq> []" using length_digits [of 16 32 u] by fastforce
    ultimately show ?thesis
      using hex_number_digits [of 0 32 u] assms py_int16_plain [of ?h] by simp
  qed
  ultimately show ?thesis
    using assms strip_braces_none [OF uuid_str_chars [of u]] by (simp add: uuid_of_str_def)
qed

end
