(* ===== verification/Registration.thy ===== *)
theory Registration
  imports Database Retry Text
begin

section \<open>The registration process\<close>

text \<open>
  \<open>application/registration/results.py\<close>, the handlers of \<open>application/use_cases/register\<close>,
  \<open>resume_registration\<close> and \<open>redrive_registration\<close>, and the worker
  \<open>application/registration/reconciler.py\<close>.

  A handler is a program over the world of theory \<open>Database\<close>. Its collaborators are arguments: the
  provisioner of profiles \<open>create_profile\<close> (a port, whose contract is the locale \<open>profile_port\<close>),
  and in \<open>registration_config\<close> the address parser of pydantic, the password hasher and the settings.
  Calls of the observer appear in the trace. \<open>asyncio.gather\<close> of the reconciler is modelled as one
  operation after the other; what other tasks do in between is part of \<open>w_rival\<close>.
\<close>

subsection \<open>Configuration\<close>

record registration_config =
  g_email_str :: "string \<Rightarrow> string option"
  g_hash :: "string \<Rightarrow> exn + string"
  g_verify :: "string \<Rightarrow> string \<Rightarrow> exn + bool"
  g_topic :: string
  g_producer :: string
  g_policy :: retry_policy
  g_claim_lease_seconds :: seconds

subsection \<open>\<open>pending_result\<close>\<close>

definition pending_result ::
    "registration_operation \<Rightarrow> datetime \<Rightarrow> datetime option \<Rightarrow> exn + registration_result" where
  "pending_result operation now retry_at =
     (let effective_retry_at =
            (case retry_at of
               Some t \<Rightarrow> t
             | None \<Rightarrow>
                 (if r_status operation = R_CLAIMED
                  then (case r_claim_expires_at operation of
                          Some e \<Rightarrow> e | None \<Rightarrow> r_available_at operation)
                  else r_available_at operation));
          retry_after_seconds = max 1 (ceil_total_seconds (minus_datetime effective_retry_at now))
      in RegistrationResult
           \<lparr>res_operation_id = r_id operation, res_user_id = r_user_id operation,
            res_outcome = OUTCOME_PENDING, res_retry_after_seconds = Some retry_after_seconds\<rparr>)"

definition completed_result_of :: "registration_operation \<Rightarrow> uuid \<Rightarrow> exn + registration_result" where
  "completed_result_of operation user_id =
     RegistrationResult
       \<lparr>res_operation_id = r_id operation, res_user_id = user_id,
        res_outcome = OUTCOME_COMPLETED, res_retry_after_seconds = None\<rparr>"

subsection \<open>\<open>ResumeRegistrationHandler\<close>\<close>

definition observe :: "string \<Rightarrow> string \<Rightarrow> ('e, unit) io" where
  "observe what detail = emit (Observed what detail)"

definition block_operation ::
    "registration_operation \<Rightarrow> uuid \<Rightarrow> exn \<Rightarrow> ('e, unit) io" where
  "block_operation operation owner_token error =
     bind utc_now (\<lambda>blocked_at.
     bind (uow (bind db_now (\<lambda>ts.
       stmt (on_registrations
         (block (r_id operation) owner_token blocked_at (class_name error) ts))))) (\<lambda>blocked.
       if \<not> blocked then observe ''lost_claim'' []
       else observe ''operation_blocked'' (class_name error)))"

definition retry_or_block ::
    "registration_config \<Rightarrow> registration_operation \<Rightarrow> uuid \<Rightarrow> exn \<Rightarrow> ('e, registration_result) io" where
  "retry_or_block cfg operation owner_token error =
     (let attempt = r_attempts operation + 1 in
      if max_attempts (g_policy cfg) \<le> attempt
      then bind (block_operation operation owner_token error) (\<lambda>_.
             throw ProfileProvisioningUnavailableError)
      else
        bind utc_now (\<lambda>failed_at.
        bind jitter_source (\<lambda>jitter.
        bind (liftr (delay_seconds (g_policy cfg) attempt jitter)) (\<lambda>delay.
        let retry_at = plus_delta failed_at (timedelta_seconds delay) in
        bind (uow (bind db_now (\<lambda>ts.
          stmt (on_registrations (registration_schedule_retry (r_id operation) owner_token failed_at
            retry_at (class_name error) ts))))) (\<lambda>scheduled.
        bind (if \<not> scheduled then observe ''lost_claim'' []
              else observe ''retry_scheduled'' (class_name error)) (\<lambda>_.
        bind utc_now (\<lambda>now.
          liftr (pending_result operation now (Some retry_at)))))))))"

definition finalize_tx ::
    "registration_config \<Rightarrow> registration_operation \<Rightarrow> uuid \<Rightarrow> datetime \<Rightarrow> user \<Rightarrow> ('e, user) io" where
  "finalize_tx cfg operation owner_token completed_at user_to_create =
     bind db_now (\<lambda>ts.
     bind (stmt (on_registrations (complete (r_id operation) owner_token completed_at ts))) (\<lambda>completed.
       if \<not> completed then throw LostRegistrationClaim
       else
         bind (stmt (on_users (create_if_absent (g_email_str cfg) user_to_create))) (\<lambda>user.
         case user of
           None \<Rightarrow> throw RegistrationFinalizationConflict
         | Some u \<Rightarrow>
             bind new_uuid (\<lambda>correlation_id.
             bind new_uuid (\<lambda>event_id.
             bind (stmt (on_outbox (publish (g_topic cfg) (g_producer cfg)
                \<lparr>e_user_id = u_id u, e_registered_at = u_created_at u,
                 e_correlation_id = correlation_id, e_causation_id = None,
                 e_event_id = event_id\<rparr>))) (\<lambda>_. return u))))))"

definition finalize ::
    "registration_config \<Rightarrow> registration_operation \<Rightarrow> uuid \<Rightarrow> ('e, user) io" where
  "finalize cfg operation owner_token =
     (case r_password_hash operation of
        None \<Rightarrow> throw RuntimeError
      | Some password_hash \<Rightarrow>
          bind utc_now (\<lambda>completed_at.
          bind (liftr (validate_user (g_email_str cfg)
              \<lparr>u_id = r_user_id operation, u_created_at = r_created_at operation,
               u_updated_at = None, u_email = r_email operation, u_password_hash = password_hash,
               u_role = USER, u_status = ACTIVE\<rparr>)) (\<lambda>user_to_create.
            uow (finalize_tx cfg operation owner_token completed_at user_to_create))))"

definition resume_execute ::
    "registration_config \<Rightarrow> (uuid \<Rightarrow> datetime \<Rightarrow> ('e, unit) io) \<Rightarrow> registration_operation \<Rightarrow> uuid
     \<Rightarrow> ('e, registration_result) io" where
  "resume_execute cfg create_profile operation owner_token =
     (if r_status operation \<noteq> R_CLAIMED \<or> r_claim_token operation \<noteq> Some owner_token
      then throw ValueError
      else
        try_else (create_profile (r_user_id operation) (r_created_at operation))
          (\<lambda>error.
             if isinstance error ProfileProvisioningRejectedError
             then bind (block_operation operation owner_token error) (\<lambda>_.
                    throw ProfileProvisioningUnavailableError)
             else if isinstance error ProfileProvisioningUnavailableError
             then retry_or_block cfg operation owner_token error
             else if is_exception error
             then bind (block_operation operation owner_token error) (\<lambda>_. throw error)
             else throw error)
          (\<lambda>_. try_else (finalize cfg operation owner_token)
             (\<lambda>error.
                if isinstance error LostRegistrationClaim
                then bind (observe ''lost_claim'' []) (\<lambda>_.
                     bind utc_now (\<lambda>now. liftr (pending_result operation now None)))
                else if isinstance error RegistrationFinalizationConflict
                then bind (block_operation operation owner_token error) (\<lambda>_.
                       throw ProfileProvisioningUnavailableError)
                else if isinstance error PersistenceUnavailableError \<or>
                        isinstance error TransactionConflictError
                then retry_or_block cfg operation owner_token error
                else if is_exception error
                then bind (block_operation operation owner_token error) (\<lambda>_. throw error)
                else throw error)
             (\<lambda>user. bind (observe ''operation_completed'' []) (\<lambda>_.
                liftr (completed_result_of operation (u_id user))))))"

subsection \<open>\<open>RegisterUserHandler\<close>\<close>

record register_command =
  rc_email :: string
  rc_password :: string
  rc_key_hash :: bytes

definition RegisterUserCommand ::
    "(string \<Rightarrow> string option) \<Rightarrow> register_command \<Rightarrow> exn + register_command" where
  "RegisterUserCommand email_str c =
     bind_res (NormalizedEmail email_str (rc_email c)) (\<lambda>email.
     bind_res (validate_registration_password (rc_password c)) (\<lambda>_.
       if length (rc_key_hash c) \<noteq> 32 then Inl InvalidCommandError
       else Inr (c\<lparr>rc_email := email\<rparr>)))"

definition load_by_key ::
    "registration_config \<Rightarrow> bytes \<Rightarrow> ('e, registration_operation option) io" where
  "load_by_key cfg key_hash =
     uow (query (\<lambda>d. get_by_key_hash (g_email_str cfg) key_hash (db_registrations d)))"

definition claim_lease :: "registration_config \<Rightarrow> datetime \<Rightarrow> datetime" where
  "claim_lease cfg now = plus_delta now (timedelta_seconds (g_claim_lease_seconds cfg))"

definition stored_password_hash ::
    "registration_config \<Rightarrow> registration_operation \<Rightarrow> ('e, string) io" where
  "stored_password_hash cfg operation =
     (case r_password_hash operation of
        Some h \<Rightarrow> return h
      | None \<Rightarrow>
          bind (uow (query (\<lambda>d. user_get (g_email_str cfg) (r_user_id operation) (db_users d)))) (\<lambda>user.
            case user of None \<Rightarrow> throw RuntimeError | Some u \<Rightarrow> return (u_password_hash u)))"

definition resume_existing ::
    "registration_config \<Rightarrow> (uuid \<Rightarrow> datetime \<Rightarrow> ('e, unit) io) \<Rightarrow> registration_operation \<Rightarrow> string
     \<Rightarrow> string \<Rightarrow> ('e, registration_result) io" where
  "resume_existing cfg create_profile operation email password =
     (if r_email operation \<noteq> email then throw IdempotencyKeyConflictError
      else
        bind (stored_password_hash cfg operation) (\<lambda>password_hash.
        bind (liftr (g_verify cfg password password_hash)) (\<lambda>verified.
        if \<not> verified then throw IdempotencyKeyConflictError
        else if r_status operation = R_COMPLETED
        then liftr (completed_result_of operation (r_user_id operation))
        else if r_status operation = R_BLOCKED then throw ProfileProvisioningUnavailableError
        else
          bind utc_now (\<lambda>now.
          bind new_uuid (\<lambda>owner_token.
          bind (uow (bind db_now (\<lambda>ts.
            stmt (on_registrations (claim_by_key_hash (g_email_str cfg) (r_key_hash operation)
              owner_token now (claim_lease cfg now) ts))))) (\<lambda>claimed.
          case claimed of
            None \<Rightarrow> bind utc_now (\<lambda>now'. liftr (pending_result operation now' None))
          | Some op \<Rightarrow> resume_execute cfg create_profile op owner_token))))))"

definition candidate_operation ::
    "registration_config \<Rightarrow> string \<Rightarrow> string \<Rightarrow> bytes \<Rightarrow> datetime \<Rightarrow> uuid \<Rightarrow> uuid \<Rightarrow> uuid
     \<Rightarrow> registration_operation" where
  "candidate_operation cfg email password_hash key_hash now owner_token operation_id user_id =
     \<lparr>r_id = operation_id, r_user_id = user_id, r_email = email,
      r_password_hash = Some password_hash, r_key_hash = key_hash, r_status = R_CLAIMED,
      r_attempts = 0, r_available_at = now, r_claim_token = Some owner_token,
      r_claim_expires_at = Some (claim_lease cfg now), r_last_error_class = None,
      r_terminal_at = None, r_redrive_count = 0, r_created_at = now, r_updated_at = None\<rparr>"

definition create_candidate ::
    "registration_config \<Rightarrow> registration_operation \<Rightarrow> ('e, registration_operation option) io" where
  "create_candidate cfg candidate =
     uow (bind (query (\<lambda>d. user_get_by_email (g_email_str cfg) (r_email candidate) (db_users d))) (\<lambda>user.
       case user of
         None \<Rightarrow> stmt (on_registrations (try_create (g_email_str cfg) candidate))
       | Some _ \<Rightarrow> return None))"

definition register_execute ::
    "registration_config \<Rightarrow> (uuid \<Rightarrow> datetime \<Rightarrow> ('e, unit) io) \<Rightarrow> register_command
     \<Rightarrow> ('e, registration_result) io" where
  "register_execute cfg create_profile command =
     (let email = rc_email command; password = rc_password command; key_hash = rc_key_hash command in
      bind (load_by_key cfg key_hash) (\<lambda>existing.
      case existing of
        Some op \<Rightarrow> resume_existing cfg create_profile op email password
      | None \<Rightarrow>
          bind (liftr (g_hash cfg password)) (\<lambda>password_hash.
          bind utc_now (\<lambda>now.
          bind new_uuid (\<lambda>owner_token.
          bind new_uuid (\<lambda>operation_id.
          bind new_uuid (\<lambda>user_id.
          bind (liftr (RegistrationOperation (g_email_str cfg) (candidate_operation cfg email
              password_hash key_hash now owner_token operation_id user_id))) (\<lambda>candidate.
          bind (create_candidate cfg candidate) (\<lambda>created.
          case created of
            Some op \<Rightarrow> resume_execute cfg create_profile op owner_token
          | None \<Rightarrow>
              bind (load_by_key cfg key_hash) (\<lambda>existing'.
              case existing' of
                None \<Rightarrow> throw UserAlreadyExistsError
              | Some op \<Rightarrow> resume_existing cfg create_profile op email password))))))))))"

subsection \<open>\<open>RedriveRegistrationHandler\<close>\<close>

definition redrive_execute :: "uuid \<Rightarrow> ('e, bool) io" where
  "redrive_execute operation_id =
     uow (bind utc_now (\<lambda>available_at. bind db_now (\<lambda>ts.
       stmt (on_registrations (redrive_blocked operation_id available_at ts)))))"

subsection \<open>\<open>RegistrationReconcilerService\<close>\<close>

definition process ::
    "registration_config \<Rightarrow> (uuid \<Rightarrow> datetime \<Rightarrow> ('e, unit) io) \<Rightarrow> uuid \<Rightarrow> registration_operation
     \<Rightarrow> ('e, unit) io" where
  "process cfg create_profile owner_token operation =
     try_else (resume_execute cfg create_profile operation owner_token)
       (\<lambda>e. if is_exception e then return () else throw e)
       (\<lambda>_. return ())"

fun process_all ::
    "registration_config \<Rightarrow> (uuid \<Rightarrow> datetime \<Rightarrow> ('e, unit) io) \<Rightarrow> uuid \<Rightarrow> registration_operation list
     \<Rightarrow> ('e, unit) io" where
  "process_all cfg create_profile owner_token [] = return ()"
| "process_all cfg create_profile owner_token (op # ops) =
     bind (process cfg create_profile owner_token op) (\<lambda>_. process_all cfg create_profile owner_token ops)"

definition reconciler_run_once ::
    "registration_config \<Rightarrow> (uuid \<Rightarrow> datetime \<Rightarrow> ('e, unit) io) \<Rightarrow> int \<Rightarrow> ('e, nat) io" where
  "reconciler_run_once cfg create_profile batch_size =
     (if batch_size \<le> 0 then throw ValueError
      else
        bind new_uuid (\<lambda>owner_token.
        bind utc_now (\<lambda>claimed_at.
        bind (uow (bind db_now (\<lambda>ts. bind tx_locked (\<lambda>locked.
          stmt (on_registrations (registration_claim_batch (g_email_str cfg) locked owner_token
            claimed_at (claim_lease cfg claimed_at) batch_size ts)))))) (\<lambda>operations.
        if operations = [] then return 0
        else
          bind (observe ''recovery_batch_claimed'' (nat_str (length operations))) (\<lambda>_.
          bind (process_all cfg create_profile owner_token operations) (\<lambda>_.
            return (length operations)))))))"

text \<open>
  The loop of \<open>run\<close>: \<open>n\<close> polls happen before the stop event is set. An iteration that raises
  anything but a cancellation counts as empty; after an empty iteration the loop sleeps.
\<close>

fun reconciler_polls ::
    "registration_config \<Rightarrow> (uuid \<Rightarrow> datetime \<Rightarrow> ('e, unit) io) \<Rightarrow> seconds \<Rightarrow> int \<Rightarrow> nat \<Rightarrow> ('e, unit) io" where
  "reconciler_polls cfg create_profile poll_interval batch_size 0 = return ()"
| "reconciler_polls cfg create_profile poll_interval batch_size (Suc n) =
     bind (catch (reconciler_run_once cfg create_profile batch_size)
             (\<lambda>e. if is_exception e then return 0 else throw e)) (\<lambda>processed.
     bind (if processed = 0 \<and> n \<noteq> 0 then emit (Slept (Finite poll_interval)) else return ()) (\<lambda>_.
       reconciler_polls cfg create_profile poll_interval batch_size n))"

definition reconciler_run ::
    "registration_config \<Rightarrow> (uuid \<Rightarrow> datetime \<Rightarrow> ('e, unit) io) \<Rightarrow> seconds \<Rightarrow> int \<Rightarrow> nat \<Rightarrow> ('e, unit) io" where
  "reconciler_run cfg create_profile poll_interval batch_size polls =
     (if poll_interval \<le> 0 then throw ValueError
      else reconciler_polls cfg create_profile poll_interval batch_size polls)"

subsection \<open>The invariant of the tables\<close>

text \<open>
  Registrations and accounts are sound tables, and every completed registration has its account.
\<close>

definition completed_have_users :: "db \<Rightarrow> bool" where
  "completed_have_users d \<longleftrightarrow>
     (\<forall>r \<in> set (db_registrations d). r_status r = R_COMPLETED \<longrightarrow>
        (\<exists>u \<in> set (db_users d). u_id u = r_user_id r \<and> u_email u = r_email r))"

definition users_ok :: "(string \<Rightarrow> string option) \<Rightarrow> user list \<Rightarrow> bool" where
  "users_ok email_str users \<longleftrightarrow>
     distinct (map u_id users) \<and> distinct (map u_email users) \<and> list_all (valid_user email_str) users"

definition registration_db_ok :: "(string \<Rightarrow> string option) \<Rightarrow> db \<Rightarrow> bool" where
  "registration_db_ok email_str d \<longleftrightarrow>
     registration_table_ok email_str (db_registrations d) \<and> users_ok email_str (db_users d) \<and>
     completed_have_users d"

text \<open>
  An operation in the hands of a handler is one of the table, up to its progress: identifier, user,
  address and key never change and no row disappears. Other processes respect both.
\<close>

definition matches :: "registration_operation \<Rightarrow> db \<Rightarrow> bool" where
  "matches op d \<longleftrightarrow> registration_keys op \<in> registration_keys ` set (db_registrations d)"

definition rows_persist :: "db \<Rightarrow> db \<Rightarrow> bool" where
  "rows_persist d d' \<longleftrightarrow>
     registration_keys ` set (db_registrations d) \<subseteq> registration_keys ` set (db_registrations d')"

definition registration_world :: "(string \<Rightarrow> string option) \<Rightarrow> 'e world \<Rightarrow> bool" where
  "registration_world email_str w \<longleftrightarrow>
     world_ok (registration_db_ok email_str) w \<and>
     (\<forall>n d. registration_db_ok email_str d \<longrightarrow> rows_persist d (w_rival w n d))"

definition reg_inv ::
    "(string \<Rightarrow> string option) \<Rightarrow> registration_operation set \<Rightarrow> 'e world \<Rightarrow> bool" where
  "reg_inv email_str S w \<longleftrightarrow> registration_world email_str w \<and> (\<forall>op \<in> S. matches op (w_db w))"

lemma matches_persist: "matches op d \<Longrightarrow> rows_persist d d' \<Longrightarrow> matches op d'"
  by (auto simp: matches_def rows_persist_def)

lemma update_where_keys:
  assumes "\<And>r. registration_keys (f r) = registration_keys r"
  shows "registration_keys ` set (update_where p f rows) = registration_keys ` set rows"
proof -
  have "map registration_keys (update_where p f rows) = map registration_keys rows"
    by (rule update_where_map_eq) (simp add: assms)
  then show ?thesis by (metis set_map)
qed

text \<open>A statement that completes nothing keeps the link between registrations and accounts.\<close>

lemma completed_have_users_update:
  assumes "completed_have_users d" and "\<And>r. registration_keys (f r) = registration_keys r"
    and "\<And>r. r_status (f r) \<noteq> R_COMPLETED"
  shows "completed_have_users (d\<lparr>db_registrations := update_where p f (db_registrations d)\<rparr>)"
  using assms(1,3) by (auto simp: completed_have_users_def in_set_update_where)

lemma registration_db_ok_step:
  assumes "registration_db_ok es d" and "registration_step es (db_registrations d) rows"
    and "rows = update_where p f (db_registrations d)"
    and "\<And>r. registration_keys (f r) = registration_keys r" and "\<And>r. r_status (f r) \<noteq> R_COMPLETED"
  shows "registration_db_ok es (d\<lparr>db_registrations := rows\<rparr>) \<and> rows_persist d (d\<lparr>db_registrations := rows\<rparr>)"
  using assms registration_step_ok [OF assms(2)] completed_have_users_update [of d f p]
    update_where_keys [of f p "db_registrations d"]
  by (auto simp: registration_db_ok_def rows_persist_def)

lemma setters_not_completed [simp]:
  "r_status (registration_grant ow e ts r) \<noteq> R_COMPLETED" "r_status (set_retry a c ts r) \<noteq> R_COMPLETED"
  "r_status (set_blocked t c ts r) \<noteq> R_COMPLETED" "r_status (set_redriven a ts r) \<noteq> R_COMPLETED"
  by (simp_all add: registration_grant_def set_retry_def set_blocked_def set_redriven_def)

text \<open>What the single-statement transactions do to a sound database.\<close>

lemma block_db_ok:
  assumes "registration_db_ok es d" "tz_aware t" "tz_aware ts" "length c \<le> 255"
    and "block i ow t c ts (db_registrations d) = Inr (b, rows)"
  shows "registration_db_ok es (d\<lparr>db_registrations := rows\<rparr>) \<and> rows_persist d (d\<lparr>db_registrations := rows\<rparr>)"
  by (rule registration_db_ok_step [OF assms(1) reg_block [OF assms(5,2-4)]
        update_flag_Inr [OF assms(5) [unfolded block_def]]]) simp_all

lemma retry_db_ok:
  assumes "registration_db_ok es d" "tz_aware a" "tz_aware ts" "length c \<le> 255"
    and "registration_schedule_retry i ow t a c ts (db_registrations d) = Inr (b, rows)"
  shows "registration_db_ok es (d\<lparr>db_registrations := rows\<rparr>) \<and> rows_persist d (d\<lparr>db_registrations := rows\<rparr>)"
  by (rule registration_db_ok_step [OF assms(1) reg_retry [OF assms(5,2-4)]
        update_flag_Inr [OF assms(5) [unfolded registration_schedule_retry_def]]]) simp_all

lemma redrive_db_ok:
  assumes "registration_db_ok es d" "tz_aware a" "tz_aware ts"
    and "redrive_blocked i a ts (db_registrations d) = Inr (b, rows)"
  shows "registration_db_ok es (d\<lparr>db_registrations := rows\<rparr>) \<and> rows_persist d (d\<lparr>db_registrations := rows\<rparr>)"
  by (rule registration_db_ok_step [OF assms(1) reg_redrive [OF assms(4,2,3)]
        update_flag_Inr [OF assms(4) [unfolded redrive_blocked_def]]]) simp_all

lemma claim_db_ok:
  assumes "registration_db_ok es d" "tz_aware e" "tz_aware ts"
    and "claim_by_key_hash es k ow t e ts (db_registrations d) = Inr (b, rows)"
  shows "registration_db_ok es (d\<lparr>db_registrations := rows\<rparr>) \<and> rows_persist d (d\<lparr>db_registrations := rows\<rparr>)"
  by (rule registration_db_ok_step [OF assms(1) reg_claim [OF assms(4) [unfolded claim_by_key_hash_def]
          assms(2,3)] registration_claim_Inr [OF assms(4) [unfolded claim_by_key_hash_def],
          THEN conjunct1]]) simp_all

lemma claim_batch_db_ok:
  assumes "registration_db_ok es d" "tz_aware e" "tz_aware ts"
    and "registration_claim_batch es lk ow t e n ts (db_registrations d) = Inr (ops, rows)"
  shows "registration_db_ok es (d\<lparr>db_registrations := rows\<rparr>) \<and> rows_persist d (d\<lparr>db_registrations := rows\<rparr>)"
proof -
  from assms(4) obtain ids where
    rows: "rows = update_where (\<lambda>r. r_id r \<in> set ids) (registration_grant ow e ts) (db_registrations d)"
    by (rule registration_claim_batch_Inr)
  show ?thesis
    by (rule registration_db_ok_step [OF assms(1) reg_batch [OF assms(4,2,3)] rows]) simp_all
qed

subsection \<open>Every handler keeps the invariant\<close>

lemma reg_invD:
  assumes "reg_inv es S w"
  shows "registration_db_ok es (w_db w)" "tz_aware (w_clock w n)" "tz_aware (w_db_now w n)"
    "op \<in> S \<Longrightarrow> matches op (w_db w)"
  using assms by (auto simp: reg_inv_def registration_world_def world_ok_def)

lemma reg_inv_change:
  assumes "reg_inv es S w" and "scripts w' = scripts w" and "registration_db_ok es (w_db w')"
    and "rows_persist (w_db w) (w_db w')"
  shows "reg_inv es S w'"
  using assms by (auto simp: reg_inv_def registration_world_def world_ok_def scripts_def
      intro: matches_persist)

lemma rows_persist_refl [simp]: "rows_persist d d"
  by (simp add: rows_persist_def)

lemma rows_persist_trans: "rows_persist a b \<Longrightarrow> rows_persist b c \<Longrightarrow> rows_persist a c"
  by (auto simp: rows_persist_def)

lemma reg_inv_begin_tx:
  assumes "reg_inv es S w"
  shows "reg_inv es S (begin_tx w)" and "rows_persist (w_db w) (w_db (begin_tx w))"
proof -
  have ok: "registration_db_ok es (w_db (begin_tx w))" "rows_persist (w_db w) (w_db (begin_tx w))"
    using assms by (auto simp: reg_inv_def registration_world_def world_ok_def)
  then show "reg_inv es S (begin_tx w)" by (intro reg_inv_change [OF assms]) simp_all
  show "rows_persist (w_db w) (w_db (begin_tx w))" by (rule ok(2))
qed

lemma keeps_reg_primitives [keeps_intros]:
  "keeps (reg_inv es S) new_uuid" "keeps (reg_inv es S) jitter_source"
  "keeps (reg_inv es S) (emit x)" "keeps (reg_inv es S) (observe a b)" "keeps (reg_inv es S) utc_now"
  by (auto simp: keeps_def new_uuid_def jitter_source_def emit_def modify_def observe_def utc_now_def
      reg_inv_def registration_world_def world_ok_def)

lemma keeps_bind_utc_now:
  assumes "\<And>t. tz_aware t \<Longrightarrow> keeps (reg_inv es S) (f t)"
  shows "keeps (reg_inv es S) (bind utc_now f)"
proof (rule keeps_bind_spec)
  show "spec (reg_inv es S) utc_now (\<lambda>t w. reg_inv es S w \<and> tz_aware t) (reg_inv es S)"
    using keeps_reg_primitives(5) [of es S]
    by (intro specI) (auto simp: res_simps dest: keepsD reg_invD(2))
  show "spec (\<lambda>w. reg_inv es S w \<and> tz_aware t) (f t) (\<lambda>_. reg_inv es S) (reg_inv es S)" for t
    using assms [of t] by (cases "tz_aware t") (auto simp: keeps_spec spec_def)
qed

text \<open>
  The rule for transactions: a successful body leads from a sound database to a sound one that
  still has all operations; what it returns satisfies \<open>Q\<close> in the committed database.
\<close>

lemma spec_reg_uow:
  fixes body :: "('e, 'a) io"
  assumes scr: "\<And>s. keeps (\<lambda>w. scripts w = s) body"
    and body: "\<And>w a w'. reg_inv es S w \<Longrightarrow> body w = (Inr a, w') \<Longrightarrow>
        registration_db_ok es (w_db w') \<and> rows_persist (w_db w) (w_db w') \<and> Q a (w_db w')"
  shows "spec (reg_inv es S) (uow body) (\<lambda>a w. reg_inv es S w \<and> Q a (w_db w)) (reg_inv es S)"
proof (rule specI)
  fix w :: "'e world" and a w' assume inv: "reg_inv es S w" and run: "uow body w = (Inr a, w')"
  have "body (begin_tx w) = (Inr a, w')" using run by (rule uow_Inr)
  with body [OF reg_inv_begin_tx(1) [OF inv]] reg_inv_begin_tx(2) [OF inv]
  have "registration_db_ok es (w_db w')" "rows_persist (w_db w) (w_db w')" "Q a (w_db w')"
    by (blast intro: rows_persist_trans)+
  with reg_inv_change [OF inv keeps_scriptsD [OF keeps_uow_scripts [OF scr] run]]
  show "reg_inv es S w' \<and> Q a (w_db w')" by blast
next
  fix w :: "'e world" and e w' assume inv: "reg_inv es S w" and run: "uow body w = (Inl e, w')"
  note inv1 = reg_inv_begin_tx [OF inv]
  from run have "registration_db_ok es (w_db w') \<and> rows_persist (w_db w) (w_db w')"
  proof (cases rule: uow_cases)
    case rolled_back
    then show ?thesis using inv1(2) reg_invD(1) [OF inv1(1)] by simp
  next
    case lost
    then show ?thesis using body [OF inv1(1)] inv1(2) rows_persist_trans by blast
  qed simp
  with reg_inv_change [OF inv keeps_scriptsD [OF keeps_uow_scripts [OF scr] run]]
  show "reg_inv es S w'" by blast
qed

lemma keeps_bind_uow:
  assumes "spec (reg_inv es S) m (\<lambda>a w. reg_inv es S w \<and> Q a (w_db w)) (reg_inv es S)"
    and "\<And>a. spec (\<lambda>w. reg_inv es S w \<and> Q a (w_db w)) (f a) (\<lambda>_. reg_inv es S) (reg_inv es S)"
  shows "keeps (reg_inv es S) (bind m f)"
  using assms by (rule keeps_bind_spec)

lemma keeps_reg_query [keeps_intros]: "keeps (reg_inv es S) (uow (query f))"
  unfolding keeps_spec
  by (rule spec_weaken [OF spec_reg_uow [where Q = "\<lambda>_ _. True"]])
    (auto intro: keeps_intros simp: res_simps dest: reg_invD)

lemma keeps_reg_stmt:
  assumes "\<And>d ts a t. registration_db_ok es d \<Longrightarrow> tz_aware ts \<Longrightarrow> F ts (db_registrations d) = Inr (a, t) \<Longrightarrow>
      registration_db_ok es (d\<lparr>db_registrations := t\<rparr>) \<and> rows_persist d (d\<lparr>db_registrations := t\<rparr>)"
  shows "keeps (reg_inv es S) (uow (bind db_now (\<lambda>ts. stmt (on_registrations (F ts)))))"
  unfolding keeps_spec
  by (rule spec_weaken [OF spec_reg_uow [where Q = "\<lambda>_ _. True"]])
    (auto intro!: keeps_intros simp: res_simps dest: assms [rotated 2] reg_invD)

lemma block_operation_keeps [keeps_intros]: "keeps (reg_inv es S) (block_operation op ow e)"
  unfolding block_operation_def
  by (intro keeps_bind_utc_now keeps_bind keeps_reg_stmt keeps_intros)
    (rule block_db_ok; (assumption | simp))

lemma retry_or_block_keeps [keeps_intros]: "keeps (reg_inv es S) (retry_or_block cfg op ow e)"
  unfolding retry_or_block_def Let_def
  by (intro keeps_if keeps_bind_utc_now keeps_bind keeps_reg_stmt keeps_intros)
    (rule retry_db_ok; (assumption | simp))

text \<open>
  The finalizing transaction: completion, account and event together.
\<close>

lemma finalize_tx_Inr:
  assumes "finalize_tx cfg op ow t u w = (Inr v, w')"
  obtains rows users event outbox where
    "complete (r_id op) ow t (w_db_now w (w_txs w)) (db_registrations (w_db w)) = Inr (True, rows)"
    and "create_if_absent (g_email_str cfg) u (db_users (w_db w)) = Inr (Some v, users)"
    and "publish (g_topic cfg) (g_producer cfg) event (db_outbox (w_db w)) = Inr ((), outbox)"
    and "e_user_id event = u_id v" and "e_registered_at event = u_created_at v"
    and "w_db w' = (w_db w)\<lparr>db_registrations := rows, db_users := users, db_outbox := outbox\<rparr>"
    and "w_trace w' = w_trace w"
  using assms
  by (auto simp: finalize_tx_def res_simps split: if_splits option.splits)

lemma create_if_absent_Inr:
  assumes "create_if_absent es u users = Inr (Some v, users')" and "validate_user es u = Inr u"
  shows "v = u \<and> users' = users @ [u] \<and> u_email u \<notin> u_email ` set users \<and> u_id u \<notin> u_id ` set users"
  using assms by (auto simp: create_if_absent_def user_to_domain_def bind_res_iffs list_ex_iff split: if_splits)

lemma validate_user_normal:
  assumes "validate_user es u = Inr u'" and "NormalizedEmail es (u_email u) = Inr (u_email u)"
  shows "u' = u"
  using assms by (auto simp: validate_user_result NormalizedEmail_def split: option.splits)

lemma complete_Inr:
  assumes "distinct (map r_id rows)" and "complete i ow t ts rows = Inr (True, rows')"
  obtains r where "r \<in> set rows" and "r_id r = i" and "registration_owned ow t r"
    and "rows' = update_where (\<lambda>r. r_id r = i \<and> registration_owned ow t r) (set_completed t ts) rows"
    and "set_completed t ts r \<in> set rows'"
    and "\<And>q. q \<in> set rows' \<Longrightarrow> q \<in> set rows \<or> q = set_completed t ts r"
proof -
  let ?p = "\<lambda>r. r_id r = i \<and> registration_owned ow t r"
  have rows': "rows' = update_where ?p (set_completed t ts) rows" and "\<exists>r \<in> set rows. ?p r"
    using assms(2) registration_settle_result [OF assms(1), of i ow t "set_completed t ts"]
    by (auto simp: complete_def)
  then obtain r where r: "r \<in> set rows" "r_id r = i" "registration_owned ow t r" by blast
  show thesis
  proof (rule that [OF r rows'])
    show "set_completed t ts r \<in> set rows'" using r by (auto simp: rows' in_set_update_where)
    show "q \<in> set rows \<or> q = set_completed t ts r" if mem: "q \<in> set rows'" for q
    proof -
      obtain q0 where q0: "q0 \<in> set rows" "(?p q0 \<and> q = set_completed t ts q0) \<or> q = q0"
        using mem by (auto simp: rows' in_set_update_where)
      moreover have "q0 = r" if "?p q0"
        using unique_key [OF assms(1) q0(1) r(1)] that r(2) by simp
      ultimately show ?thesis by auto
    qed
  qed
qed

lemma matches_row:
  assumes "registration_db_ok es d" and "matches op d" and "r \<in> set (db_registrations d)" and "r_id r = r_id op"
  shows "registration_keys r = registration_keys op"
proof -
  obtain q where q: "q \<in> set (db_registrations d)" "registration_keys q = registration_keys op"
    using assms(2) by (auto simp: matches_def)
  have "r_id q = r_id r" using q(2) assms(4) by (simp add: registration_keys_def)
  then have "q = r"
    using unique_key [OF registration_table_okD(1)] assms(1,3) q(1) by (metis registration_db_ok_def)
  with q(2) show ?thesis by simp
qed

lemma set_completed_fields [simp]:
  "r_status (set_completed t ts r) = R_COMPLETED" "r_user_id (set_completed t ts r) = r_user_id r"
  "r_email (set_completed t ts r) = r_email r" "r_id (set_completed t ts r) = r_id r"
  "r_password_hash (set_completed t ts r) = None"
  by (simp_all add: set_completed_def)

lemma finalize_db_ok:
  assumes ok: "registration_db_ok es d" and m: "matches op d" and "tz_aware t" "tz_aware ts"
    and com: "complete (r_id op) ow t ts (db_registrations d) = Inr (True, rows)"
    and usr: "create_if_absent es u (db_users d) = Inr (Some v, users)"
    and u: "validate_user es u0 = Inr u" "u_id u0 = r_user_id op" "u_email u0 = r_email op"
    and d': "d' = d\<lparr>db_registrations := rows, db_users := users, db_outbox := outbox\<rparr>"
  shows "registration_db_ok es d' \<and> rows_persist d d' \<and> u = u0 \<and> v = u0 \<and> u0 \<in> set (db_users d')"
proof -
  note dist = registration_table_okD(1) [of es "db_registrations d"]
  from ok have tab: "registration_table_ok es (db_registrations d)" and uok: "users_ok es (db_users d)"
    and link: "completed_have_users d" by (simp_all add: registration_db_ok_def)
  from com obtain r where r: "r \<in> set (db_registrations d)" "r_id r = r_id op"
    and rows: "rows = update_where (\<lambda>r. r_id r = r_id op \<and> registration_owned ow t r)
        (set_completed t ts) (db_registrations d)"
    and mem: "\<And>q. q \<in> set rows \<Longrightarrow> q \<in> set (db_registrations d) \<or> q = set_completed t ts r"
    by (rule complete_Inr [OF dist [OF tab]]) blast
  have keys: "registration_keys r = registration_keys op" by (rule matches_row [OF ok m r])
  have "NormalizedEmail es (r_email r) = Inr (r_email r)"
    using registration_table_okD(5) [OF tab r(1)] by (simp add: registration_row_ok_iff)
  with u keys have uu: "u = u0" by (intro validate_user_normal) (simp_all add: registration_keys_def)
  from create_if_absent_Inr [OF usr] u(1) uu
  have v: "v = u0" "users = db_users d @ [u0]" "u_email u0 \<notin> u_email ` set (db_users d)"
    "u_id u0 \<notin> u_id ` set (db_users d)" by auto
  have "registration_table_ok es rows"
    using registration_step_ok [OF reg_complete [OF com assms(3,4)] tab] .
  moreover have "users_ok es users"
    using uok u(1) uu v by (auto simp: users_ok_def valid_user_def)
  moreover have "completed_have_users d'"
    unfolding completed_have_users_def
  proof (intro ballI impI)
    fix q assume q: "q \<in> set (db_registrations d')" "r_status q = R_COMPLETED"
    then consider "q \<in> set (db_registrations d)" | "q = set_completed t ts r"
      using mem [of q] by (auto simp: d')
    then show "\<exists>u \<in> set (db_users d'). u_id u = r_user_id q \<and> u_email u = r_email q"
    proof cases
      case 1
      with link q(2) v(2) show ?thesis by (auto simp: completed_have_users_def d')
    next
      case 2
      with keys u(2,3) v(2) show ?thesis by (auto simp: registration_keys_def d')
    qed
  qed
  moreover have "rows_persist d d'"
    using update_where_keys [of "set_completed t ts"] by (simp add: rows_persist_def d' rows)
  ultimately show ?thesis using v uu by (simp add: registration_db_ok_def d')
qed

lemma finalize_tx_scripts [keeps_intros]: "keeps (\<lambda>w. scripts w = s) (finalize_tx cfg op ow t u)"
  unfolding finalize_tx_def by (intro keeps_intros)

lemma finalize_keeps:
  assumes "op \<in> S"
  shows "keeps (reg_inv (g_email_str cfg) S) (finalize cfg op ow :: ('e, user) io)"
proof -
  let ?es = "g_email_str cfg"
  have "keeps (reg_inv ?es S) (uow (finalize_tx cfg op ow t u) :: ('e, user) io)"
    if t: "tz_aware t" and u: "validate_user ?es u0 = Inr u" "u_id u0 = r_user_id op" "u_email u0 = r_email op"
    for t u u0
    unfolding keeps_spec
  proof (rule spec_weaken [OF spec_reg_uow [where Q = "\<lambda>_ _. True"]])
    fix w :: "'e world" and a w'
    assume inv: "reg_inv ?es S w" and run: "finalize_tx cfg op ow t u w = (Inr a, w')"
    from run show "registration_db_ok ?es (w_db w') \<and> rows_persist (w_db w) (w_db w') \<and> True"
      by (rule finalize_tx_Inr)
        (use finalize_db_ok [OF reg_invD(1) [OF inv] reg_invD(4) [OF inv assms] t reg_invD(3) [OF inv] _ _ u]
          in blast)
  qed (auto intro: keeps_intros)
  then show ?thesis
    unfolding finalize_def
    by (intro keeps_option keeps_bind_utc_now keeps_bind_liftr keeps_basic) fastforce
qed

subsection \<open>What the results mean\<close>

lemma pending_result_eq:
  "pending_result op now ra = Inr res \<longleftrightarrow>
     res = \<lparr>res_operation_id = r_id op, res_user_id = r_user_id op, res_outcome = OUTCOME_PENDING,
        res_retry_after_seconds = Some (max 1 (ceil_total_seconds (minus_datetime
          (case ra of Some t \<Rightarrow> t
           | None \<Rightarrow> if r_status op = R_CLAIMED
                     then (case r_claim_expires_at op of Some e \<Rightarrow> e | None \<Rightarrow> r_available_at op)
                     else r_available_at op) now)))\<rparr>"
  by (auto simp: pending_result_def Let_def RegistrationResult_def)

lemma retry_or_block_pending:
  "retry_or_block cfg op ow e w = (Inr res, w') \<Longrightarrow> res_outcome res = OUTCOME_PENDING"
  by (auto simp: retry_or_block_def Let_def res_simps pending_result_eq split: if_splits)

lemma finalize_Inr:
  assumes "finalize cfg op ow w = (Inr u, w')" and inv: "reg_inv (g_email_str cfg) S w" and "op \<in> S"
  shows "w_trace w' = w_trace w \<and>
    (\<exists>r \<in> set (db_registrations (w_db w')). r_id r = r_id op \<and> r_status r = R_COMPLETED \<and>
       r_password_hash r = None) \<and>
    u \<in> set (db_users (w_db w')) \<and> u_id u = r_user_id op \<and> u_email u = r_email op \<and>
    Some (u_password_hash u) = r_password_hash op \<and> can_authenticate u \<and>
    (\<exists>m \<in> set (db_outbox (w_db w')). o_key m = uuid_str (r_user_id op) \<and>
       o_type m = ''identity.user_registered.v1'' \<and> o_status m = O_PENDING)"
proof -
  let ?es = "g_email_str cfg"
  from assms(1) obtain h t v w1 where h: "r_password_hash op = Some h"
    and t: "t = w_clock w (w_ticks w)" and w1: "w1 = w\<lparr>w_ticks := Suc (w_ticks w)\<rparr>"
    and u0: "validate_user ?es \<lparr>u_id = r_user_id op, u_created_at = r_created_at op,
               u_updated_at = None, u_email = r_email op, u_password_hash = h,
               u_role = USER, u_status = ACTIVE\<rparr> = Inr v"
    and tx: "uow (finalize_tx cfg op ow t v) w1 = (Inr u, w')"
    by (auto simp: finalize_def res_simps split: option.splits)
  have "reg_inv ?es S w1"
    using inv keepsD [OF keeps_reg_primitives(5) inv] by (simp add: w1 utc_now_def)
  then have inv1: "reg_inv ?es S (begin_tx w1)" by (rule reg_inv_begin_tx)
  have "finalize_tx cfg op ow t v (begin_tx w1) = (Inr u, w')" using tx by (rule uow_Inr)
  then show ?thesis
  proof (rule finalize_tx_Inr)
    fix rows users event outbox
    let ?d = "w_db (begin_tx w1)" and ?ts = "w_db_now (begin_tx w1) (w_txs (begin_tx w1))"
    assume com: "complete (r_id op) ow t ?ts (db_registrations ?d) = Inr (True, rows)"
      and usr: "create_if_absent ?es v (db_users ?d) = Inr (Some u, users)"
      and pub: "publish (g_topic cfg) (g_producer cfg) event (db_outbox ?d) = Inr ((), outbox)"
      and ev: "e_user_id event = u_id u"
      and db: "w_db w' = ?d\<lparr>db_registrations := rows, db_users := users, db_outbox := outbox\<rparr>"
      and tr: "w_trace w' = w_trace (begin_tx w1)"
    have aware: "tz_aware t" using reg_invD(2) [OF inv] by (simp add: t)
    from finalize_db_ok [OF reg_invD(1) [OF inv1] reg_invD(4) [OF inv1 assms(3)] aware
        reg_invD(3) [OF inv1] com usr u0 _ _ db]
    have u: "u = \<lparr>u_id = r_user_id op, u_created_at = r_created_at op, u_updated_at = None,
        u_email = r_email op, u_password_hash = h, u_role = USER, u_status = ACTIVE\<rparr>"
      "u \<in> set (db_users (w_db w'))" by auto
    have "registration_table_ok ?es (db_registrations ?d)"
      using reg_invD(1) [OF inv1] by (simp add: registration_db_ok_def)
    then have "\<exists>r. r \<in> set rows \<and> r_id r = r_id op \<and> r_status r = R_COMPLETED \<and> r_password_hash r = None"
      by (rule complete_Inr [OF registration_table_okD(1) com]) (metis set_completed_fields)
    moreover have "outbox_row (g_topic cfg) (g_producer cfg) event \<in> set outbox"
      using pub by (auto simp: publish_def Let_def split: if_splits)
    then have "\<exists>m \<in> set outbox. o_key m = uuid_str (r_user_id op) \<and>
        o_type m = ''identity.user_registered.v1'' \<and> o_status m = O_PENDING"
      using ev u(1) by (auto simp: outbox_row_def partition_key_def event_type_def intro!: bexI)
    ultimately show ?thesis using u h tr by (auto simp: db can_authenticate_def w1)
  qed
qed

text \<open>
  Normalising an address twice is normalising it once: what \<open>EmailStr\<close> and \<open>casefold\<close> promise of
  the address parser.
\<close>

definition email_stable :: "(string \<Rightarrow> string option) \<Rightarrow> bool" where
  "email_stable email_str \<longleftrightarrow>
     (\<forall>s e. NormalizedEmail email_str s = Inr e \<longrightarrow> NormalizedEmail email_str e = Inr e)"

lemma registration_lifecycle_email [simp]:
  "registration_lifecycle (op\<lparr>r_email := e\<rparr>) = registration_lifecycle op"
  by (simp add: registration_lifecycle_def)

lemma RegistrationOperation_stable:
  assumes "RegistrationOperation es op0 = Inr op" and "email_stable es"
  shows "RegistrationOperation es op = Inr op"
proof -
  from assms(1) obtain e where "NormalizedEmail es (r_email op0) = Inr e" "op = op0\<lparr>r_email := e\<rparr>"
    by (auto simp: RegistrationOperation_def bind_res_iffs split: if_splits)
  moreover from this assms(2) have "NormalizedEmail es e = Inr e" by (auto simp: email_stable_def)
  ultimately show ?thesis
    using assms(1) by (auto simp: RegistrationOperation_def split: if_splits)
qed

definition claimed_matches :: "registration_operation option \<Rightarrow> db \<Rightarrow> bool" where
  "claimed_matches claimed d = (case claimed of None \<Rightarrow> True | Some op \<Rightarrow> matches op d)"

lemma claim_matches:
  assumes ok: "registration_db_ok es d" and "tz_aware e" "tz_aware ts"
    and claim: "claim_by_key_hash es k ow t e ts (db_registrations d) = Inr (claimed, rows)"
  shows "claimed_matches claimed (d\<lparr>db_registrations := rows\<rparr>)"
proof (cases claimed)
  case (Some op)
  let ?p = "\<lambda>r. r_key_hash r = k \<and> registration_eligible t r" and ?g = "registration_grant ow e ts"
  have "t < e" using registration_claim_Inr claim unfolding claim_by_key_hash_def by blast
  then have res: "claimed = map_option ?g (find ?p (db_registrations d))"
    and rows: "rows = update_where ?p ?g (db_registrations d)"
    using registration_claim_result [of es "db_registrations d" t e ts k ow] assms
    by (simp_all add: registration_db_ok_def Let_def)
  with Some obtain r where r: "find ?p (db_registrations d) = Some r" "op = ?g r" by auto
  then have "?g r \<in> set rows"
    unfolding rows using find_SomeD [OF r(1)] by (auto simp: in_set_update_where)
  then have "registration_keys (?g r) \<in> registration_keys ` set rows" by (rule imageI)
  with Some r(2) show ?thesis by (simp add: claimed_matches_def matches_def)
qed (simp add: claimed_matches_def)

lemma claim_batch_matches:
  assumes ok: "registration_db_ok es d" and "tz_aware e" "tz_aware ts"
    and claim: "registration_claim_batch es lk ow t e n ts (db_registrations d) = Inr (ops, rows)"
    and "op \<in> set ops"
  shows "matches op (d\<lparr>db_registrations := rows\<rparr>)"
proof -
  have tab: "registration_table_ok es (db_registrations d)" using ok by (simp add: registration_db_ok_def)
  from claim have "0 < n" "t < e" by (auto elim: registration_claim_batch_Inr)
  from registration_claim_batch_contract_rows [OF tab this assms(2,3) claim assms(5)]
  have "registration_keys op \<in> registration_keys ` set rows" by (rule imageI)
  then show ?thesis by (simp add: matches_def)
qed

lemma create_db_ok:
  assumes ok: "registration_db_ok es d" and "RegistrationOperation es op = Inr op"
    and "r_status op = R_CLAIMED"
    and cr: "try_create es op (db_registrations d) = Inr (created, rows)"
  shows "registration_db_ok es (d\<lparr>db_registrations := rows\<rparr>) \<and>
    rows_persist d (d\<lparr>db_registrations := rows\<rparr>) \<and> claimed_matches created (d\<lparr>db_registrations := rows\<rparr>)"
proof -
  have "registration_table_ok es rows"
    using registration_step_ok [OF reg_create [OF assms(2) cr]] ok by (simp add: registration_db_ok_def)
  moreover have "(created = None \<and> rows = db_registrations d) \<or>
      (created = Some op \<and> rows = db_registrations d @ [op])"
    using cr assms(2) by (auto simp: try_create_def bind_res_iffs registration_to_domain_def split: if_splits)
  ultimately show ?thesis
    using ok assms(3) by (auto simp: registration_db_ok_def completed_have_users_def rows_persist_def
        claimed_matches_def matches_def)
qed

text \<open>
  The contract of the profile provisioner: it touches neither the tables nor the scripts of the
  world, only adds to the trace, and a call that returns has created the profile.
\<close>

locale profile_port =
  fixes create_profile :: "uuid \<Rightarrow> datetime \<Rightarrow> ('e, unit) io"
  assumes port_scripts: "create_profile u t w = (r, w') \<Longrightarrow> scripts w' = scripts w"
    and port_db: "create_profile u t w = (r, w') \<Longrightarrow> w_db w' = w_db w"
    and port_trace: "create_profile u t w = (r, w') \<Longrightarrow> prefix (w_trace w) (w_trace w')"
    and port_created: "create_profile u t w = (Inr (), w') \<Longrightarrow> ProfileCreated u \<in> set (w_trace w')"
begin

lemma create_profile_keeps [keeps_intros]: "keeps (reg_inv es S) (create_profile u t)"
proof (rule keepsI)
  fix w :: "'e world"
  assume inv: "reg_inv es S w"
  obtain r w' where run: "create_profile u t w = (r, w')" by fastforce
  show "reg_inv es S (snd (create_profile u t w))"
    using reg_inv_change [OF inv port_scripts [OF run]] port_db [OF run] reg_invD(1) [OF inv]
    by (simp add: run)
qed

lemma resume_execute_keeps:
  "op \<in> S \<Longrightarrow> keeps (reg_inv (g_email_str cfg) S) (resume_execute cfg create_profile op ow)"
  unfolding resume_execute_def
  by (intro keeps_intros finalize_keeps) simp_all

lemma resume_spec:
  "spec (\<lambda>w. reg_inv (g_email_str cfg) S w \<and> matches op (w_db w))
     (resume_execute cfg create_profile op ow)
     (\<lambda>_. reg_inv (g_email_str cfg) S) (reg_inv (g_email_str cfg) S)"
proof -
  have "spec (reg_inv (g_email_str cfg) (insert op S)) (resume_execute cfg create_profile op ow)
      (\<lambda>_. reg_inv (g_email_str cfg) (insert op S)) (reg_inv (g_email_str cfg) (insert op S))"
    using resume_execute_keeps [of op "insert op S" cfg ow] by (simp add: keeps_spec)
  then show ?thesis by (rule spec_weaken) (auto simp: reg_inv_def)
qed

lemma resume_completed:
  assumes inv: "reg_inv (g_email_str cfg) S w" and "op \<in> S"
    and run: "resume_execute cfg create_profile op ow w = (Inr res, w')"
    and out: "res_outcome res = OUTCOME_COMPLETED"
  shows "ProfileCreated (r_user_id op) \<in> set (w_trace w') \<and>
    res_operation_id res = r_id op \<and> res_user_id res = r_user_id op \<and>
    (\<exists>r \<in> set (db_registrations (w_db w')). r_id r = r_id op \<and> r_status r = R_COMPLETED \<and>
       r_password_hash r = None) \<and>
    (\<exists>u \<in> set (db_users (w_db w')). u_id u = r_user_id op \<and> u_email u = r_email op \<and>
       Some (u_password_hash u) = r_password_hash op \<and> can_authenticate u) \<and>
    (\<exists>m \<in> set (db_outbox (w_db w')). o_key m = uuid_str (r_user_id op) \<and>
       o_type m = ''identity.user_registered.v1'' \<and> o_status m = O_PENDING)"
proof -
  from run out obtain w1 w2 user where cp: "create_profile (r_user_id op) (r_created_at op) w = (Inr (), w1)"
    and fin: "finalize cfg op ow w1 = (Inr user, w2)"
    and res: "completed_result_of op (u_id user) = Inr res"
    and w': "w' = w2\<lparr>w_trace := w_trace w2 @ [Observed ''operation_completed'' []]\<rparr>"
    by (auto simp: resume_execute_def res_simps observe_def pending_result_eq split: if_splits
        dest: retry_or_block_pending)
  have inv1: "reg_inv (g_email_str cfg) S w1" by (rule keepsD [OF create_profile_keeps inv cp])
  from finalize_Inr [OF fin inv1 assms(2)] port_created [OF cp] res show ?thesis
    by (auto simp: w' completed_result_of_def RegistrationResult_def)
qed

lemma claimed_spec:
  assumes "\<And>op. keeps (reg_inv (g_email_str cfg) S) m"
  shows "spec (\<lambda>w. reg_inv (g_email_str cfg) S w \<and> claimed_matches c (w_db w))
     (case c of None \<Rightarrow> m | Some op \<Rightarrow> resume_execute cfg create_profile op ow)
     (\<lambda>_. reg_inv (g_email_str cfg) S) (reg_inv (g_email_str cfg) S)"
proof (cases c)
  case None
  show ?thesis unfolding None option.case
    using assms by (auto simp: keeps_spec intro: spec_weaken)
next
  case (Some op)
  show ?thesis unfolding Some option.case claimed_matches_def
    by (rule resume_spec)
qed

lemma claim_spec:
  assumes "tz_aware now"
  shows "spec (reg_inv (g_email_str cfg) S)
     (uow (bind db_now (\<lambda>ts. stmt (on_registrations (claim_by_key_hash (g_email_str cfg) k ow now
        (claim_lease cfg now) ts)))) :: ('e, _) io)
     (\<lambda>c w. reg_inv (g_email_str cfg) S w \<and> claimed_matches c (w_db w)) (reg_inv (g_email_str cfg) S)"
proof (rule spec_reg_uow)
  have lease: "tz_aware (claim_lease cfg now)" using assms by (simp add: claim_lease_def)
  fix w :: "'e world" and a w'
  assume inv: "reg_inv (g_email_str cfg) S w"
    and "bind db_now (\<lambda>ts. stmt (on_registrations (claim_by_key_hash (g_email_str cfg) k ow now
        (claim_lease cfg now) ts))) w = (Inr a, w')"
  then obtain rows where "claim_by_key_hash (g_email_str cfg) k ow now (claim_lease cfg now)
      (w_db_now w (w_txs w)) (db_registrations (w_db w)) = Inr (a, rows)"
    and w': "w' = w\<lparr>w_db := (w_db w)\<lparr>db_registrations := rows\<rparr>\<rparr>" by (auto simp: res_simps)
  with claim_db_ok [OF reg_invD(1) [OF inv] lease reg_invD(3) [OF inv]]
    claim_matches [OF reg_invD(1) [OF inv] lease reg_invD(3) [OF inv]]
  show "registration_db_ok (g_email_str cfg) (w_db w') \<and> rows_persist (w_db w) (w_db w') \<and>
      claimed_matches a (w_db w')" by simp
qed (intro keeps_intros)

lemma stored_password_hash_keeps [keeps_intros]:
  "keeps (reg_inv es S) (stored_password_hash cfg op)"
  unfolding stored_password_hash_def by (intro keeps_intros)

lemma resume_existing_keeps [keeps_intros]:
  "keeps (reg_inv (g_email_str cfg) S) (resume_existing cfg create_profile op email password)"
  unfolding resume_existing_def
  by (intro keeps_intros keeps_bind_utc_now keeps_bind_uow [OF claim_spec claimed_spec]) simp_all

lemma create_candidate_spec:
  assumes "RegistrationOperation (g_email_str cfg) op = Inr op" and "r_status op = R_CLAIMED"
  shows "spec (reg_inv (g_email_str cfg) S) (create_candidate cfg op :: ('e, _) io)
     (\<lambda>c w. reg_inv (g_email_str cfg) S w \<and> claimed_matches c (w_db w)) (reg_inv (g_email_str cfg) S)"
  unfolding create_candidate_def
proof (rule spec_reg_uow)
  fix w :: "'e world" and a w'
  assume inv: "reg_inv (g_email_str cfg) S w"
    and "bind (query (\<lambda>d. user_get_by_email (g_email_str cfg) (r_email op) (db_users d))) (\<lambda>user.
       case user of None \<Rightarrow> stmt (on_registrations (try_create (g_email_str cfg) op))
       | Some _ \<Rightarrow> return None) w = (Inr a, w')"
  then show "registration_db_ok (g_email_str cfg) (w_db w') \<and> rows_persist (w_db w) (w_db w') \<and>
      claimed_matches a (w_db w')"
    using create_db_ok [OF reg_invD(1) [OF inv] assms] reg_invD(1) [OF inv]
    by (auto simp: res_simps claimed_matches_def split: option.splits)
qed (intro keeps_intros)

lemma register_execute_keeps:
  assumes "email_stable (g_email_str cfg)"
  shows "keeps (reg_inv (g_email_str cfg) S) (register_execute cfg create_profile command)"
proof -
  have cand: "RegistrationOperation (g_email_str cfg) op = Inr op \<and> r_status op = R_CLAIMED"
    if "RegistrationOperation (g_email_str cfg) (candidate_operation cfg em ph kh now ow i u) = Inr op"
    for em ph kh now ow i u op
    using that RegistrationOperation_stable [OF that assms]
    by (auto simp: RegistrationOperation_def candidate_operation_def bind_res_iffs split: if_splits)
  show ?thesis
    unfolding register_execute_def Let_def load_by_key_def
    by (intro keeps_intros keeps_bind_liftr keeps_bind_uow [OF create_candidate_spec claimed_spec])
      (auto dest: cand)
qed

lemma process_all_keeps:
  "set ops \<subseteq> S \<Longrightarrow> keeps (reg_inv (g_email_str cfg) S) (process_all cfg create_profile ow ops)"
  by (induction ops) (auto simp: process_def intro!: keeps_intros resume_execute_keeps)

lemma process_batch_spec:
  "spec (\<lambda>w. reg_inv (g_email_str cfg) S w \<and> (\<forall>op \<in> set ops. matches op (w_db w)))
     (process_all cfg create_profile ow ops)
     (\<lambda>_. reg_inv (g_email_str cfg) S) (reg_inv (g_email_str cfg) S)"
proof -
  have "spec (reg_inv (g_email_str cfg) (S \<union> set ops)) (process_all cfg create_profile ow ops)
      (\<lambda>_. reg_inv (g_email_str cfg) (S \<union> set ops)) (reg_inv (g_email_str cfg) (S \<union> set ops))"
    using process_all_keeps [of ops "S \<union> set ops" cfg ow] by (simp add: keeps_spec)
  then show ?thesis by (rule spec_weaken) (auto simp: reg_inv_def)
qed

lemma batch_spec:
  assumes "tz_aware now"
  shows "spec (reg_inv (g_email_str cfg) S)
     (uow (bind db_now (\<lambda>ts. bind tx_locked (\<lambda>lk. stmt (on_registrations
        (registration_claim_batch (g_email_str cfg) lk ow now (claim_lease cfg now) n ts))))) :: ('e, _) io)
     (\<lambda>ops w. reg_inv (g_email_str cfg) S w \<and> (\<forall>op \<in> set ops. matches op (w_db w)))
     (reg_inv (g_email_str cfg) S)"
proof (rule spec_reg_uow)
  have lease: "tz_aware (claim_lease cfg now)" using assms by (simp add: claim_lease_def)
  fix w :: "'e world" and ops w'
  assume inv: "reg_inv (g_email_str cfg) S w"
    and "bind db_now (\<lambda>ts. bind tx_locked (\<lambda>lk. stmt (on_registrations
        (registration_claim_batch (g_email_str cfg) lk ow now (claim_lease cfg now) n ts)))) w = (Inr ops, w')"
  then obtain rows where "registration_claim_batch (g_email_str cfg) (w_locked w (w_txs w)) ow now
      (claim_lease cfg now) n (w_db_now w (w_txs w)) (db_registrations (w_db w)) = Inr (ops, rows)"
    and w': "w' = w\<lparr>w_db := (w_db w)\<lparr>db_registrations := rows\<rparr>\<rparr>" by (auto simp: res_simps)
  with claim_batch_db_ok [OF reg_invD(1) [OF inv] lease reg_invD(3) [OF inv]]
    claim_batch_matches [OF reg_invD(1) [OF inv] lease reg_invD(3) [OF inv]]
  show "registration_db_ok (g_email_str cfg) (w_db w') \<and> rows_persist (w_db w) (w_db w') \<and>
      (\<forall>op \<in> set ops. matches op (w_db w'))" by simp
qed (intro keeps_intros)

lemma spec_keeps_then:
  assumes "keeps I m" and "spec P n (\<lambda>_. I) I" and "\<And>s a t. P s \<Longrightarrow> m s = (a, t) \<Longrightarrow> P t" and "\<And>s. P s \<Longrightarrow> I s"
  shows "spec P (bind m (\<lambda>_. n)) (\<lambda>_. I) I"
proof (rule spec_bind)
  show "spec P m (\<lambda>_. P) I" using assms(1,3,4) by (auto intro!: specI dest: keepsD)
  show "\<And>a. spec P n (\<lambda>_. I) I" by (rule assms(2))
qed

lemma reconciler_run_once_keeps [keeps_intros]:
  "keeps (reg_inv (g_email_str cfg) S) (reconciler_run_once cfg create_profile n)"
proof -
  have tail: "spec (\<lambda>w. reg_inv (g_email_str cfg) S w \<and> (\<forall>op \<in> set ops. matches op (w_db w)))
      (if ops = [] then return 0
       else bind (observe ''recovery_batch_claimed'' (nat_str (length ops))) (\<lambda>_.
            bind (process_all cfg create_profile ow ops) (\<lambda>_. return (length ops))))
      (\<lambda>_. reg_inv (g_email_str cfg) S) (reg_inv (g_email_str cfg) S)" for ops ow
  proof (cases "ops = []")
    case True
    then show ?thesis by (auto intro!: specI simp: res_simps)
  next
    case False
    have "spec (\<lambda>w. reg_inv (g_email_str cfg) S w \<and> (\<forall>op \<in> set ops. matches op (w_db w)))
       (bind (process_all cfg create_profile ow ops) (\<lambda>_. return (length ops)))
       (\<lambda>_. reg_inv (g_email_str cfg) S) (reg_inv (g_email_str cfg) S)"
      by (rule spec_bind [OF process_batch_spec]) (auto intro!: specI simp: res_simps)
    then have "spec (\<lambda>w. reg_inv (g_email_str cfg) S w \<and> (\<forall>op \<in> set ops. matches op (w_db w)))
       (bind (observe ''recovery_batch_claimed'' (nat_str (length ops))) (\<lambda>_.
         bind (process_all cfg create_profile ow ops) (\<lambda>_. return (length ops))))
       (\<lambda>_. reg_inv (g_email_str cfg) S) (reg_inv (g_email_str cfg) S)"
      by (rule spec_keeps_then [OF keeps_reg_primitives(4)])
        (auto simp: observe_def res_simps reg_inv_def registration_world_def world_ok_def)
    with False show ?thesis by simp
  qed
  show ?thesis
    unfolding reconciler_run_once_def
    by (intro keeps_intros keeps_bind_utc_now keeps_bind_spec [OF batch_spec tail]) simp_all
qed

lemma reconciler_polls_keeps:
  "keeps (reg_inv (g_email_str cfg) S) (reconciler_polls cfg create_profile p n k)"
  by (induction k) (auto intro!: keeps_intros)

end

lemma redrive_execute_keeps: "keeps (reg_inv es S) (redrive_execute i :: ('e, bool) io)"
  unfolding keeps_spec redrive_execute_def
proof (rule spec_weaken [OF spec_reg_uow [where Q = "\<lambda>_ _. True"]])
  fix w :: "'e world" and a w'
  assume inv: "reg_inv es S w" and "bind utc_now (\<lambda>available_at. bind db_now (\<lambda>ts.
       stmt (on_registrations (redrive_blocked i available_at ts)))) w = (Inr a, w')"
  then show "registration_db_ok es (w_db w') \<and> rows_persist (w_db w) (w_db w') \<and> True"
    using redrive_db_ok [OF reg_invD(1) [OF inv] reg_invD(2) [OF inv] reg_invD(3) [OF inv]]
    by (auto simp: res_simps)
qed (auto intro: keeps_intros)

end
