(* ===== verification/Profile_Client.thy ===== *)
theory Profile_Client
  imports Circuit_Breaker Registration Text
begin

section \<open>The client of the profile service\<close>

text \<open>
  \<open>infrastructure/http/profile_provisioner.py\<close>: at most two \<open>PUT\<close> requests, each through the circuit
  breaker, with a bounded sleep in between. The answers of the HTTP client (a third-party package)
  are a script of the environment; a \<open>PUT\<close> and a confirmed creation leave their mark in the trace.
  \<open>float()\<close> and the comparisons of \<open>max\<close> and \<open>min\<close> are those of Python, NaN and infinities
  included, because the header \<open>Retry-After\<close> comes from outside.
\<close>

subsection \<open>Python floats\<close>

fun py_gt :: "pyfloat \<Rightarrow> pyfloat \<Rightarrow> bool" where
  "py_gt NaN _ = False"
| "py_gt _ NaN = False"
| "py_gt (Finite a) (Finite b) = (b < a)"
| "py_gt PosInf y = (y \<noteq> PosInf)"
| "py_gt NegInf y = False"
| "py_gt (Finite a) PosInf = False"
| "py_gt (Finite a) NegInf = True"

definition py_max :: "pyfloat \<Rightarrow> pyfloat \<Rightarrow> pyfloat" where
  "py_max a b = (if py_gt b a then b else a)"

definition py_min :: "pyfloat \<Rightarrow> pyfloat \<Rightarrow> pyfloat" where
  "py_min a b = (if py_gt a b then b else a)"

text \<open>\<open>float(s)\<close> of a string; \<open>None\<close> is the \<open>ValueError\<close>.\<close>

definition decimal_exponent :: "string \<Rightarrow> int option" where
  "decimal_exponent s =
     (case s of
        [] \<Rightarrow> Some 0
      | _ # rest \<Rightarrow>
          (case take_sign rest of (sg, ds) \<Rightarrow>
             if ds \<noteq> [] \<and> list_all is_digit ds then Some (sg * int (number_of_digits ds)) else None))"

definition decimal_number :: "string \<Rightarrow> rat option" where
  "decimal_number s =
     (let mantissa = takeWhile (\<lambda>c. c \<noteq> CHR ''e'') s;
          expo = dropWhile (\<lambda>c. c \<noteq> CHR ''e'') s;
          whole = takeWhile (\<lambda>c. c \<noteq> CHR ''.'') mantissa;
          frac = drop 1 (dropWhile (\<lambda>c. c \<noteq> CHR ''.'') mantissa)
      in if whole @ frac \<noteq> [] \<and> list_all is_digit (whole @ frac)
         then (case decimal_exponent expo of
                 None \<Rightarrow> None
               | Some e \<Rightarrow>
                   let scale = e - int (length frac);
                       n = (of_nat (number_of_digits (whole @ frac)) :: rat)
                   in Some (if 0 \<le> scale then n * 10 ^ nat scale else n / 10 ^ nat (- scale)))
         else None)"

definition py_float :: "string \<Rightarrow> pyfloat option" where
  "py_float s =
     (case drop_underscores is_digit False (casefold (py_strip s)) of
        None \<Rightarrow> None
      | Some cs \<Rightarrow>
          (case take_sign cs of (sg, body) \<Rightarrow>
             if body = ''inf'' \<or> body = ''infinity'' then Some (if sg = 1 then PosInf else NegInf)
             else if body = ''nan'' then Some NaN
             else (case decimal_number body of
                     None \<Rightarrow> None
                   | Some q \<Rightarrow> Some (if q < float_limit then Finite (of_int sg * q)
                                      else if sg = 1 then PosInf else NegInf))))"

subsection \<open>\<open>_put_profile\<close>\<close>

datatype http_reply = TransportFails | Response int "string option" | ClientRaises exn

record http_env = breaker_env +
  he_replies :: "nat \<Rightarrow> http_reply"
  he_calls :: nat

definition client_put :: "string \<Rightarrow> json \<Rightarrow> (http_env, http_reply) io" where
  "client_put path payload =
     bind (emit (HttpPut path payload)) (\<lambda>_ w.
       (Inr (he_replies (w_env w) (he_calls (w_env w))),
        w\<lparr>w_env := (w_env w)\<lparr>he_calls := Suc (he_calls (w_env w))\<rparr>\<rparr>))"

definition retry_after_of :: "int \<Rightarrow> string option \<Rightarrow> pyfloat option" where
  "retry_after_of status_code header =
     (if status_code = 423 \<or> status_code = 429
      then (case header of
              None \<Rightarrow> None
            | Some h \<Rightarrow> (case py_float h of None \<Rightarrow> None | Some v \<Rightarrow> Some (py_max v (Finite 0))))
      else None)"

definition profile_path :: "uuid \<Rightarrow> string" where
  "profile_path user_id = ''/internal/v1/profiles/'' @ uuid_str user_id"

definition put_profile :: "uuid \<Rightarrow> json \<Rightarrow> (http_env, unit) io" where
  "put_profile user_id payload =
     bind (client_put (profile_path user_id) payload) (\<lambda>reply.
       case reply of
         TransportFails \<Rightarrow> throw (ProfileCallError True None)
       | ClientRaises e \<Rightarrow> throw e
       | Response status_code header \<Rightarrow>
           if status_code = 204 then emit (ProfileCreated user_id)
           else throw (ProfileCallError (status_code \<in> {423, 429, 500, 502, 503, 504})
                  (retry_after_of status_code header)))"

definition is_profile_dependency_failure :: "exn \<Rightarrow> bool" where
  "is_profile_dependency_failure error =
     (case error of ProfileCallError retryable _ \<Rightarrow> retryable | _ \<Rightarrow> False)"

subsection \<open>\<open>HTTPProfileProvisioner\<close>\<close>

record provisioner =
  pc_configured :: bool
  pc_retry_delay_seconds :: seconds
  pc_retry_max_delay_seconds :: seconds

definition HTTPProfileProvisioner :: "provisioner \<Rightarrow> exn + provisioner" where
  "HTTPProfileProvisioner p =
     (if pc_retry_delay_seconds p < 0 then Inl ValueError
      else if pc_retry_max_delay_seconds p \<le> 0 then Inl ValueError
      else if pc_retry_max_delay_seconds p < pc_retry_delay_seconds p then Inl ValueError
      else Inr p)"

definition retry_sleep :: "provisioner \<Rightarrow> pyfloat option \<Rightarrow> pyfloat" where
  "retry_sleep p retry_after_seconds =
     (let retry_after =
            (case retry_after_seconds of
               None \<Rightarrow> Finite 0 | Some v \<Rightarrow> if v = Finite 0 then Finite 0 else v)
      in py_min (py_max (Finite (pc_retry_delay_seconds p)) retry_after)
                (Finite (pc_retry_max_delay_seconds p)))"

text \<open>The loop \<open>for attempt in range(2)\<close>, by the number of attempts left.\<close>

fun profile_attempts :: "provisioner \<Rightarrow> uuid \<Rightarrow> json \<Rightarrow> nat \<Rightarrow> (http_env, unit) io" where
  "profile_attempts p user_id payload 0 = throw ProfileProvisioningUnavailableError"
| "profile_attempts p user_id payload (Suc left) =
     catch (breaker_call is_profile_dependency_failure (put_profile user_id payload))
       (\<lambda>error. case error of
          CircuitBreakerError \<Rightarrow> throw ProfileProvisioningUnavailableError
        | ProfileCallError retryable retry_after_seconds \<Rightarrow>
            if \<not> retryable then throw ProfileProvisioningRejectedError
            else if left = 0 then throw ProfileProvisioningUnavailableError
            else bind (emit (Slept (retry_sleep p retry_after_seconds))) (\<lambda>_.
                   profile_attempts p user_id payload left)
        | _ \<Rightarrow> throw error)"

definition http_create_profile :: "provisioner \<Rightarrow> uuid \<Rightarrow> datetime \<Rightarrow> (http_env, unit) io" where
  "http_create_profile p user_id registered_at =
     (if \<not> pc_configured p then throw ProfileProvisioningUnavailableError
      else profile_attempts p user_id
             (JObj [(''registered_at'', JStr (isoformat registered_at))]) 2)"

subsection \<open>Frame\<close>

text \<open>Everything the client does is confined to its environment and the trace.\<close>

definition port_frame :: "_ \<Rightarrow> db \<Rightarrow> effect list \<Rightarrow> 'e world \<Rightarrow> bool" where
  "port_frame s d tr w \<longleftrightarrow> scripts w = s \<and> w_db w = d \<and> prefix tr (w_trace w)"

lemma port_frame_primitives [keeps_intros]:
  "keeps (port_frame s d tr) (emit x)" "keeps (port_frame s d tr) monotonic"
  "keeps (port_frame s d tr) fresh_token" "keeps (port_frame s d tr) interleave"
  "keeps (port_frame s d tr) (on_breaker m)"
  by (auto simp: keeps_def port_frame_def emit_def modify_def monotonic_def fresh_token_def
      interleave_def on_breaker_def scripts_def Let_def prefix_def split: prod.splits)

lemma leave_call_frame [keeps_intros]: "keeps (port_frame s d tr) (leave_call how adm)"
  unfolding leave_call_def by (intro keeps_intros)

lemma breaker_call_frame:
  "keeps (port_frame s d tr) func \<Longrightarrow> keeps (port_frame s d tr) (breaker_call f func)"
  unfolding breaker_call_def by (intro keeps_intros) auto

lemma client_put_frame [keeps_intros]: "keeps (port_frame s d tr) (client_put path payload)"
  unfolding client_put_def
  by (intro keeps_bind keeps_intros) (simp add: keeps_def port_frame_def scripts_def)

lemma keeps_reply [keeps_intros]:
  "keeps I m \<Longrightarrow> (\<And>st h. keeps I (f st h)) \<Longrightarrow> (\<And>e. keeps I (g e)) \<Longrightarrow>
   keeps I (case x of TransportFails \<Rightarrow> m | Response st h \<Rightarrow> f st h | ClientRaises e \<Rightarrow> g e)"
  by (cases x) auto

lemma put_profile_frame [keeps_intros]: "keeps (port_frame s d tr) (put_profile u payload)"
  unfolding put_profile_def by (intro keeps_intros)

lemma profile_attempts_frame: "keeps (port_frame s d tr) (profile_attempts p u payload n)"
proof (induction n)
  case (Suc n)
  have "keeps (port_frame s d tr)
     (case e of CircuitBreakerError \<Rightarrow> throw ProfileProvisioningUnavailableError
        | ProfileCallError retryable ra \<Rightarrow>
            if \<not> retryable then throw ProfileProvisioningRejectedError
            else if n = 0 then throw ProfileProvisioningUnavailableError
            else bind (emit (Slept (retry_sleep p ra))) (\<lambda>_. profile_attempts p u payload n)
        | _ \<Rightarrow> throw e)" for e
    using Suc by (cases e) (auto intro!: keeps_intros)
  then show ?case
    unfolding profile_attempts.simps
    by (intro keeps_catch breaker_call_frame keeps_intros)
qed (simp add: keeps_basic)

lemma http_create_profile_frame:
  assumes "http_create_profile p u t w = (r, w')"
  shows "scripts w' = scripts w \<and> w_db w' = w_db w \<and> prefix (w_trace w) (w_trace w')"
proof -
  have "keeps (port_frame (scripts w) (w_db w) (w_trace w)) (http_create_profile p u t)"
    unfolding http_create_profile_def by (intro keeps_if keeps_basic profile_attempts_frame)
  from keepsD [OF this _ assms] show ?thesis by (simp add: port_frame_def)
qed

subsection \<open>Requests and answers\<close>

lemma put_profile_result:
  assumes "put_profile u payload w = (r, w')"
  shows "w_trace w' = w_trace w @ HttpPut (profile_path u) payload #
           (if r = Inr () then [ProfileCreated u] else []) \<and>
     he_replies (w_env w') = he_replies (w_env w) \<and>
     (\<forall>e. r = Inl e \<longrightarrow> (\<exists>b ra. e = ProfileCallError b ra) \<or> (\<exists>n. he_replies (w_env w) n = ClientRaises e))"
  using assms
  by (auto simp: put_profile_def client_put_def bind_def emit_def modify_def throw_def
      split: http_reply.splits if_splits)

lemma beside_breaker_http:
  fixes w :: "http_env world"
  assumes "beside_breaker w w'"
  shows "w_trace w' = w_trace w" and "he_replies (w_env w') = he_replies (w_env w)"
proof -
  from assms obtain env where env: "w' = w\<lparr>w_env := env\<rparr>" "breaker_env.more env = breaker_env.more (w_env w)"
    unfolding beside_breaker_def by blast
  then show "w_trace w' = w_trace w" by simp
  from env(2) have "he_replies env = he_replies (w_env w)" by (cases env; cases "w_env w") simp
  with env(1) show "he_replies (w_env w') = he_replies (w_env w)" by simp
qed

lemma breaker_call_cases:
  fixes func :: "(http_env, 'a) io"
  assumes "breaker_call f func w = (r, w')"
  obtains (refused) "r = Inl CircuitBreakerError" and "w_trace w' = w_trace w"
      and "he_replies (w_env w') = he_replies (w_env w)"
  | (ran) w1 w2 where "func w1 = (r, w2)" and "w_trace w1 = w_trace w" and "w_trace w' = w_trace w2"
      and "he_replies (w_env w1) = he_replies (w_env w)" and "he_replies (w_env w') = he_replies (w_env w2)"
  using assms
proof (cases rule: breaker_call_outcome)
  case refused
  from that(1) [OF refused(1) beside_breaker_http [OF refused(2)]] show ?thesis .
next
  case (ran w1 w2)
  from that(2) [OF ran(1) beside_breaker_http(1) [OF ran(2)] beside_breaker_http(1) [OF ran(3)]
      beside_breaker_http(2) [OF ran(2)] beside_breaker_http(2) [OF ran(3)]]
  show ?thesis .
qed

definition is_put :: "effect \<Rightarrow> bool" where
  "is_put x = (case x of HttpPut _ _ \<Rightarrow> True | _ \<Rightarrow> False)"

lemma is_put_simps [simp]:
  "is_put (HttpPut a b)" "\<not> is_put (ProfileCreated u)" "\<not> is_put (Slept x)"
  by (simp_all add: is_put_def)

definition sleeps_within :: "provisioner \<Rightarrow> effect list \<Rightarrow> bool" where
  "sleeps_within p es \<longleftrightarrow>
     (\<forall>x. Slept x \<in> set es \<longrightarrow>
        (\<exists>q. x = Finite q \<and> pc_retry_delay_seconds p \<le> q \<and> q \<le> pc_retry_max_delay_seconds p))"

lemma retry_sleep_bounds:
  assumes "HTTPProfileProvisioner p = Inr p" and "\<forall>v. ra = Some v \<longrightarrow> v \<noteq> NegInf"
  shows "\<exists>q. retry_sleep p ra = Finite q \<and> pc_retry_delay_seconds p \<le> q \<and> q \<le> pc_retry_max_delay_seconds p"
proof -
  have "pc_retry_delay_seconds p \<le> pc_retry_max_delay_seconds p"
    using assms(1) by (auto simp: HTTPProfileProvisioner_def split: if_splits)
  with assms(2) show ?thesis
    by (cases ra; cases "the ra") (auto simp: retry_sleep_def py_min_def py_max_def Let_def)
qed

lemma retry_after_of_not_NegInf: "retry_after_of st h = Some v \<Longrightarrow> v \<noteq> NegInf"
  by (cases "py_float (the h)"; cases "the (py_float (the h))")
    (auto simp: retry_after_of_def py_max_def split: if_splits option.splits)

lemma put_profile_error:
  "put_profile u payload w = (Inl (ProfileCallError b ra), w') \<Longrightarrow>
   (\<forall>n. he_replies (w_env w) n \<noteq> ClientRaises (ProfileCallError b ra)) \<Longrightarrow> \<forall>v. ra = Some v \<longrightarrow> v \<noteq> NegInf"
  by (auto simp: put_profile_def client_put_def bind_def emit_def modify_def throw_def
      dest: retry_after_of_not_NegInf split: http_reply.splits if_splits)

text \<open>
  The library client raises neither the private error of this module nor the error of the breaker.
\<close>

definition client_errors_foreign :: "http_env world \<Rightarrow> bool" where
  "client_errors_foreign w \<longleftrightarrow>
     (\<forall>n e. he_replies (w_env w) n = ClientRaises e \<longrightarrow>
        e \<noteq> CircuitBreakerError \<and> (\<forall>b ra. e \<noteq> ProfileCallError b ra))"

text \<open>One attempt: at most one request, no sleep, and the errors it may end with.\<close>

definition attempt_error :: "http_env world \<Rightarrow> exn \<Rightarrow> bool" where
  "attempt_error w e \<longleftrightarrow>
     e = CircuitBreakerError \<or> (\<exists>b ra. e = ProfileCallError b ra \<and> ra \<noteq> Some NegInf) \<or>
     (\<exists>k. he_replies (w_env w) k = ClientRaises e)"

lemma attempt_result:
  assumes "breaker_call f (put_profile u payload) w = (r, w')" and "client_errors_foreign w"
  shows "\<exists>es. w_trace w' = w_trace w @ es \<and> length (filter is_put es) \<le> 1 \<and> sleeps_within p es \<and>
     (r = Inr () \<longrightarrow> ProfileCreated u \<in> set es) \<and> he_replies (w_env w') = he_replies (w_env w) \<and>
     (\<forall>e. r = Inl e \<longrightarrow> attempt_error w e)"
  using assms(1)
proof (cases rule: breaker_call_cases)
  case refused
  then show ?thesis by (intro exI [of _ "[]"]) (simp add: sleeps_within_def attempt_error_def)
next
  case (ran wa wb)
  note put = put_profile_result [OF ran(1)]
  have "attempt_error w e" if "r = Inl e" for e
    using put that ran(4) assms(2) put_profile_error [of u payload wa _ _ wb] ran(1)
    unfolding attempt_error_def client_errors_foreign_def by fastforce
  then show ?thesis
    using put ran by (intro exI [of _ "HttpPut (profile_path u) payload #
        (if r = Inr () then [ProfileCreated u] else [])"]) (auto simp: sleeps_within_def)
qed

definition final_error :: "http_env world \<Rightarrow> exn \<Rightarrow> bool" where
  "final_error w e \<longleftrightarrow>
     e = ProfileProvisioningUnavailableError \<or> e = ProfileProvisioningRejectedError \<or>
     (\<exists>k. he_replies (w_env w) k = ClientRaises e)"

lemma profile_attempts_result:
  assumes "HTTPProfileProvisioner p = Inr p" and "profile_attempts p u payload n w = (r, w')"
    and "client_errors_foreign w"
  shows "\<exists>es. w_trace w' = w_trace w @ es \<and> length (filter is_put es) \<le> n \<and> sleeps_within p es \<and>
     (r = Inr () \<longrightarrow> ProfileCreated u \<in> set es) \<and> (\<forall>e. r = Inl e \<longrightarrow> final_error w e)"
  using assms(2,3)
proof (induction n arbitrary: w)
  case 0
  then show ?case by (auto simp: throw_def sleeps_within_def final_error_def)
next
  case (Suc n)
  let ?call = "breaker_call is_profile_dependency_failure (put_profile u payload)"
  obtain r1 w1 where call: "?call w = (r1, w1)" by fastforce
  from attempt_result [OF call Suc.prems(2), of p] obtain es where es: "w_trace w1 = w_trace w @ es"
    "length (filter is_put es) \<le> 1" "sleeps_within p es" "r1 = Inr () \<longrightarrow> ProfileCreated u \<in> set es"
    and rep: "he_replies (w_env w1) = he_replies (w_env w)"
    and err: "\<And>e. r1 = Inl e \<Longrightarrow> attempt_error w e" by blast
  show ?case
  proof (cases "\<exists>ra. r1 = Inl (ProfileCallError True ra) \<and> n \<noteq> 0")
    case True
    then obtain ra where r1: "r1 = Inl (ProfileCallError True ra)" "n \<noteq> 0" by blast
    let ?x = "Slept (retry_sleep p ra)" and ?w2 = "w1\<lparr>w_trace := w_trace w1 @ [Slept (retry_sleep p ra)]\<rparr>"
    have "profile_attempts p u payload n ?w2 = (r, w')"
      using Suc.prems(1) call r1 by (simp add: catch_def bind_def emit_def modify_def)
    moreover have "client_errors_foreign ?w2" using Suc.prems(2) rep by (simp add: client_errors_foreign_def)
    ultimately obtain es' where es': "w_trace w' = w_trace ?w2 @ es'" "length (filter is_put es') \<le> n"
      "sleeps_within p es'" "r = Inr () \<longrightarrow> ProfileCreated u \<in> set es'" "\<forall>e. r = Inl e \<longrightarrow> final_error w e"
      using Suc.IH [of ?w2] rep by (auto simp: final_error_def)
    have "\<forall>v. ra = Some v \<longrightarrow> v \<noteq> NegInf"
      using err [OF r1(1)] Suc.prems(2) by (auto simp: attempt_error_def client_errors_foreign_def)
    with retry_sleep_bounds [OF assms(1)] es(3) es'(3) have "sleeps_within p (es @ ?x # es')"
      by (auto simp: sleeps_within_def)
    with es es' show ?thesis by (intro exI [of _ "es @ ?x # es'"]) auto
  next
    case False
    have "w' = w1 \<and> (r = Inr () \<longrightarrow> r1 = Inr ()) \<and> (\<forall>e. r = Inl e \<longrightarrow> final_error w e)"
      using Suc.prems call False err
      by (auto simp: catch_def throw_def attempt_error_def final_error_def split: sum.splits if_splits exn.splits)
    with es show ?thesis by (intro exI [of _ es]) auto
  qed
qed

subsection \<open>The client provides the port of the registration process\<close>

lemma put_profile_created:
  "put_profile u payload w = (Inr (), w') \<Longrightarrow> ProfileCreated u \<in> set (w_trace w')"
  using put_profile_result by fastforce

lemma profile_attempts_created:
  "profile_attempts p u payload n w = (Inr (), w') \<Longrightarrow> ProfileCreated u \<in> set (w_trace w')"
proof (induction n arbitrary: w)
  case (Suc n)
  let ?call = "breaker_call is_profile_dependency_failure (put_profile u payload)"
  obtain r1 w1 where call: "?call w = (r1, w1)" by fastforce
  show ?case
  proof (cases r1)
    case (Inl e)
    with Suc.prems call show ?thesis
      by (cases e) (auto simp: catch_def throw_def bind_def emit_def modify_def split: if_splits intro: Suc.IH)
  next
    case (Inr v)
    with Suc.prems call have "w' = w1" by (simp add: catch_def)
    with call Inr show ?thesis
      by (auto elim!: breaker_call_cases dest!: put_profile_created)
  qed
qed (simp add: throw_def)

interpretation http_port: profile_port "http_create_profile p" for p
proof
  show "http_create_profile p u t w = (Inr (), w') \<Longrightarrow> ProfileCreated u \<in> set (w_trace w')" for u t w w'
    by (auto simp: http_create_profile_def throw_def dest: profile_attempts_created split: if_splits)
qed (use http_create_profile_frame in blast)+


subsection \<open>Properties\<close>

text \<open>
  C1. A registration is reported as completed only when it is: the profile service has confirmed the
  profile, and one committed transaction has completed the operation and scrubbed its password
  hash, created an active account with the same identifier, address and hash, and put the
  \<open>identity.user_registered.v1\<close> event of that account into the outbox.
\<close>
theorem registration_completes_atomically:
  assumes "registration_world (g_email_str cfg) w" and "matches op (w_db w)"
    and "resume_execute cfg (http_create_profile p) op ow w = (Inr res, w')"
    and "res_outcome res = OUTCOME_COMPLETED"
  shows "ProfileCreated (r_user_id op) \<in> set (w_trace w') \<and>
    res_operation_id res = r_id op \<and> res_user_id res = r_user_id op \<and>
    (\<exists>r \<in> set (db_registrations (w_db w')). r_id r = r_id op \<and> r_status r = R_COMPLETED \<and>
       r_password_hash r = None) \<and>
    (\<exists>u \<in> set (db_users (w_db w')). u_id u = r_user_id op \<and> u_email u = r_email op \<and>
       Some (u_password_hash u) = r_password_hash op \<and> can_authenticate u) \<and>
    (\<exists>m \<in> set (db_outbox (w_db w')). o_key m = uuid_str (r_user_id op) \<and>
       o_type m = ''identity.user_registered.v1'' \<and> o_status m = O_PENDING)"
  by (rule http_port.resume_completed [OF _ _ assms(3,4), of "{op}"])
    (use assms(1,2) in \<open>simp_all add: reg_inv_def\<close>)

text \<open>
  C16. Registering, recovering and redriving keep the tables sound on every path: whatever the
  profile service answers, whichever statement or commit fails or is lost, and whatever sound
  changes other processes make in between, the registrations obey their lifecycle, accounts have
  distinct identifiers and addresses, and every completed registration has its account, which is
  what the handler relies on when it looks up the account of a completed registration.
\<close>
theorem registration_processes_keep_the_tables_sound:
  assumes "registration_world (g_email_str cfg) w" and "email_stable (g_email_str cfg)"
    and "register_execute cfg (http_create_profile p) command w = (r1, w1)"
    and "reconciler_run cfg (http_create_profile p) poll_interval batch_size polls w = (r2, w2)"
    and "redrive_execute i w = (r3, w3)"
  shows "registration_db_ok (g_email_str cfg) (w_db w1) \<and> registration_db_ok (g_email_str cfg) (w_db w2) \<and>
     registration_db_ok (g_email_str cfg) (w_db w3)"
proof -
  let ?I = "reg_inv (g_email_str cfg) {}"
  have inv: "?I w" using assms(1) by (simp add: reg_inv_def)
  have "keeps ?I (reconciler_run cfg (http_create_profile p) poll_interval batch_size polls)"
    unfolding reconciler_run_def by (intro keeps_if keeps_basic http_port.reconciler_polls_keeps)
  from keepsD [OF this inv assms(4)] keepsD [OF http_port.register_execute_keeps [OF assms(2)] inv assms(3)]
    keepsD [OF redrive_execute_keeps inv assms(5)]
  show ?thesis by (simp add: reg_invD(1))
qed

text \<open>
  C22. One registration attempt bothers the profile service at most twice and never sleeps longer
  than configured, even if the service answers with a \<open>Retry-After\<close> that is huge, negative,
  infinite or not a number; a successful call has seen a confirmation, and a failing one raises one
  of the two provisioning errors or an error of the HTTP library itself.
\<close>
theorem profile_client_is_bounded:
  assumes "HTTPProfileProvisioner p = Inr p" and "client_errors_foreign w"
    and "http_create_profile p u t w = (r, w')"
  shows "\<exists>es. w_trace w' = w_trace w @ es \<and> length (filter is_put es) \<le> 2 \<and>
     (\<forall>x. Slept x \<in> set es \<longrightarrow>
        (\<exists>q. x = Finite q \<and> pc_retry_delay_seconds p \<le> q \<and> q \<le> pc_retry_max_delay_seconds p)) \<and>
     (r = Inr () \<longrightarrow> ProfileCreated u \<in> set es) \<and>
     (\<forall>e. r = Inl e \<longrightarrow> e = ProfileProvisioningUnavailableError \<or> e = ProfileProvisioningRejectedError \<or>
        (\<exists>k. he_replies (w_env w) k = ClientRaises e))"
proof (cases "pc_configured p")
  case True
  with assms(3) have "profile_attempts p u (JObj [(''registered_at'', JStr (isoformat t))]) 2 w = (r, w')"
    by (simp add: http_create_profile_def)
  from profile_attempts_result [OF assms(1) this assms(2)] show ?thesis
    unfolding sleeps_within_def final_error_def .
next
  case False
  with assms(3) show ?thesis by (auto simp: http_create_profile_def throw_def)
qed

text \<open>
  An idempotency key belongs to one address and password: a registration under a known key with
  another address or a password that does not verify is refused with
  \<open>IdempotencyKeyConflictError\<close>, without a write, a call to the profile service or any other effect.
\<close>
theorem registration_key_conflict:
  assumes "w_fate w (w_txs w) = Commits"
    and "get_by_key_hash (g_email_str cfg) (rc_key_hash command)
           (db_registrations (w_rival w (w_txs w) (w_db w))) = Inr (Some op)"
    and "r_email op \<noteq> rc_email command \<or>
         (\<exists>h. r_password_hash op = Some h \<and> g_verify cfg (rc_password command) h = Inr False)"
  shows "register_execute cfg (http_create_profile p) command w =
     (Inl IdempotencyKeyConflictError, begin_tx w)"
proof -
  have "load_by_key cfg (rc_key_hash command) w = (Inr (Some op), begin_tx w)"
    using assms(1,2) by (simp add: load_by_key_def uow_def aexit_def query_def begin_tx_def Let_def)
  moreover have "resume_existing cfg (http_create_profile p) op (rc_email command) (rc_password command)
      (begin_tx w) = (Inl IdempotencyKeyConflictError, begin_tx w)"
    using assms(3) by (auto simp: resume_existing_def stored_password_hash_def throw_def bind_def
        return_def liftr_def)
  ultimately show ?thesis by (simp add: register_execute_def Let_def bind_def)
qed

text \<open>
  Repeating a completed registration is harmless: with the same key, address and password the
  handler reports the same operation and account as completed, and does nothing else.
\<close>
theorem completed_registration_is_replayed:
  assumes "registration_world (g_email_str cfg) w"
    and "w_fate w (w_txs w) = Commits" and "w_fate w (Suc (w_txs w)) = Commits"
    and "\<And>n d. w_rival w n d = d"
    and "op \<in> set (db_registrations (w_db w))" and "r_status op = R_COMPLETED"
    and "r_key_hash op = rc_key_hash command" and "r_email op = rc_email command"
    and "\<And>h. g_verify cfg (rc_password command) h = Inr True"
  shows "\<exists>w'. register_execute cfg (http_create_profile p) command w =
     (Inr \<lparr>res_operation_id = r_id op, res_user_id = r_user_id op, res_outcome = OUTCOME_COMPLETED,
           res_retry_after_seconds = None\<rparr>, w') \<and> w_db w' = w_db w \<and> w_trace w' = w_trace w"
proof -
  let ?es = "g_email_str cfg"
  have ok: "registration_db_ok ?es (w_db w)"
    using assms(1) by (simp add: registration_world_def world_ok_def)
  then have tab: "registration_table_ok ?es (db_registrations (w_db w))" and us: "users_ok ?es (db_users (w_db w))"
    by (simp_all add: registration_db_ok_def)
  have row: "registration_row_ok ?es op" by (rule registration_table_okD(5) [OF tab assms(5)])
  have "find (\<lambda>r. r_key_hash r = rc_key_hash command) (db_registrations (w_db w)) = Some op"
    using find_unique_key [OF registration_table_okD(2) [OF tab] assms(5)] assms(7) by simp
  then have load: "load_by_key cfg (rc_key_hash command) w = (Inr (Some op), begin_tx w)"
    using assms(2,4) row by (simp add: load_by_key_def uow_def aexit_def query_def begin_tx_def Let_def
        get_by_key_hash_def optional_to_domain_def registration_row_ok_to_domain)
  obtain u where u: "u \<in> set (db_users (w_db w))" "u_id u = r_user_id op"
    using ok assms(5,6) by (auto simp: registration_db_ok_def completed_have_users_def)
  with us have "find (\<lambda>q. u_id q = r_user_id op) (db_users (w_db w)) = Some u" "validate_user ?es u = Inr u"
    using find_unique_key [of u_id "db_users (w_db w)" u] by (auto simp: users_ok_def list_all_iff valid_user_def)
  moreover have "r_password_hash op = None"
    using row assms(6) by (auto simp: registration_row_ok_iff registration_checks_def)
  ultimately have hash: "stored_password_hash cfg op (begin_tx w) = (Inr (u_password_hash u), begin_tx (begin_tx w))"
    using assms(3,4) by (simp add: stored_password_hash_def uow_def aexit_def query_def begin_tx_def
        Let_def bind_def user_get_def optional_def user_to_domain_def return_def)
  have "register_execute cfg (http_create_profile p) command w =
     (Inr \<lparr>res_operation_id = r_id op, res_user_id = r_user_id op, res_outcome = OUTCOME_COMPLETED,
           res_retry_after_seconds = None\<rparr>, begin_tx (begin_tx w))"
    using load hash assms(6,8,9)
    by (simp add: register_execute_def resume_existing_def bind_def liftr_def completed_result_of_def
        RegistrationResult_def Let_def)
  with assms(4) show ?thesis by simp
qed

subsection \<open>Witnesses\<close>

definition sample_config :: registration_config where
  "sample_config = \<lparr>g_email_str = sample_email_str, g_hash = (\<lambda>_. Inr ''h''),
     g_verify = (\<lambda>pw h. Inr (pw = ''password'')), g_topic = ''topic'', g_producer = ''identity'',
     g_policy = default_retry_policy, g_claim_lease_seconds = 30\<rparr>"

definition sample_provisioner :: provisioner where
  "sample_provisioner = \<lparr>pc_configured = True, pc_retry_delay_seconds = 1 / 10,
     pc_retry_max_delay_seconds = 1\<rparr>"

definition sample_http_env :: "(nat \<Rightarrow> http_reply) \<Rightarrow> http_env" where
  "sample_http_env replies = \<lparr>be_breaker = sample_breaker, be_mono = of_nat, be_monos = 0, be_tokens = 0,
     be_rival = (\<lambda>_ b. b), he_replies = replies, he_calls = 0\<rparr>"

definition sample_world :: "registration_table \<Rightarrow> (nat \<Rightarrow> http_reply) \<Rightarrow> http_env world" where
  "sample_world rows replies = (quiet_world (empty_db\<lparr>db_registrations := rows\<rparr>) (sample_http_env replies))
     \<lparr>w_clock := \<lambda>_. Datetime 20 True, w_db_now := \<lambda>_. Datetime 20 True\<rparr>"

definition sample_user :: user where
  "sample_user = \<lparr>u_id = 20, u_created_at = Datetime 5 True, u_updated_at = None, u_email = ''a@b.c'',
     u_password_hash = ''h'', u_role = USER, u_status = ACTIVE\<rparr>"

lemma registration_world_quiet:
  "registration_db_ok es d \<Longrightarrow> registration_world es
     ((quiet_world d env)\<lparr>w_clock := \<lambda>_. Datetime 20 True, w_db_now := \<lambda>_. Datetime 20 True\<rparr>)"
  by (simp add: registration_world_def world_ok_def quiet_world_def)

lemma sample_world_ok:
  "registration_table_ok sample_email_str rows \<Longrightarrow> list_all (\<lambda>r. r_status r \<noteq> R_COMPLETED) rows \<Longrightarrow>
   registration_world sample_email_str (sample_world rows replies)"
  unfolding sample_world_def
  by (rule registration_world_quiet)
    (auto simp: registration_db_ok_def users_ok_def completed_have_users_def empty_db_def list_all_iff)

lemma sample_world_sel [simp]:
  "w_db (sample_world rows replies) = empty_db\<lparr>db_registrations := rows\<rparr>"
  "w_trace (sample_world rows replies) = []" "w_env (sample_world rows replies) = sample_http_env replies"
  "w_fate (sample_world rows replies) n = Commits" "w_rival (sample_world rows replies) n d = d"
  "w_txs (sample_world rows replies) = 0" "w_clock (sample_world rows replies) n = Datetime 20 True"
  "w_db_now (sample_world rows replies) n = Datetime 20 True"
  by (simp_all add: sample_world_def quiet_world_def)

lemma sample_config_email [simp]: "g_email_str sample_config = sample_email_str"
  by (simp add: sample_config_def)

lemma sample_provisioner_ok: "HTTPProfileProvisioner sample_provisioner = Inr sample_provisioner"
  by (simp add: HTTPProfileProvisioner_def sample_provisioner_def)

lemma sample_breaker_call:
  assumes "w_env w = sample_http_env replies" and "func (w\<lparr>w_env := (sample_http_env replies)
      \<lparr>be_monos := 1, be_tokens := 1\<rparr>\<rparr>) = (Inr a, w1)"
  shows "\<exists>w2. breaker_call f func w = (Inr a, w2) \<and> w_db w2 = w_db w1 \<and> w_trace w2 = w_trace w1 \<and>
     scripts w2 = scripts w1 \<and> w_ticks w2 = w_ticks w1 \<and> w_txs w2 = w_txs w1 \<and> w_drawn w2 = w_drawn w1"
  using assms
  by (simp add: breaker_call_def bind_def monotonic_def fresh_token_def on_breaker_def enter_def
      check_state_def sample_http_env_def sample_breaker_def Let_def try_else_def leave_call_def
      interleave_def modify_def return_def leave_def handle_success_def scripts_def)

lemma sample_profile_call:
  "\<exists>w2. http_create_profile sample_provisioner 20 (Datetime 5 True)
      (sample_world [sample_claimed] (\<lambda>_. Response 204 None)) = (Inr (), w2) \<and>
     w_db w2 = empty_db\<lparr>db_registrations := [sample_claimed]\<rparr> \<and> ProfileCreated 20 \<in> set (w_trace w2) \<and>
     scripts w2 = scripts (sample_world [sample_claimed] (\<lambda>_. Response 204 None)) \<and> w_txs w2 = 0"
proof -
  let ?w = "sample_world [sample_claimed] (\<lambda>_. Response 204 None)"
  let ?payload = "JObj [(''registered_at'', JStr (isoformat (Datetime 5 True)))]"
  let ?env = "(sample_http_env (\<lambda>_. Response 204 None))\<lparr>be_monos := 1, be_tokens := 1\<rparr>"
  have "\<exists>w1. put_profile 20 ?payload (?w\<lparr>w_env := ?env\<rparr>) = (Inr (), w1) \<and>
      w_db w1 = w_db ?w \<and> ProfileCreated 20 \<in> set (w_trace w1) \<and> scripts w1 = scripts ?w \<and> w_txs w1 = 0"
    by (simp add: put_profile_def client_put_def bind_def emit_def modify_def sample_http_env_def scripts_def)
  then obtain w1 where put: "put_profile 20 ?payload (?w\<lparr>w_env := ?env\<rparr>) = (Inr (), w1)"
    and w1: "w_db w1 = w_db ?w" "ProfileCreated 20 \<in> set (w_trace w1)" "scripts w1 = scripts ?w" "w_txs w1 = 0"
    by blast
  from sample_breaker_call [of ?w "\<lambda>_. Response 204 None" "put_profile 20 ?payload" "()" w1
      is_profile_dependency_failure] put w1 show ?thesis
    by (auto simp: http_create_profile_def sample_provisioner_def numeral_2_eq_2 catch_def)
qed

lemma sample_publish:
  "e_registered_at ev = Datetime 5 True \<Longrightarrow>
   publish ''topic'' ''identity'' ev [] = Inr ((), [outbox_row ''topic'' ''identity'' ev])"
  by (simp add: publish_def outbox_widths_def outbox_row_def partition_key_def event_type_def Let_def)

lemma sample_finalize:
  assumes "w_db w = empty_db\<lparr>db_registrations := [sample_claimed]\<rparr>"
    and "scripts w = scripts (sample_world rows replies)"
  shows "\<exists>w'. finalize sample_config sample_claimed 7 w = (Inr sample_user, w')"
proof -
  have script: "w_clock w n = Datetime 20 True" "w_db_now w n = Datetime 20 True" "w_fate w n = Commits"
    "w_rival w n d = d" for n d
    using assms(2) by (auto simp: scripts_def sample_world_def quiet_world_def)
  have valid: "validate_user sample_email_str sample_user = Inr sample_user"
    by (simp add: validate_user_result sample_user_def sample_email_str_def casefold_def py_strip_def
        py_isspace_def)
  then have new: "create_if_absent sample_email_str sample_user [] = Inr (Some sample_user, [sample_user])"
    by (simp add: create_if_absent_def user_widths_def user_to_domain_def) (simp add: sample_user_def)
  have claimed: "r_password_hash sample_claimed = Some ''h''" "r_user_id sample_claimed = 20"
    "r_created_at sample_claimed = Datetime 5 True" "r_email sample_claimed = ''a@b.c''" "r_id sample_claimed = 10"
    by (simp_all add: sample_operation_defs)
  have cfg: "g_topic sample_config = ''topic''" "g_producer sample_config = ''identity''"
    by (simp_all add: sample_config_def)
  have user: "u_id sample_user = 20" "u_created_at sample_user = Datetime 5 True"
    by (simp_all add: sample_user_def)
  have "\<exists>w'. finalize_tx sample_config sample_claimed 7 (Datetime 20 True) sample_user
      (begin_tx (w\<lparr>w_ticks := Suc (w_ticks w)\<rparr>)) = (Inr sample_user, w')"
    using sample_complete assms(1)
    by (simp add: finalize_tx_def bind_def db_now_def gets_def stmt_def on_registrations_def on_users_def
        on_outbox_def script claimed cfg new user empty_db_def new_uuid_def sample_publish return_def)
  moreover have "validate_user sample_email_str \<lparr>u_id = 20, u_created_at = Datetime 5 True,
       u_updated_at = None, u_email = ''a@b.c'', u_password_hash = ''h'', u_role = USER, u_status = ACTIVE\<rparr> =
      Inr sample_user" using valid by (simp add: sample_user_def)
  ultimately show ?thesis
    using uow_commits [of "w\<lparr>w_ticks := Suc (w_ticks w)\<rparr>"]
    by (fastforce simp: finalize_def claimed bind_def utc_now_def liftr_def script)
qed

lemma sample_claimed_sel:
  "r_user_id sample_claimed = 20" "r_created_at sample_claimed = Datetime 5 True"
  "r_status sample_claimed = R_CLAIMED" "r_claim_token sample_claimed = Some 7" "r_email sample_claimed = ''a@b.c''"
  by (simp_all add: sample_operation_defs)

lemma sample_resume_completes:
  "\<exists>res w'. resume_execute sample_config (http_create_profile sample_provisioner) sample_claimed 7
      (sample_world [sample_claimed] (\<lambda>_. Response 204 None)) = (Inr res, w') \<and> res_outcome res = OUTCOME_COMPLETED"
proof -
  let ?w = "sample_world [sample_claimed] (\<lambda>_. Response 204 None)"
  obtain w2 where cp: "http_create_profile sample_provisioner 20 (Datetime 5 True) ?w = (Inr (), w2)"
    and w2: "w_db w2 = empty_db\<lparr>db_registrations := [sample_claimed]\<rparr>" "scripts w2 = scripts ?w"
    using sample_profile_call by blast
  obtain w3 where fin: "finalize sample_config sample_claimed 7 w2 = (Inr sample_user, w3)"
    using sample_finalize [OF w2] by blast
  from cp fin show ?thesis
    by (simp add: resume_execute_def sample_claimed_sel try_else_def bind_def observe_def emit_def modify_def
        liftr_def completed_result_of_def RegistrationResult_def)
qed

theorem registration_completes_atomically_witness:
  "\<exists>res w'. resume_execute sample_config (http_create_profile sample_provisioner) sample_claimed 7
      (sample_world [sample_claimed] (\<lambda>_. Response 204 None)) = (Inr res, w') \<and>
     res_outcome res = OUTCOME_COMPLETED \<and> ProfileCreated 20 \<in> set (w_trace w') \<and>
     (\<exists>u \<in> set (db_users (w_db w')). u_email u = ''a@b.c'')"
proof -
  let ?w = "sample_world [sample_claimed] (\<lambda>_. Response 204 None)"
  obtain res w' where run: "resume_execute sample_config (http_create_profile sample_provisioner)
      sample_claimed 7 ?w = (Inr res, w')" "res_outcome res = OUTCOME_COMPLETED" using sample_resume_completes by blast
  have "registration_world (g_email_str sample_config) ?w"
    using sample_world_ok [OF sample_claimed_ok] sample_claimed_sel(3) by simp
  from registration_completes_atomically [OF this _ run] run sample_claimed_sel show ?thesis by (auto simp: matches_def)
qed

theorem registration_processes_keep_the_tables_sound_witness:
  "\<exists>r w'. redrive_execute 10 (sample_world [sample_claimed] (\<lambda>_. TransportFails)) = (r, w') \<and>
     registration_db_ok sample_email_str (w_db w')"
proof -
  let ?w = "sample_world [sample_claimed] (\<lambda>_. TransportFails)"
  let ?command = "\<lparr>rc_email = ''a@b.c'', rc_password = ''password'', rc_key_hash = replicate 32 0\<rparr>"
  have "registration_world (g_email_str sample_config) ?w"
    using sample_world_ok [OF sample_claimed_ok] by (simp add: sample_operation_defs)
  moreover have "email_stable (g_email_str sample_config)"
    by (auto simp: email_stable_def NormalizedEmail_def sample_email_str_def at_sign_casefold split: if_splits)
  moreover obtain r1 w1 where "register_execute sample_config (http_create_profile sample_provisioner)
      ?command ?w = (r1, w1)" by fastforce
  moreover obtain r2 w2 where "reconciler_run sample_config (http_create_profile sample_provisioner)
      1 5 3 ?w = (r2, w2)" by fastforce
  moreover obtain r3 w3 where red: "redrive_execute 10 ?w = (r3, w3)" by fastforce
  ultimately have "registration_db_ok (g_email_str sample_config) (w_db w3)"
    using registration_processes_keep_the_tables_sound by blast
  with red show ?thesis by auto
qed

theorem profile_client_is_bounded_witness:
  "\<exists>r w' es. http_create_profile sample_provisioner 20 (Datetime 5 True)
      (sample_world [] (\<lambda>_. Response 429 (Some ''nan''))) = (r, w') \<and>
     w_trace w' = es \<and> length (filter is_put es) \<le> 2 \<and>
     (\<forall>x. Slept x \<in> set es \<longrightarrow> (\<exists>q. x = Finite q \<and> 1 / 10 \<le> q \<and> q \<le> 1))"
proof -
  let ?w = "sample_world [] (\<lambda>_. Response 429 (Some ''nan''))"
  obtain r w' where run: "http_create_profile sample_provisioner 20 (Datetime 5 True) ?w = (r, w')"
    by fastforce
  have "client_errors_foreign ?w" by (simp add: client_errors_foreign_def sample_http_env_def)
  from profile_client_is_bounded [OF sample_provisioner_ok this run] run show ?thesis
    by (auto simp: sample_provisioner_def)
qed

theorem registration_key_conflict_witness:
  "\<exists>w. register_execute sample_config (http_create_profile sample_provisioner)
     \<lparr>rc_email = ''x@y.z'', rc_password = ''password'', rc_key_hash = replicate 32 0\<rparr> w =
     (Inl IdempotencyKeyConflictError, begin_tx w)"
proof -
  let ?w = "sample_world [sample_claimed] (\<lambda>_. TransportFails)"
  have "registration_to_domain sample_email_str sample_claimed = Inr sample_claimed"
    using registration_table_okD(5) [OF sample_claimed_ok, of sample_claimed]
    by (intro registration_row_ok_to_domain) simp
  moreover have "r_key_hash sample_claimed = replicate 32 0" "r_email sample_claimed = ''a@b.c''"
    by (simp_all add: sample_operation_defs)
  ultimately have "register_execute sample_config (http_create_profile sample_provisioner)
     \<lparr>rc_email = ''x@y.z'', rc_password = ''password'', rc_key_hash = replicate 32 0\<rparr> ?w =
     (Inl IdempotencyKeyConflictError, begin_tx ?w)"
    by (intro registration_key_conflict [where op = sample_claimed])
      (simp_all add: get_by_key_hash_def optional_to_domain_def)
  then show ?thesis by blast
qed

abbreviation completed_world where
  "completed_world \<equiv> (quiet_world (empty_db\<lparr>db_registrations := [sample_completed], db_users := [sample_user]\<rparr>)
     (sample_http_env (\<lambda>_. TransportFails)))\<lparr>w_clock := \<lambda>_. Datetime 20 True, w_db_now := \<lambda>_. Datetime 20 True\<rparr>"

lemma sample_completed_sel:
  "r_status sample_completed = R_COMPLETED" "r_key_hash sample_completed = replicate 32 0"
  "r_email sample_completed = ''a@b.c''" "r_id sample_completed = 10" "r_user_id sample_completed = 20"
  by (simp_all add: sample_operation_defs)

lemma completed_world_ok: "registration_world sample_email_str completed_world"
proof (rule registration_world_quiet)
  have "registration_table_ok sample_email_str [sample_completed]"
    using registration_history_ok [OF sample_registration_history] by simp
  moreover have "users_ok sample_email_str [sample_user]"
    by (simp add: users_ok_def valid_user_def validate_user_result sample_user_def sample_email_str_def
        casefold_def py_strip_def py_isspace_def)
  ultimately show "registration_db_ok sample_email_str
      (empty_db\<lparr>db_registrations := [sample_completed], db_users := [sample_user]\<rparr>)"
    by (simp add: registration_db_ok_def completed_have_users_def sample_completed_sel) (simp add: sample_user_def)
qed

lemma completed_world_replays:
  "\<exists>w'. register_execute (sample_config\<lparr>g_verify := \<lambda>_ _. Inr True\<rparr>) (http_create_profile sample_provisioner)
      \<lparr>rc_email = ''a@b.c'', rc_password = ''password'', rc_key_hash = replicate 32 0\<rparr> completed_world =
     (Inr \<lparr>res_operation_id = 10, res_user_id = 20, res_outcome = OUTCOME_COMPLETED,
           res_retry_after_seconds = None\<rparr>, w') \<and>
     w_db w' = w_db completed_world \<and> w_trace w' = w_trace completed_world"
  unfolding sample_completed_sel(4,5) [symmetric]
  by (intro completed_registration_is_replayed)
    (use completed_world_ok in \<open>simp_all add: sample_completed_sel\<close>, simp_all add: quiet_world_def)

end
