(* ===== verification/Relay.thy ===== *)
theory Relay
  imports Database Retry
begin

section \<open>The outbox relay\<close>

text \<open>
  \<open>application/outbox/relay.py\<close> and the publisher behind it,
  \<open>infrastructure/messaging/kafka_publisher.py\<close>.

  The broker (a third-party client) is a script of answers in the environment, and so is the stop
  event, one answer per reading of \<open>is_set\<close>. The key streams of a batch, which \<open>asyncio.gather\<close>
  runs concurrently, run one after the other; what other tasks commit in between is part of
  \<open>w_rival\<close>. The relay is written over any publisher; its contract is the locale \<open>broker_port\<close>.
  The observer's calls appear in the trace.
\<close>

subsection \<open>Environment\<close>

record relay_env =
  re_stop :: "nat \<Rightarrow> bool"
  re_reads :: nat

definition stop_is_set :: "('x relay_env_scheme, bool) io" where
  "stop_is_set w =
     (Inr (re_stop (w_env w) (re_reads (w_env w))),
      w\<lparr>w_env := (w_env w)\<lparr>re_reads := Suc (re_reads (w_env w))\<rparr>\<rparr>)"

subsection \<open>\<open>FastStreamKafkaPublisher\<close>\<close>

text \<open>
  What the broker client does with a message: it confirms it, or it raises; the flag of a failure
  tells whether the broker has stored the message all the same.
\<close>

datatype broker_error =
    BrokerTimeout | BrokerConnection | BrokerValueError | FastStreamException | BrokerOther
  | BrokerCancelled

datatype broker_reply = BrokerConfirms | BrokerRaises broker_error bool

record broker_env = relay_env +
  br_replies :: "nat \<Rightarrow> broker_reply"
  br_calls :: nat

definition broker_publish :: "outbox_message \<Rightarrow> (broker_env, broker_reply) io" where
  "broker_publish message =
     bind (emit (BrokerCalled (o_id message))) (\<lambda>_.
     bind (gets (\<lambda>w. br_replies (w_env w) (br_calls (w_env w)))) (\<lambda>reply.
     bind (modify (\<lambda>w. w\<lparr>w_env := (w_env w)\<lparr>br_calls := Suc (br_calls (w_env w))\<rparr>\<rparr>)) (\<lambda>_.
     bind (if (case reply of BrokerConfirms \<Rightarrow> True | BrokerRaises _ stored \<Rightarrow> stored)
           then emit (BrokerAccepted (o_id message)) else return ()) (\<lambda>_.
       return reply))))"

definition publish_error :: "broker_error \<Rightarrow> exn" where
  "publish_error error =
     (case error of
        BrokerTimeout \<Rightarrow> TransientPublishError
      | BrokerConnection \<Rightarrow> TransientPublishError
      | BrokerValueError \<Rightarrow> PermanentPublishError
      | FastStreamException \<Rightarrow> TransientPublishError
      | BrokerOther \<Rightarrow> TransientPublishError
      | BrokerCancelled \<Rightarrow> CancelledError)"

definition kafka_publish :: "outbox_message \<Rightarrow> (broker_env, unit) io" where
  "kafka_publish message =
     bind (broker_publish message) (\<lambda>reply.
       case reply of
         BrokerConfirms \<Rightarrow> return ()
       | BrokerRaises error _ \<Rightarrow> throw (publish_error error))"

subsection \<open>\<open>OutboxRelayService\<close>\<close>

record relay_config =
  l_claim_lease_seconds :: seconds
  l_policy :: retry_policy

definition OutboxRelayService :: "relay_config \<Rightarrow> exn + relay_config" where
  "OutboxRelayService cfg =
     (if l_claim_lease_seconds cfg \<le> 0 then Inl ValueError
      else bind_res (OutboxRetryPolicy (l_policy cfg)) (\<lambda>_. Inr cfg))"

definition relay_observe :: "string \<Rightarrow> string \<Rightarrow> ('e, unit) io" where
  "relay_observe what detail = emit (Observed what detail)"

definition quarantine_message ::
    "outbox_message \<Rightarrow> uuid \<Rightarrow> string \<Rightarrow> ('e, unit) io" where
  "quarantine_message message owner_token error_class =
     bind utc_now (\<lambda>quarantined_at.
     bind (uow (bind db_now (\<lambda>ts.
       stmt (on_outbox (quarantine (o_id message) owner_token quarantined_at error_class ts)))))
       (\<lambda>quarantined.
       if quarantined then relay_observe ''message_quarantined'' error_class else return ()))"

definition schedule_message_retry ::
    "relay_config \<Rightarrow> outbox_message \<Rightarrow> uuid \<Rightarrow> exn \<Rightarrow> ('e, unit) io" where
  "schedule_message_retry cfg message owner_token error =
     bind jitter_source (\<lambda>jitter.
     bind (liftr (delay_seconds (l_policy cfg) (o_attempts message + 1) jitter)) (\<lambda>delay.
     bind utc_now (\<lambda>now.
     bind (uow (bind db_now (\<lambda>ts.
       stmt (on_outbox (outbox_schedule_retry (o_id message) owner_token
         (plus_delta now (timedelta_seconds delay)) (class_name error) ts))))) (\<lambda>scheduled.
       if scheduled then relay_observe ''message_retry_scheduled'' (o_type message) else return ()))))"

definition finalize_message :: "outbox_message \<Rightarrow> uuid \<Rightarrow> ('e, unit) io" where
  "finalize_message message owner_token =
     bind utc_now (\<lambda>published_at.
     bind (uow (bind db_now (\<lambda>ts.
       stmt (on_outbox (finalize_published (o_id message) owner_token published_at ts)))))
       (\<lambda>finalized.
       if finalized then relay_observe ''message_finalized'' (o_type message) else return ()))"

text \<open>The \<open>except\<close> clauses of \<open>_publish_claimed\<close>.\<close>

definition publish_failed ::
    "relay_config \<Rightarrow> uuid \<Rightarrow> outbox_message \<Rightarrow> exn \<Rightarrow> ('e, unit) io" where
  "publish_failed cfg owner_token message error =
     (if isinstance error PermanentPublishError
      then quarantine_message message owner_token (class_name error)
      else if is_exception error
      then (let attempt = o_attempts message + 1 in
            if max_attempts (l_policy cfg) \<le> attempt
            then quarantine_message message owner_token (class_name RetryExhaustedError)
            else schedule_message_retry cfg message owner_token error)
      else throw error)"

definition publish_claimed ::
    "relay_config \<Rightarrow> (outbox_message \<Rightarrow> ('e, unit) io) \<Rightarrow> uuid \<Rightarrow> outbox_message \<Rightarrow> ('e, unit) io" where
  "publish_claimed cfg publisher owner_token message =
     try_else (publisher message) (publish_failed cfg owner_token message)
       (\<lambda>_. finalize_message message owner_token)"

text \<open>\<open>by_key\<close>: a dictionary in the order of first insertion.\<close>

fun add_to_key ::
    "outbox_message \<Rightarrow> (string \<times> outbox_message list) list \<Rightarrow> (string \<times> outbox_message list) list" where
  "add_to_key m [] = [(o_key m, [m])]"
| "add_to_key m ((k, ms) # rest) =
     (if k = o_key m then (k, ms @ [m]) # rest else (k, ms) # add_to_key m rest)"

definition by_key :: "outbox_message list \<Rightarrow> (string \<times> outbox_message list) list" where
  "by_key messages = fold add_to_key messages []"

fun process_key_stream ::
    "relay_config \<Rightarrow> (outbox_message \<Rightarrow> ('x relay_env_scheme, unit) io) \<Rightarrow> uuid \<Rightarrow> outbox_message list
     \<Rightarrow> ('x relay_env_scheme, unit) io" where
  "process_key_stream cfg publisher owner_token [] = return ()"
| "process_key_stream cfg publisher owner_token (m # ms) =
     bind stop_is_set (\<lambda>stop.
       if stop then return ()
       else bind (publish_claimed cfg publisher owner_token m) (\<lambda>_.
              process_key_stream cfg publisher owner_token ms))"

text \<open>\<open>gather(..., return_exceptions=True)\<close>: an error ends its own stream only.\<close>

fun gather_streams ::
    "relay_config \<Rightarrow> (outbox_message \<Rightarrow> ('x relay_env_scheme, unit) io) \<Rightarrow> uuid
     \<Rightarrow> (string \<times> outbox_message list) list \<Rightarrow> ('x relay_env_scheme, unit) io" where
  "gather_streams cfg publisher owner_token [] = return ()"
| "gather_streams cfg publisher owner_token (g # gs) =
     bind (catch (process_key_stream cfg publisher owner_token (snd g)) (\<lambda>_. return ())) (\<lambda>_.
       gather_streams cfg publisher owner_token gs)"

definition relay_run_once ::
    "relay_config \<Rightarrow> (outbox_message \<Rightarrow> ('x relay_env_scheme, unit) io) \<Rightarrow> int
     \<Rightarrow> ('x relay_env_scheme, nat) io" where
  "relay_run_once cfg publisher batch_size =
     (if batch_size \<le> 0 then throw ValueError
      else
        bind new_uuid (\<lambda>owner_token.
        bind utc_now (\<lambda>claimed_at.
        let claim_expires_at = plus_delta claimed_at (timedelta_seconds (l_claim_lease_seconds cfg)) in
        bind (uow (bind db_now (\<lambda>ts. bind tx_locked (\<lambda>locked.
          stmt (on_outbox (outbox_claim_batch locked owner_token claimed_at claim_expires_at
            batch_size ts)))))) (\<lambda>messages.
        if messages = [] then return 0
        else
          bind (relay_observe ''batch_claimed'' []) (\<lambda>_.
          bind (gather_streams cfg publisher owner_token (by_key messages)) (\<lambda>_.
            return (length messages)))))))"

text \<open>
  \<open>run\<close>: the loop ends when the stop event is seen; it need not end otherwise, so it is a partial
  function whose value \<open>None\<close> means that it runs for ever. Waiting for the stop event with a
  timeout is the reading at the head of the next round.
\<close>

partial_function (option) relay_loop ::
    "relay_config \<Rightarrow> (outbox_message \<Rightarrow> ('x relay_env_scheme, unit) io) \<Rightarrow> seconds \<Rightarrow> int
     \<Rightarrow> 'x relay_env_scheme world \<Rightarrow> ((exn + unit) \<times> 'x relay_env_scheme world) option" where
  "relay_loop cfg publisher poll_interval batch_size w =
     (case stop_is_set w of
        (Inl e, w1) \<Rightarrow> Some (Inl e, w1)
      | (Inr stop, w1) \<Rightarrow>
          if stop then Some (Inr (), w1)
          else
            (case catch (relay_run_once cfg publisher batch_size)
                    (\<lambda>e. if is_exception e then return 0 else throw e) w1 of
               (Inl e, w2) \<Rightarrow> Some (Inl e, w2)
             | (Inr processed, w2) \<Rightarrow>
                 (case stop_is_set w2 of
                    (Inl e, w3) \<Rightarrow> Some (Inl e, w3)
                  | (Inr stop', w3) \<Rightarrow>
                      if stop' then Some (Inr (), w3)
                      else relay_loop cfg publisher poll_interval batch_size
                             (if processed = 0
                              then w3\<lparr>w_trace := w_trace w3 @ [Slept (Finite poll_interval)]\<rparr>
                              else w3))))"

definition relay_run ::
    "relay_config \<Rightarrow> (outbox_message \<Rightarrow> ('x relay_env_scheme, unit) io) \<Rightarrow> seconds \<Rightarrow> int
     \<Rightarrow> 'x relay_env_scheme world \<Rightarrow> ((exn + unit) \<times> 'x relay_env_scheme world) option" where
  "relay_run cfg publisher poll_interval batch_size w =
     (if poll_interval \<le> 0 then Some (Inl ValueError, w)
      else relay_loop cfg publisher poll_interval batch_size w)"

subsection \<open>What the relay may mark as delivered\<close>

text \<open>
  The identifiers of the delivered rows and of the messages the broker has accepted. Other relays
  are \<open>honest\<close> towards a set \<open>A\<close> when they mark no message outside \<open>A\<close> as delivered.
\<close>

definition outbox_db_ok :: "db \<Rightarrow> bool" where
  "outbox_db_ok d = outbox_table_ok (db_outbox d)"

definition delivered :: "outbox_table \<Rightarrow> uuid set" where
  "delivered rows = o_id ` {r \<in> set rows. o_status r = O_SUCCESS}"

definition accepted :: "effect list \<Rightarrow> uuid set" where
  "accepted es = {i. BrokerAccepted i \<in> set es}"

definition honest :: "uuid set \<Rightarrow> (nat \<Rightarrow> db \<Rightarrow> db) \<Rightarrow> bool" where
  "honest A rival \<longleftrightarrow> (\<forall>n d. delivered (db_outbox (rival n d)) \<subseteq> delivered (db_outbox d) \<union> A)"

definition relay_inv :: "uuid set \<Rightarrow> uuid set \<Rightarrow> effect list \<Rightarrow> 'e world \<Rightarrow> bool" where
  "relay_inv A B base w \<longleftrightarrow>
     world_ok outbox_db_ok w \<and> honest A (w_rival w) \<and>
     (\<exists>es. w_trace w = base @ es \<and> delivered (db_outbox (w_db w)) \<subseteq> A \<union> accepted es \<and> B \<subseteq> accepted es)"

lemma accepted_append [simp]: "accepted (xs @ ys) = accepted xs \<union> accepted ys"
  by (auto simp: accepted_def)

lemma relay_inv_weaken: "relay_inv A B base w \<Longrightarrow> C \<subseteq> B \<Longrightarrow> relay_inv A C base w"
  by (auto simp: relay_inv_def)

lemma relay_inv_port:
  assumes inv: "relay_inv A B base w" and "scripts w' = scripts w" and "w_db w' = w_db w"
    and "prefix (w_trace w) (w_trace w')"
  shows "relay_inv A B base w'"
proof -
  have "world_ok outbox_db_ok w'"
    using world_ok_scripts [of outbox_db_ok w w'] assms by (simp add: relay_inv_def world_ok_def)
  moreover have "w_rival w' = w_rival w" using assms(2) by (simp add: scripts_def)
  ultimately show ?thesis
    using assms by (fastforce simp: relay_inv_def prefix_def)
qed

lemma relay_inv_primitives [keeps_intros]:
  "keeps (relay_inv A B base) (relay_observe x y)" "keeps (relay_inv A B base) utc_now"
  "keeps (relay_inv A B base) new_uuid" "keeps (relay_inv A B base) jitter_source"
  "keeps (relay_inv A B base) stop_is_set"
  by (rule keepsI, erule relay_inv_port;
      simp add: relay_observe_def emit_def modify_def utc_now_def new_uuid_def jitter_source_def
        stop_is_set_def scripts_def prefix_def)+

lemma relay_inv_utc_now:
  assumes "\<And>t. tz_aware t \<Longrightarrow> keeps (relay_inv A B base) (f t)"
  shows "keeps (relay_inv A B base) (bind utc_now f)"
proof (rule keeps_bind_spec)
  show "spec (relay_inv A B base) utc_now (\<lambda>t w. relay_inv A B base w \<and> tz_aware t) (relay_inv A B base)"
    using relay_inv_primitives(2) [of A B base]
    by (intro specI) (auto simp: res_simps relay_inv_def world_ok_def dest: keepsD)
  show "spec (\<lambda>w. relay_inv A B base w \<and> tz_aware t) (f t) (\<lambda>_. relay_inv A B base) (relay_inv A B base)" for t
    using assms [of t] by (cases "tz_aware t") (auto simp: keeps_spec spec_def)
qed

lemma relay_inv_uow:
  fixes body :: "('e, 'a) io"
  assumes body: "\<And>w r w'. body w = (r, w') \<Longrightarrow> world_ok outbox_db_ok w \<Longrightarrow>
      \<exists>rows. w' = w\<lparr>w_db := (w_db w)\<lparr>db_outbox := rows\<rparr>\<rparr> \<and> outbox_table_ok rows \<and>
        delivered rows \<subseteq> delivered (db_outbox (w_db w)) \<union> B"
  shows "keeps (relay_inv A B base) (uow body)"
proof (rule keepsI)
  fix w :: "'e world"
  assume inv: "relay_inv A B base w"
  obtain r w' where run: "uow body w = (r, w')" by fastforce
  have ok: "world_ok outbox_db_ok (begin_tx w)"
    using inv world_ok_begin_tx by (auto simp: relay_inv_def)
  let ?same = "\<lambda>rows. w' = (begin_tx w)\<lparr>w_db := (w_db (begin_tx w))\<lparr>db_outbox := rows\<rparr>\<rparr> \<and>
      outbox_table_ok rows \<and> delivered rows \<subseteq> delivered (db_outbox (w_db (begin_tx w))) \<union> B"
  have noop: "?same (db_outbox (w_db (begin_tx w)))" if "w' = begin_tx w"
    using that world_ok_db [OF ok] by (simp add: outbox_db_ok_def)
  from run have "\<exists>rows. ?same rows"
  proof (cases rule: uow_cases)
    case (rolled_back e)
    then show ?thesis using noop body [OF _ ok] by fastforce
  qed (use body [OF _ ok] in blast)+
  then obtain rows where w': "w' = (begin_tx w)\<lparr>w_db := (w_db (begin_tx w))\<lparr>db_outbox := rows\<rparr>\<rparr>"
    and rows: "outbox_table_ok rows" "delivered rows \<subseteq> delivered (db_outbox (w_db (begin_tx w))) \<union> B"
    by blast
  have "world_ok outbox_db_ok w'"
    by (rule world_ok_scripts [OF ok]) (use w' rows in \<open>simp_all add: outbox_db_ok_def\<close>)
  with inv rows w' show "relay_inv A B base (snd (uow body w))"
    unfolding run snd_conv relay_inv_def honest_def by fastforce
qed

lemma relay_inv_stmt:
  assumes "\<And>rows ts lk a rows'. outbox_table_ok rows \<Longrightarrow> tz_aware ts \<Longrightarrow> F ts lk rows = Inr (a, rows') \<Longrightarrow>
      outbox_table_ok rows' \<and> delivered rows' \<subseteq> delivered rows \<union> B"
  shows "keeps (relay_inv A B base) (uow (bind db_now (\<lambda>ts. bind tx_locked (\<lambda>lk. stmt (on_outbox (F ts lk))))))"
proof (rule relay_inv_uow)
  fix w r w'
  assume run: "bind db_now (\<lambda>ts. bind tx_locked (\<lambda>lk. stmt (on_outbox (F ts lk)))) w = (r, w')"
    and ok: "world_ok outbox_db_ok w"
  then have rows: "outbox_table_ok (db_outbox (w_db w))" and ts: "tz_aware (w_db_now w n)" for n
    by (simp_all add: world_ok_def outbox_db_ok_def)
  show "\<exists>rows. w' = w\<lparr>w_db := (w_db w)\<lparr>db_outbox := rows\<rparr>\<rparr> \<and> outbox_table_ok rows \<and>
      delivered rows \<subseteq> delivered (db_outbox (w_db w)) \<union> B"
  proof (cases r)
    case (Inl e)
    with run have "w' = w" by (auto simp: res_simps)
    with rows show ?thesis by (intro exI [of _ "db_outbox (w_db w)"]) simp
  next
    case (Inr a)
    with run obtain rows' where "F (w_db_now w (w_txs w)) (w_locked w (w_txs w)) (db_outbox (w_db w)) = Inr (a, rows')"
      and "w' = w\<lparr>w_db := (w_db w)\<lparr>db_outbox := rows'\<rparr>\<rparr>" by (auto simp: res_simps)
    with assms [OF rows ts] show ?thesis by blast
  qed
qed

lemma bind_tx_locked_const: "bind tx_locked (\<lambda>_. m) = m"
  by (rule ext) (simp add: bind_def tx_locked_def gets_def)

lemmas relay_inv_stmt' = relay_inv_stmt [where F = "\<lambda>ts _. F ts" for F, unfolded bind_tx_locked_const]

text \<open>What the statements do to the delivered rows.\<close>

lemmas delivered_update = delivered_def in_set_update_where

lemma finalize_published_delivers:
  assumes "outbox_table_ok rows" and "tz_aware t" and "tz_aware ts"
    and "finalize_published i ow t ts rows = Inr (b, rows')"
  shows "outbox_table_ok rows' \<and> delivered rows' \<subseteq> delivered rows \<union> {i}"
proof -
  have "delivered rows' \<subseteq> delivered rows \<union> {i}"
    using assms(4) unfolding finalize_published_def
    by (auto dest!: update_flag_Inr simp: delivered_update set_published_def)
  with outbox_step_ok [OF out_finalize [OF assms(4,2,3)] assms(1)] show ?thesis by blast
qed

lemma schedule_retry_delivers_nothing:
  assumes "outbox_table_ok rows" and "tz_aware a" and "tz_aware ts" and "length c \<le> 255"
    and "outbox_schedule_retry i ow a c ts rows = Inr (b, rows')"
  shows "outbox_table_ok rows' \<and> delivered rows' \<subseteq> delivered rows \<union> {}"
proof -
  have "delivered rows' \<subseteq> delivered rows \<union> {}"
    using assms(5) unfolding outbox_schedule_retry_def
    by (auto dest!: update_flag_Inr simp: delivered_update set_outbox_retry_def)
  with outbox_step_ok [OF out_retry [OF assms(5,2,3,4)] assms(1)] show ?thesis by blast
qed

lemma quarantine_delivers_nothing:
  assumes "outbox_table_ok rows" and "tz_aware t" and "tz_aware ts" and "length c \<le> 255"
    and "quarantine i ow t c ts rows = Inr (b, rows')"
  shows "outbox_table_ok rows' \<and> delivered rows' \<subseteq> delivered rows \<union> {}"
proof -
  have "delivered rows' \<subseteq> delivered rows \<union> {}"
    using assms(5) unfolding quarantine_def
    by (auto dest!: update_flag_Inr simp: delivered_update set_quarantined_def)
  with outbox_step_ok [OF out_quarantine [OF assms(5,2,3,4)] assms(1)] show ?thesis by blast
qed

lemma claim_delivers_nothing:
  assumes "outbox_table_ok rows" and "tz_aware e" and "tz_aware ts"
    and "outbox_claim_batch lk ow t e n ts rows = Inr (ms, rows')"
  shows "outbox_table_ok rows' \<and> delivered rows' \<subseteq> delivered rows \<union> {}"
proof -
  have "delivered rows' \<subseteq> delivered rows \<union> {}"
    using assms(4)
    by (auto elim!: outbox_claim_batch_Inr simp: delivered_update outbox_grant_def)
  with outbox_step_ok [OF out_claim [OF assms(4,2,3)] assms(1)] show ?thesis by blast
qed

lemma finalize_message_keeps: "keeps (relay_inv A {o_id m} base) (finalize_message m ow)"
  unfolding finalize_message_def
  by (intro relay_inv_utc_now keeps_bind relay_inv_stmt' keeps_intros)
    (rule finalize_published_delivers; assumption)

lemma schedule_message_retry_keeps: "keeps (relay_inv A {} base) (schedule_message_retry cfg m ow e)"
  unfolding schedule_message_retry_def
  by (intro keeps_bind [of _ jitter_source] keeps_bind [of _ "liftr _"] relay_inv_utc_now
      keeps_bind [of _ "uow _"] relay_inv_stmt' keeps_intros)
    (rule schedule_retry_delivers_nothing; (assumption | simp))

lemma quarantine_message_keeps:
  "length c \<le> 255 \<Longrightarrow> keeps (relay_inv A {} base) (quarantine_message m ow c)"
  unfolding quarantine_message_def
  by (intro relay_inv_utc_now keeps_bind relay_inv_stmt' keeps_intros)
    (rule quarantine_delivers_nothing; assumption)

lemma publish_failed_keeps: "keeps (relay_inv A {} base) (publish_failed cfg ow m e)"
  unfolding publish_failed_def Let_def
  by (intro keeps_if quarantine_message_keeps schedule_message_retry_keeps keeps_intros) simp_all

subsection \<open>The publisher as a port\<close>

text \<open>What a program does to the environment, transactions included.\<close>

definition on_env :: "('e \<Rightarrow> bool) \<Rightarrow> 'e world \<Rightarrow> bool" where
  "on_env P w = P (w_env w)"

lemma on_env_primitives [keeps_intros]:
  "keeps (on_env P) utc_now" "keeps (on_env P) new_uuid" "keeps (on_env P) jitter_source"
  "keeps (on_env P) (relay_observe x y)" "keeps (on_env P) (stmt f)" "keeps (on_env P) db_now"
  "keeps (on_env P) tx_locked"
  by (auto simp: keeps_def on_env_def utc_now_def new_uuid_def jitter_source_def relay_observe_def
      emit_def modify_def stmt_def db_now_def tx_locked_def gets_def split: sum.splits prod.splits)

lemma on_env_uow [keeps_intros]:
  fixes body :: "('e, 'a) io"
  assumes "keeps (on_env P) body"
  shows "keeps (on_env P) (uow body)"
proof (rule keepsI)
  fix w :: "'e world"
  assume P: "on_env P w"
  obtain r w' where run: "uow body w = (r, w')" by fastforce
  have body: "on_env P w2" if "body (begin_tx w) = (res, w2)" for res w2
    using keepsD [OF assms _ that] P by (simp add: on_env_def)
  from run have "on_env P w'"
  proof (cases rule: uow_cases)
    case rolled_back
    then show ?thesis using body P by (auto simp: on_env_def)
  qed (use body in blast)+
  with run show "on_env P (snd (uow body w))" by simp
qed

definition stop_frame :: "(nat \<Rightarrow> bool) \<Rightarrow> nat \<Rightarrow> 'x relay_env_scheme \<Rightarrow> bool" where
  "stop_frame s n env \<longleftrightarrow> re_stop env = s \<and> n \<le> re_reads env"

lemma stop_is_set_frame [keeps_intros]: "keeps (on_env (stop_frame s n)) stop_is_set"
  by (simp add: keeps_def on_env_def stop_frame_def stop_is_set_def)

text \<open>
  The contract of a publisher: it touches neither the tables nor the scripts of the world nor the
  stop event, only adds to the trace, and a call that returns has handed the message over.
\<close>

locale broker_port =
  fixes publisher :: "outbox_message \<Rightarrow> ('x relay_env_scheme, unit) io"
  assumes port_scripts: "publisher m w = (r, w') \<Longrightarrow> scripts w' = scripts w"
    and port_db: "publisher m w = (r, w') \<Longrightarrow> w_db w' = w_db w"
    and port_trace: "publisher m w = (r, w') \<Longrightarrow> prefix (w_trace w) (w_trace w')"
    and port_accepted: "publisher m w = (Inr (), w') \<Longrightarrow>
      \<exists>es. w_trace w' = w_trace w @ es \<and> o_id m \<in> accepted es"
    and port_stop: "publisher m w = (r, w') \<Longrightarrow>
      re_stop (w_env w') = re_stop (w_env w) \<and> re_reads (w_env w') = re_reads (w_env w)"
begin

lemma publish_claimed_keeps: "keeps (relay_inv A {} base) (publish_claimed cfg publisher ow m)"
proof (rule keepsI)
  fix w :: "'x relay_env_scheme world"
  assume inv: "relay_inv A {} base w"
  obtain r w1 where pub: "publisher m w = (r, w1)" by fastforce
  have inv1: "relay_inv A {} base w1"
    using inv port_scripts [OF pub] port_db [OF pub] port_trace [OF pub] by (rule relay_inv_port)
  show "relay_inv A {} base (snd (publish_claimed cfg publisher ow m w))"
  proof (cases r)
    case (Inl e)
    have "keeps (relay_inv A {} base) (publish_failed cfg ow m e :: ('x relay_env_scheme, unit) io)"
      by (rule publish_failed_keeps)
    with inv1 Inl show ?thesis
      by (simp add: publish_claimed_def try_else_def pub keeps_def)
  next
    case (Inr u)
    with port_accepted pub obtain es where "w_trace w1 = w_trace w @ es" "o_id m \<in> accepted es" by fastforce
    with inv inv1 have "relay_inv A {o_id m} base w1" by (fastforce simp: relay_inv_def)
    then have "relay_inv A {o_id m} base (snd (finalize_message m ow w1))"
      by (rule keepsD [OF finalize_message_keeps _ prod.collapse [symmetric]])
    then show ?thesis
      unfolding publish_claimed_def try_else_def pub Inr by (auto intro: relay_inv_weaken)
  qed
qed

lemma process_key_stream_keeps: "keeps (relay_inv A {} base) (process_key_stream cfg publisher ow ms)"
  by (induction ms) (auto intro!: keeps_intros publish_claimed_keeps)

lemma gather_streams_keeps: "keeps (relay_inv A {} base) (gather_streams cfg publisher ow gs)"
  by (induction gs) (auto intro!: keeps_intros process_key_stream_keeps)

lemma relay_run_once_keeps: "keeps (relay_inv A {} base) (relay_run_once cfg publisher n)"
  unfolding relay_run_once_def Let_def
  by (intro keeps_if keeps_bind [of _ new_uuid] relay_inv_utc_now keeps_bind [of _ "uow _"]
      keeps_bind [of _ "relay_observe _ _"] keeps_bind [of _ "gather_streams _ _ _ _"]
      relay_inv_stmt gather_streams_keeps keeps_intros)
    (rule claim_delivers_nothing; (assumption | simp))

lemma relay_round_keeps:
  "keeps (relay_inv A {} base) (catch (relay_run_once cfg publisher n)
     (\<lambda>e. if is_exception e then return 0 else throw e))"
  by (intro keeps_intros relay_run_once_keeps)

lemma relay_loop_inv:
  assumes "relay_loop cfg publisher p n w = Some res" and "relay_inv A {} base w"
  shows "relay_inv A {} base (snd res)"
proof -
  have "publisher = publisher \<longrightarrow> relay_inv A {} base w \<longrightarrow> relay_inv A {} base (snd res)"
  proof (rule relay_loop.raw_induct [OF _ assms(1), where P = "\<lambda>cfg pub p n w res. pub = publisher \<longrightarrow>
        relay_inv A {} base w \<longrightarrow> relay_inv A {} base (snd res)"], intro impI, goal_cases)
    case (1 loop cfg pub p n w res)
    note IH = 1(1) and step = 1(2) [unfolded 1(3)] and inv = 1(4)
    obtain stop w1 where s1: "stop_is_set w = (Inr stop, w1)" by (simp add: stop_is_set_def)
    have inv1: "relay_inv A {} base w1" by (rule keepsD [OF relay_inv_primitives(5) inv s1])
    obtain r w2 where round: "catch (relay_run_once cfg publisher n)
        (\<lambda>e. if is_exception e then return 0 else throw e) w1 = (r, w2)" by fastforce
    have inv2: "relay_inv A {} base w2" by (rule keepsD [OF relay_round_keeps inv1 round])
    obtain stop' w3 where s3: "stop_is_set w2 = (Inr stop', w3)" by (simp add: stop_is_set_def)
    have inv3: "relay_inv A {} base w3" by (rule keepsD [OF relay_inv_primitives(5) inv2 s3])
    have inv4: "relay_inv A {} base (if k then w3\<lparr>w_trace := w_trace w3 @ [x]\<rparr> else w3)" for k x
      by (rule relay_inv_port [OF inv3]) (simp_all add: scripts_def)
    from step inv1 inv2 inv3 inv4 IH show ?case
      by (auto simp: s1 round s3 split: if_splits sum.splits)
  qed
  with assms(2) show ?thesis by blast
qed

text \<open>The loop ends once the stop event stays set.\<close>

lemma publisher_frame [keeps_intros]: "keeps (on_env (stop_frame s n)) (publisher m)"
proof (rule keepsI)
  fix w :: "'x relay_env_scheme world"
  obtain r w' where "publisher m w = (r, w')" by fastforce
  with port_stop [OF this] show "on_env (stop_frame s n) w \<Longrightarrow> on_env (stop_frame s n) (snd (publisher m w))"
    by (simp add: on_env_def stop_frame_def)
qed

lemma publish_claimed_frame [keeps_intros]:
  "keeps (on_env (stop_frame s n)) (publish_claimed cfg publisher ow m)"
  unfolding publish_claimed_def publish_failed_def quarantine_message_def schedule_message_retry_def
    finalize_message_def Let_def
  by (intro keeps_intros)

lemma process_key_stream_frame [keeps_intros]:
  "keeps (on_env (stop_frame s n)) (process_key_stream cfg publisher ow ms)"
  by (induction ms) (auto intro!: keeps_intros)

lemma gather_streams_frame [keeps_intros]:
  "keeps (on_env (stop_frame s n)) (gather_streams cfg publisher ow gs)"
  by (induction gs) (auto intro!: keeps_intros)

lemma relay_round_frame:
  "keeps (on_env (stop_frame s k)) (catch (relay_run_once cfg publisher n)
     (\<lambda>e. if is_exception e then return 0 else throw e))"
  unfolding relay_run_once_def Let_def by (intro keeps_intros)

lemma relay_loop_stops:
  assumes "\<And>k. N \<le> k \<Longrightarrow> re_stop (w_env w) k"
  shows "\<exists>r w'. relay_loop cfg publisher p n w = Some (r, w') \<and> r \<in> {Inr (), Inl CancelledError}"
  using assms
proof (induction "N - re_reads (w_env w)" arbitrary: w rule: less_induct)
  case less
  obtain stop w1 where s1: "stop_is_set w = (Inr stop, w1)" and stop: "stop = re_stop (w_env w) (re_reads (w_env w))"
    and w1: "re_reads (w_env w1) = Suc (re_reads (w_env w))" "re_stop (w_env w1) = re_stop (w_env w)"
    by (simp add: stop_is_set_def)
  obtain r w2 where round: "catch (relay_run_once cfg publisher n)
      (\<lambda>e. if is_exception e then return 0 else throw e) w1 = (r, w2)" by fastforce
  have "on_env (stop_frame (re_stop (w_env w)) (Suc (re_reads (w_env w)))) w2"
    by (rule keepsD [OF relay_round_frame _ round]) (simp add: on_env_def stop_frame_def w1)
  then have w2: "Suc (re_reads (w_env w)) \<le> re_reads (w_env w2)" "re_stop (w_env w2) = re_stop (w_env w)"
    by (simp_all add: on_env_def stop_frame_def)
  obtain stop' w3 where s3: "stop_is_set w2 = (Inr stop', w3)"
    and w3: "re_reads (w_env w3) = Suc (re_reads (w_env w2))" "re_stop (w_env w3) = re_stop (w_env w)"
    by (simp add: stop_is_set_def w2)
  have err: "e = CancelledError" if "r = Inl e" for e
    using round that by (auto simp: res_simps is_exception_def split: if_splits)
  have again: "\<exists>r w''. relay_loop cfg publisher p n w' = Some (r, w'') \<and> r \<in> {Inr (), Inl CancelledError}"
    if "\<not> stop" and "w_env w' = w_env w3" for w'
  proof (rule less.hyps)
    have "re_reads (w_env w) < N" using less.prems [of "re_reads (w_env w)"] that(1) stop by fastforce
    then show "N - re_reads (w_env w') < N - re_reads (w_env w)" using that(2) w2 w3 by simp
    show "\<And>k. N \<le> k \<Longrightarrow> re_stop (w_env w') k" using less.prems that(2) w3 by simp
  qed
  note again [of "w3\<lparr>w_trace := w_trace w3 @ [Slept (Finite p)]\<rparr>"] again [of w3]
  then show ?case
    by (subst relay_loop.simps) (auto simp: s1 round s3 err split: sum.splits)
qed

end

text \<open>The publisher of the service is such a port.\<close>

interpretation kafka: broker_port kafka_publish
proof
  fix m and w w' :: "broker_env world" and r
  assume run: "kafka_publish m w = (r, w')"
  show "scripts w' = scripts w" "w_db w' = w_db w" "prefix (w_trace w) (w_trace w')"
    "re_stop (w_env w') = re_stop (w_env w) \<and> re_reads (w_env w') = re_reads (w_env w)"
    using run by (auto simp: kafka_publish_def broker_publish_def prog_defs emit_def scripts_def
        prefix_def split: broker_reply.splits if_splits)
next
  fix m and w w' :: "broker_env world"
  assume "kafka_publish m w = (Inr (), w')"
  then show "\<exists>es. w_trace w' = w_trace w @ es \<and> o_id m \<in> accepted es"
    by (auto simp: kafka_publish_def broker_publish_def prog_defs emit_def accepted_def
        split: broker_reply.splits if_splits)
qed

subsection \<open>How a claimed message is settled\<close>

text \<open>
  The effect of one settlement whose transaction commits: the row of message \<open>i\<close>, in the table as
  the transaction finds it, changes by \<open>f\<close>, and one reading of the clock is used.
\<close>

definition settles :: "'e world \<Rightarrow> uuid \<Rightarrow> (outbox_message \<Rightarrow> outbox_message) \<Rightarrow> 'e world \<Rightarrow> bool" where
  "settles w i f w' \<longleftrightarrow>
     (let d = w_rival w (w_txs w) (w_db w) in
      w_db w' = d\<lparr>db_outbox := update_where (\<lambda>q. o_id q = i) f (db_outbox d)\<rparr>) \<and>
     scripts w' = scripts w \<and> w_ticks w' = Suc (w_ticks w) \<and> w_env w' = w_env w"

definition settleable :: "'e world \<Rightarrow> uuid \<Rightarrow> uuid \<Rightarrow> bool" where
  "settleable w i ow \<longleftrightarrow>
     w_fate w (w_txs w) = Commits \<and>
     (let rows = db_outbox (w_rival w (w_txs w) (w_db w)) in
      distinct (map o_id rows) \<and> (\<exists>r \<in> set rows. o_id r = i \<and> outbox_owned ow (o_created_at r) r))"

lemma update_owned:
  assumes "distinct (map o_id rows)" and "r \<in> set rows" "o_id r = i" "outbox_owned ow t' r"
  shows "update_flag (\<lambda>m. o_id m = i \<and> outbox_owned ow t m) f rows =
     Inr (True, update_where (\<lambda>q. o_id q = i) f rows)"
proof -
  have "outbox_owned ow t q" if "q \<in> set rows" "o_id q = i" for q
    using unique_key [OF assms(1) assms(2) that(1)] assms(3,4) that(2) by (simp add: outbox_owned_def)
  then have "update_where (\<lambda>m. o_id m = i \<and> outbox_owned ow t m) f rows = update_where (\<lambda>q. o_id q = i) f rows"
    "\<exists>m \<in> set rows. o_id m = i \<and> outbox_owned ow t m"
    using assms(2,3) by (auto simp: update_where_def)
  with outbox_settle_result [OF assms(1)] show ?thesis by simp
qed

lemma settle_run:
  assumes "settleable w i ow"
    and "\<And>ts rows. S ts rows = update_flag (\<lambda>m. o_id m = i \<and> outbox_owned ow t m) (F ts) rows"
  shows "uow (bind db_now (\<lambda>ts. stmt (on_outbox (S ts)))) w =
     (Inr True, (begin_tx w)\<lparr>w_db := (w_db (begin_tx w))\<lparr>db_outbox :=
        update_where (\<lambda>q. o_id q = i) (F (w_db_now w (Suc (w_txs w)))) (db_outbox (w_db (begin_tx w)))\<rparr>\<rparr>)"
proof (rule uow_commits)
  show "w_fate w (w_txs w) = Commits" using assms(1) by (simp add: settleable_def)
  let ?rows = "db_outbox (w_db (begin_tx w))"
  obtain r where "distinct (map o_id ?rows)" "r \<in> set ?rows" "o_id r = i" "outbox_owned ow (o_created_at r) r"
    using assms(1) by (auto simp: settleable_def Let_def)
  from update_owned [OF this, of t] assms(2)
  show "bind db_now (\<lambda>ts. stmt (on_outbox (S ts))) (begin_tx w) =
     (Inr True, (begin_tx w)\<lparr>w_db := (w_db (begin_tx w))\<lparr>db_outbox :=
        update_where (\<lambda>q. o_id q = i) (F (w_db_now w (Suc (w_txs w)))) (db_outbox (w_db (begin_tx w)))\<rparr>\<rparr>)"
    by (simp add: bind_def db_now_def gets_def stmt_def on_outbox_def)
qed

lemma settleable_tick [simp]: "settleable (w\<lparr>w_ticks := n\<rparr>) i ow = settleable w i ow"
  "settleable (w\<lparr>w_jitters := k\<rparr>) i ow = settleable w i ow"
  by (simp_all add: settleable_def)

lemmas settlement_simps = utc_now_def jitter_source_def bind_def relay_observe_def emit_def modify_def
  settles_def scripts_def begin_tx_def Let_def

lemma finalize_message_run:
  assumes "settleable w (o_id m) ow"
  shows "\<exists>w' ts. finalize_message m ow w = (Inr (), w') \<and>
     settles w (o_id m) (set_published (w_clock w (w_ticks w)) ts) w'"
  using settle_run [of "w\<lparr>w_ticks := Suc (w_ticks w)\<rparr>" "o_id m" ow
      "finalize_published (o_id m) ow (w_clock w (w_ticks w))" "w_clock w (w_ticks w)"
      "set_published (w_clock w (w_ticks w))"] assms
  by (simp add: finalize_message_def finalize_published_def settlement_simps) blast

lemma quarantine_message_run:
  assumes "settleable w (o_id m) ow"
  shows "\<exists>w' ts. quarantine_message m ow c w = (Inr (), w') \<and>
     settles w (o_id m) (set_quarantined (w_clock w (w_ticks w)) c ts) w'"
  using settle_run [of "w\<lparr>w_ticks := Suc (w_ticks w)\<rparr>" "o_id m" ow
      "quarantine (o_id m) ow (w_clock w (w_ticks w)) c" "w_clock w (w_ticks w)"
      "set_quarantined (w_clock w (w_ticks w)) c"] assms
  by (simp add: quarantine_message_def quarantine_def settlement_simps) blast

lemma schedule_message_retry_run:
  assumes "settleable w (o_id m) ow"
    and "delay_seconds (l_policy cfg) (o_attempts m + 1) (w_jitter w (w_jitters w)) = Inr delay"
  shows "\<exists>w' ts. schedule_message_retry cfg m ow e w = (Inr (), w') \<and>
     settles w (o_id m) (set_outbox_retry (plus_delta (w_clock w (w_ticks w)) (timedelta_seconds delay))
       (class_name e) ts) w'"
  using settle_run [of "w\<lparr>w_jitters := Suc (w_jitters w), w_ticks := Suc (w_ticks w)\<rparr>" "o_id m" ow
      "outbox_schedule_retry (o_id m) ow (plus_delta (w_clock w (w_ticks w)) (timedelta_seconds delay)) (class_name e)"
      "plus_delta (w_clock w (w_ticks w)) (timedelta_seconds delay)"
      "set_outbox_retry (plus_delta (w_clock w (w_ticks w)) (timedelta_seconds delay)) (class_name e)"] assms
  by (simp add: schedule_message_retry_def outbox_schedule_retry_def liftr_def settlement_simps) blast

subsection \<open>Properties\<close>

text \<open>
  C24. The relay marks as delivered only what was delivered: whatever the broker, the clock, the
  database and the other relays do, after any number of rounds until it is stopped the outbox table is
  sound, and every message it shows as \<open>SUCCESS\<close> was so before, or was accepted by the broker during
  the run, or belongs to the messages that the other relays may mark.
\<close>
theorem relay_marks_only_accepted_messages:
  assumes "world_ok outbox_db_ok w" and "honest A (w_rival w)"
    and "relay_run cfg kafka_publish p n w = Some (r, w')"
  shows "\<exists>es. w_trace w' = w_trace w @ es \<and> outbox_table_ok (db_outbox (w_db w')) \<and>
     delivered (db_outbox (w_db w')) \<subseteq> delivered (db_outbox (w_db w)) \<union> A \<union> accepted es"
proof -
  let ?A = "delivered (db_outbox (w_db w)) \<union> A"
  have inv: "relay_inv ?A {} (w_trace w) w"
    using assms(1,2) by (auto simp: relay_inv_def honest_def)
  have "relay_inv ?A {} (w_trace w) w'"
  proof (cases "p \<le> 0")
    case True
    with assms(3) inv show ?thesis by (simp add: relay_run_def)
  next
    case False
    with assms(3) have "relay_loop cfg kafka_publish p n w = Some (r, w')" by (simp add: relay_run_def)
    from kafka.relay_loop_inv [OF this inv] show ?thesis by simp
  qed
  then show ?thesis by (auto simp: relay_inv_def world_ok_def outbox_db_ok_def)
qed

text \<open>
  C25. The loop of the relay ends: if the stop event is set at some time and stays set, \<open>run\<close> returns,
  normally or with the cancellation of the task, whatever failures the rounds before have met; only a
  poll interval that is not positive is refused with \<open>ValueError\<close>.
\<close>
theorem relay_stops_when_told:
  assumes "\<And>k. N \<le> k \<Longrightarrow> re_stop (w_env w) k"
  shows "\<exists>r w'. relay_run cfg kafka_publish p n w = Some (r, w') \<and>
     r \<in> (if p \<le> 0 then {Inl ValueError} else {Inr (), Inl CancelledError})"
  using kafka.relay_loop_stops [OF assms] by (simp add: relay_run_def)

text \<open>
  What happens to a message whose publication failed while its claim is still held: a permanent
  failure quarantines it under the name of the error; a transient failure quarantines it as
  \<open>RetryExhaustedError\<close> when it was the last attempt, and otherwise returns it to the queue with one
  more attempt, available after a positive delay of at most \<open>max_seconds\<close>. Nothing else in the table
  changes.
\<close>
theorem failed_publication_contract:
  assumes held: "settleable w (o_id m) ow" and pol: "retry_policy_ok (l_policy cfg)"
  shows "(isinstance e PermanentPublishError \<longrightarrow>
      (\<exists>w' ts. publish_failed cfg ow m e w = (Inr (), w') \<and>
         settles w (o_id m) (set_quarantined (w_clock w (w_ticks w)) (class_name e) ts) w')) \<and>
    (\<not> isinstance e PermanentPublishError \<and> is_exception e \<and>
       max_attempts (l_policy cfg) \<le> o_attempts m + 1 \<longrightarrow>
      (\<exists>w' ts. publish_failed cfg ow m e w = (Inr (), w') \<and>
         settles w (o_id m) (set_quarantined (w_clock w (w_ticks w)) ''RetryExhaustedError'' ts) w')) \<and>
    (\<not> isinstance e PermanentPublishError \<and> is_exception e \<and>
       o_attempts m + 1 < max_attempts (l_policy cfg) \<and>
       exponent (l_policy cfg) ^ nat (max 0 (o_attempts m)) < float_limit \<longrightarrow>
      (\<exists>w' ts delay. publish_failed cfg ow m e w = (Inr (), w') \<and>
         0 < delay \<and> delay \<le> max_seconds (l_policy cfg) \<and>
         settles w (o_id m) (set_outbox_retry (plus_delta (w_clock w (w_ticks w)) (timedelta_seconds delay))
           (class_name e) ts) w'))"
proof (intro conjI impI)
  assume "isinstance e PermanentPublishError"
  then show "\<exists>w' ts. publish_failed cfg ow m e w = (Inr (), w') \<and>
      settles w (o_id m) (set_quarantined (w_clock w (w_ticks w)) (class_name e) ts) w'"
    using quarantine_message_run [OF held] by (simp add: publish_failed_def)
next
  assume "\<not> isinstance e PermanentPublishError \<and> is_exception e \<and>
      max_attempts (l_policy cfg) \<le> o_attempts m + 1"
  then show "\<exists>w' ts. publish_failed cfg ow m e w = (Inr (), w') \<and>
      settles w (o_id m) (set_quarantined (w_clock w (w_ticks w)) ''RetryExhaustedError'' ts) w'"
    using quarantine_message_run [OF held, of "''RetryExhaustedError''"]
    by (simp add: publish_failed_def class_name_def)
next
  assume asm: "\<not> isinstance e PermanentPublishError \<and> is_exception e \<and>
      o_attempts m + 1 < max_attempts (l_policy cfg) \<and>
      exponent (l_policy cfg) ^ nat (max 0 (o_attempts m)) < float_limit"
  then obtain delay where d: "delay_seconds (l_policy cfg) (o_attempts m + 1) (w_jitter w (w_jitters w)) = Inr delay"
    by (simp add: delay_seconds_result)
  from schedule_message_retry_run [OF held d, of e] obtain w' ts
    where "schedule_message_retry cfg m ow e w = (Inr (), w')"
      "settles w (o_id m) (set_outbox_retry (plus_delta (w_clock w (w_ticks w)) (timedelta_seconds delay))
         (class_name e) ts) w'" by blast
  with delay_seconds_pos [OF pol d] delay_seconds_le_max [OF d] asm
  show "\<exists>w' ts delay. publish_failed cfg ow m e w = (Inr (), w') \<and>
         0 < delay \<and> delay \<le> max_seconds (l_policy cfg) \<and>
         settles w (o_id m) (set_outbox_retry (plus_delta (w_clock w (w_ticks w)) (timedelta_seconds delay))
           (class_name e) ts) w'"
    by (intro exI [of _ w'] exI [of _ ts] exI [of _ delay]) (simp add: publish_failed_def)
qed

definition grouped_by_key :: "outbox_message list \<Rightarrow> (string \<times> outbox_message list) list" where
  "grouped_by_key messages =
     map (\<lambda>k. (k, filter (\<lambda>m. o_key m = k) messages)) (rev (remdups (rev (map o_key messages))))"

lemma add_to_key_map:
  assumes "distinct ks"
  shows "add_to_key m (map (\<lambda>k. (k, f k)) ks) =
    (if o_key m \<in> set ks then map (\<lambda>k. (k, if k = o_key m then f k @ [m] else f k)) ks
     else map (\<lambda>k. (k, f k)) ks @ [(o_key m, [m])])"
  using assms by (induction ks) (auto intro!: map_cong)

lemma add_to_key_grouped: "add_to_key m (grouped_by_key ms) = grouped_by_key (ms @ [m])"
proof -
  have eq: "(\<lambda>k. (k, if k = o_key m then filter (\<lambda>q. o_key q = k) ms @ [m] else filter (\<lambda>q. o_key q = k) ms)) =
      (\<lambda>k. (k, filter (\<lambda>q. o_key q = k) (ms @ [m])))"
    by auto
  have new: "filter (\<lambda>q. o_key q = o_key m) ms = []" if "o_key m \<notin> o_key ` set ms"
    using that by (simp add: filter_empty_conv) (metis image_eqI)
  have same: "map (\<lambda>k. (k, filter (\<lambda>q. o_key q = k) (ms @ [m]))) ks = map (\<lambda>k. (k, filter (\<lambda>q. o_key q = k) ms)) ks"
    if "o_key m \<notin> set ks" for ks
    using that by (auto intro!: map_cong)
  show ?thesis
    using new same [of "rev (remdups (rev (map o_key ms)))"]
    by (auto simp: grouped_by_key_def add_to_key_map eq)
qed

text \<open>
  Grouping a batch by key with the insertion-ordered dictionary of \<open>run_once\<close> is the same as the
  reference grouping: one stream per key in the order of the first message of each key, and in the
  stream exactly the messages of that key in the order of the batch.
\<close>
theorem by_key_groups_in_order: "by_key messages = grouped_by_key messages"
proof (induction messages rule: rev_induct)
  case Nil
  show ?case by (simp add: by_key_def grouped_by_key_def)
next
  case (snoc m ms)
  then show ?case using add_to_key_grouped [of m ms] by (simp add: by_key_def)
qed

subsection \<open>Witnesses\<close>

definition sample_relay :: relay_config where
  "sample_relay = \<lparr>l_claim_lease_seconds = 30, l_policy = default_retry_policy\<rparr>"

text \<open>The broker confirms everything; the stop event is set from the third reading on.\<close>

definition sample_broker :: broker_env where
  "sample_broker = \<lparr>re_stop = (\<lambda>k. 2 \<le> k), re_reads = 0, br_replies = (\<lambda>_. BrokerConfirms), br_calls = 0\<rparr>"

definition relay_world :: "outbox_table \<Rightarrow> broker_env world" where
  "relay_world rows = quiet_world (empty_db\<lparr>db_outbox := rows\<rparr>) sample_broker"

lemma default_policy_ok: "retry_policy_ok default_retry_policy"
  by (simp add: retry_policy_ok_def OutboxRetryPolicy_def default_retry_policy_def)

lemma relay_world_ok: "outbox_table_ok rows \<Longrightarrow> world_ok outbox_db_ok (relay_world rows)"
  unfolding relay_world_def by (rule quiet_world_ok) (simp add: outbox_db_ok_def)

theorem relay_stops_when_told_witness:
  "\<exists>r w'. relay_run sample_relay kafka_publish 2 50 (relay_world [sample_message]) = Some (r, w') \<and>
     r \<in> {Inr (), Inl CancelledError}"
  using relay_stops_when_told [of 2 "relay_world [sample_message]" sample_relay 2 50]
  by (simp add: relay_world_def quiet_world_def sample_broker_def)

theorem relay_marks_only_accepted_messages_witness:
  "\<exists>r w' es. relay_run sample_relay kafka_publish 2 50 (relay_world [sample_message]) = Some (r, w') \<and>
     w_trace w' = es \<and> delivered (db_outbox (w_db w')) \<subseteq> accepted es"
proof -
  let ?w = "relay_world [sample_message]"
  obtain r w' where run: "relay_run sample_relay kafka_publish 2 50 ?w = Some (r, w')"
    using kafka.relay_loop_stops [of 2 ?w sample_relay 2 50]
    by (auto simp: relay_run_def relay_world_def quiet_world_def sample_broker_def)
  have "honest {} (w_rival ?w)" by (simp add: honest_def relay_world_def quiet_world_def)
  from relay_marks_only_accepted_messages [OF relay_world_ok [OF sample_outbox_ok] this run] run
  show ?thesis
    by (auto simp: relay_world_def quiet_world_def delivered_def sample_message_def outbox_row_def)
qed

theorem failed_publication_contract_witness:
  "\<exists>w' ts delay. publish_failed sample_relay 7 sample_taken TransientPublishError
       (relay_world [sample_taken]) = (Inr (), w') \<and> 0 < delay \<and> delay \<le> 60 \<and>
     db_outbox (w_db w') = [set_outbox_retry (plus_delta (Datetime 1000000 True) (timedelta_seconds delay))
       ''TransientPublishError'' ts sample_taken]"
proof -
  let ?w = "relay_world [sample_taken]"
  have sel: "o_attempts sample_taken = 0" by (simp add: sample_message_defs outbox_grant_def)
  have held: "settleable ?w (o_id sample_taken) 7"
    by (simp add: settleable_def relay_world_def quiet_world_def outbox_owned_def sample_taken_def outbox_grant_def)
  have "\<not> isinstance TransientPublishError PermanentPublishError" "is_exception TransientPublishError"
    by (simp_all add: isinstance_def is_exception_def numeral_3_eq_3)
  then obtain w' ts delay where run: "publish_failed sample_relay 7 sample_taken TransientPublishError ?w = (Inr (), w')"
    and delay: "0 < delay" "delay \<le> 60"
    and set: "settles ?w (o_id sample_taken) (set_outbox_retry (plus_delta (w_clock ?w (w_ticks ?w))
        (timedelta_seconds delay)) ''TransientPublishError'' ts) w'"
    using failed_publication_contract [OF held, of sample_relay TransientPublishError] default_policy_ok
    by (auto simp: sample_relay_def default_retry_policy_def float_limit_def class_name_def sel)
  from set have "db_outbox (w_db w') = [set_outbox_retry (plus_delta (Datetime 1000000 True)
      (timedelta_seconds delay)) ''TransientPublishError'' ts sample_taken]"
    by (simp add: settles_def relay_world_def quiet_world_def Let_def)
  with run delay show ?thesis by blast
qed

end
