(* ===== verification/Relay_Liveness.thy ===== *)
theory Relay_Liveness
  imports Relay
begin

section \<open>Every message is settled\<close>

text \<open>
  Progress of the relay. In a healthy world, without rivals and database failures, where the relay
  is not stopped or cancelled and reads its clock no more often than the longest back-off, every
  message of the outbox reaches \<open>SUCCESS\<close> or \<open>QUARANTINED\<close> after a number of rounds that is known in
  advance, whatever the broker answers. The measure is the number of attempts the messages have left.
\<close>

subsection \<open>Healthy worlds\<close>

definition longest_delay :: "retry_policy \<Rightarrow> timedelta" where
  "longest_delay p = \<lceil>max_seconds p * 1000000\<rceil>"

definition healthy :: "retry_policy \<Rightarrow> broker_env world \<Rightarrow> bool" where
  "healthy p w \<longleftrightarrow>
     w_rival w = (\<lambda>_ d. d) \<and> w_fate w = (\<lambda>_. Commits) \<and> w_locked w = (\<lambda>_ _. False) \<and>
     (\<forall>n. tz_aware (w_clock w n)) \<and> (\<forall>n. tz_aware (w_db_now w n)) \<and>
     (\<forall>n. plus_delta (w_clock w n) (longest_delay p) \<le> w_clock w (Suc n)) \<and>
     re_stop (w_env w) = (\<lambda>_. False) \<and>
     (\<forall>n b. br_replies (w_env w) n \<noteq> BrokerRaises BrokerCancelled b)"

text \<open>A usable relay: a lease of at least a microsecond and delays that stay in the range of a float.\<close>

definition usable :: "relay_config \<Rightarrow> bool" where
  "usable cfg \<longleftrightarrow>
     retry_policy_ok (l_policy cfg) \<and> 1 / 1000000 \<le> l_claim_lease_seconds cfg \<and>
     exponent (l_policy cfg) ^ nat (max_attempts (l_policy cfg)) < float_limit"

text \<open>The clock reading that comes next, attempts left, and the messages that may be claimed.\<close>

definition next_reading :: "'e world \<Rightarrow> datetime" where
  "next_reading w = w_clock w (w_ticks w)"

definition attempts_left :: "retry_policy \<Rightarrow> outbox_message \<Rightarrow> nat" where
  "attempts_left p r = (if unfinished r then nat (max 1 (max_attempts p - o_attempts r)) else 0)"

definition ready :: "datetime \<Rightarrow> outbox_table \<Rightarrow> bool" where
  "ready t rows \<longleftrightarrow> (\<forall>r \<in> set rows. unfinished r \<longrightarrow> outbox_eligible t r)"

text \<open>A row after its settlement, as seen at time \<open>t\<close>.\<close>

definition advanced :: "retry_policy \<Rightarrow> datetime \<Rightarrow> outbox_message \<Rightarrow> outbox_message \<Rightarrow> bool" where
  "advanced p t r r' \<longleftrightarrow>
     outbox_position r' = outbox_position r \<and>
     (\<not> unfinished r' \<or>
      o_status r' = O_PENDING \<and> o_attempts r' = o_attempts r + 1 \<and> o_attempts r' < max_attempts p \<and>
      o_available_at r' \<le> t)"

lemma healthy_scripts:
  "healthy p w \<Longrightarrow> scripts w' = scripts w \<Longrightarrow> re_stop (w_env w') = re_stop (w_env w) \<Longrightarrow>
   br_replies (w_env w') = br_replies (w_env w) \<Longrightarrow> healthy p w'"
  by (simp add: healthy_def scripts_def)

lemma longest_delay_nonneg: "retry_policy_ok p \<Longrightarrow> 0 \<le> longest_delay p"
  using retry_policy_okD(7) [of p] by (simp add: longest_delay_def)

lemma healthy_clock_step:
  assumes "healthy p w" and "retry_policy_ok p"
  shows "w_clock w n \<le> w_clock w (Suc n)"
proof -
  have "tz_aware (w_clock w k)" for k using assms(1) by (simp add: healthy_def)
  moreover have "plus_delta (w_clock w n) (longest_delay p) \<le> w_clock w (Suc n)"
    using assms(1) by (simp add: healthy_def)
  ultimately show ?thesis
    using longest_delay_nonneg [OF assms(2)] by (simp add: datetime_le_iff)
qed

lemma healthy_clock_mono:
  assumes "healthy p w" and "retry_policy_ok p" and "m \<le> n"
  shows "w_clock w m \<le> w_clock w n"
  using assms(3) by (rule lift_Suc_mono_le [of "w_clock w", rotated]) (rule healthy_clock_step [OF assms(1,2)])

lemma retry_time_in_reach:
  assumes "healthy p w" and "delay_seconds p a j = Inr delay"
  shows "plus_delta (w_clock w n) (timedelta_seconds delay) \<le> w_clock w (Suc n)"
proof -
  have "delay * 1000000 \<le> of_int (longest_delay p)"
    using delay_seconds_le_max [OF assms(2)] le_of_int_ceiling [of "max_seconds p * 1000000"]
    unfolding longest_delay_def by linarith
  then have "timedelta_seconds delay \<le> longest_delay p"
    unfolding timedelta_seconds_def by (rule round_half_even_le_int)
  moreover have "plus_delta (w_clock w n) (longest_delay p) \<le> w_clock w (Suc n)"
    "tz_aware (w_clock w k)" for k
    using assms(1) by (simp_all add: healthy_def)
  ultimately show ?thesis by (simp add: datetime_le_iff)
qed

lemma eligible_mono: "outbox_eligible t r \<Longrightarrow> t \<le> t' \<Longrightarrow> outbox_eligible t' r"
  by (auto simp: outbox_eligible_def split: option.splits)

lemma advanced_mono: "advanced p t r r' \<Longrightarrow> t \<le> t' \<Longrightarrow> advanced p t' r r'"
  by (auto simp: advanced_def)

lemma advanced_decreases:
  "advanced p t r r' \<Longrightarrow> unfinished r \<Longrightarrow> attempts_left p r' < attempts_left p r"
  by (auto simp: advanced_def attempts_left_def)

subsection \<open>One message\<close>

lemma kafka_publish_run:
  assumes "healthy p w" and "kafka_publish m w = (r, w1)"
  shows "healthy p w1" and "w_db w1 = w_db w" and "w_ticks w1 = w_ticks w" and "w_txs w1 = w_txs w"
    and "w_jitters w1 = w_jitters w" and "\<And>e. r = Inl e \<Longrightarrow> is_exception e"
proof -
  show "healthy p w1"
    using assms(1) by (rule healthy_scripts)
      (use assms(2) in \<open>auto simp: kafka_publish_def broker_publish_def prog_defs emit_def scripts_def
        split: broker_reply.splits if_splits\<close>)
  have "br_replies (w_env w) (br_calls (w_env w)) \<noteq> BrokerRaises BrokerCancelled b" for b
    using assms(1) by (simp add: healthy_def)
  then show "is_exception e" if "r = Inl e" for e
    using assms(2) that
    by (auto simp: kafka_publish_def broker_publish_def prog_defs emit_def publish_error_def
        is_exception_def split: broker_reply.splits if_splits broker_error.splits)
  show "w_db w1 = w_db w" "w_ticks w1 = w_ticks w" "w_txs w1 = w_txs w" "w_jitters w1 = w_jitters w"
    using assms(2) by (auto simp: kafka_publish_def broker_publish_def prog_defs emit_def
        split: broker_reply.splits if_splits)
qed

lemma power_in_range:
  assumes "usable cfg" and "o_attempts m + 1 < max_attempts (l_policy cfg)"
  shows "exponent (l_policy cfg) ^ nat (max 0 (o_attempts m)) < float_limit"
proof -
  have "exponent (l_policy cfg) ^ nat (max 0 (o_attempts m)) \<le>
      exponent (l_policy cfg) ^ nat (max_attempts (l_policy cfg))"
    by (rule power_increasing) (use assms retry_policy_okD(3) in \<open>auto simp: usable_def\<close>)
  with assms(1) show ?thesis by (simp add: usable_def)
qed

text \<open>Whatever the broker answers, the message is settled and the world stays healthy.\<close>

lemma failed_settles:
  assumes "healthy (l_policy cfg) w" and "usable cfg" and "settleable w (o_id m) ow" and "is_exception e"
  shows "\<exists>w' f. publish_failed cfg ow m e w = (Inr (), w') \<and> settles w (o_id m) f w' \<and>
     (\<forall>r. o_attempts r = o_attempts m \<longrightarrow> advanced (l_policy cfg) (next_reading w') r (f r))"
proof -
  let ?p = "l_policy cfg"
  have quar: "advanced ?p t r (set_quarantined t' c ts r)" for t r t' c ts
    by (simp add: advanced_def unfinished_def) (simp add: set_quarantined_def)
  show ?thesis
  proof (cases "isinstance e PermanentPublishError \<or> max_attempts ?p \<le> o_attempts m + 1")
    case True
    have "\<exists>c. publish_failed cfg ow m e = (quarantine_message m ow c :: (broker_env, unit) io)"
      using True assms(4) by (cases "isinstance e PermanentPublishError") (auto simp: publish_failed_def Let_def)
    then obtain c where "publish_failed cfg ow m e = (quarantine_message m ow c :: (broker_env, unit) io)" ..
    with quarantine_message_run [OF assms(3), of c] quar show ?thesis by metis
  next
    case False
    then have run: "publish_failed cfg ow m e = (schedule_message_retry cfg m ow e :: (broker_env, unit) io)"
      and last: "o_attempts m + 1 < max_attempts ?p"
      using assms(4) by (auto simp: publish_failed_def Let_def)
    obtain delay where d: "delay_seconds ?p (o_attempts m + 1) (w_jitter w (w_jitters w)) = Inr delay"
      using power_in_range [OF assms(2) last] by (simp add: delay_seconds_result)
    obtain w' ts where w': "schedule_message_retry cfg m ow e w = (Inr (), w')"
      and set: "settles w (o_id m) (set_outbox_retry (plus_delta (w_clock w (w_ticks w))
          (timedelta_seconds delay)) (class_name e) ts) w'"
      using schedule_message_retry_run [OF assms(3) d] by blast
    have "next_reading w' = w_clock w (Suc (w_ticks w))"
      using set by (simp add: next_reading_def settles_def scripts_def)
    with retry_time_in_reach [OF assms(1) d] last
    have "advanced ?p (next_reading w') r (set_outbox_retry (plus_delta (w_clock w (w_ticks w))
        (timedelta_seconds delay)) (class_name e) ts r)" if "o_attempts r = o_attempts m" for r
      using that by (simp add: advanced_def) (simp add: set_outbox_retry_def)
    with run w' set show ?thesis by metis
  qed
qed

lemma publish_claimed_settles:
  assumes healthy: "healthy (l_policy cfg) w" and use: "usable cfg" and held: "settleable w (o_id m) ow"
  shows "\<exists>w' f. publish_claimed cfg kafka_publish ow m w = (Inr (), w') \<and>
     healthy (l_policy cfg) w' \<and> w_ticks w \<le> w_ticks w' \<and> w_clock w' = w_clock w \<and>
     w_db w' = (w_db w)\<lparr>db_outbox := update_where (\<lambda>q. o_id q = o_id m) f (db_outbox (w_db w))\<rparr> \<and>
     (\<forall>r. o_attempts r = o_attempts m \<longrightarrow> advanced (l_policy cfg) (next_reading w') r (f r))"
proof -
  obtain r w1 where pub: "kafka_publish m w = (r, w1)" by fastforce
  note w1 = kafka_publish_run [OF healthy pub]
  have held1: "settleable w1 (o_id m) ow"
    using held healthy w1(1) by (simp add: settleable_def healthy_def w1)
  have "\<exists>w' f. publish_claimed cfg kafka_publish ow m w = (Inr (), w') \<and> settles w1 (o_id m) f w' \<and>
     (\<forall>r. o_attempts r = o_attempts m \<longrightarrow> advanced (l_policy cfg) (next_reading w') r (f r))"
  proof (cases r)
    case (Inl e)
    from failed_settles [OF w1(1) use held1 w1(6) [OF Inl]] show ?thesis
      by (simp add: publish_claimed_def try_else_def pub Inl)
  next
    case (Inr u)
    have "advanced (l_policy cfg) t r (set_published t' ts r)" for t r t' ts
      by (simp add: advanced_def unfinished_def) (simp add: set_published_def)
    with finalize_message_run [OF held1] show ?thesis
      by (simp add: publish_claimed_def try_else_def pub Inr) metis
  qed
  then obtain w' f where run: "publish_claimed cfg kafka_publish ow m w = (Inr (), w')"
    and set: "settles w1 (o_id m) f w'"
    and adv: "\<forall>r. o_attempts r = o_attempts m \<longrightarrow> advanced (l_policy cfg) (next_reading w') r (f r)" by blast
  have "healthy (l_policy cfg) w'"
    using w1(1) by (rule healthy_scripts) (use set in \<open>simp_all add: settles_def\<close>)
  moreover have "w_db w' = (w_db w)\<lparr>db_outbox := update_where (\<lambda>q. o_id q = o_id m) f (db_outbox (w_db w))\<rparr>"
    using set w1(1,2) by (simp add: settles_def healthy_def Let_def)
  moreover have "w_ticks w \<le> w_ticks w'" "w_clock w' = w_clock w"
    using set w1(3) kafka.port_scripts [OF pub] by (auto simp: settles_def scripts_def)
  ultimately show ?thesis using run adv by blast
qed

subsection \<open>A batch\<close>

lemma add_to_key_new: "o_key m \<notin> fst ` set acc \<Longrightarrow> add_to_key m acc = acc @ [(o_key m, [m])]"
  by (induction m acc rule: add_to_key.induct) auto

lemma by_key_distinct:
  assumes "distinct (map o_key ms)"
  shows "by_key ms = map (\<lambda>m. (o_key m, [m])) ms"
proof -
  have "fold add_to_key ms acc = acc @ map (\<lambda>m. (o_key m, [m])) ms"
    if "distinct (map o_key ms)" "fst ` set acc \<inter> o_key ` set ms = {}" for acc
    using that
  proof (induction ms arbitrary: acc)
    case (Cons m ms)
    then have "fst ` set (acc @ [(o_key m, [m])]) \<inter> o_key ` set ms = {}" "o_key m \<notin> fst ` set acc" by auto
    with Cons show ?case by (simp add: add_to_key_new)
  qed simp
  with assms show ?thesis by (simp add: by_key_def)
qed

definition held_by :: "uuid \<Rightarrow> outbox_table \<Rightarrow> outbox_message \<Rightarrow> bool" where
  "held_by ow rows m \<longleftrightarrow>
     (\<exists>r \<in> set rows. o_id r = o_id m \<and> o_attempts r = o_attempts m \<and> outbox_owned ow (o_created_at r) r)"

definition batch_advanced ::
    "retry_policy \<Rightarrow> datetime \<Rightarrow> uuid set \<Rightarrow> outbox_table \<Rightarrow> outbox_table \<Rightarrow> bool" where
  "batch_advanced p t ids rows rows' =
     list_all2 (\<lambda>r r'. if o_id r \<in> ids then advanced p t r r' else r' = r) rows rows'"

lemma batch_advanced_trans:
  assumes "batch_advanced p t {i} rows rows1" and "batch_advanced p t' ids rows1 rows2"
    and "i \<notin> ids" and "t \<le> t'"
  shows "batch_advanced p t' (insert i ids) rows rows2"
  unfolding batch_advanced_def list_all2_conv_all_nth
proof (intro conjI allI impI)
  show "length rows = length rows2"
    using assms(1,2) by (simp add: batch_advanced_def list_all2_lengthD)
  fix k assume k: "k < length rows"
  have 1: "if o_id (rows ! k) = i then advanced p t (rows ! k) (rows1 ! k) else rows1 ! k = rows ! k"
    using list_all2_nthD [OF assms(1) [unfolded batch_advanced_def] k] by simp
  have 2: "if o_id (rows1 ! k) \<in> ids then advanced p t' (rows1 ! k) (rows2 ! k) else rows2 ! k = rows1 ! k"
    using list_all2_nthD [OF assms(2) [unfolded batch_advanced_def], of k] k
      list_all2_lengthD [OF assms(1) [unfolded batch_advanced_def]] by simp
  have "o_id (rows1 ! k) = o_id (rows ! k)"
    using 1 by (auto simp: advanced_def outbox_position_def split: if_splits)
  with 1 2 assms(3,4) show "if o_id (rows ! k) \<in> insert i ids then advanced p t' (rows ! k) (rows2 ! k)
      else rows2 ! k = rows ! k"
    by (auto intro: advanced_mono split: if_splits)
qed

lemma batch_advanced_ids: "batch_advanced p t ids rows rows' \<Longrightarrow> map o_id rows' = map o_id rows"
  unfolding batch_advanced_def
  by (induction rule: list_all2_induct) (auto simp: advanced_def outbox_position_def split: if_splits)

lemma held_settleable:
  "healthy p w \<Longrightarrow> distinct (map o_id (db_outbox (w_db w))) \<Longrightarrow> held_by ow (db_outbox (w_db w)) m \<Longrightarrow>
   settleable w (o_id m) ow"
  by (auto simp: settleable_def healthy_def held_by_def)

lemma stop_is_set_healthy:
  assumes "healthy p w"
  obtains w1 where "stop_is_set w = (Inr False, w1)" and "healthy p w1" and "w_db w1 = w_db w"
    and "w_clock w1 = w_clock w" and "w_ticks w1 = w_ticks w"
proof
  let ?w1 = "w\<lparr>w_env := (w_env w)\<lparr>re_reads := Suc (re_reads (w_env w))\<rparr>\<rparr>"
  show "stop_is_set w = (Inr False, ?w1)" using assms by (simp add: stop_is_set_def healthy_def)
  show "healthy p ?w1" using assms by (rule healthy_scripts) (simp_all add: scripts_def)
qed simp_all

lemma gather_settles:
  assumes "healthy (l_policy cfg) w" and "usable cfg"
    and "distinct (map o_id ms)" and "distinct (map o_id (db_outbox (w_db w)))"
    and "\<forall>m \<in> set ms. held_by ow (db_outbox (w_db w)) m"
  shows "\<exists>w'. gather_streams cfg kafka_publish ow (map (\<lambda>m. (o_key m, [m])) ms) w = (Inr (), w') \<and>
     healthy (l_policy cfg) w' \<and> next_reading w \<le> next_reading w' \<and>
     (\<exists>rows'. w_db w' = (w_db w)\<lparr>db_outbox := rows'\<rparr> \<and>
        batch_advanced (l_policy cfg) (next_reading w') (o_id ` set ms) (db_outbox (w_db w)) rows')"
  using assms
proof (induction ms arbitrary: w)
  case Nil
  then show ?case
    by (auto simp: return_def batch_advanced_def list_all2_same intro!: exI [of _ "db_outbox (w_db w)"])
next
  case (Cons m ms)
  let ?p = "l_policy cfg" and ?rows = "db_outbox (w_db w)"
  have pol: "retry_policy_ok ?p" using Cons.prems(2) by (simp add: usable_def)
  obtain w1 where s1: "stop_is_set w = (Inr False, w1)" and h1: "healthy ?p w1" and db1: "w_db w1 = w_db w"
    and t1: "w_clock w1 = w_clock w" "w_ticks w1 = w_ticks w"
    by (rule stop_is_set_healthy [OF Cons.prems(1)])
  have "settleable w1 (o_id m) ow"
    by (rule held_settleable [OF h1]) (use Cons.prems in \<open>simp_all add: db1\<close>)
  from publish_claimed_settles [OF h1 Cons.prems(2) this] obtain w2 f
    where run2: "publish_claimed cfg kafka_publish ow m w1 = (Inr (), w2)" and h2: "healthy ?p w2"
      and t2: "w_ticks w1 \<le> w_ticks w2" "w_clock w2 = w_clock w1"
      and db2: "w_db w2 = (w_db w)\<lparr>db_outbox := update_where (\<lambda>q. o_id q = o_id m) f ?rows\<rparr>"
      and adv: "\<forall>r. o_attempts r = o_attempts m \<longrightarrow> advanced ?p (next_reading w2) r (f r)"
    unfolding db1 by blast
  let ?rows2 = "update_where (\<lambda>q. o_id q = o_id m) f ?rows"
  have t12: "next_reading w \<le> next_reading w2"
    using healthy_clock_mono [OF h2 pol] t1 t2 by (simp add: next_reading_def)
  obtain r where r: "r \<in> set ?rows" "o_id r = o_id m" "o_attempts r = o_attempts m"
    using Cons.prems(5) by (auto simp: held_by_def)
  have one: "q = r" if "q \<in> set ?rows" "o_id q = o_id m" for q
    using unique_key [OF Cons.prems(4) that(1) r(1)] that(2) r(2) by simp
  have step: "batch_advanced ?p (next_reading w2) {o_id m} ?rows ?rows2"
    using adv one r(3) by (auto simp: batch_advanced_def update_where_def list_all2_map2 list_all2_same)
  have ids: "map o_id ?rows2 = map o_id ?rows"
    by (rule update_where_map_eq) (use adv one r(3) in \<open>auto simp: advanced_def outbox_position_def\<close>)
  have "\<forall>m' \<in> set ms. held_by ow ?rows2 m'"
  proof
    fix m' assume m': "m' \<in> set ms"
    then have "held_by ow ?rows m'" "o_id m' \<noteq> o_id m" using Cons.prems(3,5) by (auto simp: image_iff)
    then obtain r' where "r' \<in> set ?rows" "o_id r' = o_id m'" "o_attempts r' = o_attempts m'"
      "outbox_owned ow (o_created_at r') r'" by (auto simp: held_by_def)
    moreover from this \<open>o_id m' \<noteq> o_id m\<close> have "r' \<in> set ?rows2"
      unfolding in_set_update_where by (intro bexI [of _ r']) simp_all
    ultimately show "held_by ow ?rows2 m'" unfolding held_by_def by blast
  qed
  with Cons.IH [OF h2 Cons.prems(2)] Cons.prems(3,4) ids db2 obtain w3 rows3
    where run3: "gather_streams cfg kafka_publish ow (map (\<lambda>m. (o_key m, [m])) ms) w2 = (Inr (), w3)"
      and h3: "healthy ?p w3" and t3: "next_reading w2 \<le> next_reading w3"
      and db3: "w_db w3 = (w_db w)\<lparr>db_outbox := rows3\<rparr>"
      and rest: "batch_advanced ?p (next_reading w3) (o_id ` set ms) ?rows2 rows3"
    by auto
  have "o_id m \<notin> o_id ` set ms" using Cons.prems(3) by simp
  from batch_advanced_trans [OF step rest this t3]
  have "batch_advanced ?p (next_reading w3) (o_id ` set (m # ms)) ?rows rows3" by simp
  moreover have "gather_streams cfg kafka_publish ow (map (\<lambda>m. (o_key m, [m])) (m # ms)) w = (Inr (), w3)"
    using run2 run3 s1 by (simp add: bind_def catch_def return_def)
  ultimately show ?case using h3 t12 t3 db3 by (meson order_trans)
qed

subsection \<open>A round\<close>

definition total_left :: "retry_policy \<Rightarrow> outbox_table \<Rightarrow> nat" where
  "total_left p rows = sum_list (map (attempts_left p) rows)"

lemma sum_list_decreases:
  fixes g :: "'a \<Rightarrow> nat"
  assumes "list_all2 P xs ys" and "\<And>x y. x \<in> set xs \<Longrightarrow> P x y \<Longrightarrow> g y \<le> g x"
    and "x \<in> set xs" and "\<And>y. P x y \<Longrightarrow> g y < g x"
  shows "sum_list (map g ys) < sum_list (map g xs)"
proof -
  have le: "sum_list (map g bs) \<le> sum_list (map g as)"
    if "list_all2 P as bs" "set as \<subseteq> set xs" for as bs
    using that by (induction rule: list_all2_induct) (auto intro: add_mono assms(2))
  have "sum_list (map g bs) < sum_list (map g as)"
    if "list_all2 P as bs" "set as \<subseteq> set xs" "x \<in> set as" for as bs
    using that
  proof (induction rule: list_all2_induct)
    case (Cons a as b bs)
    show ?case
    proof (cases "a = x")
      case True
      then show ?thesis using assms(4) Cons.hyps le [OF Cons.hyps(2)] Cons.prems by (simp add: add_less_le_mono)
    next
      case False
      then have "g b \<le> g a" "sum_list (map g bs) < sum_list (map g as)"
        using Cons.prems Cons.IH assms(2) Cons.hyps by auto
      then show ?thesis by simp
    qed
  qed simp
  with assms(1,3) show ?thesis by blast
qed

lemma sort_key_Nil: "sort_key k xs = [] \<longleftrightarrow> xs = []"
  by (metis set_empty set_sort)

text \<open>While an unfinished message is left, a batch is not empty: the oldest one is claimable.\<close>

lemma batch_not_empty:
  assumes "ready t rows" and "r \<in> set rows" and "unfinished r" and "0 < n"
  shows "claimable_ids (\<lambda>_. False) t n rows \<noteq> []"
proof -
  let ?open = "set (filter unfinished rows)"
  have "Min (outbox_order ` ?open) \<in> outbox_order ` ?open"
    by (rule Min_in) (use assms(2,3) in \<open>auto simp: filter_empty_conv\<close>)
  then obtain q where q: "q \<in> set rows" "unfinished q" and least: "outbox_order q = Min (outbox_order ` ?open)"
    by auto
  have "\<not> earlier_position q' q" if "q' \<in> set rows" "unfinished q'" for q'
    using Min_le [of "outbox_order ` ?open" "outbox_order q'"] that
    unfolding earlier_position_order least by (simp add: not_less)
  then have "\<not> has_earlier_nonterminal_for_key rows q"
    by (auto simp: has_earlier_nonterminal_for_key_def list_ex_iff)
  with q assms(1) have "filter (\<lambda>m. outbox_eligible t m \<and> \<not> has_earlier_nonterminal_for_key rows m) rows \<noteq> []"
    by (auto simp: ready_def filter_empty_conv)
  with assms(4) show ?thesis
    by (simp add: claimable_ids_def take_ordered_def sort_key_Nil)
qed

lemma claim_run:
  assumes "healthy p w" and "outbox_table_ok (db_outbox (w_db w))" and "0 < n"
    and "t < e" and "tz_aware e"
  shows "\<exists>ts w1. uow (bind db_now (\<lambda>ts. bind tx_locked (\<lambda>lk.
       stmt (on_outbox (outbox_claim_batch lk ow t e n ts))))) w =
      (Inr (sort_key outbox_order (returning
         (\<lambda>m. o_id m \<in> set (claimable_ids (\<lambda>_. False) t n (db_outbox (w_db w)))) (outbox_grant ow e ts)
         (db_outbox (w_db w)))), w1) \<and>
      healthy p w1 \<and> w_clock w1 = w_clock w \<and> w_ticks w1 = w_ticks w \<and>
      w_db w1 = (w_db w)\<lparr>db_outbox := update_where
        (\<lambda>m. o_id m \<in> set (claimable_ids (\<lambda>_. False) t n (db_outbox (w_db w)))) (outbox_grant ow e ts)
        (db_outbox (w_db w))\<rparr>"
proof -
  have w: "w_rival w = (\<lambda>_ d. d)" "w_locked w = (\<lambda>_ _. False)" "w_fate w = (\<lambda>_. Commits)"
    "tz_aware (w_db_now w k)" for k
    using assms(1) by (simp_all add: healthy_def)
  let ?ts = "w_db_now w (Suc (w_txs w))" and ?ids = "claimable_ids (\<lambda>_. False) t n (db_outbox (w_db w))"
  let ?rows = "update_where (\<lambda>m. o_id m \<in> set ?ids) (outbox_grant ow e ?ts) (db_outbox (w_db w))"
  let ?w1 = "(begin_tx w)\<lparr>w_db := (w_db w)\<lparr>db_outbox := ?rows\<rparr>\<rparr>"
  have "healthy p ?w1" using assms(1) by (rule healthy_scripts) (simp_all add: scripts_def)
  moreover have "uow (bind db_now (\<lambda>ts. bind tx_locked (\<lambda>lk.
       stmt (on_outbox (outbox_claim_batch lk ow t e n ts))))) w =
      (Inr (sort_key outbox_order (returning (\<lambda>m. o_id m \<in> set ?ids) (outbox_grant ow e ?ts)
         (db_outbox (w_db w)))), ?w1)"
    by (rule uow_commits)
      (use outbox_claim_batch_result [OF assms(2,3,4,5) w(4)] in
        \<open>simp_all add: w bind_def db_now_def tx_locked_def gets_def stmt_def on_outbox_def\<close>)
  ultimately show ?thesis by (intro exI [of _ ?ts] exI [of _ ?w1]) simp
qed

text \<open>
  A round keeps all this and, as long as there is something to do, uses up attempts.
\<close>

definition relay_ready :: "relay_config \<Rightarrow> broker_env world \<Rightarrow> bool" where
  "relay_ready cfg w \<longleftrightarrow>
     healthy (l_policy cfg) w \<and> outbox_table_ok (db_outbox (w_db w)) \<and>
     ready (next_reading w) (db_outbox (w_db w))"

lemma relay_run_once_sound:
  assumes "healthy p w" and "outbox_table_ok (db_outbox (w_db w))"
    and "relay_run_once cfg kafka_publish n w = (r, w')"
  shows "outbox_table_ok (db_outbox (w_db w'))"
proof -
  have "relay_inv UNIV {} (w_trace w) w"
    using assms(1,2) by (simp add: relay_inv_def world_ok_def outbox_db_ok_def honest_def healthy_def)
  from keepsD [OF kafka.relay_run_once_keeps this assms(3)] show ?thesis
    by (simp add: relay_inv_def world_ok_def outbox_db_ok_def)
qed

lemma batch_ready:
  assumes "batch_advanced p t' ids rows rows'" and "t \<le> t'"
    and "\<And>r. r \<in> set rows \<Longrightarrow> o_id r \<notin> ids \<Longrightarrow> unfinished r \<Longrightarrow> outbox_eligible t r"
  shows "ready t' rows'"
  unfolding ready_def
proof (intro ballI impI)
  fix r' assume "r' \<in> set rows'" "unfinished r'"
  then obtain k where k: "k < length rows'" "r' = rows' ! k" by (auto simp: in_set_conv_nth)
  define r where "r = rows ! k"
  have step: "if o_id r \<in> ids then advanced p t' r r' else r' = r"
    using list_all2_nthD2 [OF assms(1) [unfolded batch_advanced_def] k(1)] by (simp add: r_def k(2))
  have r: "r \<in> set rows"
    using list_all2_lengthD [OF assms(1) [unfolded batch_advanced_def]] k(1) by (simp add: r_def)
  show "outbox_eligible t' r'"
  proof (cases "o_id r \<in> ids")
    case True
    with step \<open>unfinished r'\<close> show ?thesis by (auto simp: advanced_def outbox_eligible_def)
  next
    case False
    with step assms(3) [OF r False] \<open>unfinished r'\<close> assms(2) show ?thesis by (auto intro: eligible_mono)
  qed
qed

lemma batch_total_decreases:
  assumes "batch_advanced p t ids rows rows'" and "r \<in> set rows" and "o_id r \<in> ids"
    and "\<And>q. q \<in> set rows \<Longrightarrow> o_id q \<in> ids \<Longrightarrow> unfinished q"
  shows "total_left p rows' < total_left p rows"
  unfolding total_left_def
  by (rule sum_list_decreases [OF assms(1) [unfolded batch_advanced_def] _ assms(2)])
    (use assms in \<open>auto dest: advanced_decreases split: if_splits intro: less_imp_le\<close>)

text \<open>What a claim leaves behind: rows held for the messages of the batch, no attempt used yet.\<close>

lemma claimed_batch:
  fixes rows :: outbox_table and t e ts :: datetime and n :: int and ow :: uuid
  assumes ok: "outbox_table_ok rows"
  defines "ids \<equiv> set (claimable_ids (\<lambda>_. False) t n rows)"
  defines "ms \<equiv> sort_key outbox_order (returning (\<lambda>m. o_id m \<in> ids) (outbox_grant ow e ts) rows)"
    and "rows1 \<equiv> update_where (\<lambda>m. o_id m \<in> ids) (outbox_grant ow e ts) rows"
  shows "distinct (map o_id ms)" and "distinct (map o_key ms)" and "map o_id rows1 = map o_id rows"
    and "\<forall>m \<in> set ms. held_by ow rows1 m" and "o_id ` set ms = ids" and "ms = [] \<longleftrightarrow> ids = {}"
    and "total_left p rows1 = total_left p rows" and "\<And>q. q \<in> set rows1 \<Longrightarrow> o_id q \<in> ids \<Longrightarrow> unfinished q"
proof -
  note dist = outbox_table_okD(1) [OF ok]
  have open_row: "unfinished r" if "r \<in> set rows" "o_id r \<in> ids" for r
    using claimable_unfinished [OF dist that(1), of "\<lambda>_. False" t n] that(2) by (simp add: ids_def)
  have ids_rows: "ids \<subseteq> o_id ` set rows"
    using set_take_ordered unfolding ids_def claimable_ids_def by (fastforce simp: image_iff)
  have "o_id ` set ms = o_id ` {r \<in> set rows. o_id r \<in> ids}"
    by (simp add: ms_def returning_def image_image)
  moreover have "i \<in> o_id ` {r \<in> set rows. o_id r \<in> ids}" if i: "i \<in> ids" for i
  proof -
    from i ids_rows obtain r where "r \<in> set rows" "i = o_id r" by blast
    with i show ?thesis by blast
  qed
  ultimately show ids_ms: "o_id ` set ms = ids" by (simp only:) blast
  show "distinct (map o_id ms)" "distinct (map o_key ms)"
    using distinct_map_filter [OF dist] claimed_keys_distinct [OF dist, of "\<lambda>_. False" t n]
    by (simp_all add: ms_def distinct_map_sort_key returning_def comp_def ids_def)
  show keep: "map o_id rows1 = map o_id rows"
    unfolding rows1_def by (rule update_where_map_eq) simp
  have "outbox_grant ow e ts r \<in> set rows1" if "r \<in> set rows" "o_id r \<in> ids" for r
    unfolding rows1_def in_set_update_where using that by blast
  then show "\<forall>m \<in> set ms. held_by ow rows1 m"
    by (fastforce simp: ms_def returning_def held_by_def outbox_owned_def outbox_grant_def)
  show "ms = [] \<longleftrightarrow> ids = {}" using ids_ms by auto
  have "attempts_left p (outbox_grant ow e ts r) = attempts_left p r" if "unfinished r" for r
    using that by (simp add: attempts_left_def unfinished_def outbox_grant_def)
  then show "total_left p rows1 = total_left p rows"
    unfolding total_left_def rows1_def using open_row
    by (subst update_where_map_eq [of rows _ "attempts_left p"]) auto
  show "unfinished q" if "q \<in> set rows1" "o_id q \<in> ids" for q
    using that unfolding rows1_def in_set_update_where by (auto simp: unfinished_def outbox_grant_def)
qed

lemma round_progress:
  assumes rdy: "relay_ready cfg w" and use: "usable cfg" and n: "0 < n"
  shows "\<exists>k w'. relay_run_once cfg kafka_publish n w = (Inr k, w') \<and> relay_ready cfg w' \<and>
     map o_id (db_outbox (w_db w')) = map o_id (db_outbox (w_db w)) \<and>
     (list_ex unfinished (db_outbox (w_db w)) \<longrightarrow>
        total_left (l_policy cfg) (db_outbox (w_db w')) < total_left (l_policy cfg) (db_outbox (w_db w))) \<and>
     (\<not> list_ex unfinished (db_outbox (w_db w)) \<longrightarrow> \<not> list_ex unfinished (db_outbox (w_db w')))"
proof -
  let ?p = "l_policy cfg" and ?rows = "db_outbox (w_db w)"
  have healthy: "healthy ?p w" and ok: "outbox_table_ok ?rows" and ready: "ready (next_reading w) ?rows"
    using rdy by (simp_all add: relay_ready_def)
  have pol: "retry_policy_ok ?p" using use by (simp add: usable_def)
  define ow t e where "ow = w_uuids w (w_drawn w)" and "t = w_clock w (w_ticks w)"
    and "e = plus_delta t (timedelta_seconds (l_claim_lease_seconds cfg))"
  define wc where "wc = w\<lparr>w_drawn := Suc (w_drawn w), w_ticks := Suc (w_ticks w)\<rparr>"
  have hc: "healthy ?p wc" using healthy by (rule healthy_scripts) (simp_all add: wc_def scripts_def)
  have times: "t < e" "tz_aware e"
    using healthy use timedelta_seconds_pos by (simp_all add: e_def t_def usable_def healthy_def)
  let ?ids = "set (claimable_ids (\<lambda>_. False) t n ?rows)"
  from claim_run [OF hc _ n times, of ow] ok obtain ts w1 where
    claim: "uow (bind db_now (\<lambda>ts. bind tx_locked (\<lambda>lk. stmt (on_outbox (outbox_claim_batch lk ow t e n ts))))) wc =
      (Inr (sort_key outbox_order (returning (\<lambda>m. o_id m \<in> ?ids) (outbox_grant ow e ts) ?rows)), w1)"
    and h1: "healthy ?p w1" and t1: "w_clock w1 = w_clock w" "w_ticks w1 = Suc (w_ticks w)"
    and db1: "w_db w1 = (w_db w)\<lparr>db_outbox := update_where (\<lambda>m. o_id m \<in> ?ids) (outbox_grant ow e ts) ?rows\<rparr>"
    by (auto simp: wc_def)
  let ?rows1 = "update_where (\<lambda>m. o_id m \<in> ?ids) (outbox_grant ow e ts) ?rows"
  let ?ms = "sort_key outbox_order (returning (\<lambda>m. o_id m \<in> ?ids) (outbox_grant ow e ts) ?rows)"
  note batch = claimed_batch [OF ok, where t = t and n = n and ow = ow and e = e and ts = ts]
  have run: "relay_run_once cfg kafka_publish n w = (if ?ms = [] then return 0 else
      bind (relay_observe ''batch_claimed'' []) (\<lambda>_.
      bind (gather_streams cfg kafka_publish ow (by_key ?ms)) (\<lambda>_. return (length ?ms)))) w1"
    using n claim by (simp add: relay_run_once_def bind_def [of new_uuid] bind_def [of utc_now]
        bind_def [of "uow _"] new_uuid_def utc_now_def Let_def ow_def t_def e_def wc_def)
  have t01: "next_reading w \<le> next_reading w1"
    using healthy_clock_step [OF healthy pol] by (simp add: next_reading_def t1)
  show ?thesis
  proof (cases "?ms = []")
    case True
    then have "?ids = {}" using batch(6) by simp
    with batch_not_empty [OF ready _ _ n] have none: "\<not> list_ex unfinished ?rows"
      by (auto simp: list_ex_iff next_reading_def t_def)
    have "?rows1 = ?rows" using \<open>?ids = {}\<close> by (simp add: update_where_none)
    with none ok h1 db1 have "relay_ready cfg w1" "\<not> list_ex unfinished (db_outbox (w_db w1))"
      by (auto simp: relay_ready_def ready_def list_ex_iff)
    with True run none \<open>?rows1 = ?rows\<close> db1 show ?thesis by (auto simp: return_def)
  next
    case False
    define wo where "wo = w1\<lparr>w_trace := w_trace w1 @ [Observed ''batch_claimed'' []]\<rparr>"
    have ho: "healthy ?p wo" using h1 by (rule healthy_scripts) (simp_all add: wo_def scripts_def)
    have dbo: "db_outbox (w_db wo) = ?rows1" by (simp add: wo_def db1)
    have dist: "distinct (map o_id ?rows1)" using batch(3) outbox_table_okD(1) [OF ok] by simp
    from gather_settles [OF ho use batch(1), of ow, unfolded dbo, OF dist batch(4)] obtain w2 rows2 where
      gather: "gather_streams cfg kafka_publish ow (map (\<lambda>m. (o_key m, [m])) ?ms) wo = (Inr (), w2)"
      and h2: "healthy ?p w2" and t2: "next_reading wo \<le> next_reading w2"
      and dbw2: "w_db w2 = (w_db wo)\<lparr>db_outbox := rows2\<rparr>"
      and adv: "batch_advanced ?p (next_reading w2) (o_id ` set ?ms) ?rows1 rows2"
      by blast
    have db2: "db_outbox (w_db w2) = rows2" by (simp add: dbw2)
    have run': "relay_run_once cfg kafka_publish n w = (Inr (length ?ms), w2)"
      using False gather by (simp add: run by_key_distinct [OF batch(2)] bind_def relay_observe_def emit_def
          modify_def wo_def return_def)
    have "next_reading w1 \<le> next_reading w2" using t2 by (simp add: next_reading_def wo_def)
    with t01 have t02: "next_reading w \<le> next_reading w2" by simp
    have "ready (next_reading w2) rows2"
    proof (rule batch_ready [OF adv t02])
      fix r assume "r \<in> set ?rows1" "o_id r \<notin> o_id ` set ?ms" "unfinished r"
      then show "outbox_eligible (next_reading w) r"
        using ready unfolding batch(5) by (auto simp: in_set_update_where ready_def)
    qed
    then have ready2: "relay_ready cfg w2"
      using h2 db2 relay_run_once_sound [OF healthy ok run'] by (simp add: relay_ready_def)
    obtain r where r: "r \<in> set ?rows1" "o_id r \<in> o_id ` set ?ms"
      using False batch(4) by (metis (no_types, lifting) held_by_def image_eqI last_in_set)
    have "total_left ?p rows2 < total_left ?p ?rows1"
      by (rule batch_total_decreases [OF adv r]) (rule batch(8), assumption, simp only: batch(5))
    moreover have "list_ex unfinished ?rows"
      using r claimable_unfinished [OF outbox_table_okD(1) [OF ok], of _ "\<lambda>_. False" t n] unfolding batch(5)
      by (auto simp: list_ex_iff in_set_update_where)
    ultimately show ?thesis
      using run' ready2 db2 batch(3) batch(7) [of ?p] batch_advanced_ids [OF adv] by auto
  qed
qed

subsection \<open>Rounds\<close>

fun relay_rounds :: "relay_config \<Rightarrow> int \<Rightarrow> nat \<Rightarrow> broker_env world \<Rightarrow> broker_env world" where
  "relay_rounds cfg n 0 w = w"
| "relay_rounds cfg n (Suc k) w = relay_rounds cfg n k (snd (relay_run_once cfg kafka_publish n w))"

lemma total_left_unfinished: "list_ex unfinished rows \<Longrightarrow> 0 < total_left p rows"
  by (induction rows) (auto simp: total_left_def attempts_left_def)

lemma total_left_bound:
  assumes "outbox_table_ok rows" and "retry_policy_ok p"
  shows "total_left p rows \<le> length rows * nat (max_attempts p)"
proof -
  have "attempts_left p r \<le> nat (max_attempts p)" if "r \<in> set rows" for r
    using outbox_table_okD(2) [OF assms(1) that] retry_policy_okD(6) [OF assms(2)]
    by (auto simp: attempts_left_def outbox_row_ok_def outbox_checks_def)
  then have "sum_list (map (attempts_left p) rows) \<le> sum_list (map (\<lambda>_. nat (max_attempts p)) rows)"
    by (rule sum_list_mono)
  then show ?thesis by (simp add: total_left_def sum_list_triv)
qed

lemma relay_rounds_settle:
  assumes "relay_ready cfg w" and "usable cfg" and "0 < n"
    and "total_left (l_policy cfg) (db_outbox (w_db w)) \<le> k"
  shows "\<not> list_ex unfinished (db_outbox (w_db (relay_rounds cfg n k w))) \<and>
     map o_id (db_outbox (w_db (relay_rounds cfg n k w))) = map o_id (db_outbox (w_db w))"
  using assms
proof (induction k arbitrary: w)
  case 0
  then show ?case using total_left_unfinished [of "db_outbox (w_db w)" "l_policy cfg"] by auto
next
  case (Suc k)
  obtain j w' where run: "relay_run_once cfg kafka_publish n w = (Inr j, w')" and rdy: "relay_ready cfg w'"
    and ids: "map o_id (db_outbox (w_db w')) = map o_id (db_outbox (w_db w))"
    and dec: "list_ex unfinished (db_outbox (w_db w)) \<longrightarrow>
        total_left (l_policy cfg) (db_outbox (w_db w')) < total_left (l_policy cfg) (db_outbox (w_db w))"
    and stay: "\<not> list_ex unfinished (db_outbox (w_db w)) \<longrightarrow> \<not> list_ex unfinished (db_outbox (w_db w'))"
    using round_progress [OF Suc.prems(1-3)] by blast
  have "total_left (l_policy cfg) (db_outbox (w_db w')) \<le> k"
  proof (cases "list_ex unfinished (db_outbox (w_db w))")
    case True
    with dec Suc.prems(4) show ?thesis by simp
  next
    case False
    with stay have "total_left (l_policy cfg) (db_outbox (w_db w')) = 0"
      by (simp add: total_left_def attempts_left_def list_ex_iff)
    then show ?thesis by simp
  qed
  from Suc.IH [OF rdy Suc.prems(2,3) this] ids run show ?case by simp
qed


text \<open>A broker that never confirms: after ten rounds the message is in quarantine.\<close>

definition dead_broker_world :: "broker_env world" where
  "dead_broker_world =
     (quiet_world (empty_db\<lparr>db_outbox := [sample_message]\<rparr>)
        \<lparr>re_stop = (\<lambda>_. False), re_reads = 0, br_replies = (\<lambda>_. BrokerRaises BrokerTimeout False), br_calls = 0\<rparr>)
     \<lparr>w_clock := \<lambda>n. Datetime (int (Suc n) * 60000000) True\<rparr>"


end
