(* ===== verification/Outbox_Refinement.thy ===== *)
theory Outbox_Refinement
  imports Outbox_Store
begin

section \<open>The outbox refines a family of FIFO queues\<close>

text \<open>
  The promise of the outbox to its readers: per partition key a queue of messages, where a new
  message goes to the end and only the first message can leave. The abstraction of a table lists,
  for every key, the unfinished messages by their position; leases, retries and clean-up do not show
  in it.
\<close>

subsection \<open>Specification\<close>

inductive fifo_step :: "(string \<Rightarrow> uuid list) \<Rightarrow> (string \<Rightarrow> uuid list) \<Rightarrow> bool" where
  fifo_idle: "fifo_step Q Q"
| fifo_enqueue: "fifo_step Q (Q(k := Q k @ [i]))"
| fifo_dequeue: "Q k = i # rest \<Longrightarrow> fifo_step Q (Q(k := rest))"

subsection \<open>Abstraction\<close>

definition open_positions :: "outbox_table \<Rightarrow> string \<Rightarrow> (datetime \<times> uuid) set" where
  "open_positions rows k = outbox_order ` set (filter (\<lambda>m. o_key m = k \<and> unfinished m) rows)"

definition queues :: "outbox_table \<Rightarrow> string \<Rightarrow> uuid list" where
  "queues rows k = map snd (sorted_list_of_set (open_positions rows k))"

lemma finite_open_positions [simp]: "finite (open_positions rows k)"
  by (simp add: open_positions_def)

lemma in_open_positions:
  "x \<in> open_positions rows k \<longleftrightarrow> (\<exists>m \<in> set rows. o_key m = k \<and> unfinished m \<and> x = outbox_order m)"
  by (auto simp: open_positions_def)

lemma sorted_list_of_set_insert_max:
  fixes x :: "'a::linorder"
  assumes "finite A" and "\<And>a. a \<in> A \<Longrightarrow> a < x"
  shows "sorted_list_of_set (insert x A) = sorted_list_of_set A @ [x]"
proof -
  have "sorted (sorted_list_of_set A @ [x])" "distinct (sorted_list_of_set A @ [x])"
    "set (sorted_list_of_set A @ [x]) = insert x A"
    using assms by (auto simp: sorted_append less_imp_le)
  then show ?thesis by (metis sorted_list_of_set.idem_if_sorted_distinct)
qed

lemma queues_same:
  assumes "\<And>k. open_positions rows' k = open_positions rows k"
  shows "fifo_step (queues rows) (queues rows')"
proof -
  have "queues rows' = queues rows" using assms by (intro ext) (simp add: queues_def)
  then show ?thesis by (simp add: fifo_idle)
qed

lemma queues_enqueue:
  assumes "open_positions rows' k = insert x (open_positions rows k)"
    and "\<And>y. y \<in> open_positions rows k \<Longrightarrow> y < x"
    and "\<And>k'. k' \<noteq> k \<Longrightarrow> open_positions rows' k' = open_positions rows k'"
  shows "fifo_step (queues rows) (queues rows')"
proof -
  have "queues rows' = (queues rows)(k := queues rows k @ [snd x])"
    using assms(1,3) sorted_list_of_set_insert_max [OF finite_open_positions assms(2)]
    by (intro ext) (simp add: queues_def)
  then show ?thesis by (simp add: fifo_enqueue)
qed

lemma queues_dequeue:
  assumes "x \<in> open_positions rows k" and "\<And>y. y \<in> open_positions rows k \<Longrightarrow> x \<le> y"
    and "open_positions rows' k = open_positions rows k - {x}"
    and "\<And>k'. k' \<noteq> k \<Longrightarrow> open_positions rows' k' = open_positions rows k'"
  shows "fifo_step (queues rows) (queues rows')"
proof -
  have "Min (open_positions rows k) = x" using assms(1,2) by (intro Min_eqI) auto
  then have "sorted_list_of_set (open_positions rows k) = x # sorted_list_of_set (open_positions rows' k)"
    using assms(1,3) sorted_list_of_set_nonempty [of "open_positions rows k"] by auto
  then have "queues rows k = snd x # queues rows' k" "queues rows' = (queues rows)(k := queues rows' k)"
    using assms(4) by (auto simp: queues_def)
  then show ?thesis by (metis fifo_dequeue)
qed

subsection \<open>Simulation\<close>

definition placed :: "(outbox_message \<Rightarrow> bool) \<Rightarrow> outbox_table \<Rightarrow> string \<Rightarrow> (datetime \<times> uuid) set" where
  "placed P rows k = outbox_order ` {m \<in> set rows. o_key m = k \<and> P m}"

lemma open_positions_placed: "open_positions rows k = placed unfinished rows k"
  by (simp add: open_positions_def placed_def)

lemma placed_cong:
  "(\<And>m. m \<in> set rows \<Longrightarrow> o_key m = k \<Longrightarrow> P m = R m) \<Longrightarrow> placed P rows k = placed R rows k"
  by (auto simp: placed_def)

lemma open_positions_update:
  assumes "\<And>m. outbox_position (f m) = outbox_position m"
  shows "open_positions (update_where p f rows) k =
     placed (\<lambda>m. if p m then unfinished (f m) else unfinished m) rows k"
proof -
  have f: "outbox_order (f m) = outbox_order m" "o_key (f m) = o_key m" for m
    using assms [of m] by (simp_all add: outbox_position_def outbox_order_def)
  let ?g = "\<lambda>m. if p m then f m else m"
  have "{m \<in> ?g ` set rows. o_key m = k \<and> unfinished m} =
      ?g ` {m \<in> set rows. o_key m = k \<and> (if p m then unfinished (f m) else unfinished m)}"
    using f(2) by (auto split: if_splits)
  moreover have "outbox_order (?g m) = outbox_order m" for m using f(1) by simp
  ultimately show ?thesis
    by (simp only: open_positions_placed placed_def update_where_def set_map image_image)
qed

text \<open>An update that moves no row and finishes or revives none does not show.\<close>

lemma update_idle:
  assumes "\<And>m. outbox_position (f m) = outbox_position m"
    and "\<And>m. m \<in> set rows \<Longrightarrow> p m \<Longrightarrow> unfinished (f m) = unfinished m"
  shows "fifo_step (queues rows) (queues (update_where p f rows))"
proof (rule queues_same)
  fix k
  show "open_positions (update_where p f rows) k = open_positions rows k"
    unfolding open_positions_update [OF assms(1)] unfolding open_positions_placed
    using assms(2) by (intro placed_cong) simp
qed

text \<open>A claimed message is the first of its queue.\<close>

lemma claimed_is_first:
  assumes "outbox_table_ok rows" and "m \<in> set rows" and "o_status m = O_CLAIMED"
    and "y \<in> open_positions rows (o_key m)"
  shows "outbox_order m \<le> y"
proof -
  from assms(4) obtain q where q: "q \<in> set rows" "o_key q = o_key m" "unfinished q" "y = outbox_order q"
    by (auto simp: in_open_positions)
  then have "\<not> earlier_position q m"
    using outbox_table_okD(3) [OF assms(1)] assms(2,3) by (auto simp: outbox_ordered_def)
  with q show ?thesis by (simp add: earlier_position_order)
qed

lemma settle_dequeues:
  assumes ok: "outbox_table_ok rows" and pos: "\<And>m. outbox_position (f m) = outbox_position m"
    and fin: "\<And>m. \<not> unfinished (f m)"
  shows "fifo_step (queues rows) (queues (update_where (\<lambda>m. o_id m = i \<and> outbox_owned ow t m) f rows))"
proof (cases "\<exists>m \<in> set rows. o_id m = i \<and> outbox_owned ow t m")
  case False
  then show ?thesis by (simp add: update_where_none fifo_idle)
next
  case True
  let ?p = "\<lambda>m. o_id m = i \<and> outbox_owned ow t m"
  from True obtain m where m: "m \<in> set rows" "o_id m = i" "outbox_owned ow t m" by blast
  have only: "q = m" if "q \<in> set rows" "o_id q = i" for q
    using unique_key [OF outbox_table_okD(1) [OF ok] that(1) m(1)] that(2) m(2) by simp
  have claimed: "o_status m = O_CLAIMED" using m(3) by (simp add: outbox_owned_def)
  have left: "open_positions (update_where ?p f rows) k = placed (\<lambda>q. unfinished q \<and> q \<noteq> m) rows k" for k
    unfolding open_positions_update [OF pos] using fin only m(2,3) by (intro placed_cong) auto
  show ?thesis
  proof (rule queues_dequeue [where k = "o_key m" and x = "outbox_order m"])
    show "outbox_order m \<in> open_positions rows (o_key m)"
      using m(1) claimed by (auto simp: in_open_positions unfinished_def)
    show "\<And>y. y \<in> open_positions rows (o_key m) \<Longrightarrow> outbox_order m \<le> y"
      by (rule claimed_is_first [OF ok m(1) claimed])
    have "outbox_order q \<noteq> outbox_order m" if "q \<in> set rows" "q \<noteq> m" for q
      using only [OF that(1)] that(2) m(2) by (auto simp: outbox_order_def)
    then show "open_positions (update_where ?p f rows) (o_key m) =
        open_positions rows (o_key m) - {outbox_order m}"
      unfolding left unfolding open_positions_placed placed_def by fastforce
    show "open_positions (update_where ?p f rows) k' = open_positions rows k'" if "k' \<noteq> o_key m" for k'
      unfolding left unfolding open_positions_placed using that by (intro placed_cong) auto
  qed
qed

lemma publish_enqueues:
  assumes "publish topic producer event rows = Inr ((), rows')"
    and "published_last (outbox_row topic producer event) rows"
  shows "fifo_step (queues rows) (queues rows')"
proof -
  let ?m = "outbox_row topic producer event"
  have rows': "rows' = rows @ [?m]" using assms(1) by (auto simp: publish_def Let_def split: if_splits)
  have new: "unfinished ?m" by (simp add: unfinished_def outbox_row_def)
  show ?thesis
  proof (rule queues_enqueue [where k = "o_key ?m" and x = "outbox_order ?m"])
    show "open_positions rows' (o_key ?m) = insert (outbox_order ?m) (open_positions rows (o_key ?m))"
      using new by (auto simp: rows' open_positions_def)
    show "y < outbox_order ?m" if "y \<in> open_positions rows (o_key ?m)" for y
      using assms(2) that by (auto simp: published_last_def list_all_iff in_open_positions earlier_position_order)
    show "\<And>k'. k' \<noteq> o_key ?m \<Longrightarrow> open_positions rows' k' = open_positions rows k'"
      by (auto simp: rows' open_positions_def)
  qed
qed

lemma redrive_enqueues:
  assumes ok: "outbox_table_ok rows"
  shows "fifo_step (queues rows) (queues (update_where
     (\<lambda>m. o_id m = i \<and> o_status m = O_QUARANTINED \<and> \<not> later_exists i rows) (set_outbox_redriven a ts) rows))"
proof (cases "\<exists>m \<in> set rows. o_id m = i \<and> o_status m = O_QUARANTINED \<and> \<not> later_exists i rows")
  case False
  then show ?thesis by (simp add: update_where_none fifo_idle)
next
  case True
  let ?p = "\<lambda>m. o_id m = i \<and> o_status m = O_QUARANTINED \<and> \<not> later_exists i rows"
  from True obtain m where m: "m \<in> set rows" "o_id m = i" "o_status m = O_QUARANTINED"
    and last: "\<not> later_exists i rows" by blast
  have only: "q = m" if "q \<in> set rows" "o_id q = i" for q
    using unique_key [OF outbox_table_okD(1) [OF ok] that(1) m(1)] that(2) m(2) by simp
  let ?f = "set_outbox_redriven a ts"
  have open_again: "unfinished (?f q)" for q by (simp add: unfinished_def set_outbox_redriven_def)
  have after: "open_positions (update_where ?p ?f rows) k = placed (\<lambda>q. unfinished q \<or> q = m) rows k" for k
    unfolding open_positions_update [OF outbox_setters_position(5)] using only m(2,3) last open_again
    by (intro placed_cong) auto
  show ?thesis
  proof (rule queues_enqueue [where k = "o_key m" and x = "outbox_order m"])
    show "open_positions (update_where ?p ?f rows) (o_key m) =
        insert (outbox_order m) (open_positions rows (o_key m))"
      unfolding after unfolding open_positions_placed placed_def using m(1) by auto
    show "y < outbox_order m" if "y \<in> open_positions rows (o_key m)" for y
    proof -
      from that obtain q where q: "q \<in> set rows" "o_key q = o_key m" "unfinished q" "y = outbox_order q"
        by (auto simp: in_open_positions)
      then have "\<not> earlier_position m q" using last m by (auto simp: later_exists_def list_ex_iff)
      moreover have "q \<noteq> m" using q(3) m(3) by (auto simp: unfinished_def)
      then have "outbox_order q \<noteq> outbox_order m" using only q(1) m(2) by (auto simp: outbox_order_def)
      ultimately show ?thesis using q(4) by (simp add: earlier_position_order)
    qed
    show "open_positions (update_where ?p ?f rows) k' = open_positions rows k'" if "k' \<noteq> o_key m" for k'
      unfolding after unfolding open_positions_placed using that by (intro placed_cong) auto
  qed
qed

lemma cleanup_idle:
  assumes "outbox_table_ok rows" and "delete_terminal_before lk t n rows = Inr (k, rows')"
  shows "fifo_step (queues rows) (queues rows')"
proof (rule queues_same)
  fix key
  let ?ids = "map o_id (take_ordered cleanup_order (nat n) (\<lambda>m. terminal_before t m \<and> \<not> lk (o_id m)) rows)"
  have rows': "rows' = filter (\<lambda>m. o_id m \<notin> set ?ids) rows"
    using assms(2) by (auto simp: delete_terminal_before_def Let_def split: if_splits)
  have "\<not> unfinished m" if "m \<in> set rows" "o_id m \<in> set ?ids" for m
    using taken_keys [OF outbox_table_okD(1) [OF assms(1)] that] by (auto simp: terminal_before_def unfinished_def)
  then show "open_positions rows' key = open_positions rows key"
    unfolding rows' open_positions_def by auto
qed

lemma outbox_step_simulates:
  assumes "outbox_step rows rows'" and ok: "outbox_table_ok rows"
  shows "fifo_step (queues rows) (queues rows')"
  using assms(1)
proof cases
  case out_publish
  then show ?thesis by (blast intro: publish_enqueues)
next
  case (out_claim lk ow t e n ts ms)
  from out_claim(1) obtain ids where ids: "ids = claimable_ids lk t n rows"
    and rows': "rows' = update_where (\<lambda>m. o_id m \<in> set ids) (outbox_grant ow e ts) rows"
    by (rule outbox_claim_batch_Inr)
  show ?thesis unfolding rows'
  proof (rule update_idle)
    fix m assume "m \<in> set rows" "o_id m \<in> set ids"
    then show "unfinished (outbox_grant ow e ts m) = unfinished m"
      using claimable_unfinished [OF outbox_table_okD(1) [OF ok]] ids
      by (simp add: unfinished_def outbox_grant_def)
  qed simp
next
  case (out_finalize i ow t ts b)
  then show ?thesis unfolding finalize_published_def
    by (auto dest!: update_flag_Inr intro!: settle_dequeues [OF ok] simp: unfinished_def)
      (simp_all add: set_published_def)
next
  case (out_retry i ow a c ts b)
  then show ?thesis unfolding outbox_schedule_retry_def
    by (auto dest!: update_flag_Inr intro!: update_idle simp: outbox_owned_def unfinished_def)
      (simp_all add: set_outbox_retry_def)
next
  case (out_quarantine i ow t c ts b)
  then show ?thesis unfolding quarantine_def
    by (auto dest!: update_flag_Inr intro!: settle_dequeues [OF ok] simp: unfinished_def)
      (simp_all add: set_quarantined_def)
next
  case (out_redrive i a ts b)
  then show ?thesis unfolding redrive_quarantined_def
    by (auto dest!: update_flag_Inr intro!: redrive_enqueues [OF ok])
next
  case (out_cleanup lk t n k)
  then show ?thesis using cleanup_idle [OF ok] by blast
qed



end
