(* ===== verification/Json.thy ===== *)
theory Json
  imports Text
begin

section \<open>JSON text\<close>

text \<open>
  \<open>json.dumps(value, separators=(",", ":"), sort_keys=True)\<close> with and without \<open>ensure_ascii\<close>, and a
  reader of the text it writes. The service reads JSON with pydantic's \<open>validate_json\<close>, a third-party
  parser: where it matters the parser is a parameter whose documented behaviour is \<open>reads_json\<close>, and
  the reader of this theory shows that the assumption can hold.
\<close>

subsection \<open>Writing\<close>

fun json_sort :: "json \<Rightarrow> json"
  and json_sort_items :: "json list \<Rightarrow> json list"
  and json_sort_fields :: "(string \<times> json) list \<Rightarrow> (string \<times> json) list" where
  "json_sort JNull = JNull"
| "json_sort (JBool b) = JBool b"
| "json_sort (JInt i) = JInt i"
| "json_sort (JStr s) = JStr s"
| "json_sort (JList js) = JList (json_sort_items js)"
| "json_sort (JObj fs) = JObj (sort_key fst (json_sort_fields fs))"
| "json_sort_items [] = []"
| "json_sort_items (j # js) = json_sort j # json_sort_items js"
| "json_sort_fields [] = []"
| "json_sort_fields ((k, j) # fs) = (k, json_sort j) # json_sort_fields fs"

definition escape_char :: "bool \<Rightarrow> char \<Rightarrow> string" where
  "escape_char ensure_ascii c =
     (let n = (of_char c :: nat) in
      if n = 34 then [CHR 0x5C, CHR 0x22]
      else if n = 92 then [CHR 0x5C, CHR 0x5C]
      else if n = 10 then [CHR 0x5C, CHR ''n'']
      else if n = 13 then [CHR 0x5C, CHR ''r'']
      else if n = 9 then [CHR 0x5C, CHR ''t'']
      else if n = 12 then [CHR 0x5C, CHR ''f'']
      else if n = 8 then [CHR 0x5C, CHR ''b'']
      else if n < 32 \<or> ensure_ascii \<and> 127 < n
      then [CHR 0x5C, CHR ''u'', CHR ''0'', CHR ''0'', hex_digit (n div 16), hex_digit (n mod 16)]
      else [c])"

definition json_quote :: "bool \<Rightarrow> string \<Rightarrow> string" where
  "json_quote ensure_ascii s = CHR 0x22 # concat (map (escape_char ensure_ascii) s) @ [CHR 0x22]"

fun json_print :: "bool \<Rightarrow> json \<Rightarrow> string"
  and json_print_items :: "bool \<Rightarrow> json list \<Rightarrow> string"
  and json_print_fields :: "bool \<Rightarrow> (string \<times> json) list \<Rightarrow> string" where
  "json_print a JNull = ''null''"
| "json_print a (JBool b) = (if b then ''true'' else ''false'')"
| "json_print a (JInt i) = int_str i"
| "json_print a (JStr s) = json_quote a s"
| "json_print a (JList js) = CHR ''['' # json_print_items a js @ '']''"
| "json_print a (JObj fs) = CHR ''{'' # json_print_fields a fs @ ''}''"
| "json_print_items a [] = []"
| "json_print_items a [j] = json_print a j"
| "json_print_items a (j # j' # js) = json_print a j @ CHR '','' # json_print_items a (j' # js)"
| "json_print_fields a [] = []"
| "json_print_fields a [(k, j)] = json_quote a k @ CHR '':'' # json_print a j"
| "json_print_fields a ((k, j) # f # fs) =
     json_quote a k @ CHR '':'' # json_print a j @ CHR '','' # json_print_fields a (f # fs)"

definition json_dumps :: "bool \<Rightarrow> json \<Rightarrow> string" where
  "json_dumps ensure_ascii j = json_print ensure_ascii (json_sort j)"

subsection \<open>Reading\<close>

definition unescape :: "char \<Rightarrow> char option" where
  "unescape c =
     (if c = CHR 0x22 then Some c else if c = CHR 0x5C then Some c else if c = CHR ''/'' then Some c
      else if c = CHR ''n'' then Some (CHR 0x0A) else if c = CHR ''r'' then Some (CHR 0x0D)
      else if c = CHR ''t'' then Some (CHR 0x09) else if c = CHR ''f'' then Some (CHR 0x0C)
      else if c = CHR ''b'' then Some (CHR 0x08) else None)"

fun read_chars :: "string \<Rightarrow> (string \<times> string) option" where
  "read_chars [] = None"
| "read_chars (c # cs) =
     (if c = CHR 0x22 then Some ([], cs)
      else if c = CHR 0x5C
      then (case cs of
              e # rest \<Rightarrow>
                if e = CHR ''u''
                then (case rest of
                        h1 # h2 # h3 # h4 # rest' \<Rightarrow>
                          (case hex_number 0 [h1, h2, h3, h4] of
                             Some n \<Rightarrow> if n < 256 then map_option (apfst (Cons (char_of n))) (read_chars rest') else None
                           | None \<Rightarrow> None)
                      | _ \<Rightarrow> None)
                else (case unescape e of
                        Some d \<Rightarrow> map_option (apfst (Cons d)) (read_chars rest)
                      | None \<Rightarrow> None)
            | [] \<Rightarrow> None)
      else if of_char c < (32::nat) then None
      else map_option (apfst (Cons c)) (read_chars cs))"

definition read_number :: "string \<Rightarrow> (json \<times> string) option" where
  "read_number s =
     (let (sg, r) = (case s of c # cs \<Rightarrow> if c = CHR ''-'' then (-1, cs) else (1, s) | [] \<Rightarrow> (1, s));
          ds = takeWhile is_digit r
      in if ds = [] then None
         else Some (JInt (sg * int (number_of_digits ds)), dropWhile is_digit r))"

fun read_value :: "nat \<Rightarrow> string \<Rightarrow> (json \<times> string) option"
  and read_items :: "nat \<Rightarrow> string \<Rightarrow> (json list \<times> string) option"
  and read_fields :: "nat \<Rightarrow> string \<Rightarrow> ((string \<times> json) list \<times> string) option" where
  "read_value 0 s = None"
| "read_value (Suc n) s =
     (case s of
        [] \<Rightarrow> None
      | c # cs \<Rightarrow>
          if c = CHR 0x22 then map_option (apfst JStr) (read_chars cs)
          else if c = CHR ''n'' then (if prefix ''ull'' cs then Some (JNull, drop 3 cs) else None)
          else if c = CHR ''t'' then (if prefix ''rue'' cs then Some (JBool True, drop 3 cs) else None)
          else if c = CHR ''f'' then (if prefix ''alse'' cs then Some (JBool False, drop 4 cs) else None)
          else if c = CHR ''[''
          then (if prefix '']'' cs then Some (JList [], drop 1 cs) else map_option (apfst JList) (read_items n cs))
          else if c = CHR ''{''
          then (if prefix ''}'' cs then Some (JObj [], drop 1 cs) else map_option (apfst JObj) (read_fields n cs))
          else read_number s)"
| "read_items 0 s = None"
| "read_items (Suc n) s =
     (case read_value n s of
        None \<Rightarrow> None
      | Some (j, rest) \<Rightarrow>
          (case rest of
             [] \<Rightarrow> None
           | c # cs \<Rightarrow>
               if c = CHR '']'' then Some ([j], cs)
               else if c = CHR '','' then map_option (apfst (Cons j)) (read_items n cs) else None))"
| "read_fields 0 s = None"
| "read_fields (Suc n) s =
     (case s of
        [] \<Rightarrow> None
      | q # s1 \<Rightarrow>
          if q \<noteq> CHR 0x22 then None
          else case read_chars s1 of
            None \<Rightarrow> None
          | Some (k, r1) \<Rightarrow>
              (case r1 of
                 [] \<Rightarrow> None
               | c1 # r2 \<Rightarrow>
                   if c1 \<noteq> CHR '':'' then None
                   else case read_value n r2 of
                     None \<Rightarrow> None
                   | Some (j, r3) \<Rightarrow>
                       (case r3 of
                          [] \<Rightarrow> None
                        | c2 # r4 \<Rightarrow>
                            if c2 = CHR ''}'' then Some ([(k, j)], r4)
                            else if c2 = CHR '','' then map_option (apfst (Cons (k, j))) (read_fields n r4)
                            else None)))"

definition json_loads :: "string \<Rightarrow> json option" where
  "json_loads s = (case read_value (2 * length s + 2) s of Some (j, []) \<Rightarrow> Some j | _ \<Rightarrow> None)"

subsection \<open>The reader inverts the writer\<close>

lemma of_char_iff: "(of_char c :: nat) = n \<longleftrightarrow> c = char_of n" if "n < 256"
  using that by (auto simp: of_char_of)

lemma char_of_escapes:
  "char_of (34::nat) = CHR 0x22" "char_of (92::nat) = CHR 0x5C" "char_of (10::nat) = CHR 0x0A"
  "char_of (13::nat) = CHR 0x0D" "char_of (9::nat) = CHR 0x09" "char_of (12::nat) = CHR 0x0C"
  "char_of (8::nat) = CHR 0x08"
  by (simp_all add: char_of_eq_iff take_bit_eq_mod)

lemma read_chars_escape: "read_chars (escape_char a c @ xs) = map_option (apfst (Cons c)) (read_chars xs)"
proof -
  let ?n = "of_char c :: nat"
  have bound: "?n < 256" by simp
  consider "?n = 34" | "?n = 92" | "?n = 10" | "?n = 13" | "?n = 9" | "?n = 12" | "?n = 8"
    | (coded) "?n \<notin> {34, 92, 10, 13, 9, 12, 8}" "?n < 32 \<or> a \<and> 127 < ?n"
    | (plain) "?n \<notin> {34, 92}" "\<not> ?n < 32" "\<not> (a \<and> 127 < ?n)"
    by auto
  then show ?thesis
  proof cases
    case coded
    have "?n div 16 < 16" by (rule less_mult_imp_div_less) simp
    then have "hex_number 0 [CHR ''0'', CHR ''0'', hex_digit (?n div 16), hex_digit (?n mod 16)] = Some ?n"
      by (simp add: hex_value_def [of "CHR ''0''"])
    moreover have "escape_char a c =
        [CHR 0x5C, CHR ''u'', CHR ''0'', CHR ''0'', hex_digit (?n div 16), hex_digit (?n mod 16)]"
      using coded by (simp add: escape_char_def Let_def)
    ultimately show ?thesis by (simp del: hex_number.simps)
  next
    case plain
    then have "c \<noteq> CHR 0x22" "c \<noteq> CHR 0x5C" by auto
    moreover have "escape_char a c = [c]" using plain by (auto simp: escape_char_def Let_def)
    ultimately show ?thesis using plain by simp
  qed (simp_all add: of_char_iff escape_char_def unescape_def char_of_escapes)
qed

lemma read_chars_quote:
  "read_chars (concat (map (escape_char a) s) @ CHR 0x22 # rest) = Some (s, rest)"
  by (induction s) (simp_all add: read_chars_escape)

definition stops :: "string \<Rightarrow> bool" where
  "stops rest \<longleftrightarrow> rest = [] \<or> \<not> is_digit (hd rest)"

lemma takeWhile_digits: "list_all is_digit ds \<Longrightarrow> stops rest \<Longrightarrow> takeWhile is_digit (ds @ rest) = ds"
  by (induction ds) (cases rest; auto simp: stops_def)+

lemma dropWhile_digits: "list_all is_digit ds \<Longrightarrow> stops rest \<Longrightarrow> dropWhile is_digit (ds @ rest) = rest"
  by (induction ds) (cases rest; auto simp: stops_def)+

lemma nat_str_Cons: "\<exists>c cs. nat_str n = c # cs \<and> is_digit c"
  using nat_str_digits [of n] by (cases "nat_str n") auto

lemma read_number_int: "stops rest \<Longrightarrow> read_number (int_str i @ rest) = Some (JInt i, rest)"
proof -
  assume st: "stops rest"
  have read: "takeWhile is_digit (nat_str n @ rest) = nat_str n" "dropWhile is_digit (nat_str n @ rest) = rest" for n
    using takeWhile_digits [OF nat_str_digits st] dropWhile_digits [OF nat_str_digits st] by simp_all
  show ?thesis
  proof (cases "i < 0")
    case True
    then show ?thesis by (simp add: int_str_def read_number_def read nat_str_value)
  next
    case False
    obtain c cs where c: "nat_str (nat i) = c # cs" "is_digit c" using nat_str_Cons by blast
    then have "c \<noteq> CHR ''-''" by (auto simp: is_digit_def)
    with False c read [of "nat i"] nat_str_value [of "nat i"] show ?thesis
      by (simp add: int_str_def read_number_def)
  qed
qed

lemma int_str_Cons: "\<exists>c cs. int_str i = c # cs \<and> (is_digit c \<or> c = CHR ''-'')"
  using nat_str_Cons [of "nat i"] by (auto simp: int_str_def)

lemma json_print_start:
  "\<exists>c cs. json_print a j = c # cs \<and> c \<noteq> CHR '']'' \<and> c \<noteq> CHR ''}''"
  using int_str_Cons by (cases j) (fastforce simp: json_quote_def is_digit_def)+

fun json_cost :: "json \<Rightarrow> nat"
  and json_cost_items :: "json list \<Rightarrow> nat"
  and json_cost_fields :: "(string \<times> json) list \<Rightarrow> nat" where
  "json_cost (JList js) = Suc (json_cost_items js)"
| "json_cost (JObj fs) = Suc (json_cost_fields fs)"
| "json_cost _ = 1"
| "json_cost_items [] = 0"
| "json_cost_items (j # js) = Suc (json_cost j + json_cost_items js)"
| "json_cost_fields [] = 0"
| "json_cost_fields ((k, j) # fs) = Suc (json_cost j + json_cost_fields fs)"

lemma stops_simps [simp]:
  "stops []" "stops (CHR '','' # r)" "stops (CHR '']'' # r)" "stops (CHR ''}'' # r)"
  by (simp_all add: stops_def is_digit_def)

lemma read_printed:
  "json_cost j \<le> n \<Longrightarrow> stops rest \<Longrightarrow> read_value n (json_print a j @ rest) = Some (j, rest)"
  "js \<noteq> [] \<Longrightarrow> json_cost_items js \<le> n \<Longrightarrow>
     read_items n (json_print_items a js @ CHR '']'' # rest) = Some (js, rest)"
  "fs \<noteq> [] \<Longrightarrow> json_cost_fields fs \<le> n \<Longrightarrow>
     read_fields n (json_print_fields a fs @ CHR ''}'' # rest) = Some (fs, rest)"
proof (induction a j and a js and a fs arbitrary: n rest and n rest and n rest
    rule: json_print_json_print_items_json_print_fields.induct)
  case (1 a)
  then show ?case by (cases n) simp_all
next
  case (2 a b)
  then show ?case by (cases n) simp_all
next
  case (3 a i)
  then obtain m where n: "n = Suc m" by (cases n) auto
  obtain c cs where c: "int_str i = c # cs" "is_digit c \<or> c = CHR ''-''" using int_str_Cons by blast
  from c(2) have "c \<noteq> CHR 0x22" "c \<noteq> CHR ''n''" "c \<noteq> CHR ''t''" "c \<noteq> CHR ''f''" "c \<noteq> CHR ''[''" "c \<noteq> CHR ''{''"
    by (auto simp: is_digit_def)
  with c(1) read_number_int [OF 3(2), of i] show ?case by (simp add: n)
next
  case (4 a s)
  then show ?case by (cases n) (simp_all add: json_quote_def read_chars_quote)
next
  case (5 a js)
  then obtain m where n: "n = Suc m" and m: "json_cost_items js \<le> m" by (cases n) auto
  show ?case
  proof (cases js)
    case Nil
    then show ?thesis by (simp add: n)
  next
    case (Cons j js')
    obtain c cs where "json_print a j = c # cs" "c \<noteq> CHR '']''" using json_print_start by blast
    then have "\<exists>cs. json_print_items a js = c # cs \<and> c \<noteq> CHR '']''" by (cases js') (auto simp: Cons)
    then show ?thesis using 5(1) [OF _ m] by (auto simp: n Cons)
  qed
next
  case (6 a fs)
  then obtain m where n: "n = Suc m" and m: "json_cost_fields fs \<le> m" by (cases n) auto
  show ?case
  proof (cases fs)
    case Nil
    then show ?thesis by (simp add: n)
  next
    case (Cons f fs')
    then have "\<exists>cs. json_print_fields a fs = CHR 0x22 # cs"
      by (cases f; cases fs') (auto simp: json_quote_def)
    then show ?thesis using 6(1) [OF _ m] by (auto simp: n Cons)
  qed
next
  case (8 a j)
  then obtain m where n: "n = Suc m" "json_cost j \<le> m" by (cases n) auto
  with 8(1) [OF n(2)] show ?case by simp
next
  case (9 a j j' js)
  then obtain m where n: "n = Suc m" "json_cost j \<le> m" "json_cost_items (j' # js) \<le> m" by (cases n) auto
  with 9(1) [OF n(2)] 9(2) [OF _ n(3)] show ?case by simp
next
  case (11 a k j)
  then obtain m where n: "n = Suc m" "json_cost j \<le> m" by (cases n) auto
  with 11(1) [OF n(2)] show ?case by (simp add: json_quote_def read_chars_quote)
next
  case (12 a k j f fs)
  then obtain m where n: "n = Suc m" "json_cost j \<le> m" "json_cost_fields (f # fs) \<le> m"
    by (cases n) auto
  with 12(1) [OF n(2)] 12(2) [OF _ n(3)] show ?case by (simp add: json_quote_def read_chars_quote)
qed simp_all

lemma cost_bound:
  "json_cost j \<le> 2 * length (json_print a j)"
  "json_cost_items js \<le> 2 * length (json_print_items a js) + 1"
  "json_cost_fields fs \<le> 2 * length (json_print_fields a fs) + 1"
proof (induction a j and a js and a fs rule: json_print_json_print_items_json_print_fields.induct)
  case (3 a i)
  then show ?case using int_str_Cons [of i] by auto
qed (auto simp: json_quote_def)

theorem json_loads_print: "json_loads (json_print a j) = Some j"
proof -
  have "json_cost j \<le> 2 * length (json_print a j) + 2" using cost_bound(1) [of j a] by simp
  from read_printed(1) [OF this, of "[]" a] show ?thesis by (simp add: json_loads_def)
qed

lemma json_loads_dumps: "json_loads (json_dumps a j) = Some (json_sort j)"
  by (simp add: json_dumps_def json_loads_print)

text \<open>The parser the service relies on.\<close>

fun json_keys_distinct :: "json \<Rightarrow> bool"
  and json_items_distinct :: "json list \<Rightarrow> bool"
  and json_fields_distinct :: "(string \<times> json) list \<Rightarrow> bool" where
  "json_keys_distinct (JList js) = json_items_distinct js"
| "json_keys_distinct (JObj fs) = (distinct (map fst fs) \<and> json_fields_distinct fs)"
| "json_keys_distinct _ = True"
| "json_items_distinct [] = True"
| "json_items_distinct (j # js) = (json_keys_distinct j \<and> json_items_distinct js)"
| "json_fields_distinct [] = True"
| "json_fields_distinct ((k, j) # fs) = (json_keys_distinct j \<and> json_fields_distinct fs)"

definition reads_json :: "(string \<Rightarrow> json option) \<Rightarrow> bool" where
  "reads_json validate_json \<longleftrightarrow>
     (\<forall>a j. json_keys_distinct j \<longrightarrow> validate_json (json_dumps a j) = Some (json_sort j))"

lemma json_loads_reads: "reads_json json_loads"
  by (simp add: reads_json_def json_loads_dumps)

text \<open>Sorting the keys does not change what an object maps a key to.\<close>

lemma json_sort_fields_map: "json_sort_fields fs = map (\<lambda>(k, j). (k, json_sort j)) fs"
  by (induction fs) auto

lemma map_of_sort_key: "distinct (map fst fs) \<Longrightarrow> map_of (sort_key fst fs) k = map_of fs k"
  using map_of_inject_set [of "sort_key fst fs" fs] by (simp add: distinct_map)

lemma json_field_sort:
  "distinct (map fst fs) \<Longrightarrow> json_field k (json_sort (JObj fs)) = map_option json_sort (json_field k (JObj fs))"
proof -
  assume d: "distinct (map fst fs)"
  have fst: "map fst (json_sort_fields fs) = map fst fs"
    by (simp add: json_sort_fields_map case_prod_beta comp_def)
  have "map_of (json_sort_fields fs) k = map_option json_sort (map_of fs k)"
    unfolding json_sort_fields_map by (induction fs) auto
  with d fst show ?thesis by (simp add: json_field_def map_of_sort_key)
qed

end
