(* ===== verification/Security.thy ===== *)
theory Security
  imports Database Json
begin

section \<open>Tokens, replay envelopes and passwords\<close>

text \<open>
  \<open>infrastructure/security\<close> and the DTOs of \<open>application/ports/dto/security.py\<close> and
  \<open>application/dto\<close>. PyJWT, the AES-GCM of \<open>cryptography\<close>, \<open>pwdlib\<close>, the conversions of pydantic and
  SHA-256 are parameters. Random numbers come from programs of the environment (\<open>secrets\<close>,
  \<open>os.urandom\<close>). Claims are JSON values with integer numbers. The semaphore that limits the number
  of concurrent Argon2 threads is not modelled: it only delays.
\<close>

subsection \<open>DTOs\<close>

definition role_value :: "user_role \<Rightarrow> string" where
  "role_value r = (case r of USER \<Rightarrow> ''USER'' | ADMIN \<Rightarrow> ''ADMIN'')"

definition role_of_value :: "string \<Rightarrow> user_role option" where
  "role_of_value s = (if s = ''USER'' then Some USER else if s = ''ADMIN'' then Some ADMIN else None)"

record access_principal =
  ap_user_id :: uuid
  ap_role :: user_role

record token_pair =
  tp_access_token :: string
  tp_refresh_token :: string
  tp_token_type :: string

record issued_token_pair =
  itp_pair :: token_pair
  itp_refresh_digest :: bytes

record issued_refresh_token =
  irt_value :: string
  irt_digest :: bytes

definition IssuedRefreshToken :: "issued_refresh_token \<Rightarrow> exn + issued_refresh_token" where
  "IssuedRefreshToken t =
     (if irt_value t = [] then Inl TokenIssuanceError
      else if length (irt_digest t) \<noteq> 32 then Inl TokenIssuanceError else Inr t)"

text \<open>\<open>TokenPair.model_dump(mode="json")\<close> and \<open>TokenPair.model_validate\<close> of a \<open>dict[str, str]\<close>.\<close>

definition pair_json :: "token_pair \<Rightarrow> json" where
  "pair_json p = JObj [(''access_token'', JStr (tp_access_token p)), (''refresh_token'', JStr (tp_refresh_token p)),
     (''token_type'', JStr (tp_token_type p))]"

definition pair_of_dict :: "(string \<times> string) list \<Rightarrow> exn + token_pair" where
  "pair_of_dict d =
     (case (map_of d ''access_token'', map_of d ''refresh_token'') of
        (Some a, Some r) \<Rightarrow>
          Inr \<lparr>tp_access_token = a, tp_refresh_token = r,
               tp_token_type = (case map_of d ''token_type'' of None \<Rightarrow> ''bearer'' | Some t \<Rightarrow> t)\<rparr>
      | _ \<Rightarrow> Inl ValidationError)"

subsection \<open>Opaque refresh tokens\<close>

definition opaque_digest :: "(bytes \<Rightarrow> bytes) \<Rightarrow> string \<Rightarrow> bytes" where
  "opaque_digest sha256 token = sha256 (utf8 token)"

definition opaque_issue ::
    "(bytes \<Rightarrow> bytes) \<Rightarrow> ('e, string) io \<Rightarrow> ('e, issued_refresh_token) io" where
  "opaque_issue sha256 token_urlsafe =
     bind token_urlsafe (\<lambda>token.
       liftr (IssuedRefreshToken \<lparr>irt_value = token, irt_digest = opaque_digest sha256 token\<rparr>))"

subsection \<open>Access tokens\<close>

record access_payload =
  jc_iss :: string
  jc_sub :: string
  jc_aud :: "string list"
  jc_iat :: datetime
  jc_exp :: datetime
  jc_jti :: string
  jc_role :: string

datatype jwt_failure =
    JwtExpiredSignature | PyJWTError | JwtTypeError | JwtValueError | JwtOverflowError | JwtRaises exn

record 'k jwt_lib =
  jl_encode :: "'k \<Rightarrow> json \<Rightarrow> access_payload \<Rightarrow> jwt_failure + string"
  jl_header :: "string \<Rightarrow> jwt_failure + json"
  jl_decode :: "'k \<Rightarrow> string \<Rightarrow> string \<Rightarrow> timedelta \<Rightarrow> string \<Rightarrow> jwt_failure + json"
  jl_uuid :: "json \<Rightarrow> uuid option"
  jl_datetime :: "json \<Rightarrow> datetime option"
  jl_key_size :: "'k \<Rightarrow> int"

record 'k access_issuer =
  ai_private_key :: 'k
  ai_key_id :: string
  ai_issuer :: string
  ai_audiences :: "string list"
  ai_ttl :: timedelta

text \<open>A frozen set of strings is the sorted list of its elements.\<close>

definition PyJWTAccessTokenIssuer :: "'k access_issuer \<Rightarrow> exn + 'k access_issuer" where
  "PyJWTAccessTokenIssuer c =
     (let key_id = py_strip (ai_key_id c);
          issuer = py_strip (ai_issuer c);
          audiences = sort (remdups (map py_strip (ai_audiences c)))
      in if key_id = [] then Inl InvalidTokenConfigurationError
         else if issuer = [] then Inl InvalidTokenConfigurationError
         else if audiences = [] \<or> list_ex (\<lambda>a. a = []) audiences then Inl InvalidTokenConfigurationError
         else if ai_ttl c \<le> 0 then Inl InvalidTokenConfigurationError
         else Inr (c\<lparr>ai_key_id := key_id, ai_issuer := issuer, ai_audiences := audiences\<rparr>))"

definition jwt_headers :: "'k access_issuer \<Rightarrow> json" where
  "jwt_headers c = JObj [(''typ'', JStr ''at+jwt''), (''kid'', JStr (ai_key_id c))]"

definition access_claims :: "'k access_issuer \<Rightarrow> access_principal \<Rightarrow> datetime \<Rightarrow> uuid \<Rightarrow> access_payload" where
  "access_claims c subject now jti =
     \<lparr>jc_iss = ai_issuer c, jc_sub = uuid_str (ap_user_id subject), jc_aud = ai_audiences c,
      jc_iat = now, jc_exp = plus_delta now (ai_ttl c), jc_jti = uuid_str jti,
      jc_role = role_value (ap_role subject)\<rparr>"

definition access_issue ::
    "'k jwt_lib \<Rightarrow> 'k access_issuer \<Rightarrow> access_principal \<Rightarrow> datetime \<Rightarrow> ('e, string) io" where
  "access_issue lib c subject now =
     (if \<not> tz_aware now then throw TokenIssuanceError
      else bind new_uuid (\<lambda>jti.
        case jl_encode lib (ai_private_key c) (jwt_headers c) (access_claims c subject now jti) of
          Inr token \<Rightarrow> return token
        | Inl JwtOverflowError \<Rightarrow> throw OverflowError
        | Inl (JwtRaises e) \<Rightarrow> throw e
        | Inl _ \<Rightarrow> throw TokenIssuanceError))"

record 'k access_verifier =
  av_public_keys :: "(string \<times> 'k) list"
  av_issuer :: string
  av_audience :: string
  av_leeway :: timedelta

fun normalize_keys :: "('k \<Rightarrow> int) \<Rightarrow> (string \<times> 'k) list \<Rightarrow> (string \<times> 'k) list \<Rightarrow> exn + (string \<times> 'k) list" where
  "normalize_keys key_size seen [] = Inr seen"
| "normalize_keys key_size seen ((key_id, key) # rest) =
     (let normalized = py_strip key_id in
      if normalized = [] then Inl InvalidTokenConfigurationError
      else if map_of seen normalized \<noteq> None then Inl InvalidTokenConfigurationError
      else if key_size key < 2048 then Inl InvalidTokenSigningKeyError
      else normalize_keys key_size (seen @ [(normalized, key)]) rest)"

definition PyJWTAccessTokenVerifier ::
    "('k \<Rightarrow> int) \<Rightarrow> 'k access_verifier \<Rightarrow> exn + 'k access_verifier" where
  "PyJWTAccessTokenVerifier key_size v =
     (let issuer = py_strip (av_issuer v); audience = py_strip (av_audience v) in
      if issuer = [] \<or> audience = [] then Inl InvalidTokenConfigurationError
      else if av_leeway v < 0 then Inl InvalidTokenConfigurationError
      else if av_public_keys v = [] then Inl InvalidTokenConfigurationError
      else bind_res (normalize_keys key_size [] (av_public_keys v)) (\<lambda>keys.
        Inr (v\<lparr>av_public_keys := keys, av_issuer := issuer, av_audience := audience\<rparr>)))"

definition select_public_key :: "'k jwt_lib \<Rightarrow> 'k access_verifier \<Rightarrow> string \<Rightarrow> exn + 'k" where
  "select_public_key lib v token =
     (if token = [] then Inl TokenMalformedError
      else case jl_header lib token of
        Inl JwtOverflowError \<Rightarrow> Inl OverflowError
      | Inl (JwtRaises e) \<Rightarrow> Inl e
      | Inl _ \<Rightarrow> Inl TokenMalformedError
      | Inr header \<Rightarrow>
          if json_field ''alg'' header \<noteq> Some (JStr ''RS256'') then Inl TokenMalformedError
          else if json_field ''typ'' header \<noteq> Some (JStr ''at+jwt'') then Inl TokenMalformedError
          else case json_field ''kid'' header of
            Some (JStr key_id) \<Rightarrow>
              (case map_of (av_public_keys v) key_id of None \<Rightarrow> Inl TokenMalformedError | Some key \<Rightarrow> Inr key)
          | _ \<Rightarrow> Inl TokenMalformedError)"

record access_token_claims =
  ac_issuer :: string
  ac_user_id :: uuid
  ac_audiences :: "string list"
  ac_issued_at :: datetime
  ac_expires_at :: datetime
  ac_token_id :: uuid
  ac_role :: user_role

text \<open>
  \<open>AccessTokenClaims.model_validate\<close>. Every failure, of a field, of a validator or of the final
  check, reaches the caller of \<open>verify\<close> as \<open>InvalidTokenDataError\<close>; \<open>None\<close> stands for it.
\<close>

definition non_blank :: "json \<Rightarrow> string option" where
  "non_blank j = (case j of JStr s \<Rightarrow> if py_strip s = [] then None else Some (py_strip s) | _ \<Rightarrow> None)"

fun non_blanks :: "json list \<Rightarrow> string list option" where
  "non_blanks [] = Some []"
| "non_blanks (j # js) =
     (case (non_blank j, non_blanks js) of (Some a, Some r) \<Rightarrow> Some (a # r) | _ \<Rightarrow> None)"

definition audiences_of :: "json \<Rightarrow> string list option" where
  "audiences_of j =
     (case j of
        JStr s \<Rightarrow> map_option (\<lambda>a. [a]) (non_blank (JStr s))
      | JList js \<Rightarrow> (case non_blanks js of
            None \<Rightarrow> None | Some [] \<Rightarrow> None | Some as \<Rightarrow> Some (sort (remdups as)))
      | _ \<Rightarrow> None)"

definition numeric_date :: "(json \<Rightarrow> datetime option) \<Rightarrow> json \<Rightarrow> datetime option" where
  "numeric_date datetime_of j =
     (case j of
        JInt i \<Rightarrow> (case datetime_of j of Some t \<Rightarrow> if tz_aware t then Some t else None | None \<Rightarrow> None)
      | _ \<Rightarrow> None)"

definition claim :: "(json \<Rightarrow> 'a option) \<Rightarrow> string \<Rightarrow> json \<Rightarrow> 'a option" where
  "claim f k payload = Option.bind (json_field k payload) f"

definition claims_of_payload :: "'k jwt_lib \<Rightarrow> json \<Rightarrow> access_token_claims option" where
  "claims_of_payload lib payload =
     Option.bind (claim non_blank ''iss'' payload) (\<lambda>iss.
     Option.bind (claim (jl_uuid lib) ''sub'' payload) (\<lambda>sub.
     Option.bind (claim audiences_of ''aud'' payload) (\<lambda>aud.
     Option.bind (claim (numeric_date (jl_datetime lib)) ''iat'' payload) (\<lambda>iat.
     Option.bind (claim (numeric_date (jl_datetime lib)) ''exp'' payload) (\<lambda>exp.
     Option.bind (claim (jl_uuid lib) ''jti'' payload) (\<lambda>jti.
     Option.bind (claim (\<lambda>j. case j of JStr s \<Rightarrow> role_of_value s | _ \<Rightarrow> None) ''role'' payload) (\<lambda>role.
       if exp \<le> iat then None
       else Some \<lparr>ac_issuer = iss, ac_user_id = sub, ac_audiences = aud, ac_issued_at = iat,
                  ac_expires_at = exp, ac_token_id = jti, ac_role = role\<rparr>)))))))"

definition access_verify :: "'k jwt_lib \<Rightarrow> 'k access_verifier \<Rightarrow> string \<Rightarrow> exn + access_token_claims" where
  "access_verify lib v token =
     bind_res (select_public_key lib v token) (\<lambda>public_key.
       case jl_decode lib public_key (av_issuer v) (av_audience v) (av_leeway v) token of
         Inl JwtExpiredSignature \<Rightarrow> Inl TokenExpiredError
       | Inl (JwtRaises e) \<Rightarrow> Inl e
       | Inl _ \<Rightarrow> Inl TokenMalformedError
       | Inr payload \<Rightarrow>
           (case claims_of_payload lib payload of None \<Rightarrow> Inl InvalidTokenDataError | Some c \<Rightarrow> Inr c))"

subsection \<open>\<open>TokenPairIssuer\<close>\<close>

record ('k, 'e) token_issuer =
  ti_lib :: "'k jwt_lib"
  ti_access :: "'k access_issuer"
  ti_sha256 :: "bytes \<Rightarrow> bytes"
  ti_token_urlsafe :: "('e, string) io"

definition issue_pair :: "('k, 'e) token_issuer \<Rightarrow> user \<Rightarrow> datetime \<Rightarrow> ('e, issued_token_pair) io" where
  "issue_pair ti user now =
     bind (access_issue (ti_lib ti) (ti_access ti) \<lparr>ap_user_id = u_id user, ap_role = u_role user\<rparr> now) (\<lambda>access.
     bind (opaque_issue (ti_sha256 ti) (ti_token_urlsafe ti)) (\<lambda>refresh.
       return \<lparr>itp_pair = \<lparr>tp_access_token = access, tp_refresh_token = irt_value refresh, tp_token_type = ''bearer''\<rparr>,
               itp_refresh_digest = irt_digest refresh\<rparr>))"

subsection \<open>RSA keys\<close>

text \<open>The file is its bytes or unreadable; the PEM reader of \<open>cryptography\<close> is a parameter.\<close>

datatype 'k pem = PemRefused | PemOtherKey | PemRSA 'k

definition load_rsa_key :: "(bytes \<Rightarrow> 'k pem) \<Rightarrow> ('k \<Rightarrow> int) \<Rightarrow> bytes option \<Rightarrow> exn + 'k" where
  "load_rsa_key load_pem key_size file =
     (case file of
        None \<Rightarrow> Inl InvalidTokenSigningKeyError
      | Some pem \<Rightarrow>
          (case load_pem pem of
             PemRSA key \<Rightarrow> if key_size key < 2048 then Inl InvalidTokenSigningKeyError else Inr key
           | _ \<Rightarrow> Inl InvalidTokenSigningKeyError))"

definition load_rsa_key_pair ::
    "(bytes \<Rightarrow> 'p pem) \<Rightarrow> (bytes \<Rightarrow> 'k pem) \<Rightarrow> ('p \<Rightarrow> int) \<Rightarrow> ('k \<Rightarrow> int) \<Rightarrow> ('p \<Rightarrow> 'n) \<Rightarrow> ('k \<Rightarrow> 'n)
     \<Rightarrow> bytes option \<Rightarrow> bytes option \<Rightarrow> exn + 'p \<times> 'k" where
  "load_rsa_key_pair private_pem public_pem private_size public_size private_numbers public_numbers
       private_file public_file =
     bind_res (load_rsa_key private_pem private_size private_file) (\<lambda>private_key.
     bind_res (load_rsa_key public_pem public_size public_file) (\<lambda>public_key.
       if private_numbers private_key \<noteq> public_numbers public_key then Inl InvalidTokenSigningKeyError
       else Inr (private_key, public_key)))"

subsection \<open>Base64\<close>

definition b64_char :: "nat \<Rightarrow> char" where
  "b64_char n =
     char_of (if n < 26 then n + 65 else if n < 52 then n + 71 else if n < 62 then n - 4
              else if n = 62 then 43 else 47)"

definition b64_value :: "char \<Rightarrow> nat option" where
  "b64_value c =
     (let n = (of_char c :: nat) in
      if 65 \<le> n \<and> n \<le> 90 then Some (n - 65)
      else if 97 \<le> n \<and> n \<le> 122 then Some (n - 71)
      else if 48 \<le> n \<and> n \<le> 57 then Some (n + 4)
      else if n = 43 then Some 62 else if n = 47 then Some 63 else None)"

fun b64encode :: "bytes \<Rightarrow> string" where
  "b64encode [] = []"
| "b64encode [a] = [b64_char (a div 4), b64_char (a mod 4 * 16), CHR ''='', CHR ''='']"
| "b64encode [a, b] =
     [b64_char (a div 4), b64_char (a mod 4 * 16 + b div 16), b64_char (b mod 16 * 4), CHR ''='']"
| "b64encode (a # b # c # bs) =
     b64_char (a div 4) # b64_char (a mod 4 * 16 + b div 16) # b64_char (b mod 16 * 4 + c div 64) #
     b64_char (c mod 64) # b64encode bs"

text \<open>\<open>b64decode(s, validate=True)\<close>; \<open>None\<close> is \<open>binascii.Error\<close>, a \<open>ValueError\<close>.\<close>

fun b64decode :: "string \<Rightarrow> bytes option" where
  "b64decode [] = Some []"
| "b64decode (a # b # c # d # rest) =
     (case (b64_value a, b64_value b) of
        (Some x, Some y) \<Rightarrow>
          if rest = [] \<and> d = CHR ''=''
          then (if c = CHR ''='' then Some [x * 4 + y div 16]
                else map_option (\<lambda>z. [x * 4 + y div 16, y mod 16 * 16 + z div 4]) (b64_value c))
          else (case (b64_value c, b64_value d) of
                  (Some z, Some u) \<Rightarrow>
                    map_option (\<lambda>bs. (x * 4 + y div 16) # (y mod 16 * 16 + z div 4) # (z mod 4 * 64 + u) # bs)
                      (b64decode rest)
                | _ \<Rightarrow> None)
      | _ \<Rightarrow> None)"
| "b64decode _ = None"

definition load_replay_key :: "bytes \<Rightarrow> exn + bytes" where
  "load_replay_key raw =
     (if length raw = 32 then Inr raw
      else
        let text = map char_of raw;
            stripped = rev (dropWhile ascii_space (rev (dropWhile ascii_space text)))
        in case b64decode stripped of
             None \<Rightarrow> Inl ValueError
           | Some decoded \<Rightarrow> if length decoded \<noteq> 32 then Inl ValueError else Inr decoded)"

subsection \<open>\<open>AESGCMReplayResultProtector\<close>\<close>

record 'e protector =
  pr_active_key_id :: string
  pr_keys :: "(string \<times> bytes) list"
  pr_encrypt :: "bytes \<Rightarrow> bytes \<Rightarrow> bytes \<Rightarrow> bytes \<Rightarrow> bytes"
  pr_decrypt :: "bytes \<Rightarrow> bytes \<Rightarrow> bytes \<Rightarrow> bytes \<Rightarrow> bytes option"
  pr_validate_json :: "bytes \<Rightarrow> json option"
  pr_urandom :: "('e, bytes) io"

definition AESGCMReplayResultProtector :: "'e protector \<Rightarrow> exn + 'e protector" where
  "AESGCMReplayResultProtector p =
     (if map_of (pr_keys p) (pr_active_key_id p) = None \<or> list_ex (\<lambda>(_, key). length key \<noteq> 32) (pr_keys p)
      then Inl ValueError else Inr p)"

definition protect :: "'e protector \<Rightarrow> json \<Rightarrow> bytes \<Rightarrow> ('e, json) io" where
  "protect p payload aad =
     bind (pr_urandom p) (\<lambda>nonce.
       let plaintext = utf8 (json_dumps True payload) in
       case map_of (pr_keys p) (pr_active_key_id p) of
         None \<Rightarrow> throw KeyError
       | Some key \<Rightarrow>
           return (JObj [(''version'', JInt 1), (''algorithm'', JStr ''AES-256-GCM''),
             (''key_id'', JStr (pr_active_key_id p)), (''nonce'', JStr (b64encode nonce)),
             (''ciphertext'', JStr (b64encode (pr_encrypt p key nonce plaintext aad)))]))"

text \<open>
  \<open>str(value)\<close> of an envelope field. The text of a list or an object is neither base64 nor the name
  of a key, so it is \<open>None\<close>: the same \<open>RefreshReplayUnavailableError\<close>.
\<close>

definition py_str :: "json \<Rightarrow> string option" where
  "py_str j =
     (case j of
        JStr s \<Rightarrow> Some s | JInt i \<Rightarrow> Some (int_str i) | JBool b \<Rightarrow> Some (if b then ''True'' else ''False'')
      | JNull \<Rightarrow> Some ''None'' | _ \<Rightarrow> None)"

fun dict_str_str :: "(string \<times> json) list \<Rightarrow> (string \<times> string) list option" where
  "dict_str_str [] = Some []"
| "dict_str_str ((k, j) # fs) =
     (case (j, dict_str_str fs) of (JStr s, Some d) \<Rightarrow> Some ((k, s) # d) | _ \<Rightarrow> None)"

definition restore_option :: "'e protector \<Rightarrow> json \<Rightarrow> bytes \<Rightarrow> (string \<times> string) list option" where
  "restore_option p envelope aad =
     (if json_field ''version'' envelope \<notin> {Some (JInt 1), Some (JBool True)} then None
      else if json_field ''algorithm'' envelope \<noteq> Some (JStr ''AES-256-GCM'') then None
      else
        Option.bind (Option.bind (json_field ''key_id'' envelope) py_str) (\<lambda>key_id.
        Option.bind (map_of (pr_keys p) key_id) (\<lambda>key.
        Option.bind (Option.bind (Option.bind (json_field ''nonce'' envelope) py_str) b64decode) (\<lambda>nonce.
        Option.bind (Option.bind (Option.bind (json_field ''ciphertext'' envelope) py_str) b64decode) (\<lambda>ciphertext.
        Option.bind (pr_decrypt p key nonce ciphertext aad) (\<lambda>plaintext.
          case pr_validate_json p plaintext of Some (JObj fs) \<Rightarrow> dict_str_str fs | _ \<Rightarrow> None))))))"

definition restore :: "'e protector \<Rightarrow> json \<Rightarrow> bytes \<Rightarrow> exn + (string \<times> string) list" where
  "restore p envelope aad =
     (case restore_option p envelope aad of None \<Rightarrow> Inl RefreshReplayUnavailableError | Some d \<Rightarrow> Inr d)"

subsection \<open>\<open>Argon2PasswordHasher\<close>\<close>

datatype hash_failure = KdfHashingError | HashRaises exn

datatype verify_failure = KdfUnknownHashError | VerifyRaises exn

record 'e hasher =
  ph_max_concurrency :: int
  ph_jitter_min_ms :: int
  ph_jitter_max_ms :: int
  ph_random_below :: "int \<Rightarrow> ('e, int) io"
  ph_hash :: "string \<Rightarrow> hash_failure + string"
  ph_verify :: "string \<Rightarrow> string \<Rightarrow> verify_failure + bool"

definition Argon2PasswordHasher :: "'e hasher \<Rightarrow> exn + 'e hasher" where
  "Argon2PasswordHasher h =
     (if ph_max_concurrency h \<le> 0 then Inl ValueError
      else if ph_jitter_min_ms h < 0 \<or> ph_jitter_max_ms h < ph_jitter_min_ms h then Inl ValueError
      else Inr h)"

definition sleep_jitter :: "'e hasher \<Rightarrow> ('e, unit) io" where
  "sleep_jitter h =
     (let window_ms = ph_jitter_max_ms h - ph_jitter_min_ms h + 1 in
      bind (ph_random_below h window_ms) (\<lambda>r.
        let delay_ms = ph_jitter_min_ms h + r in
        if 0 < delay_ms then emit (Slept (Finite (of_int delay_ms / 1000))) else return ()))"

definition kdf_caught :: "exn \<Rightarrow> bool" where
  "kdf_caught e \<longleftrightarrow> isinstance e ValueError \<or> isinstance e RuntimeError"

text \<open>The run of the KDF in its thread leaves a mark in the trace.\<close>

definition hash_password :: "'e hasher \<Rightarrow> string \<Rightarrow> ('e, string) io" where
  "hash_password h password =
     bind (sleep_jitter h) (\<lambda>_. bind (emit (Observed ''argon2'' ''hash'')) (\<lambda>_.
       case ph_hash h password of
         Inr password_hash \<Rightarrow> return password_hash
       | Inl KdfHashingError \<Rightarrow> throw PasswordHashingError
       | Inl (HashRaises e) \<Rightarrow> if kdf_caught e then throw PasswordHashingError else throw e))"

definition verify_password :: "'e hasher \<Rightarrow> string \<Rightarrow> string \<Rightarrow> ('e, bool) io" where
  "verify_password h password password_hash =
     bind (sleep_jitter h) (\<lambda>_. bind (emit (Observed ''argon2'' ''verify'')) (\<lambda>_.
       case ph_verify h password password_hash of
         Inr ok \<Rightarrow> return ok
       | Inl KdfUnknownHashError \<Rightarrow> throw PasswordHashingError
       | Inl (VerifyRaises e) \<Rightarrow> if kdf_caught e then throw PasswordHashingError else throw e))"

definition verify_or_dummy :: "'e hasher \<Rightarrow> string \<Rightarrow> string option \<Rightarrow> ('e, bool) io" where
  "verify_or_dummy h password password_hash =
     (case password_hash of
        None \<Rightarrow> bind (hash_password h password) (\<lambda>_. return False)
      | Some ph \<Rightarrow> verify_password h password ph)"

subsection \<open>Base64 is lossless\<close>

lemma b64_value_char [simp]: "n < 64 \<Longrightarrow> b64_value (b64_char n) = Some n"
  by (auto simp: b64_value_def b64_char_def Let_def)

lemma b64_char_neq_pad [simp]: "n < 64 \<Longrightarrow> b64_char n \<noteq> CHR ''=''"
  using b64_value_char [of n] by (auto simp: b64_value_def)

lemma b64_parts:
  fixes a b c :: nat
  assumes "a < 256" "b < 256" "c < 256"
  shows "a div 4 < 64" "a mod 4 * 16 < 64" "a mod 4 * 16 + b div 16 < 64" "b mod 16 * 4 < 64"
    "b mod 16 * 4 + c div 64 < 64"
    "a div 4 * 4 + (a mod 4 * 16 + b div 16) div 16 = a"
    "(a mod 4 * 16 + b div 16) mod 16 * 16 + (b mod 16 * 4 + c div 64) div 4 = b"
    "(b mod 16 * 4 + c div 64) mod 4 * 64 + c mod 64 = c"
proof -
  have "a div 4 < 64" "b div 16 < 16" "c div 64 < 4"
    using assms by (auto intro: less_mult_imp_div_less)
  moreover have "a mod 4 < 4" "b mod 16 < 16" by simp_all
  ultimately show "a div 4 < 64" "a mod 4 * 16 < 64" "a mod 4 * 16 + b div 16 < 64" "b mod 16 * 4 < 64"
    "b mod 16 * 4 + c div 64 < 64" by linarith+
  show "a div 4 * 4 + (a mod 4 * 16 + b div 16) div 16 = a"
    using \<open>b div 16 < 16\<close> by simp
  show "(a mod 4 * 16 + b div 16) mod 16 * 16 + (b mod 16 * 4 + c div 64) div 4 = b"
    using \<open>b div 16 < 16\<close> \<open>c div 64 < 4\<close> by simp
  show "(b mod 16 * 4 + c div 64) mod 4 * 64 + c mod 64 = c"
    using \<open>c div 64 < 4\<close> by simp
qed

lemma b64decode_encode: "(\<And>b. b \<in> set bs \<Longrightarrow> b < 256) \<Longrightarrow> b64decode (b64encode bs) = Some bs"
proof (induction bs rule: b64encode.induct)
  case (2 a)
  then show ?case using b64_parts [of a 0 0] by simp
next
  case (3 a b)
  then show ?case using b64_parts [of a b 0] by simp
next
  case (4 a b c bs)
  then have "a < 256" "b < 256" "c < 256" "b64decode (b64encode bs) = Some bs" by simp_all
  then show ?case using b64_parts [of a b c] by simp
qed simp

subsection \<open>The text of an envelope is ASCII\<close>

definition ascii :: "string \<Rightarrow> bool" where
  "ascii s \<longleftrightarrow> (\<forall>c \<in> set s. of_char c < (128::nat))"

lemma ascii_simps [simp]:
  "ascii []" "ascii (c # s) \<longleftrightarrow> of_char c < (128::nat) \<and> ascii s" "ascii (s @ t) \<longleftrightarrow> ascii s \<and> ascii t"
  by (auto simp: ascii_def)

lemma ascii_hex_digit: "n < 16 \<Longrightarrow> of_char (hex_digit n) < (128::nat)"
  by (auto simp: hex_digit_def)

lemma ascii_escape: "ascii (escape_char True c)"
proof -
  have "(of_char c :: nat) div 16 < 16" by (rule less_mult_imp_div_less) simp
  then show ?thesis by (auto simp: escape_char_def Let_def ascii_hex_digit)
qed

lemma ascii_quote: "ascii (json_quote True s)"
proof -
  have "ascii (concat (map (escape_char True) s))" by (induction s) (simp_all add: ascii_escape)
  then show ?thesis by (simp add: json_quote_def)
qed

lemma ascii_int_str: "ascii (int_str i)"
proof -
  have "ascii (nat_str n)" for n
    using nat_str_digits [of n] by (fastforce simp: ascii_def list_all_iff is_digit_def Let_def)
  then show ?thesis by (simp add: int_str_def)
qed

lemma ascii_print:
  "a \<Longrightarrow> ascii (json_print a j)" "a \<Longrightarrow> ascii (json_print_items a js)" "a \<Longrightarrow> ascii (json_print_fields a fs)"
  by (induction a j and a js and a fs rule: json_print_json_print_items_json_print_fields.induct)
    (simp_all add: ascii_int_str ascii_quote)

lemma utf8_ascii: "ascii s \<Longrightarrow> map char_of (utf8 s) = s"
  by (induction s) (simp_all add: utf8_def utf8_char_def)

definition reads_json_bytes :: "(bytes \<Rightarrow> json option) \<Rightarrow> bool" where
  "reads_json_bytes validate_json \<longleftrightarrow>
     (\<forall>j. json_keys_distinct j \<longrightarrow> validate_json (utf8 (json_dumps True j)) = Some (json_sort j))"

lemma json_loads_bytes: "reads_json_bytes (json_loads \<circ> map char_of)"
  by (simp add: reads_json_bytes_def utf8_ascii json_dumps_def ascii_print json_loads_print)

subsection \<open>Properties\<close>

text \<open>
  What is assumed of the libraries behind the envelope: AES-GCM decrypts what it encrypted under the
  same key, nonce and associated data, and its output and the nonce are bytes; the parser reads JSON.
\<close>

definition envelope_libs :: "'e protector \<Rightarrow> bool" where
  "envelope_libs p \<longleftrightarrow>
     (\<forall>key nonce plain aad. (\<forall>b \<in> set plain. b < 256) \<longrightarrow>
        pr_decrypt p key nonce (pr_encrypt p key nonce plain aad) aad = Some plain \<and>
        (\<forall>b \<in> set (pr_encrypt p key nonce plain aad). b < 256)) \<and>
     reads_json_bytes (pr_validate_json p)"

lemma utf8_bytes: "b \<in> set (utf8 s) \<Longrightarrow> b < 256"
proof (induction s)
  case (Cons c s)
  have "(of_char c :: nat) div 64 < 4" by (rule less_mult_imp_div_less) simp
  moreover have "(of_char c :: nat) mod 64 < 64" by simp
  ultimately show ?case
    using Cons unfolding utf8_def by (auto simp: utf8_char_def Let_def split: if_splits)
qed (simp add: utf8_def)

lemma pair_json_sorted: "json_sort (pair_json p) = pair_json p"
  by (simp add: pair_json_def less_list_code less_char_def)

lemma envelope_restores:
  assumes "envelope_libs p" and "protect p (pair_json pair) aad w = (Inr envelope, w')"
    and "\<And>w nonce w'. pr_urandom p w = (Inr nonce, w') \<Longrightarrow> \<forall>b \<in> set nonce. b < 256"
    and "pr_decrypt q = pr_decrypt p" and "pr_validate_json q = pr_validate_json p"
    and "map_of (pr_keys q) (pr_active_key_id p) = map_of (pr_keys p) (pr_active_key_id p)"
  shows "\<exists>d. restore q envelope aad = Inr d \<and> pair_of_dict d = Inr pair"
proof -
  let ?plain = "utf8 (json_dumps True (pair_json pair))"
  from assms(2) obtain nonce w1 key where nonce: "pr_urandom p w = (Inr nonce, w1)"
    and key: "map_of (pr_keys p) (pr_active_key_id p) = Some key"
    and env: "envelope = JObj [(''version'', JInt 1), (''algorithm'', JStr ''AES-256-GCM''),
       (''key_id'', JStr (pr_active_key_id p)), (''nonce'', JStr (b64encode nonce)),
       (''ciphertext'', JStr (b64encode (pr_encrypt p key nonce ?plain aad)))]"
    by (auto simp: protect_def res_simps Let_def split: option.splits)
  have "\<forall>b \<in> set ?plain. b < 256" using utf8_bytes by blast
  then have aes: "pr_decrypt p key nonce (pr_encrypt p key nonce ?plain aad) aad = Some ?plain"
    "\<forall>b \<in> set (pr_encrypt p key nonce ?plain aad). b < 256"
    using assms(1) unfolding envelope_libs_def by blast+
  have dec: "b64decode (b64encode nonce) = Some nonce"
    "b64decode (b64encode (pr_encrypt p key nonce ?plain aad)) = Some (pr_encrypt p key nonce ?plain aad)"
    using assms(3) [OF nonce] aes(2) by (auto intro: b64decode_encode)
  have "json_keys_distinct (pair_json pair)" by (simp add: pair_json_def)
  then have "pr_validate_json p ?plain = Some (pair_json pair)"
    using assms(1) by (simp add: envelope_libs_def reads_json_bytes_def pair_json_sorted)
  then have "restore_option q envelope aad = Some [(''access_token'', tp_access_token pair),
      (''refresh_token'', tp_refresh_token pair), (''token_type'', tp_token_type pair)]"
    using dec aes(1) key assms(4-6) by (simp add: restore_option_def env json_field_def py_str_def) (simp add: pair_json_def)
  then show ?thesis by (simp add: restore_def pair_of_dict_def)
qed

text \<open>
  C17. A token pair survives its replay envelope: what \<open>protect\<close> encrypted for a request, \<open>restore\<close>
  gives back for the same associated data, also after a key rotation, as long as the ring of the
  reading instance still holds the key under its name.
\<close>
theorem replay_envelope_roundtrip:
  assumes "envelope_libs p" and "protect p (pair_json pair) aad w = (Inr envelope, w')"
    and "\<And>w nonce w'. pr_urandom p w = (Inr nonce, w') \<Longrightarrow> \<forall>b \<in> set nonce. b < 256"
    and "pr_decrypt q = pr_decrypt p" and "pr_validate_json q = pr_validate_json p"
    and "map_of (pr_keys q) (pr_active_key_id p) = map_of (pr_keys p) (pr_active_key_id p)"
  shows "\<exists>d. restore q envelope aad = Inr d \<and> pair_of_dict d = Inr pair"
  by (rule envelope_restores [OF assms])

lemma non_blank_not_Nil: "non_blank j = Some s \<Longrightarrow> s \<noteq> []"
  by (auto simp: non_blank_def split: json.splits if_splits)

lemma sort_remdups_Nil: "sort (remdups xs) = [] \<longleftrightarrow> xs = []"
  by (metis set_empty set_remdups set_sort)

lemma audiences_of_not_Nil: "audiences_of j = Some as \<Longrightarrow> as \<noteq> []"
  by (cases j) (auto simp: audiences_of_def non_blank_def sort_remdups_Nil simp del: remdups.simps
      split: list.splits option.splits if_splits)

text \<open>
  C18. A verified access token is a trusted one: \<open>verify\<close> returns claims only for a token with the
  header \<open>alg=RS256\<close>, \<open>typ=at+jwt\<close> and a key id of the local ring, whose signature and standard
  claims PyJWT accepted under that very key; the claims name a non-blank issuer and audience and a
  window of time that is not empty. Everything else is refused with one of the three token errors,
  as long as PyJWT raises only what it documents.
\<close>
theorem verified_token_is_trusted:
  assumes "\<And>e. jl_header lib token \<noteq> Inl (JwtRaises e)" and "jl_header lib token \<noteq> Inl JwtOverflowError"
    and "\<And>k e. jl_decode lib k (av_issuer v) (av_audience v) (av_leeway v) token \<noteq> Inl (JwtRaises e)"
  shows "case access_verify lib v token of
     Inl e \<Rightarrow> e \<in> {TokenMalformedError, TokenExpiredError, InvalidTokenDataError}
   | Inr c \<Rightarrow> (\<exists>header key_id key payload.
       jl_header lib token = Inr header \<and> json_field ''alg'' header = Some (JStr ''RS256'') \<and>
       json_field ''typ'' header = Some (JStr ''at+jwt'') \<and> json_field ''kid'' header = Some (JStr key_id) \<and>
       map_of (av_public_keys v) key_id = Some key \<and>
       jl_decode lib key (av_issuer v) (av_audience v) (av_leeway v) token = Inr payload \<and>
       claims_of_payload lib payload = Some c) \<and>
     ac_issuer c \<noteq> [] \<and> ac_audiences c \<noteq> [] \<and> tz_aware (ac_issued_at c) \<and> tz_aware (ac_expires_at c) \<and>
     ac_issued_at c < ac_expires_at c"
proof -
  have key: "case select_public_key lib v token of Inl e \<Rightarrow> e = TokenMalformedError
     | Inr key \<Rightarrow> \<exists>header key_id. jl_header lib token = Inr header \<and>
         json_field ''alg'' header = Some (JStr ''RS256'') \<and> json_field ''typ'' header = Some (JStr ''at+jwt'') \<and>
         json_field ''kid'' header = Some (JStr key_id) \<and> map_of (av_public_keys v) key_id = Some key"
    using assms(1,2) unfolding select_public_key_def
    by (auto split: sum.splits jwt_failure.splits option.splits json.splits if_splits)
  have claims: "ac_issuer c \<noteq> [] \<and> ac_audiences c \<noteq> [] \<and> tz_aware (ac_issued_at c) \<and>
      tz_aware (ac_expires_at c) \<and> ac_issued_at c < ac_expires_at c"
    if "claims_of_payload lib payload = Some c" for payload c
  proof -
    from that obtain iss aud iat exp where "non_blank iss = Some (ac_issuer c)" "audiences_of aud = Some (ac_audiences c)"
      "numeric_date (jl_datetime lib) iat = Some (ac_issued_at c)"
      "numeric_date (jl_datetime lib) exp = Some (ac_expires_at c)" "\<not> ac_expires_at c \<le> ac_issued_at c"
      by (auto simp: claims_of_payload_def claim_def bind_eq_Some_conv split: if_splits)
    moreover have "numeric_date (jl_datetime lib) j = Some t \<Longrightarrow> tz_aware t" for j t
      by (auto simp: numeric_date_def split: json.splits option.splits if_splits)
    ultimately show ?thesis using non_blank_not_Nil audiences_of_not_Nil by (metis not_le)
  qed
  show ?thesis
  proof (cases "select_public_key lib v token")
    case (Inl e)
    with key show ?thesis by (simp add: access_verify_def)
  next
    case (Inr k)
    then show ?thesis
      using key claims assms(3) [of k] unfolding access_verify_def
      by (cases "jl_decode lib k (av_issuer v) (av_audience v) (av_leeway v) token")
        (auto split: jwt_failure.splits option.splits)
  qed
qed

lemma sleep_jitter_result:
  assumes "\<And>w r w'. ph_random_below h n w = (r, w') \<Longrightarrow>
      w_trace w' = w_trace w \<and> (\<exists>k. r = Inr k \<and> 0 \<le> k \<and> k < n)"
    and "n = ph_jitter_max_ms h - ph_jitter_min_ms h + 1" and "0 \<le> ph_jitter_min_ms h"
    and "sleep_jitter h w = (r, w')"
  shows "\<exists>d. r = Inr () \<and> ph_jitter_min_ms h \<le> d \<and> d \<le> ph_jitter_max_ms h \<and>
     w_trace w' = w_trace w @ (if d = 0 then [] else [Slept (Finite (of_int d / 1000))])"
proof -
  obtain x w1 where run: "ph_random_below h n w = (x, w1)" by fastforce
  from assms(1) [OF this] obtain k where k: "x = Inr k" "0 \<le> k" "k < n" "w_trace w1 = w_trace w" by blast
  let ?d = "ph_jitter_min_ms h + k"
  have "ph_jitter_min_ms h \<le> ?d" "?d \<le> ph_jitter_max_ms h" "?d = 0 \<longleftrightarrow> \<not> 0 < ?d"
    using k assms(2,3) by auto
  with assms(2,4) run k show ?thesis
    by (intro exI [of _ ?d])
      (auto simp: sleep_jitter_def Let_def bind_def emit_def modify_def return_def split: if_splits)
qed

text \<open>
  A password check costs the same whether or not there is an account: \<open>verify_or_dummy\<close> sleeps
  once, for a time within the configured jitter, and runs the KDF exactly once, with a stored hash
  and without one; without one the answer is \<open>False\<close>, whatever the password.
\<close>
theorem password_check_costs_one_kdf:
  assumes "Argon2PasswordHasher h = Inr h" and "n = ph_jitter_max_ms h - ph_jitter_min_ms h + 1"
    and "\<And>w r w'. ph_random_below h n w = (r, w') \<Longrightarrow>
      w_trace w' = w_trace w \<and> (\<exists>k. r = Inr k \<and> 0 \<le> k \<and> k < n)"
    and "verify_or_dummy h password password_hash w = (r, w')"
  shows "\<exists>d what. ph_jitter_min_ms h \<le> d \<and> d \<le> ph_jitter_max_ms h \<and>
     w_trace w' = w_trace w @ (if d = 0 then [] else [Slept (Finite (of_int d / 1000))]) @ [Observed ''argon2'' what] \<and>
     (password_hash = None \<longrightarrow> r \<noteq> Inr True)"
proof -
  have "0 \<le> ph_jitter_min_ms h" using assms(1) by (auto simp: Argon2PasswordHasher_def split: if_splits)
  moreover obtain x w1 where run: "sleep_jitter h w = (x, w1)" by fastforce
  ultimately obtain d where d: "x = Inr ()" "ph_jitter_min_ms h \<le> d" "d \<le> ph_jitter_max_ms h"
    "w_trace w1 = w_trace w @ (if d = 0 then [] else [Slept (Finite (of_int d / 1000))])"
    using sleep_jitter_result [OF assms(3,2) _ run] by blast
  show ?thesis
  proof (cases password_hash)
    case None
    have "w_trace w' = w_trace w1 @ [Observed ''argon2'' ''hash''] \<and> r \<noteq> Inr True"
      using assms(4) run d(1) None
      by (auto simp: verify_or_dummy_def hash_password_def bind_def emit_def modify_def return_def throw_def
          split: sum.splits hash_failure.splits if_splits)
    with d show ?thesis by auto
  next
    case (Some ph)
    have "w_trace w' = w_trace w1 @ [Observed ''argon2'' ''verify'']"
      using assms(4) run d(1) Some
      by (auto simp: verify_or_dummy_def verify_password_def bind_def emit_def modify_def return_def throw_def
          split: sum.splits verify_failure.splits if_splits)
    with d Some show ?thesis by auto
  qed
qed

subsection \<open>Witnesses\<close>

text \<open>A cipher that hides nothing, two rings with the same key under the old name.\<close>

definition sample_protector :: "string \<Rightarrow> (string \<times> bytes) list \<Rightarrow> 'e protector" where
  "sample_protector active keys = \<lparr>pr_active_key_id = active, pr_keys = keys,
     pr_encrypt = (\<lambda>key nonce plain aad. plain), pr_decrypt = (\<lambda>key nonce cipher aad. Some cipher),
     pr_validate_json = json_loads \<circ> map char_of, pr_urandom = return (replicate 12 7)\<rparr>"

definition sample_pair :: token_pair where
  "sample_pair = \<lparr>tp_access_token = ''jwt'', tp_refresh_token = ''opaque'', tp_token_type = ''bearer''\<rparr>"

theorem replay_envelope_roundtrip_witness:
  "\<exists>envelope w' d. protect (sample_protector ''old'' [(''old'', replicate 32 1)]) (pair_json sample_pair) [1]
       (quiet_world empty_db ()) = (Inr envelope, w') \<and>
     restore (sample_protector ''new'' [(''new'', replicate 32 2), (''old'', replicate 32 1)]) envelope [1] = Inr d \<and>
     pair_of_dict d = Inr sample_pair"
proof -
  let ?p = "sample_protector ''old'' [(''old'', replicate 32 1)]"
  let ?q = "sample_protector ''new'' [(''new'', replicate 32 2), (''old'', replicate 32 1)]"
  have libs: "envelope_libs ?p"
    using json_loads_bytes by (simp add: envelope_libs_def sample_protector_def)
  obtain envelope w' where run: "protect ?p (pair_json sample_pair) [1] (quiet_world empty_db ()) = (Inr envelope, w')"
    by (simp add: protect_def sample_protector_def bind_def return_def Let_def)
  have "\<forall>b \<in> set nonce. b < 256" if "pr_urandom ?p w = (Inr nonce, v)" for w nonce v
    using that by (auto simp: sample_protector_def return_def)
  from replay_envelope_roundtrip [OF libs run this, where q = ?q] run show ?thesis
    by (auto simp: sample_protector_def)
qed

definition sample_lib :: "unit jwt_lib" where
  "sample_lib = \<lparr>jl_encode = (\<lambda>_ _ _. Inr ''token''),
     jl_header = (\<lambda>_. Inr (JObj [(''alg'', JStr ''RS256''), (''typ'', JStr ''at+jwt''), (''kid'', JStr ''k1'')])),
     jl_decode = (\<lambda>_ _ _ _ _. Inr (JObj [(''iss'', JStr ''identity''), (''sub'', JInt 3), (''aud'', JStr ''api''),
        (''iat'', JInt 10), (''exp'', JInt 20), (''jti'', JInt 4), (''role'', JStr ''USER'')])),
     jl_uuid = (\<lambda>j. case j of JInt i \<Rightarrow> Some (nat i) | _ \<Rightarrow> None),
     jl_datetime = (\<lambda>j. case j of JInt i \<Rightarrow> Some (Datetime (i * 1000000) True) | _ \<Rightarrow> None),
     jl_key_size = (\<lambda>_. 2048)\<rparr>"

definition sample_verifier :: "unit access_verifier" where
  "sample_verifier = \<lparr>av_public_keys = [(''k1'', ())], av_issuer = ''identity'', av_audience = ''api'', av_leeway = 0\<rparr>"

theorem verified_token_is_trusted_witness:
  "\<exists>c. access_verify sample_lib sample_verifier ''token'' = Inr c \<and> ac_user_id c = 3 \<and>
     ac_issued_at c < ac_expires_at c"
proof -
  have "\<exists>c. access_verify sample_lib sample_verifier ''token'' = Inr c \<and> ac_user_id c = 3"
    by (simp add: access_verify_def select_public_key_def sample_lib_def sample_verifier_def json_field_def
        claims_of_payload_def claim_def non_blank_def audiences_of_def numeric_date_def role_of_value_def
        py_strip_def py_isspace_def)
  then obtain c where c: "access_verify sample_lib sample_verifier ''token'' = Inr c" "ac_user_id c = 3" by blast
  have "\<And>e. jl_header sample_lib ''token'' \<noteq> Inl (JwtRaises e)" "jl_header sample_lib ''token'' \<noteq> Inl JwtOverflowError"
    "\<And>k e. jl_decode sample_lib k (av_issuer sample_verifier) (av_audience sample_verifier) (av_leeway sample_verifier)
       ''token'' \<noteq> Inl (JwtRaises e)"
    by (simp_all add: sample_lib_def)
  from verified_token_is_trusted [OF this] c show ?thesis by simp
qed

definition sample_hasher :: "'e hasher" where
  "sample_hasher = \<lparr>ph_max_concurrency = 2, ph_jitter_min_ms = 20, ph_jitter_max_ms = 80,
     ph_random_below = (\<lambda>n. return 0), ph_hash = (\<lambda>password. Inr password),
     ph_verify = (\<lambda>password password_hash. Inr (password = password_hash))\<rparr>"

theorem password_check_costs_one_kdf_witness:
  "\<exists>(w' :: unit world) what. verify_or_dummy sample_hasher ''secret'' None (quiet_world empty_db ()) = (Inr False, w') \<and>
     (\<exists>d. 20 \<le> d \<and> d \<le> 80 \<and> w_trace w' = [Slept (Finite (of_int d / 1000)), Observed ''argon2'' what])"
proof -
  have ok: "Argon2PasswordHasher sample_hasher = Inr (sample_hasher :: unit hasher)"
    by (simp add: Argon2PasswordHasher_def sample_hasher_def)
  have below: "w_trace w' = w_trace w \<and> (\<exists>k. r = Inr k \<and> 0 \<le> k \<and> k < 61)"
    if "ph_random_below sample_hasher 61 w = (r, w')" for w w' :: "unit world" and r
    using that by (auto simp: sample_hasher_def return_def)
  obtain w' :: "unit world" where
    run: "verify_or_dummy sample_hasher ''secret'' None (quiet_world empty_db ()) = (Inr False, w')"
    by (simp add: verify_or_dummy_def hash_password_def sleep_jitter_def sample_hasher_def bind_def return_def
        emit_def modify_def)
  have "\<exists>d what. 20 \<le> d \<and> d \<le> 80 \<and> w_trace w' = w_trace (quiet_world empty_db ()) @
      (if d = 0 then [] else [Slept (Finite (of_int d / 1000))]) @ [Observed ''argon2'' what]"
    using password_check_costs_one_kdf [OF ok, of 61, OF _ below run] by (auto simp: sample_hasher_def)
  then obtain d what where d: "20 \<le> d" "d \<le> 80"
    "w_trace w' = (if d = 0 then [] else [Slept (Finite (of_int d / 1000))]) @ [Observed ''argon2'' what]"
    by (auto simp: quiet_world_def)
  then have "w_trace w' = [Slept (Finite (of_int d / 1000)), Observed ''argon2'' what]" by simp
  with run d(1,2) show ?thesis by blast
qed

end
