(* ===== verification/Idempotency.thy ===== *)
theory Idempotency
  imports Database
begin

section \<open>Idempotent execution\<close>

text \<open>
  \<open>application/idempotency/durable.py\<close> and \<open>application/idempotency/coordinator.py\<close>: a business
  operation and the record of its result are committed in one transaction; in front of it an
  optional hot store answers repeated requests and keeps a lease while the operation runs.

  The operation is a program that runs inside the open unit of work. The hot store is a record of
  its four operations, the port \<open>HotIdempotencyStoreProtocol\<close>; what the coordinator relies on is
  the locale \<open>hot_port\<close>. The heartbeat is a concurrent task that touches only the hot store and the
  flag \<open>lost_lease\<close>, while the durable path touches only the database, so their steps commute: the
  model runs the heartbeat first, for the number of intervals that elapse before it is stopped,
  which is an argument.
\<close>

subsection \<open>Durable execution\<close>

definition validate_digest :: "bytes \<Rightarrow> exn + unit" where
  "validate_digest request_hash = guard_res (length request_hash = 32) ValueError"

definition classify :: "completed_result \<Rightarrow> bytes \<Rightarrow> exn + execution_result" where
  "classify completed request_hash =
     (if cr_request_hash completed \<noteq> request_hash
      then ExecutionResult \<lparr>er_outcome = OUTCOME_CONFLICT, er_completed = None\<rparr>
      else ExecutionResult \<lparr>er_outcome = OUTCOME_REPLAY, er_completed = Some completed\<rparr>)"

definition lookup_completed :: "idempotency_identity \<Rightarrow> ('e, completed_result option) io" where
  "lookup_completed identity =
     bind utc_now (\<lambda>now. query (\<lambda>d. get_completed now identity (db_records d)))"

definition find_existing ::
    "idempotency_identity \<Rightarrow> bytes \<Rightarrow> ('e, execution_result option) io" where
  "find_existing identity request_hash =
     bind (liftr (validate_digest request_hash)) (\<lambda>_.
     bind (uow (lookup_completed identity)) (\<lambda>existing.
       case existing of
         None \<Rightarrow> return None
       | Some completed \<Rightarrow> bind (liftr (classify completed request_hash)) (\<lambda>r. return (Some r))))"

definition add_completed ::
    "int \<Rightarrow> idempotency_identity \<Rightarrow> completed_result \<Rightarrow> ('e, bool) io" where
  "add_completed retention_seconds identity completed =
     bind utc_now (\<lambda>now. bind new_uuid (\<lambda>new_id.
       stmt (on_records (try_add_completed retention_seconds now new_id identity completed))))"

definition execution_tx ::
    "int \<Rightarrow> idempotency_identity \<Rightarrow> bytes \<Rightarrow> ('e, stored_result) io \<Rightarrow> ('e, completed_result) io" where
  "execution_tx retention_seconds identity request_hash operation =
     bind operation (\<lambda>stored.
     bind (liftr (CompletedIdempotencyResult (completed_of request_hash stored))) (\<lambda>completed.
     bind (add_completed retention_seconds identity completed) (\<lambda>added.
       if \<not> added then throw ConcurrentWinnerCommitted else return completed)))"

definition after_failure ::
    "idempotency_identity \<Rightarrow> bytes \<Rightarrow> exn \<Rightarrow> ('e, execution_result) io" where
  "after_failure identity request_hash error =
     (if isinstance error ConcurrentWinnerCommitted
      then bind (find_existing identity request_hash) (\<lambda>winner.
             case winner of None \<Rightarrow> throw RuntimeError | Some r \<Rightarrow> return r)
      else if is_exception error
      then try_else (find_existing identity request_hash)
             (\<lambda>lookup_error. if is_exception lookup_error then throw error else throw lookup_error)
             (\<lambda>winner. case winner of Some r \<Rightarrow> return r | None \<Rightarrow> throw error)
      else throw error)"

definition execute_once ::
    "int \<Rightarrow> idempotency_identity \<Rightarrow> bytes \<Rightarrow> ('e, stored_result) io \<Rightarrow> ('e, execution_result) io" where
  "execute_once retention_seconds identity request_hash operation =
     bind (liftr (validate_digest request_hash)) (\<lambda>_.
     bind (find_existing identity request_hash) (\<lambda>existing.
       case existing of
         Some r \<Rightarrow> return r
       | None \<Rightarrow>
           try_else (uow (execution_tx retention_seconds identity request_hash operation))
             (after_failure identity request_hash)
             (\<lambda>completed. liftr (ExecutionResult
                \<lparr>er_outcome = OUTCOME_EXECUTED, er_completed = Some completed\<rparr>))))"

subsection \<open>The coordinator\<close>

record 'e hot_store =
  hot_begin :: "idempotency_identity \<Rightarrow> bytes \<Rightarrow> uuid \<Rightarrow> int \<Rightarrow> ('e, begin_result) io"
  hot_renew :: "idempotency_identity \<Rightarrow> uuid \<Rightarrow> int \<Rightarrow> ('e, bool) io"
  hot_complete :: "idempotency_identity \<Rightarrow> uuid \<Rightarrow> completed_result \<Rightarrow> ('e, bool) io"
  hot_abandon :: "idempotency_identity \<Rightarrow> uuid \<Rightarrow> ('e, bool) io"

definition outcome_value :: "execution_outcome \<Rightarrow> string" where
  "outcome_value outcome =
     (case outcome of
        OUTCOME_EXECUTED \<Rightarrow> ''EXECUTED'' | OUTCOME_REPLAY \<Rightarrow> ''REPLAY''
      | OUTCOME_CONFLICT \<Rightarrow> ''CONFLICT'' | OUTCOME_IN_PROGRESS \<Rightarrow> ''IN_PROGRESS'')"

definition observe_result :: "execution_result \<Rightarrow> ('e, execution_result) io" where
  "observe_result result =
     bind (emit (Observed ''outcome'' (outcome_value (er_outcome result)))) (\<lambda>_. return result)"

definition observe_hot_degraded :: "string \<Rightarrow> ('e, unit) io" where
  "observe_hot_degraded stage = emit (Observed ''hot_degraded'' stage)"

text \<open>The result is whether the lease was lost.\<close>

fun heartbeat ::
    "'e hot_store \<Rightarrow> idempotency_identity \<Rightarrow> uuid \<Rightarrow> int \<Rightarrow> nat \<Rightarrow> ('e, bool) io" where
  "heartbeat hot identity owner_token lease_seconds 0 = return False"
| "heartbeat hot identity owner_token lease_seconds (Suc n) =
     bind (emit (Slept (Finite (of_int lease_seconds / 3)))) (\<lambda>_.
       try_else (hot_renew hot identity owner_token lease_seconds)
         (\<lambda>e. if is_exception e then return True else throw e)
         (\<lambda>renewed. if renewed then heartbeat hot identity owner_token lease_seconds n else return True))"

text \<open>\<open>_stop_heartbeat\<close> swallows the cancellation of the task and nothing else.\<close>

definition heartbeat_task ::
    "'e hot_store \<Rightarrow> idempotency_identity \<Rightarrow> uuid \<Rightarrow> int \<Rightarrow> nat \<Rightarrow> ('e, bool) io" where
  "heartbeat_task hot identity owner_token lease_seconds beats =
     catch (heartbeat hot identity owner_token lease_seconds beats)
       (\<lambda>e. if e = CancelledError then return False else throw e)"

definition best_effort :: "string \<Rightarrow> ('e, bool) io \<Rightarrow> ('e, unit) io" where
  "best_effort stage call =
     try_else call
       (\<lambda>e. if isinstance e IdempotencyStorageUnavailableError then observe_hot_degraded stage else throw e)
       (\<lambda>_. return ())"

definition settle_hot ::
    "'e hot_store \<Rightarrow> idempotency_identity \<Rightarrow> uuid \<Rightarrow> bool \<Rightarrow> execution_result \<Rightarrow> ('e, unit) io" where
  "settle_hot hot identity owner_token lost_lease result =
     (if lost_lease then observe_hot_degraded ''lease''
      else case er_completed result of
        Some completed \<Rightarrow>
          if er_outcome result = OUTCOME_EXECUTED \<or> er_outcome result = OUTCOME_REPLAY
          then best_effort ''complete'' (hot_complete hot identity owner_token completed)
          else best_effort ''abandon'' (hot_abandon hot identity owner_token)
      | None \<Rightarrow> best_effort ''abandon'' (hot_abandon hot identity owner_token))"

definition run_as_owner ::
    "int \<Rightarrow> 'e hot_store \<Rightarrow> nat \<Rightarrow> idempotency_identity \<Rightarrow> bytes \<Rightarrow> ('e, stored_result) io \<Rightarrow> int
     \<Rightarrow> uuid \<Rightarrow> ('e, execution_result) io" where
  "run_as_owner retention_seconds hot beats identity request_hash operation lease_seconds owner_token =
     bind (heartbeat_task hot identity owner_token lease_seconds beats) (\<lambda>lost_lease.
       try_else (execute_once retention_seconds identity request_hash operation)
         (\<lambda>e. bind (if lost_lease then return ()
                    else best_effort ''abandon'' (hot_abandon hot identity owner_token)) (\<lambda>_. throw e))
         (\<lambda>result. bind (settle_hot hot identity owner_token lost_lease result) (\<lambda>_.
            observe_result result)))"

definition coordinator_execute ::
    "int \<Rightarrow> 'e hot_store option \<Rightarrow> nat \<Rightarrow> idempotency_identity \<Rightarrow> bytes \<Rightarrow> ('e, stored_result) io \<Rightarrow> int
     \<Rightarrow> ('e, execution_result) io" where
  "coordinator_execute retention_seconds hot_store beats identity request_hash operation lease_seconds =
     (if lease_seconds \<le> 0 then throw ValueError
      else if length request_hash \<noteq> 32 then throw ValueError
      else
        let durable = bind (execute_once retention_seconds identity request_hash operation) observe_result
        in case hot_store of
             None \<Rightarrow> bind (observe_hot_degraded ''disabled'') (\<lambda>_. durable)
           | Some hot \<Rightarrow>
               bind new_uuid (\<lambda>owner_token.
                 try_else (hot_begin hot identity request_hash owner_token lease_seconds)
                   (\<lambda>e. if isinstance e IdempotencyStorageUnavailableError
                        then bind (observe_hot_degraded ''begin'') (\<lambda>_. durable) else throw e)
                   (\<lambda>begun.
                      case br_action begun of
                        BEGIN_REPLAY \<Rightarrow>
                          bind (liftr (ExecutionResult \<lparr>er_outcome = OUTCOME_REPLAY,
                                                        er_completed = br_completed begun\<rparr>)) observe_result
                      | BEGIN_CONFLICT \<Rightarrow>
                          bind (liftr (ExecutionResult \<lparr>er_outcome = OUTCOME_CONFLICT,
                                                        er_completed = None\<rparr>)) observe_result
                      | BEGIN_IN_PROGRESS \<Rightarrow>
                          bind (find_existing identity request_hash) (\<lambda>durable_result.
                            case durable_result of
                              Some r \<Rightarrow> observe_result r
                            | None \<Rightarrow>
                                bind (liftr (ExecutionResult \<lparr>er_outcome = OUTCOME_IN_PROGRESS,
                                                              er_completed = None\<rparr>)) observe_result)
                      | BEGIN_ACQUIRED \<Rightarrow>
                          run_as_owner retention_seconds hot beats identity request_hash operation
                            lease_seconds owner_token)))"

subsection \<open>Who changed the tables\<close>

text \<open>
  \<open>only_rivals w w'\<close>: between the two states our transactions have committed nothing; the tables
  differ by what the other processes have committed.
\<close>

fun rival_run :: "(nat \<Rightarrow> db \<Rightarrow> db) \<Rightarrow> nat \<Rightarrow> nat \<Rightarrow> db \<Rightarrow> db" where
  "rival_run rival n 0 d = d"
| "rival_run rival n (Suc k) d = rival_run rival (Suc n) k (rival n d)"

definition only_rivals :: "'e world \<Rightarrow> 'e world \<Rightarrow> bool" where
  "only_rivals w w' \<longleftrightarrow>
     scripts w' = scripts w \<and> w_txs w \<le> w_txs w' \<and>
     w_db w' = rival_run (w_rival w) (w_txs w) (w_txs w' - w_txs w) (w_db w)"

definition transactional :: "('e, 'a) io \<Rightarrow> bool" where
  "transactional m \<longleftrightarrow> (\<forall>s n. keeps (\<lambda>w. scripts w = s \<and> w_txs w = n) m)"

definition same_base :: "'e world \<Rightarrow> 'e world \<Rightarrow> bool" where
  "same_base w w' \<longleftrightarrow> scripts w' = scripts w \<and> w_txs w' = w_txs w \<and> w_db w' = w_db w"

lemma rival_run_add: "rival_run rv n (j + k) d = rival_run rv (n + j) k (rival_run rv n j d)"
  by (induction rv n j d rule: rival_run.induct) simp_all

lemma rival_run_keeps:
  assumes "\<And>n d. P d \<Longrightarrow> P (rv n d)" and "P d"
  shows "P (rival_run rv n k d)"
  using assms by (induction rv n k d rule: rival_run.induct) simp_all

lemma same_base_only_rivals: "same_base w w' \<Longrightarrow> only_rivals w w'"
  by (simp add: same_base_def only_rivals_def)

lemma only_rivals_refl [simp]: "only_rivals w w"
  by (simp add: only_rivals_def)

lemma scripts_rival: "scripts w' = scripts w \<Longrightarrow> w_rival w' = w_rival w"
  by (simp add: scripts_def)

lemma only_rivals_trans:
  assumes "only_rivals u v" and "only_rivals v w"
  shows "only_rivals u w"
proof -
  let ?j = "w_txs v - w_txs u" and ?k = "w_txs w - w_txs v"
  have le: "w_txs u \<le> w_txs v" "w_txs v \<le> w_txs w" and scr: "scripts v = scripts u" "scripts w = scripts v"
    and db: "w_db v = rival_run (w_rival u) (w_txs u) ?j (w_db u)"
      "w_db w = rival_run (w_rival v) (w_txs v) ?k (w_db v)"
    using assms unfolding only_rivals_def by blast+
  have "w_txs w - w_txs u = ?j + ?k" "w_txs u + ?j = w_txs v" using le by simp_all
  then have "w_db w = rival_run (w_rival u) (w_txs u) (w_txs w - w_txs u) (w_db u)"
    using db scripts_rival [OF scr(1)] rival_run_add [of "w_rival u" "w_txs u" ?j ?k "w_db u"]
    by (simp only:)
  with le scr show ?thesis by (simp add: only_rivals_def)
qed

lemma only_rivals_keeps:
  assumes "only_rivals w w'" and "\<And>n d. P d \<Longrightarrow> P (w_rival w n d)" and "P (w_db w)"
  shows "P (w_db w')"
  using assms rival_run_keeps [of P "w_rival w"] by (simp add: only_rivals_def)

lemma only_rivals_begin_tx: "only_rivals w (begin_tx w)"
  by (simp add: only_rivals_def)

lemma transactionalD: "transactional m \<Longrightarrow> m w = (r, w') \<Longrightarrow> scripts w' = scripts w \<and> w_txs w' = w_txs w"
  unfolding transactional_def using keepsD [of "\<lambda>v. scripts v = scripts w \<and> w_txs v = w_txs w" m w r w'] by blast

text \<open>A unit of work commits what its body returned, or leaves the tables to the rivals.\<close>

lemma uow_outcome:
  assumes "transactional body" and "uow body w = (r, w')"
  obtains (uncommitted) e where "only_rivals w w'" and "r = Inl e"
  | (committed) a where "body (begin_tx w) = (Inr a, w')"
      and "r = Inr a \<or> (\<exists>e. r = Inl (translated e) \<and> w_fate w (w_txs w) = CommitLost e)"
  using assms(2)
proof (cases rule: uow_cases)
  case (rolled_back e)
  have "only_rivals w w'"
    using rolled_back(2,3) transactionalD [OF assms(1), of "begin_tx w"]
    by (auto simp: only_rivals_def)
  with rolled_back(1) show ?thesis using uncommitted by blast
qed (use committed in auto)

lemma uow_read_only:
  fixes body :: "('e, 'a) io"
  assumes "\<And>s n d. keeps (\<lambda>w. scripts w = s \<and> w_txs w = n \<and> w_db w = d) body" and "uow body w = (r, w')"
  shows "only_rivals w w'"
proof -
  have base: "scripts v = scripts (begin_tx w) \<and> w_txs v = w_txs (begin_tx w) \<and> w_db v = w_db (begin_tx w)"
    if "body (begin_tx w) = (x, v)" for x v
    using keepsD [OF assms(1) _ that] by blast
  from assms(2) show ?thesis
  proof (cases rule: uow_cases)
    case (committed a)
    with base [OF committed(2)] show ?thesis by (simp add: only_rivals_def)
  next
    case (rolled_back e)
    then consider "w' = begin_tx w" | x v where "body (begin_tx w) = (x, v)" "w' = v\<lparr>w_db := w_db (begin_tx w)\<rparr>"
      by blast
    then show ?thesis
    proof cases
      case 1
      then show ?thesis using only_rivals_begin_tx by simp
    next
      case 2
      with base [OF 2(1)] show ?thesis by (simp add: only_rivals_def)
    qed
  next
    case (lost a e)
    with base [OF lost(2)] show ?thesis by (simp add: only_rivals_def)
  qed
qed

lemma find_existing_only_rivals: "find_existing identity h w = (r, w') \<Longrightarrow> only_rivals w w'"
proof -
  assume run: "find_existing identity h w = (r, w')"
  have body: "keeps (\<lambda>w. scripts w = s \<and> w_txs w = n \<and> w_db w = d) (lookup_completed identity)" for s n d
    unfolding lookup_completed_def
    by (intro keeps_intros) (auto simp: keeps_def utc_now_def query_def scripts_def)
  have "only_rivals w v" if "uow (lookup_completed identity) w = (x, v)" for x v
    using uow_read_only [OF body that] .
  with run show ?thesis
    by (cases r) (auto simp: find_existing_def res_simps split: option.splits)
qed

subsection \<open>One execution\<close>

definition has_record :: "idempotency_identity \<Rightarrow> db \<Rightarrow> bool" where
  "has_record identity d = list_ex (\<lambda>r. i_identity r = identity) (db_records d)"

text \<open>
  One transaction of ours has committed: in it the operation ran and returned, its identity had no
  record, and the record of the result was added to the writes of the operation.
\<close>

definition commits_execution ::
    "int \<Rightarrow> idempotency_identity \<Rightarrow> bytes \<Rightarrow> ('e, stored_result) io \<Rightarrow> completed_result
     \<Rightarrow> 'e world \<Rightarrow> 'e world \<Rightarrow> bool" where
  "commits_execution retention identity h operation c w w' \<longleftrightarrow>
     (\<exists>stored w2 now new_id.
        operation w = (Inr stored, w2) \<and> c = completed_of h stored \<and>
        CompletedIdempotencyResult c = Inr c \<and> \<not> has_record identity (w_db w2) \<and>
        scripts w' = scripts w \<and> w_txs w' = w_txs w \<and> now = w_clock w (w_ticks w2) \<and>
        w_db w' = (w_db w2)\<lparr>db_records :=
          db_records (w_db w2) @ [completed_row retention now new_id identity c]\<rparr>)"

definition executed_between ::
    "int \<Rightarrow> idempotency_identity \<Rightarrow> bytes \<Rightarrow> ('e, stored_result) io \<Rightarrow> completed_result
     \<Rightarrow> 'e world \<Rightarrow> 'e world \<Rightarrow> bool" where
  "executed_between retention identity h operation c w w' \<longleftrightarrow>
     (\<exists>w1 w2. only_rivals w w1 \<and> commits_execution retention identity h operation c w1 w2 \<and> only_rivals w2 w')"

lemma transactional_bind:
  "transactional m \<Longrightarrow> (\<And>a. transactional (f a)) \<Longrightarrow> transactional (bind m f)"
  unfolding transactional_def by (blast intro: keeps_bind)

lemma transactional_primitives:
  "transactional utc_now" "transactional new_uuid" "transactional (emit x)" "transactional (stmt f)"
  "transactional (query g)" "transactional (return a)" "transactional (throw e)" "transactional (liftr r)"
  by (auto simp: transactional_def keeps_def utc_now_def new_uuid_def emit_def modify_def stmt_def
      query_def scripts_def return_def throw_def liftr_def split: sum.splits prod.splits)

lemma transactional_if: "transactional m \<Longrightarrow> transactional n \<Longrightarrow> transactional (if b then m else n)"
  by simp

lemmas transactional_intros = transactional_bind transactional_primitives transactional_if

lemma transactional_execution_tx:
  "transactional operation \<Longrightarrow> transactional (execution_tx retention identity h operation)"
  unfolding execution_tx_def add_completed_def by (intro transactional_intros)

lemma CompletedIdempotencyResult_Inr: "CompletedIdempotencyResult c = Inr c' \<Longrightarrow> c' = c"
  by (auto simp: CompletedIdempotencyResult_def split: if_splits)

lemma execution_tx_commits:
  assumes "transactional operation" and run: "execution_tx retention identity h operation w = (Inr c, w')"
  shows "commits_execution retention identity h operation c w w'"
proof -
  from run obtain stored w2 rows' where op: "operation w = (Inr stored, w2)"
    and c: "CompletedIdempotencyResult (completed_of h stored) = Inr c"
    and add: "try_add_completed retention (w_clock w2 (w_ticks w2)) (w_uuids w2 (w_drawn w2)) identity c
      (db_records (w_db w2)) = Inr (True, rows')"
    and w': "w_db w' = (w_db w2)\<lparr>db_records := rows'\<rparr>"
    unfolding execution_tx_def add_completed_def by (auto simp: res_simps split: if_splits)
  have "scripts w' = scripts w \<and> w_txs w' = w_txs w"
    using transactionalD [OF transactional_execution_tx [OF assms(1)] run] .
  moreover have "w_clock w2 = w_clock w"
    using transactionalD [OF assms(1) op] by (simp add: scripts_def)
  moreover have "c = completed_of h stored" by (rule CompletedIdempotencyResult_Inr [OF c])
  moreover have "\<not> has_record identity (w_db w2)" and
    "rows' = db_records (w_db w2) @ [completed_row retention (w_clock w2 (w_ticks w2)) (w_uuids w2 (w_drawn w2)) identity c]"
    using try_add_completed_conflict [OF add] by (auto simp: has_record_def)
  ultimately show ?thesis using op c w' unfolding commits_execution_def by fastforce
qed

text \<open>What \<open>execute_once\<close> can do to the tables, and what it then answers.\<close>

lemma classify_outcome: "classify c h = Inr r \<Longrightarrow> er_outcome r \<noteq> OUTCOME_EXECUTED"
  by (auto simp: classify_def ExecutionResult_def Let_def split: if_splits)

lemma find_existing_outcome:
  "find_existing identity h w = (Inr (Some r), w') \<Longrightarrow> er_outcome r \<noteq> OUTCOME_EXECUTED"
  by (auto simp: find_existing_def res_simps split: option.splits dest: classify_outcome)

lemma after_failure_only_rivals:
  assumes "after_failure identity h e w = (r, w')"
  shows "only_rivals w w' \<and> (\<forall>res. r = Inr res \<longrightarrow> er_outcome res \<noteq> OUTCOME_EXECUTED)"
  using assms find_existing_only_rivals [of identity h w] find_existing_outcome [of identity h w]
  by (cases r) (fastforce simp: after_failure_def res_simps split: if_splits option.splits)+

lemma execute_once_cases:
  assumes tx: "transactional operation" and run: "execute_once retention identity h operation w = (r, w')"
  obtains (idle) "only_rivals w w'" and "\<And>res. r = Inr res \<Longrightarrow> er_outcome res \<noteq> OUTCOME_EXECUTED"
  | (executed) c where "executed_between retention identity h operation c w w'"
      and "r = Inr \<lparr>er_outcome = OUTCOME_EXECUTED, er_completed = Some c\<rparr> \<or>
        (\<forall>res. r = Inr res \<longrightarrow> er_outcome res \<noteq> OUTCOME_EXECUTED)"
proof -
  let ?tx = "execution_tx retention identity h operation"
  obtain f w1 where find: "find_existing identity h w = (f, w1)" by fastforce
  note rivals1 = find_existing_only_rivals [OF find]
  show ?thesis
  proof (cases "length h = 32 \<and> f = Inr None")
    case False
    with run find rivals1 find_existing_outcome [of identity h w] show ?thesis
      by (intro idle) (auto simp: execute_once_def bind_def liftr_def validate_digest_def guard_res_def
          return_def split: sum.splits option.splits if_splits)
  next
    case True
    obtain t w2 where tx_run: "uow ?tx w1 = (t, w2)" by fastforce
    with run find True have rest: "(case t of Inl e \<Rightarrow> after_failure identity h e w2
        | Inr c \<Rightarrow> (Inr \<lparr>er_outcome = OUTCOME_EXECUTED, er_completed = Some c\<rparr>, w2)) = (r, w')"
      by (auto simp: execute_once_def bind_def liftr_def validate_digest_def try_else_def
          ExecutionResult_def split: sum.splits)
    from transactional_execution_tx [OF tx] tx_run show ?thesis
    proof (cases rule: uow_outcome)
      case (uncommitted e)
      with rest after_failure_only_rivals [of identity h e w2 r w'] show ?thesis
        by (intro idle) (auto intro: only_rivals_trans [OF rivals1] only_rivals_trans)
    next
      case (committed c)
      have ex: "executed_between retention identity h operation c w v" if "only_rivals w2 v" for v
        unfolding executed_between_def
        using execution_tx_commits [OF tx committed(1)] that
          only_rivals_trans [OF rivals1 only_rivals_begin_tx] by blast
      show ?thesis
      proof (cases t)
        case (Inr c')
        with committed(2) rest ex [OF only_rivals_refl] show ?thesis by (intro executed [of c]) auto
      next
        case (Inl e)
        with rest after_failure_only_rivals [of identity h e w2 r w'] ex show ?thesis
          by (intro executed [of c]) auto
      qed
    qed
  qed
qed

subsection \<open>The port of the hot store\<close>

text \<open>
  What the coordinator relies on: the hot store never touches the database, answers with a replay
  only for the hash of the request, and fails with nothing but
  \<open>IdempotencyStorageUnavailableError\<close> or the cancellation of the task.
\<close>

definition base_frame :: "_ \<Rightarrow> nat \<Rightarrow> db \<Rightarrow> 'e world \<Rightarrow> bool" where
  "base_frame s n d w \<longleftrightarrow> scripts w = s \<and> w_txs w = n \<and> w_db w = d"

lemma base_frame_same_base: "base_frame (scripts w) (w_txs w) (w_db w) w' \<longleftrightarrow> same_base w w'"
  by (simp add: base_frame_def same_base_def)

lemma keeps_same_base:
  assumes "\<And>s n d. keeps (base_frame s n d) m" and "m w = (r, w')"
  shows "same_base w w'"
  using keepsD [OF assms(1) _ assms(2)] by (metis base_frame_same_base same_base_def)

lemma base_frame_primitives [keeps_intros]:
  "keeps (base_frame s n d) (emit x)" "keeps (base_frame s n d) new_uuid" "keeps (base_frame s n d) utc_now"
  by (auto simp: keeps_def base_frame_def emit_def modify_def new_uuid_def utc_now_def scripts_def)

lemma same_base_trans: "same_base u v \<Longrightarrow> same_base v w \<Longrightarrow> same_base u w"
  by (simp add: same_base_def)

lemma isinstance_same: "isinstance e e"
  by (simp add: isinstance_iff_subclass subclass_refl)

definition hot_failure :: "exn \<Rightarrow> bool" where
  "hot_failure e \<longleftrightarrow> e = IdempotencyStorageUnavailableError \<or> e = CancelledError"

locale hot_port =
  fixes hot :: "'e hot_store"
  assumes begin_frame: "keeps (base_frame s n d) (hot_begin hot i h ow l)"
    and renew_frame: "keeps (base_frame s n d) (hot_renew hot i ow l)"
    and complete_frame: "keeps (base_frame s n d) (hot_complete hot i ow c)"
    and abandon_frame: "keeps (base_frame s n d) (hot_abandon hot i ow)"
    and begin_raises: "length h = 32 \<Longrightarrow> 0 < l \<Longrightarrow> hot_begin hot i h ow l w = (Inl e, w') \<Longrightarrow> hot_failure e"
    and complete_raises: "hot_complete hot i ow c w = (Inl e, w') \<Longrightarrow> hot_failure e"
    and abandon_raises: "hot_abandon hot i ow w = (Inl e, w') \<Longrightarrow> hot_failure e"
    and begin_replays: "hot_begin hot i h ow l w = (Inr b, w') \<Longrightarrow> br_action b = BEGIN_REPLAY \<Longrightarrow>
      \<exists>c. br_completed b = Some c \<and> cr_request_hash c = h"
begin

lemmas hot_frames [keeps_intros] = begin_frame renew_frame complete_frame abandon_frame

lemma heartbeat_frame: "keeps (base_frame s n d) (heartbeat hot i ow l k)"
  by (induction k) (auto intro!: keeps_intros)

lemma heartbeat_raises: "heartbeat hot i ow l k w = (Inl e, w') \<Longrightarrow> e = CancelledError"
  by (induction k arbitrary: w) (auto simp: res_simps is_exception_def split: if_splits)

lemma heartbeat_task_runs:
  "\<exists>lost w'. heartbeat_task hot i ow l k w = (Inr lost, w') \<and> same_base w w'"
proof -
  obtain r w' where run: "heartbeat hot i ow l k w = (r, w')" by fastforce
  with keeps_same_base [OF heartbeat_frame run] heartbeat_raises show ?thesis
    by (cases r) (auto simp: heartbeat_task_def catch_def return_def)
qed

lemma best_effort_frame:
  "(\<And>s n d. keeps (base_frame s n d) call) \<Longrightarrow> keeps (base_frame s n d) (best_effort stage call)"
  unfolding best_effort_def observe_hot_degraded_def by (intro keeps_intros)

lemma best_effort_raises:
  assumes "\<And>w e w'. call w = (Inl e, w') \<Longrightarrow> hot_failure e" and "best_effort stage call w = (Inl e, w')"
  shows "e = CancelledError"
proof -
  from assms(2) have "call w = (Inl e, w')" "\<not> isinstance e IdempotencyStorageUnavailableError"
    by (auto simp: best_effort_def observe_hot_degraded_def res_simps split: if_splits)
  with assms(1) isinstance_same show ?thesis unfolding hot_failure_def by blast
qed

lemma settle_frame: "keeps (base_frame s n d) (settle_hot hot i ow lost res)"
  unfolding settle_hot_def observe_hot_degraded_def
  by (intro keeps_intros best_effort_frame)

lemma settle_raises: "settle_hot hot i ow lost res w = (Inl e, w') \<Longrightarrow> e = CancelledError"
  using complete_raises abandon_raises
  by (auto simp: settle_hot_def observe_hot_degraded_def res_simps elim!: best_effort_raises [rotated]
      split: if_splits option.splits)

lemma run_as_owner_durable:
  assumes "run_as_owner ret hot beats i h operation l ow w = (r, w')"
  shows "\<exists>w1 r0 w2. same_base w w1 \<and> execute_once ret i h operation w1 = (r0, w2) \<and> same_base w2 w' \<and>
     (r = r0 \<or> r = Inl CancelledError)"
proof -
  obtain lost w1 where beat: "heartbeat_task hot i ow l beats w = (Inr lost, w1)" and base1: "same_base w w1"
    using heartbeat_task_runs by blast
  obtain r0 w2 where ex: "execute_once ret i h operation w1 = (r0, w2)" by fastforce
  have "same_base w2 w' \<and> (r = r0 \<or> r = Inl CancelledError)"
  proof (cases r0)
    case (Inl e)
    let ?m = "if lost then return () else best_effort ''abandon'' (hot_abandon hot i ow)"
    obtain x w3 where m: "?m w2 = (x, w3)" by fastforce
    have "keeps (base_frame s n d) ?m" for s n d
      by (intro keeps_intros best_effort_frame)
    from keeps_same_base [OF this m] have "same_base w2 w3" .
    moreover have "x = Inl e' \<Longrightarrow> e' = CancelledError" for e'
      using m best_effort_raises [of "hot_abandon hot i ow" "''abandon''" w2 e' w3] abandon_raises
      by (auto simp: return_def split: if_splits)
    ultimately show ?thesis
      using assms beat ex Inl m
      by (cases x) (auto simp: run_as_owner_def bind_def try_else_def throw_def)
  next
    case (Inr res)
    obtain x w3 where m: "settle_hot hot i ow lost res w2 = (x, w3)" by fastforce
    from keeps_same_base [OF settle_frame m] settle_raises [of i ow lost res w2] m
    show ?thesis
      using assms beat ex Inr
      by (cases x) (auto simp: run_as_owner_def bind_def try_else_def observe_result_def emit_def modify_def
          return_def same_base_def scripts_def)
  qed
  with base1 ex show ?thesis by blast
qed

lemma coordinator_cases:
  assumes run: "coordinator_execute ret (Some hot) beats i h operation l w = (r, w')"
  obtains (refused) "l \<le> 0 \<or> length h \<noteq> 32" and "r = Inl ValueError" and "same_base w w'"
  | (answered) "only_rivals w w'" and "0 < l" and "length h = 32"
      and "r = Inl CancelledError \<or> (\<exists>res. r = Inr res \<and> er_outcome res \<noteq> OUTCOME_EXECUTED) \<or>
        (\<exists>w1 e. find_existing i h w1 = (Inl e, w') \<and> r = Inl e)"
  | (durable) w1 r0 w2 where "0 < l" and "length h = 32" and "same_base w w1"
      and "execute_once ret i h operation w1 = (r0, w2)" and "same_base w2 w'" and "r = r0 \<or> r = Inl CancelledError"
proof (cases "l \<le> 0 \<or> length h \<noteq> 32")
  case True
  with run refused show ?thesis
    by (auto simp: coordinator_execute_def throw_def same_base_def split: if_splits)
next
  case False
  then have l: "0 < l" and h: "length h = 32" by simp_all
  let ?ow = "w_uuids w (w_drawn w)" and ?w0 = "w\<lparr>w_drawn := Suc (w_drawn w)\<rparr>"
  obtain b w1 where begun: "hot_begin hot i h ?ow l ?w0 = (b, w1)" by fastforce
  have base1: "same_base w w1"
    using keeps_same_base [OF begin_frame begun] by (simp add: same_base_def scripts_def)
  note rivals1 = same_base_only_rivals [OF base1]
  have run1: "(case b of
       Inl e \<Rightarrow> if isinstance e IdempotencyStorageUnavailableError
         then bind (observe_hot_degraded ''begin'') (\<lambda>_. bind (execute_once ret i h operation) observe_result) w1
         else (Inl e, w1)
     | Inr begun \<Rightarrow> (case br_action begun of
         BEGIN_REPLAY \<Rightarrow> bind (liftr (ExecutionResult \<lparr>er_outcome = OUTCOME_REPLAY,
            er_completed = br_completed begun\<rparr>)) observe_result w1
       | BEGIN_CONFLICT \<Rightarrow> bind (liftr (ExecutionResult \<lparr>er_outcome = OUTCOME_CONFLICT, er_completed = None\<rparr>))
            observe_result w1
       | BEGIN_IN_PROGRESS \<Rightarrow> bind (find_existing i h) (\<lambda>res. case res of Some r \<Rightarrow> observe_result r
            | None \<Rightarrow> bind (liftr (ExecutionResult \<lparr>er_outcome = OUTCOME_IN_PROGRESS, er_completed = None\<rparr>))
                observe_result) w1
       | BEGIN_ACQUIRED \<Rightarrow> run_as_owner ret hot beats i h operation l ?ow w1)) = (r, w')"
    using run l h begun
    by (auto simp: coordinator_execute_def bind_def [of new_uuid] new_uuid_def try_else_def throw_def
        split: sum.splits begin_action.splits if_splits)
  show ?thesis
  proof (cases b)
    case (Inl e)
    show ?thesis
    proof (cases "e = CancelledError")
      case True
      with run1 Inl rivals1 l h show ?thesis
        by (intro answered) (auto simp: isinstance_def numeral_3_eq_3 bases_simps split: if_splits)
    next
      case False
      moreover have "hot_failure e" using begin_raises [OF h l] begun Inl by blast
      ultimately have e: "e = IdempotencyStorageUnavailableError" by (simp add: hot_failure_def)
      define w2 where "w2 = w1\<lparr>w_trace := w_trace w1 @ [Observed ''hot_degraded'' ''begin'']\<rparr>"
      obtain r0 w3 where ex: "execute_once ret i h operation w2 = (r0, w3)" by fastforce
      have "same_base w w2" using base1 by (simp add: same_base_def w2_def scripts_def)
      moreover have "same_base w3 w' \<and> r = r0"
        using run1 Inl ex by (cases r0) (auto simp: e isinstance_same bind_def observe_hot_degraded_def
            emit_def modify_def w2_def observe_result_def return_def same_base_def scripts_def)
      ultimately show ?thesis using durable [OF l h _ ex] by blast
    qed
  next
    case (Inr bg)
    show ?thesis
    proof (cases "br_action bg")
      case BEGIN_ACQUIRED
      with run1 Inr have "run_as_owner ret hot beats i h operation l ?ow w1 = (r, w')" by simp
      from run_as_owner_durable [OF this] durable [OF l h] same_base_trans [OF base1] show ?thesis by blast
    next
      case BEGIN_REPLAY
      with begin_replays begun Inr obtain c where "br_completed bg = Some c" by blast
      with run1 Inr BEGIN_REPLAY rivals1 l h show ?thesis
        by (intro answered) (auto simp: ExecutionResult_def bind_def liftr_def observe_result_def emit_def
            modify_def return_def only_rivals_def scripts_def)
    next
      case BEGIN_CONFLICT
      with run1 Inr rivals1 l h show ?thesis
        by (intro answered) (auto simp: ExecutionResult_def bind_def liftr_def observe_result_def emit_def
            modify_def return_def only_rivals_def scripts_def)
    next
      case BEGIN_IN_PROGRESS
      obtain f w2 where find: "find_existing i h w1 = (f, w2)" by fastforce
      have rivals2: "only_rivals w w2" using only_rivals_trans [OF rivals1 find_existing_only_rivals [OF find]] .
      with run1 Inr BEGIN_IN_PROGRESS find l h find_existing_outcome [of i h w1] show ?thesis
        by (intro answered) (auto simp: ExecutionResult_def bind_def liftr_def observe_result_def emit_def
            modify_def return_def only_rivals_def scripts_def split: sum.splits option.splits)
    qed
  qed
qed

end

subsection \<open>Properties\<close>

lemma executed_has_record:
  assumes "executed_between ret i h operation c w w'" and "\<And>n d. has_record i d \<Longrightarrow> has_record i (w_rival w n d)"
  shows "has_record i (w_db w')"
proof -
  from assms(1) obtain w1 w2 where rv: "only_rivals w w1" "only_rivals w2 w'"
    and ex: "commits_execution ret i h operation c w1 w2" unfolding executed_between_def by blast
  have "has_record i (w_db w2)"
    using ex by (auto simp: commits_execution_def has_record_def completed_row_def)
  moreover have "w_rival w2 = w_rival w"
    using rv(1) ex unfolding only_rivals_def commits_execution_def scripts_def by auto
  ultimately show ?thesis using only_rivals_keeps [OF rv(2), of "has_record i"] assms(2) by simp
qed

lemma no_execution_of_known:
  assumes "executed_between ret i h operation c w w'" and "has_record i (w_db w)"
    and "\<And>n d. has_record i d \<Longrightarrow> has_record i (w_rival w n d)"
    and "keeps (\<lambda>v. has_record i (w_db v)) operation"
  shows False
proof -
  from assms(1) obtain w1 w2 stored where "only_rivals w w1" "operation w1 = (Inr stored, w2)"
    "\<not> has_record i (w_db w2)"
    unfolding executed_between_def commits_execution_def by blast
  with only_rivals_keeps [of w w1 "has_record i"] assms(2-4) keepsD [OF assms(4)] show False by blast
qed

text \<open>
  C6. An idempotent execution is all or nothing: \<open>execute_once\<close> either commits nothing, or commits
  exactly one transaction, in which the operation returned, the identity had no record, and the
  record of the result was written together with the effects of the operation. It answers
  \<open>EXECUTED\<close> only in the second case, with the result that was recorded.
\<close>
theorem durable_execution_is_atomic:
  assumes "transactional operation" and "execute_once ret i h operation w = (r, w')"
  shows "(only_rivals w w' \<or> (\<exists>c. executed_between ret i h operation c w w')) \<and>
     (\<forall>res. r = Inr res \<and> er_outcome res = OUTCOME_EXECUTED \<longrightarrow>
        (\<exists>c. er_completed res = Some c \<and> executed_between ret i h operation c w w'))"
  using assms by (cases rule: execute_once_cases) auto

text \<open>
  C28. The effect of an idempotency key happens at most once: when a first request has committed its
  effect, no later request with the same key, whatever its body and its operation, commits anything,
  and none is answered with \<open>EXECUTED\<close>, as long as nobody deletes the record.
\<close>
theorem idempotent_effect_happens_once:
  assumes "transactional operation" and "transactional operation'"
    and "executed_between ret i h operation c w w1"
    and "\<And>n d. has_record i d \<Longrightarrow> has_record i (w_rival w n d)"
    and "keeps (\<lambda>v. has_record i (w_db v)) operation'"
    and "execute_once ret i h' operation' w1 = (r, w2)"
  shows "only_rivals w1 w2 \<and> (\<forall>res. r = Inr res \<longrightarrow> er_outcome res \<noteq> OUTCOME_EXECUTED)"
proof -
  have rec: "has_record i (w_db w1)" by (rule executed_has_record [OF assms(3,4)])
  have "w_rival w1 = w_rival w"
    using assms(3) unfolding executed_between_def only_rivals_def commits_execution_def scripts_def by auto
  then have rivals: "has_record i d \<Longrightarrow> has_record i (w_rival w1 n d)" for n d using assms(4) by simp
  from assms(2,6) show ?thesis
    by (cases rule: execute_once_cases)
      (use no_execution_of_known [OF _ rec rivals assms(5)] in auto)
qed

lemma find_existing_known:
  assumes "idempotency_table_ok (db_records (w_db (begin_tx w)))" and "r \<in> set (db_records (w_db (begin_tx w)))"
    and "w_fate w (w_txs w) = Commits" and "length h = 32"
  shows "\<exists>w'. find_existing (i_identity r) h w =
      (Inr (if i_expires_at r \<le> w_clock w (w_ticks w) then None
            else Some (if i_request_hash r = h
              then \<lparr>er_outcome = OUTCOME_REPLAY, er_completed = Some (completed_of h (i_result r))\<rparr>
              else \<lparr>er_outcome = OUTCOME_CONFLICT, er_completed = None\<rparr>)), w')"
proof -
  let ?w = "begin_tx w" and ?now = "w_clock w (w_ticks w)"
  let ?w' = "?w\<lparr>w_ticks := Suc (w_ticks w)\<rparr>"
  let ?found = "if i_expires_at r \<le> ?now then None else Some (completed_of (i_request_hash r) (i_result r))"
  have "find (\<lambda>q. i_identity q = i_identity r) (db_records (w_db ?w)) = Some r"
    by (rule find_unique_key [OF idempotency_table_okD(2) [OF assms(1)] assms(2)])
  then have "lookup_completed (i_identity r) ?w = (Inr ?found, ?w')"
    using get_completed_result [OF assms(1)] by (simp add: lookup_completed_def bind_def utc_now_def query_def)
  then have "uow (lookup_completed (i_identity r)) w = (Inr ?found, ?w')"
    by (rule uow_commits [OF assms(3)])
  moreover have "cr_request_hash (completed_of (i_request_hash r) (i_result r)) = i_request_hash r"
    by (simp add: completed_of_def)
  ultimately show ?thesis
    using assms(4) by (auto simp: find_existing_def bind_def liftr_def validate_digest_def return_def
        classify_def ExecutionResult_def)
qed

text \<open>
  A repeated request is answered from its record: while the record of an identity is visible and
  the database answers, \<open>execute_once\<close> returns the recorded result as \<open>REPLAY\<close> to a request with the
  same hash and \<open>CONFLICT\<close> to any other, without running the operation and without committing anything.
\<close>
theorem repeated_request_contract:
  assumes "idempotency_table_ok (db_records (w_db (begin_tx w)))" and "r \<in> set (db_records (w_db (begin_tx w)))"
    and "w_clock w (w_ticks w) < i_expires_at r"
    and "w_fate w (w_txs w) = Commits" and "length h = 32"
  shows "\<exists>w'. execute_once ret (i_identity r) h operation w =
      (Inr (if i_request_hash r = h
            then \<lparr>er_outcome = OUTCOME_REPLAY, er_completed = Some (completed_of h (i_result r))\<rparr>
            else \<lparr>er_outcome = OUTCOME_CONFLICT, er_completed = None\<rparr>), w') \<and> only_rivals w w'"
proof -
  from find_existing_known [OF assms(1,2,4,5)] assms(3) obtain w' where
    found: "find_existing (i_identity r) h w =
      (Inr (Some (if i_request_hash r = h
         then \<lparr>er_outcome = OUTCOME_REPLAY, er_completed = Some (completed_of h (i_result r))\<rparr>
         else \<lparr>er_outcome = OUTCOME_CONFLICT, er_completed = None\<rparr>)), w')"
    by (auto simp: not_le)
  with find_existing_only_rivals [OF found] assms(5) show ?thesis
    by (auto simp: execute_once_def bind_def liftr_def validate_digest_def return_def)
qed

text \<open>An expired record: every lookup misses it, every insert is refused.\<close>

definition expired_key :: "idempotency_identity \<Rightarrow> datetime \<Rightarrow> db \<Rightarrow> bool" where
  "expired_key i t d \<longleftrightarrow> idempotency_table_ok (db_records d) \<and>
     (\<exists>r \<in> set (db_records d). i_identity r = i \<and> i_expires_at r \<le> t)"

lemma expired_key_lookup:
  assumes "expired_key i t d" and "t \<le> now"
  shows "get_completed now i (db_records d) = Inr None"
proof -
  from assms obtain r where r: "idempotency_table_ok (db_records d)" "r \<in> set (db_records d)"
    "i_identity r = i" "i_expires_at r \<le> now" unfolding expired_key_def by fastforce
  with find_unique_key [OF idempotency_table_okD(2) [OF r(1)] r(2)] get_completed_result [OF r(1), of now i]
  show ?thesis by simp
qed

lemma find_existing_expired:
  assumes "expired_key i t (w_db (begin_tx w))" and "\<And>n. t \<le> w_clock w n"
    and "find_existing i h w = (Inr f, w')"
  shows "f = None"
proof -
  from assms(3) obtain x w1 where up: "uow (lookup_completed i) w = (Inr x, w1)" and f: "x = None \<Longrightarrow> f = None"
    by (auto simp: find_existing_def res_simps split: option.splits)
  from uow_Inr [OF up] have "x = None"
    using expired_key_lookup [OF assms(1) assms(2)] by (auto simp: lookup_completed_def res_simps)
  with f show ?thesis by simp
qed

text \<open>
  C29. An expired record that has not been deleted makes its key unusable: no request under the key
  gets a result any more, each one raises, and whatever its operation has written, also the
  revocation of a session, is rolled back.
\<close>
theorem expired_key_is_stuck:
  assumes "transactional operation" and "keeps (\<lambda>v. has_record i (w_db v)) operation"
    and "expired_key i t (w_db w)" and "\<And>n d. expired_key i t d \<Longrightarrow> expired_key i t (w_rival w n d)"
    and "\<And>n. t \<le> w_clock w n" and "execute_once ret i h operation w = (r, w')"
  shows "(\<exists>e. r = Inl e) \<and> only_rivals w w'"
proof -
  have rec: "expired_key i t d \<Longrightarrow> has_record i d" for d
    by (auto simp: expired_key_def has_record_def list_ex_iff)
  have no_commit: False if "only_rivals w v" "commits_execution ret i h operation c v v'" for c v v'
  proof -
    from that(2) obtain stored w2 where "operation v = (Inr stored, w2)" "\<not> has_record i (w_db w2)"
      unfolding commits_execution_def by blast
    with only_rivals_keeps [OF that(1), of "expired_key i t"] assms(3,4) rec keepsD [OF assms(2)]
    show False by blast
  qed
  have only: "only_rivals w w'"
    using assms(1,6) by (cases rule: execute_once_cases) (use no_commit in \<open>auto simp: executed_between_def\<close>)
  have miss: "f = None" if "only_rivals w v" "find_existing i h v = (Inr f, v')" for v v' f
  proof (rule find_existing_expired [OF _ _ that(2)])
    have "only_rivals w (begin_tx v)" by (rule only_rivals_trans [OF that(1) only_rivals_begin_tx])
    then show "expired_key i t (w_db (begin_tx v))"
      using only_rivals_keeps [of w "begin_tx v" "expired_key i t"] assms(3,4) by blast
    show "t \<le> w_clock v n" for n using that(1) assms(5) by (simp add: only_rivals_def scripts_def)
  qed
  have "r \<noteq> Inr res" for res
  proof
    assume r: "r = Inr res"
    let ?tx = "execution_tx ret i h operation"
    from assms(6) r miss [OF only_rivals_refl] obtain w1 where find: "find_existing i h w = (Inr None, w1)"
      and rest: "try_else (uow ?tx) (after_failure i h) (\<lambda>c. liftr (ExecutionResult
         \<lparr>er_outcome = OUTCOME_EXECUTED, er_completed = Some c\<rparr>)) w1 = (Inr res, w')"
      by (auto simp: execute_once_def res_simps split: option.splits)
    note rivals1 = find_existing_only_rivals [OF find]
    obtain x w2 where tx: "uow ?tx w1 = (x, w2)" by fastforce
    from transactional_execution_tx [OF assms(1)] tx show False
    proof (cases rule: uow_outcome)
      case (uncommitted e)
      with rest tx have "after_failure i h e w2 = (Inr res, w')" by (simp add: try_else_def)
      with miss [OF only_rivals_trans [OF rivals1 uncommitted(1)]] show False
        by (auto simp: after_failure_def res_simps split: if_splits option.splits)
    next
      case (committed c)
      from no_commit [OF only_rivals_trans [OF rivals1 only_rivals_begin_tx]
          execution_tx_commits [OF assms(1) committed(1)]] show False .
    qed
  qed
  with only show ?thesis by (cases r) auto
qed

subsection \<open>Witnesses\<close>

definition sample_effect :: "(unit, stored_result) io" where
  "sample_effect = return (stored_result.truncate sample_result)"

definition sample_hash :: bytes where
  "sample_hash = replicate 32 5"

lemma sample_hash_length: "length sample_hash = 32"
  by (simp add: sample_hash_def)

lemma sample_effect_ok:
  "transactional sample_effect" "keeps I sample_effect"
  unfolding sample_effect_def by (intro transactional_intros keeps_intros)+

definition sample_executed :: "unit world" where
  "sample_executed = snd (execute_once 300 sample_identity sample_hash sample_effect (quiet_world empty_db ()))"

lemma sample_completed: "completed_of sample_hash (stored_result.truncate sample_result) = sample_result"
  using completed_of_truncate [of sample_result] by (simp add: sample_hash_def sample_result_def)

lemma sample_add:
  "try_add_completed 300 (Datetime 2000000 True) 100 sample_identity sample_result [] =
     Inr (True, [completed_row 300 (Datetime 2000000 True) 100 sample_identity sample_result])"
  using timedelta_seconds_of_int [of 300]
  by (simp add: try_add_completed_def idempotency_widths_def idempotency_checks_def
      completed_row_def sample_identity_def sample_result_def fits_def plus_delta_def
      stored_result.truncate_def)

lemma sample_execution:
  "execute_once 300 sample_identity sample_hash sample_effect (quiet_world empty_db ()) =
     (Inr \<lparr>er_outcome = OUTCOME_EXECUTED, er_completed = Some sample_result\<rparr>, sample_executed)"
proof -
  have "fst (execute_once 300 sample_identity sample_hash sample_effect (quiet_world empty_db ())) =
      Inr \<lparr>er_outcome = OUTCOME_EXECUTED, er_completed = Some sample_result\<rparr>"
    by (simp add: execute_once_def find_existing_def bind_def liftr_def validate_digest_def lookup_completed_def
        uow_def aexit_def quiet_world_def empty_db_def query_def utc_now_def get_completed_def return_def
        try_else_def execution_tx_def sample_effect_def sample_completed sample_result_ok add_completed_def
        new_uuid_def stmt_def on_records_def sample_add ExecutionResult_def sample_hash_length)
  then show ?thesis by (simp add: sample_executed_def prod_eq_iff)
qed

theorem durable_execution_is_atomic_witness:
  "execute_once 300 sample_identity sample_hash sample_effect (quiet_world empty_db ()) =
     (Inr \<lparr>er_outcome = OUTCOME_EXECUTED, er_completed = Some sample_result\<rparr>, sample_executed) \<and>
   executed_between 300 sample_identity sample_hash sample_effect sample_result
     (quiet_world empty_db ()) sample_executed"
  using durable_execution_is_atomic [OF sample_effect_ok(1) sample_execution] sample_execution by simp

lemma sample_executed_between:
  "executed_between 300 sample_identity sample_hash sample_effect sample_result
     (quiet_world empty_db ()) sample_executed"
  using sample_effect_ok(1) sample_execution by (cases rule: execute_once_cases) auto

theorem idempotent_effect_happens_once_witness:
  "\<exists>r w2. execute_once 300 sample_identity (replicate 32 9) sample_effect sample_executed = (r, w2) \<and>
     only_rivals sample_executed w2"
proof -
  obtain r w2 where run: "execute_once 300 sample_identity (replicate 32 9) sample_effect sample_executed = (r, w2)"
    by fastforce
  have "has_record sample_identity (w_rival (quiet_world empty_db ()) n d)" if "has_record sample_identity d" for n d
    using that by (simp add: quiet_world_def)
  from idempotent_effect_happens_once [OF sample_effect_ok(1,1) sample_executed_between this
      sample_effect_ok(2) run] run
  show ?thesis by blast
qed

definition recorded_world :: "(nat \<Rightarrow> datetime) \<Rightarrow> unit world" where
  "recorded_world clock = (quiet_world (empty_db\<lparr>db_records := [sample_record]\<rparr>) ())\<lparr>w_clock := clock\<rparr>"

lemma sample_table_ok: "idempotency_table_ok [sample_record]"
  using try_add_completed_ok [OF _ sample_result_ok sample_record_add]
  by (simp add: idempotency_table_ok_def)

lemma sample_record_sel:
  "i_identity sample_record = sample_identity" "i_request_hash sample_record = sample_hash"
  "i_result sample_record = stored_result.truncate sample_result"
  by (simp_all add: sample_record_def completed_row_def sample_hash_def sample_result_def)

theorem repeated_request_contract_witness:
  "\<exists>w'. execute_once 300 sample_identity sample_hash (throw RuntimeError) (recorded_world (\<lambda>_. Datetime 7 True)) =
     (Inr \<lparr>er_outcome = OUTCOME_REPLAY, er_completed = Some sample_result\<rparr>, w')"
proof -
  let ?w = "recorded_world (\<lambda>_. Datetime 7 True)"
  have "idempotency_table_ok (db_records (w_db (begin_tx ?w)))"
    "sample_record \<in> set (db_records (w_db (begin_tx ?w)))" "w_fate ?w (w_txs ?w) = Commits"
    "w_clock ?w (w_ticks ?w) < i_expires_at sample_record" "length sample_hash = 32"
    by (simp_all add: recorded_world_def quiet_world_def sample_table_ok sample_record_expiry sample_hash_def)
  from repeated_request_contract [OF this(1,2,4,3,5), of 300 "throw RuntimeError"] show ?thesis
    by (auto simp: sample_record_sel sample_completed)
qed

theorem expired_key_is_stuck_witness:
  "\<exists>e w'. execute_once 300 sample_identity sample_hash sample_effect
     (recorded_world (\<lambda>_. Datetime 400000000 True)) = (Inl e, w')"
proof -
  let ?w = "recorded_world (\<lambda>_. Datetime 400000000 True)" and ?t = "Datetime 400000000 True"
  obtain r w' where run: "execute_once 300 sample_identity sample_hash sample_effect ?w = (r, w')" by fastforce
  have "expired_key sample_identity ?t (w_db ?w)"
    by (simp add: expired_key_def recorded_world_def quiet_world_def sample_table_ok sample_record_sel
        sample_record_expiry)
  moreover have "expired_key sample_identity ?t (w_rival ?w n d)" if "expired_key sample_identity ?t d" for n d
    using that by (simp add: recorded_world_def quiet_world_def)
  moreover have "?t \<le> w_clock ?w n" for n by (simp add: recorded_world_def)
  ultimately show ?thesis
    using expired_key_is_stuck [OF sample_effect_ok, of sample_identity ?t ?w 300 sample_hash r w'] run by auto
qed

end
