(* ===== verification/Hot_Store.thy ===== *)
theory Hot_Store
  imports Idempotency Json Circuit_Breaker
begin

section \<open>The hot idempotency store\<close>

text \<open>
  \<open>infrastructure/cache/valkey_idempotency_store.py\<close> and
  \<open>infrastructure/resilience/circuit_breaking_hot_store.py\<close>. A key of the server holds a hash with an
  optional expiry, or a value of another type, on which \<open>HGET\<close> fails. Each Lua script is a function of
  the server's time and of the entry under its key; the server runs scripts one at a time. Between
  two calls of ours other clients may change everything, and a call may fail with a \<open>RedisError\<close> or be
  cancelled before or after the script has run. SHA-256, the JSON parser of pydantic and its lax
  conversion to \<open>int\<close> are parameters.
\<close>

subsection \<open>The server\<close>

record hot_entry =
  rh_fields :: "string \<Rightarrow> string option"
  rh_expires :: "int option"

datatype redis_value = RedisHash hot_entry | RedisOther

type_synonym redis_data = "string \<Rightarrow> redis_value option"

datatype redis_raw = RawInt int | RawText string | RawNil | RawList "redis_raw list"

definition expired_at :: "int \<Rightarrow> hot_entry \<Rightarrow> bool" where
  "expired_at now e = (case rh_expires e of None \<Rightarrow> False | Some t \<Rightarrow> t \<le> now)"

type_synonym lua_script = "int \<Rightarrow> hot_entry option \<Rightarrow> redis_raw \<times> hot_entry option"

definition run_script :: "lua_script \<Rightarrow> string \<Rightarrow> int \<Rightarrow> redis_data \<Rightarrow> redis_raw option \<times> redis_data" where
  "run_script script key now data =
     (case data key of
        Some RedisOther \<Rightarrow> (None, data)
      | Some (RedisHash e) \<Rightarrow>
          (case script now (if expired_at now e then None else Some e) of
             (raw, e') \<Rightarrow> (Some raw, data(key := map_option RedisHash e')))
      | None \<Rightarrow> (case script now None of (raw, e') \<Rightarrow> (Some raw, data(key := map_option RedisHash e'))))"

datatype redis_fate = RedisAnswers | RedisFails bool | RedisCancels bool

datatype redis_reply = RedisReply redis_raw | RedisErrorRaised | RedisCallCancelled

record hot_env = breaker_env +
  ve_data :: redis_data
  ve_now :: "nat \<Rightarrow> int"
  ve_fate :: "nat \<Rightarrow> redis_fate"
  ve_rival :: "nat \<Rightarrow> redis_data \<Rightarrow> redis_data"
  ve_calls :: nat

definition redis_eval :: "lua_script \<Rightarrow> string \<Rightarrow> (hot_env, redis_reply) io" where
  "redis_eval script key w =
     (let env = w_env w;
          n = ve_calls env;
          before = ve_rival env n (ve_data env);
          ran = run_script script key (ve_now env n) before;
          after = (\<lambda>data. w\<lparr>w_env := env\<lparr>ve_data := data, ve_calls := Suc n\<rparr>\<rparr>)
      in case ve_fate env n of
           RedisAnswers \<Rightarrow>
             (Inr (case fst ran of Some raw \<Rightarrow> RedisReply raw | None \<Rightarrow> RedisErrorRaised), after (snd ran))
         | RedisFails executed \<Rightarrow> (Inr RedisErrorRaised, after (if executed then snd ran else before))
         | RedisCancels executed \<Rightarrow> (Inr RedisCallCancelled, after (if executed then snd ran else before)))"

subsection \<open>The Lua scripts\<close>

definition begin_script :: "string \<Rightarrow> string \<Rightarrow> int \<Rightarrow> lua_script" where
  "begin_script request_hash owner_token lease_seconds now entry =
     (case entry of
        None \<Rightarrow>
          (RawList [RawInt 1],
           Some \<lparr>rh_fields = [''format_version'' \<mapsto> ''1'', ''state'' \<mapsto> ''processing'',
                              ''request_hash'' \<mapsto> request_hash, ''owner_token'' \<mapsto> owner_token],
                 rh_expires = Some (now + lease_seconds)\<rparr>)
      | Some e \<Rightarrow>
          (case rh_fields e ''state'' of
             None \<Rightarrow> (RawList [RawInt 5], entry)
           | Some state \<Rightarrow>
               let format_version = rh_fields e ''format_version'';
                   current_hash = rh_fields e ''request_hash'';
                   owner = rh_fields e ''owner_token'';
                   result = rh_fields e ''result''
               in if format_version \<noteq> Some ''1'' \<or> current_hash = None then (RawList [RawInt 5], entry)
                  else if state = ''processing'' \<and> (owner = None \<or> result \<noteq> None) then (RawList [RawInt 5], entry)
                  else if state = ''completed'' \<and> (result = None \<or> owner \<noteq> None) then (RawList [RawInt 5], entry)
                  else if current_hash \<noteq> Some request_hash then (RawList [RawInt 3], entry)
                  else if state = ''completed'' then (RawList [RawInt 2, RawText (the result)], entry)
                  else if state = ''processing'' then (RawList [RawInt 4], entry)
                  else (RawList [RawInt 5], entry)))"

definition owned_processing :: "string \<Rightarrow> hot_entry \<Rightarrow> bool" where
  "owned_processing owner_token e \<longleftrightarrow>
     rh_fields e ''format_version'' = Some ''1'' \<and> rh_fields e ''state'' = Some ''processing'' \<and>
     rh_fields e ''owner_token'' = Some owner_token"

definition renew_script :: "string \<Rightarrow> int \<Rightarrow> lua_script" where
  "renew_script owner_token lease_seconds now entry =
     (case entry of
        None \<Rightarrow> (RawInt 0, entry)
      | Some e \<Rightarrow>
          if owned_processing owner_token e \<and> rh_fields e ''request_hash'' \<noteq> None
          then (RawInt 1, Some (e\<lparr>rh_expires := Some (now + lease_seconds)\<rparr>)) else (RawInt 0, entry))"

definition complete_script :: "string \<Rightarrow> string \<Rightarrow> int \<Rightarrow> string \<Rightarrow> lua_script" where
  "complete_script owner_token result ttl request_hash now entry =
     (case entry of
        None \<Rightarrow> (RawInt 0, entry)
      | Some e \<Rightarrow>
          if owned_processing owner_token e \<and> rh_fields e ''request_hash'' = Some request_hash
          then (RawInt 1, Some \<lparr>rh_fields = (rh_fields e)(''state'' \<mapsto> ''completed'', ''result'' \<mapsto> result,
                                   ''owner_token'' := None), rh_expires = Some (now + ttl)\<rparr>)
          else (RawInt 0, entry))"

definition abandon_script :: "string \<Rightarrow> lua_script" where
  "abandon_script owner_token now entry =
     (case entry of
        None \<Rightarrow> (RawInt 0, entry)
      | Some e \<Rightarrow> if owned_processing owner_token e then (RawInt 1, None) else (RawInt 0, entry))"

subsection \<open>Encoding of completed results\<close>

definition json_opt :: "('a \<Rightarrow> json) \<Rightarrow> 'a option \<Rightarrow> json" where
  "json_opt f x = (case x of None \<Rightarrow> JNull | Some a \<Rightarrow> f a)"

definition completed_json :: "completed_result \<Rightarrow> json" where
  "completed_json c =
     JObj [(''result_type'', JStr (sr_result_type c)),
           (''result_payload'', json_opt id (sr_result_payload c)),
           (''result_version'', JInt (sr_result_version c)),
           (''resource_type'', json_opt JStr (sr_resource_type c)),
           (''resource_id'', json_opt JStr (sr_resource_id c)),
           (''resource_version'', json_opt JInt (sr_resource_version c)),
           (''request_hash'', JStr (bytes_hex (cr_request_hash c)))]"

definition encode_completed :: "completed_result \<Rightarrow> string" where
  "encode_completed result = json_dumps False (completed_json result)"

text \<open>\<open>model_validate\<close> of the payload: the types of the fields, then the checks of the class.\<close>

definition str_field :: "string \<Rightarrow> json \<Rightarrow> exn + string" where
  "str_field k j = (case json_field k j of Some (JStr s) \<Rightarrow> Inr s | _ \<Rightarrow> Inl ValidationError)"

definition optional_field :: "(json \<Rightarrow> 'a option) \<Rightarrow> string \<Rightarrow> json \<Rightarrow> exn + 'a option" where
  "optional_field f k j =
     (case json_field k j of
        None \<Rightarrow> Inr None
      | Some JNull \<Rightarrow> Inr None
      | Some v \<Rightarrow> (case f v of Some a \<Rightarrow> Inr (Some a) | None \<Rightarrow> Inl ValidationError))"

definition json_dict :: "json \<Rightarrow> json option" where
  "json_dict j = (case j of JObj fs \<Rightarrow> Some j | _ \<Rightarrow> None)"

definition json_text :: "json \<Rightarrow> string option" where
  "json_text j = (case j of JStr s \<Rightarrow> Some s | _ \<Rightarrow> None)"

definition version_field :: "(json \<Rightarrow> int option) \<Rightarrow> json \<Rightarrow> exn + int" where
  "version_field lax_int j =
     (case json_field ''result_version'' j of
        None \<Rightarrow> Inr 1
      | Some v \<Rightarrow> (case lax_int v of Some i \<Rightarrow> Inr i | None \<Rightarrow> Inl ValidationError))"

definition completed_of_json :: "(json \<Rightarrow> int option) \<Rightarrow> json \<Rightarrow> bytes \<Rightarrow> exn + completed_result" where
  "completed_of_json lax_int j request_hash =
     bind_res (str_field ''result_type'' j) (\<lambda>result_type.
     bind_res (optional_field json_dict ''result_payload'' j) (\<lambda>result_payload.
     bind_res (version_field lax_int j) (\<lambda>result_version.
     bind_res (optional_field json_text ''resource_type'' j) (\<lambda>resource_type.
     bind_res (optional_field json_text ''resource_id'' j) (\<lambda>resource_id.
     bind_res (optional_field lax_int ''resource_version'' j) (\<lambda>resource_version.
       CompletedIdempotencyResult
         \<lparr>sr_result_type = result_type, sr_result_payload = result_payload, sr_result_version = result_version,
          sr_resource_type = resource_type, sr_resource_id = resource_id, sr_resource_version = resource_version,
          cr_request_hash = request_hash\<rparr>))))))"

record valkey =
  vk_sha256 :: "bytes \<Rightarrow> bytes"
  vk_validate_json :: "string \<Rightarrow> json option"
  vk_lax_int :: "json \<Rightarrow> int option"
  vk_result_ttl_seconds :: int
  vk_key_namespace :: string

text \<open>Every error of the decoding is a \<open>TypeError\<close> or \<open>ValueError\<close> and becomes a \<open>RuntimeError\<close>.\<close>

definition decode_completed :: "valkey \<Rightarrow> redis_raw \<Rightarrow> exn + completed_result" where
  "decode_completed vk raw =
     (case raw of
        RawText s \<Rightarrow>
          (case vk_validate_json vk s of
             Some (JObj fs) \<Rightarrow>
               (case json_field ''request_hash'' (JObj fs) of
                  Some (JStr h) \<Rightarrow>
                    (case bytes_fromhex h of
                       None \<Rightarrow> Inl RuntimeError
                     | Some request_hash \<Rightarrow>
                         (case completed_of_json (vk_lax_int vk) (JObj fs) request_hash of
                            Inl e \<Rightarrow> Inl RuntimeError
                          | Inr c \<Rightarrow> Inr c))
                | _ \<Rightarrow> Inl RuntimeError)
           | _ \<Rightarrow> Inl RuntimeError)
      | _ \<Rightarrow> Inl RuntimeError)"

subsection \<open>The adapter\<close>

definition ValkeyHotIdempotencyStore :: "valkey \<Rightarrow> exn + valkey" where
  "ValkeyHotIdempotencyStore vk =
     (if vk_result_ttl_seconds vk \<le> 0 then Inl ValueError
      else if vk_key_namespace vk = [] then Inl ValueError else Inr vk)"

definition key_material :: "idempotency_identity \<Rightarrow> bytes" where
  "key_material identity =
     utf8 (id_subject_id identity) @ [0] @ utf8 (id_operation identity) @ [0] @ id_key_hash identity"

definition storage_key :: "valkey \<Rightarrow> idempotency_identity \<Rightarrow> string" where
  "storage_key vk identity =
     vk_key_namespace vk @ '':'' @ bytes_hex (vk_sha256 vk (key_material identity))"

definition result_code :: "redis_raw \<Rightarrow> exn + int" where
  "result_code raw =
     (case raw of
        RawList (RawInt i # _) \<Rightarrow> Inr i
      | RawList (RawText s # _) \<Rightarrow> (case py_int s of Some i \<Rightarrow> Inr i | None \<Rightarrow> Inl RuntimeError)
      | _ \<Rightarrow> Inl RuntimeError)"

definition begin_answer :: "valkey \<Rightarrow> bytes \<Rightarrow> redis_raw \<Rightarrow> exn + begin_result" where
  "begin_answer vk request_hash raw =
     bind_res (result_code raw) (\<lambda>code.
       case raw of
         RawList values \<Rightarrow>
           if code = 1 then BeginResult \<lparr>br_action = BEGIN_ACQUIRED, br_completed = None\<rparr>
           else if code = 2
           then (if length values < 2 \<or> values ! 1 = RawNil then Inl RuntimeError
                 else bind_res (decode_completed vk (values ! 1)) (\<lambda>completed.
                   if cr_request_hash completed \<noteq> request_hash then Inl RuntimeError
                   else BeginResult \<lparr>br_action = BEGIN_REPLAY, br_completed = Some completed\<rparr>))
           else if code = 3 then BeginResult \<lparr>br_action = BEGIN_CONFLICT, br_completed = None\<rparr>
           else if code = 4 then BeginResult \<lparr>br_action = BEGIN_IN_PROGRESS, br_completed = None\<rparr>
           else Inl RuntimeError
       | _ \<Rightarrow> Inl RuntimeError)"

definition valkey_begin ::
    "valkey \<Rightarrow> idempotency_identity \<Rightarrow> bytes \<Rightarrow> uuid \<Rightarrow> int \<Rightarrow> (hot_env, begin_result) io" where
  "valkey_begin vk identity request_hash owner_token lease_seconds =
     (if length request_hash \<noteq> 32 then throw ValueError
      else if lease_seconds \<le> 0 then throw ValueError
      else bind (redis_eval (begin_script (bytes_hex request_hash) (uuid_str owner_token) lease_seconds)
                   (storage_key vk identity)) (\<lambda>reply.
        case reply of
          RedisErrorRaised \<Rightarrow> throw IdempotencyStorageUnavailableError
        | RedisCallCancelled \<Rightarrow> throw CancelledError
        | RedisReply raw \<Rightarrow>
            (case begin_answer vk request_hash raw of
               Inl e \<Rightarrow> if isinstance e RuntimeError then throw IdempotencyStorageUnavailableError else throw e
             | Inr b \<Rightarrow> return b)))"

definition truthy :: "redis_raw \<Rightarrow> bool" where
  "truthy raw = (case raw of RawInt i \<Rightarrow> i \<noteq> 0 | RawText s \<Rightarrow> s \<noteq> [] | RawNil \<Rightarrow> False | RawList l \<Rightarrow> l \<noteq> [])"

definition eval_flag :: "lua_script \<Rightarrow> string \<Rightarrow> (hot_env, bool) io" where
  "eval_flag script key =
     bind (redis_eval script key) (\<lambda>reply.
       case reply of
         RedisErrorRaised \<Rightarrow> throw IdempotencyStorageUnavailableError
       | RedisCallCancelled \<Rightarrow> throw CancelledError
       | RedisReply raw \<Rightarrow> return (truthy raw))"

definition valkey_renew :: "valkey \<Rightarrow> idempotency_identity \<Rightarrow> uuid \<Rightarrow> int \<Rightarrow> (hot_env, bool) io" where
  "valkey_renew vk identity owner_token lease_seconds =
     (if lease_seconds \<le> 0 then throw ValueError
      else eval_flag (renew_script (uuid_str owner_token) lease_seconds) (storage_key vk identity))"

definition valkey_complete ::
    "valkey \<Rightarrow> idempotency_identity \<Rightarrow> uuid \<Rightarrow> completed_result \<Rightarrow> (hot_env, bool) io" where
  "valkey_complete vk identity owner_token result =
     eval_flag (complete_script (uuid_str owner_token) (encode_completed result) (vk_result_ttl_seconds vk)
                  (bytes_hex (cr_request_hash result))) (storage_key vk identity)"

definition valkey_abandon :: "valkey \<Rightarrow> idempotency_identity \<Rightarrow> uuid \<Rightarrow> (hot_env, bool) io" where
  "valkey_abandon vk identity owner_token =
     eval_flag (abandon_script (uuid_str owner_token)) (storage_key vk identity)"

subsection \<open>\<open>CircuitBreakingHotStore\<close>\<close>

definition breaking :: "(hot_env, 'a) io \<Rightarrow> (hot_env, 'a) io" where
  "breaking call =
     catch (breaker_call (\<lambda>_. True) call)
       (\<lambda>e. if isinstance e CircuitBreakerError then throw IdempotencyStorageUnavailableError else throw e)"

definition hot_idempotency_store :: "valkey \<Rightarrow> hot_env hot_store" where
  "hot_idempotency_store vk =
     \<lparr>hot_begin = (\<lambda>identity h owner lease_seconds. breaking (valkey_begin vk identity h owner lease_seconds)),
      hot_renew = (\<lambda>identity owner lease_seconds. breaking (valkey_renew vk identity owner lease_seconds)),
      hot_complete = (\<lambda>identity owner result. breaking (valkey_complete vk identity owner result)),
      hot_abandon = (\<lambda>identity owner. breaking (valkey_abandon vk identity owner))\<rparr>"

subsection \<open>The port\<close>

lemma base_frame_env: "base_frame s n d (w\<lparr>w_env := e\<rparr>) = base_frame s n d w"
  by (simp add: base_frame_def scripts_def)

lemma beside_base_frame: "beside_breaker w w' \<Longrightarrow> base_frame s n d w' = base_frame s n d w"
  by (auto simp: beside_breaker_def base_frame_env)

lemma redis_eval_frame [keeps_intros]: "keeps (base_frame s n d) (redis_eval script key)"
  by (auto simp: keeps_def redis_eval_def Let_def base_frame_env split: redis_fate.splits)

lemma keeps_redis_reply [keeps_intros]:
  "keeps I m \<Longrightarrow> keeps I m' \<Longrightarrow> (\<And>raw. keeps I (f raw)) \<Longrightarrow>
   keeps I (case x of RedisErrorRaised \<Rightarrow> m | RedisCallCancelled \<Rightarrow> m' | RedisReply raw \<Rightarrow> f raw)"
  by (cases x) auto

lemma keeps_sum [keeps_intros]:
  "(\<And>e. keeps I (f e)) \<Longrightarrow> (\<And>a. keeps I (g a)) \<Longrightarrow> keeps I (case x of Inl e \<Rightarrow> f e | Inr a \<Rightarrow> g a)"
  by (cases x) auto

lemma eval_flag_frame [keeps_intros]: "keeps (base_frame s n d) (eval_flag script key)"
  unfolding eval_flag_def by (intro keeps_intros)

lemma breaking_frame:
  assumes "\<And>s n d. keeps (base_frame s n d) call"
  shows "keeps (base_frame s n d) (breaking call)"
proof -
  have "keeps (base_frame s n d) (breaker_call (\<lambda>_. True) call)"
  proof (rule keepsI)
    fix w :: "hot_env world"
    assume w: "base_frame s n d w"
    obtain r w' where run: "breaker_call (\<lambda>_. True) call w = (r, w')" by fastforce
    then have "base_frame s n d w'"
      by (cases rule: breaker_call_outcome)
        (use w beside_base_frame keepsD [OF assms] in blast)+
    with run show "base_frame s n d (snd (breaker_call (\<lambda>_. True) call w))" by simp
  qed
  then show ?thesis unfolding breaking_def by (intro keeps_intros)
qed

lemma breaking_Inr: "breaking call w = (Inr a, w') \<Longrightarrow> \<exists>w1 w2. call w1 = (Inr a, w2)"
proof -
  assume "breaking call w = (Inr a, w')"
  then have "breaker_call (\<lambda>_. True) call w = (Inr a, w')"
    unfolding breaking_def by (auto simp: res_simps split: if_splits)
  then show ?thesis by (cases rule: breaker_call_outcome) blast+
qed

lemma breaking_raises:
  assumes "\<And>w e w'. call w = (Inl e, w') \<Longrightarrow> hot_failure e" and "breaking call w = (Inl e, w')"
  shows "hot_failure e"
proof -
  from assms(2) consider "e = IdempotencyStorageUnavailableError"
    | w1 where "breaker_call (\<lambda>_. True) call w = (Inl e, w1)" "\<not> isinstance e CircuitBreakerError"
    unfolding breaking_def by (auto simp: res_simps split: if_splits)
  then show ?thesis
  proof cases
    case 2
    from 2(1) show ?thesis
      by (cases rule: breaker_call_outcome) (use 2(2) isinstance_same assms(1) in blast)+
  qed (simp add: hot_failure_def)
qed

lemma redis_eval_total: "\<exists>reply w'. redis_eval script key w = (Inr reply, w')"
  by (auto simp: redis_eval_def Let_def split: redis_fate.splits)

lemma eval_flag_raises: "eval_flag script key w = (Inl e, w') \<Longrightarrow> hot_failure e"
proof -
  assume "eval_flag script key w = (Inl e, w')"
  moreover obtain reply w1 where "redis_eval script key w = (Inr reply, w1)" using redis_eval_total by blast
  ultimately show ?thesis
    by (cases reply) (auto simp: eval_flag_def bind_def throw_def return_def hot_failure_def)
qed

lemma BeginResult_raises: "BeginResult b = Inl e \<Longrightarrow> e = ValidationError"
  by (auto simp: BeginResult_def split: if_splits)

lemma begin_answer_raises: "begin_answer vk h raw = Inl e \<Longrightarrow> e = RuntimeError"
  by (auto simp: begin_answer_def result_code_def decode_completed_def BeginResult_def bind_res_iffs
      split: redis_raw.splits list.splits option.splits if_splits json.splits sum.splits)

lemma begin_answer_replay:
  "begin_answer vk h raw = Inr b \<Longrightarrow> br_action b = BEGIN_REPLAY \<Longrightarrow>
     \<exists>c. br_completed b = Some c \<and> cr_request_hash c = h"
  by (cases raw) (auto simp: begin_answer_def BeginResult_def bind_res_iffs split: if_splits)

lemma valkey_begin_frame: "keeps (base_frame s n d) (valkey_begin vk i h ow l)"
  unfolding valkey_begin_def by (intro keeps_intros)

lemma valkey_begin_raises:
  assumes "length h = 32" and "0 < l" and "valkey_begin vk i h ow l w = (Inl e, w')"
  shows "hot_failure e"
proof -
  obtain reply w1 where "redis_eval (begin_script (bytes_hex h) (uuid_str ow) l) (storage_key vk i) w = (Inr reply, w1)"
    using redis_eval_total by blast
  with assms begin_answer_raises isinstance_same show ?thesis
    by (fastforce simp: valkey_begin_def bind_def throw_def return_def hot_failure_def
        split: redis_reply.splits sum.splits if_splits)
qed

lemma valkey_begin_replay:
  "valkey_begin vk i h ow l w = (Inr b, w') \<Longrightarrow> br_action b = BEGIN_REPLAY \<Longrightarrow>
     \<exists>c. br_completed b = Some c \<and> cr_request_hash c = h"
proof -
  assume run: "valkey_begin vk i h ow l w = (Inr b, w')" and act: "br_action b = BEGIN_REPLAY"
  obtain reply w1 where
    "redis_eval (begin_script (bytes_hex h) (uuid_str ow) l) (storage_key vk i) w = (Inr reply, w1)"
    using redis_eval_total by blast
  with run have "\<exists>raw. begin_answer vk h raw = Inr b"
    by (cases reply) (auto simp: valkey_begin_def bind_def throw_def return_def split: if_splits sum.splits)
  with act begin_answer_replay show ?thesis by blast
qed

interpretation valkey: hot_port "hot_idempotency_store vk" for vk
proof
  show "keeps (base_frame s n d) (hot_begin (hot_idempotency_store vk) i h ow l)" for s n d i h ow l
    by (simp add: hot_idempotency_store_def breaking_frame valkey_begin_frame)
  show "keeps (base_frame s n d) (hot_renew (hot_idempotency_store vk) i ow l)" for s n d i ow l
    unfolding hot_idempotency_store_def valkey_renew_def by (auto intro!: breaking_frame keeps_intros)
  show "keeps (base_frame s n d) (hot_complete (hot_idempotency_store vk) i ow c)" for s n d i ow c
    unfolding hot_idempotency_store_def valkey_complete_def by (auto intro!: breaking_frame keeps_intros)
  show "keeps (base_frame s n d) (hot_abandon (hot_idempotency_store vk) i ow)" for s n d i ow
    unfolding hot_idempotency_store_def valkey_abandon_def by (auto intro!: breaking_frame keeps_intros)
  show "hot_failure e" if "length h = 32" "0 < l" "hot_begin (hot_idempotency_store vk) i h ow l w = (Inl e, w')"
    for h l i ow w e w'
    using that breaking_raises [OF valkey_begin_raises [OF that(1,2)]] by (simp add: hot_idempotency_store_def)
  show "hot_failure e" if "hot_complete (hot_idempotency_store vk) i ow c w = (Inl e, w')" for i ow c w e w'
    using that breaking_raises [OF eval_flag_raises] by (simp add: hot_idempotency_store_def valkey_complete_def)
  show "hot_failure e" if "hot_abandon (hot_idempotency_store vk) i ow w = (Inl e, w')" for i ow w e w'
    using that breaking_raises [OF eval_flag_raises] by (simp add: hot_idempotency_store_def valkey_abandon_def)
  show "\<exists>c. br_completed b = Some c \<and> cr_request_hash c = h"
    if "hot_begin (hot_idempotency_store vk) i h ow l w = (Inr b, w')" "br_action b = BEGIN_REPLAY" for i h ow l w b w'
    using that breaking_Inr [of "valkey_begin vk i h ow l" w b w'] valkey_begin_replay
    by (simp add: hot_idempotency_store_def) blast
qed

subsection \<open>Entries\<close>

text \<open>
  The life of one key: scripts of any owners with any arguments, and time passing. The server never
  shows an expired entry to a script.
\<close>

definition visible :: "int \<Rightarrow> hot_entry option \<Rightarrow> hot_entry option" where
  "visible now entry = (case entry of None \<Rightarrow> None | Some e \<Rightarrow> if expired_at now e then None else Some e)"

inductive hot_step :: "int \<times> hot_entry option \<Rightarrow> int \<times> hot_entry option \<Rightarrow> bool" where
  time_passes: "t \<le> t' \<Longrightarrow> hot_step (t, e) (t', e)"
| begins: "0 < l \<Longrightarrow> hot_step (t, e) (t, snd (begin_script h ow l t (visible t e)))"
| renews: "0 < l \<Longrightarrow> hot_step (t, e) (t, snd (renew_script ow l t (visible t e)))"
| completes: "0 < ttl \<Longrightarrow> hot_step (t, e) (t, snd (complete_script ow res ttl h t (visible t e)))"
| abandons: "hot_step (t, e) (t, snd (abandon_script ow t (visible t e)))"

definition hot_processing :: "hot_entry \<Rightarrow> bool" where
  "hot_processing e \<longleftrightarrow> rh_fields e ''state'' = Some ''processing'' \<and> rh_fields e ''owner_token'' \<noteq> None \<and>
     rh_fields e ''result'' = None"

definition hot_completed :: "hot_entry \<Rightarrow> bool" where
  "hot_completed e \<longleftrightarrow> rh_fields e ''state'' = Some ''completed'' \<and> rh_fields e ''owner_token'' = None \<and>
     rh_fields e ''result'' \<noteq> None"

definition hot_wf :: "hot_entry \<Rightarrow> bool" where
  "hot_wf e \<longleftrightarrow> rh_fields e ''format_version'' = Some ''1'' \<and> rh_fields e ''request_hash'' \<noteq> None \<and>
     rh_expires e \<noteq> None \<and> (hot_processing e \<or> hot_completed e)"

lemmas hot_defs = hot_wf_def hot_processing_def hot_completed_def owned_processing_def

lemma begin_script_wf: "(\<And>x. e = Some x \<Longrightarrow> hot_wf x) \<Longrightarrow> snd (begin_script h ow l t e) = Some x \<Longrightarrow> hot_wf x"
  by (cases e) (auto simp: begin_script_def hot_defs Let_def split: option.splits if_splits)

lemma owner_scripts_wf:
  "(\<And>x. e = Some x \<Longrightarrow> hot_wf x) \<Longrightarrow> snd (renew_script ow l t e) = Some x \<Longrightarrow> hot_wf x"
  "(\<And>x. e = Some x \<Longrightarrow> hot_wf x) \<Longrightarrow> snd (complete_script ow res ttl h t e) = Some x \<Longrightarrow> hot_wf x"
  "(\<And>x. e = Some x \<Longrightarrow> hot_wf x) \<Longrightarrow> snd (abandon_script ow t e) = Some x \<Longrightarrow> hot_wf x"
  by (cases e; auto simp: renew_script_def complete_script_def abandon_script_def hot_defs split: if_splits)+

lemma visible_Some: "visible t e = Some x \<Longrightarrow> e = Some x \<and> \<not> expired_at t x"
  by (auto simp: visible_def split: option.splits if_splits)

lemma hot_step_wf: "hot_step s s' \<Longrightarrow> (\<And>x. snd s = Some x \<Longrightarrow> hot_wf x) \<Longrightarrow> snd s' = Some y \<Longrightarrow> hot_wf y"
proof (induction rule: hot_step.induct)
  case (begins l t e h ow)
  then show ?case using begin_script_wf [of "visible t e" h ow l t y] visible_Some by fastforce
next
  case (renews l t e ow)
  then show ?case using owner_scripts_wf(1) [of "visible t e" ow l t y] visible_Some by fastforce
next
  case (completes ttl t e ow res h)
  then show ?case using owner_scripts_wf(2) [of "visible t e" ow res ttl h t y] visible_Some by fastforce
next
  case (abandons t e ow)
  then show ?case using owner_scripts_wf(3) [of "visible t e" ow t y] visible_Some by fastforce
qed simp

lemma hot_steps_wf: "hot_step\<^sup>*\<^sup>* (t0, None) (t, Some e) \<Longrightarrow> hot_wf e"
proof -
  have "hot_step\<^sup>*\<^sup>* (t0, None) s \<Longrightarrow> snd s = Some e \<Longrightarrow> hot_wf e" for s e
  proof (induction arbitrary: e rule: rtranclp_induct)
    case (step s s')
    then show ?case using hot_step_wf by blast
  qed simp
  then show "hot_step\<^sup>*\<^sup>* (t0, None) (t, Some e) \<Longrightarrow> hot_wf e" by fastforce
qed

text \<open>
  C30. A key of the hot store under any interleaving of clients: an entry is always well formed, so
  \<open>begin\<close> never reports corruption. While a lease is live, \<open>begin\<close> of anybody else answers
  \<open>IN_PROGRESS\<close> for the same request and \<open>CONFLICT\<close> for another one, and renew, complete and abandon
  with another owner token do nothing. A completed entry is not changed by anybody until it expires,
  and \<open>begin\<close> answers with its result.
\<close>
theorem hot_entry_contract:
  assumes "hot_step\<^sup>*\<^sup>* (t0, None) (t, Some e)"
  shows "hot_wf e \<and> fst (begin_script h ow l t (Some e)) \<noteq> RawList [RawInt 5] \<and>
    (\<forall>holder. owned_processing holder e \<and> ow \<noteq> holder \<longrightarrow>
       begin_script h ow l t (Some e) =
         (RawList [RawInt (if rh_fields e ''request_hash'' = Some h then 4 else 3)], Some e) \<and>
       renew_script ow l t (Some e) = (RawInt 0, Some e) \<and>
       complete_script ow res ttl h t (Some e) = (RawInt 0, Some e) \<and>
       abandon_script ow t (Some e) = (RawInt 0, Some e)) \<and>
    (\<forall>result. hot_completed e \<and> rh_fields e ''result'' = Some result \<longrightarrow>
       begin_script h ow l t (Some e) =
         (if rh_fields e ''request_hash'' = Some h then RawList [RawInt 2, RawText result]
          else RawList [RawInt 3], Some e) \<and>
       renew_script ow l t (Some e) = (RawInt 0, Some e) \<and>
       complete_script ow res ttl h t (Some e) = (RawInt 0, Some e) \<and>
       abandon_script ow t (Some e) = (RawInt 0, Some e))"
proof -
  note wf = hot_steps_wf [OF assms]
  have "fst (begin_script h ow l t (Some e)) \<noteq> RawList [RawInt 5]"
    using wf by (auto simp: begin_script_def hot_defs Let_def split: if_splits)
  moreover have "begin_script h ow l t (Some e) =
         (RawList [RawInt (if rh_fields e ''request_hash'' = Some h then 4 else 3)], Some e) \<and>
       renew_script ow l t (Some e) = (RawInt 0, Some e) \<and>
       complete_script ow res ttl h t (Some e) = (RawInt 0, Some e) \<and>
       abandon_script ow t (Some e) = (RawInt 0, Some e)"
    if "owned_processing holder e" "ow \<noteq> holder" for holder
    using wf that
    by (auto simp: begin_script_def renew_script_def complete_script_def abandon_script_def hot_defs Let_def)
  moreover have "begin_script h ow l t (Some e) =
         (if rh_fields e ''request_hash'' = Some h then RawList [RawInt 2, RawText result]
          else RawList [RawInt 3], Some e) \<and>
       renew_script ow l t (Some e) = (RawInt 0, Some e) \<and>
       complete_script ow res ttl h t (Some e) = (RawInt 0, Some e) \<and>
       abandon_script ow t (Some e) = (RawInt 0, Some e)"
    if "hot_completed e" "rh_fields e ''result'' = Some result" for result
    using wf that
    by (auto simp: begin_script_def renew_script_def complete_script_def abandon_script_def hot_defs Let_def)
  ultimately show ?thesis using wf by blast
qed

subsection \<open>Encoding\<close>

definition sorted_payload :: "completed_result \<Rightarrow> completed_result" where
  "sorted_payload c = c\<lparr>sr_result_payload := map_option json_sort (sr_result_payload c)\<rparr>"

definition encodable :: "completed_result \<Rightarrow> bool" where
  "encodable c \<longleftrightarrow> CompletedIdempotencyResult c = Inr c \<and> list_all (\<lambda>b. b < 256) (cr_request_hash c) \<and>
     (case sr_result_payload c of None \<Rightarrow> True | Some (JObj fs) \<Rightarrow> json_keys_distinct (JObj fs) | Some _ \<Rightarrow> False)"

definition pydantic_reads :: "valkey \<Rightarrow> bool" where
  "pydantic_reads vk \<longleftrightarrow> reads_json (vk_validate_json vk) \<and> (\<forall>i. vk_lax_int vk (JInt i) = Some i)"

lemma completed_json_distinct: "encodable c \<Longrightarrow> json_keys_distinct (completed_json c)"
  by (auto simp: encodable_def completed_json_def json_opt_def split: option.splits json.splits)

lemma completed_field:
  "json_field ''result_type'' (json_sort (completed_json c)) = Some (JStr (sr_result_type c))"
  "json_field ''result_payload'' (json_sort (completed_json c)) =
     Some (json_opt id (map_option json_sort (sr_result_payload c)))"
  "json_field ''result_version'' (json_sort (completed_json c)) = Some (JInt (sr_result_version c))"
  "json_field ''resource_type'' (json_sort (completed_json c)) = Some (json_opt JStr (sr_resource_type c))"
  "json_field ''resource_id'' (json_sort (completed_json c)) = Some (json_opt JStr (sr_resource_id c))"
  "json_field ''resource_version'' (json_sort (completed_json c)) = Some (json_opt JInt (sr_resource_version c))"
  "json_field ''request_hash'' (json_sort (completed_json c)) = Some (JStr (bytes_hex (cr_request_hash c)))"
  unfolding completed_json_def
  by (subst json_field_sort; simp add: json_field_def json_opt_def split: option.split)+

lemma decode_encode:
  assumes "pydantic_reads vk" and "encodable c"
  shows "decode_completed vk (RawText (encode_completed c)) = Inr (sorted_payload c)"
proof -
  let ?j = "json_sort (completed_json c)"
  have read: "vk_validate_json vk (encode_completed c) = Some ?j"
    using assms completed_json_distinct by (simp add: pydantic_reads_def reads_json_def encode_completed_def)
  have hex: "bytes_fromhex (bytes_hex (cr_request_hash c)) = Some (cr_request_hash c)"
    using assms(2) by (intro bytes_fromhex_hex) (simp add: encodable_def list_all_iff)
  have valid: "CompletedIdempotencyResult (sorted_payload c) = Inr (sorted_payload c)"
    using assms(2) by (auto simp: encodable_def CompletedIdempotencyResult_def stored_fields_def
        validate_replayability_def sorted_payload_def split: if_splits)
  have lax: "vk_lax_int vk (JInt i) = Some i" for i using assms(1) by (simp add: pydantic_reads_def)
  have payload: "optional_field json_dict ''result_payload'' ?j = Inr (map_option json_sort (sr_result_payload c))"
    using assms(2) by (auto simp: optional_field_def completed_field json_opt_def json_dict_def encodable_def
        split: option.splits json.splits)
  have "completed_of_json (vk_lax_int vk) ?j (cr_request_hash c) = Inr (sorted_payload c)"
    unfolding completed_of_json_def payload
    using valid by (cases "sr_resource_type c"; cases "sr_resource_id c"; cases "sr_resource_version c"; cases c)
      (simp_all add: str_field_def optional_field_def version_field_def completed_field json_opt_def json_text_def
        lax sorted_payload_def)
  moreover obtain fs where "?j = JObj fs" by (simp add: completed_json_def)
  ultimately show ?thesis
    using read hex completed_field(7) [of c] by (simp add: decode_completed_def)
qed

lemma eval_flag_True:
  assumes "eval_flag script key w = (Inr True, w')"
  shows "\<exists>raw data. run_script script key (ve_now (w_env w) (ve_calls (w_env w)))
       (ve_rival (w_env w) (ve_calls (w_env w)) (ve_data (w_env w))) = (Some raw, data) \<and> truthy raw \<and>
     w_env w' = (w_env w)\<lparr>ve_data := data, ve_calls := Suc (ve_calls (w_env w))\<rparr>"
proof -
  obtain reply w1 where "redis_eval script key w = (Inr reply, w1)" using redis_eval_total by blast
  with assms show ?thesis
    by (cases reply; cases "ve_fate (w_env w) (ve_calls (w_env w))";
        cases "run_script script key (ve_now (w_env w) (ve_calls (w_env w)))
          (ve_rival (w_env w) (ve_calls (w_env w)) (ve_data (w_env w)))")
      (auto simp: eval_flag_def bind_def throw_def return_def redis_eval_def Let_def split: option.splits)
qed

definition completed_entry :: "completed_result \<Rightarrow> int \<Rightarrow> hot_entry \<Rightarrow> bool" where
  "completed_entry c expires e \<longleftrightarrow>
     rh_fields e ''format_version'' = Some ''1'' \<and> rh_fields e ''state'' = Some ''completed'' \<and>
     rh_fields e ''request_hash'' = Some (bytes_hex (cr_request_hash c)) \<and> rh_fields e ''owner_token'' = None \<and>
     rh_fields e ''result'' = Some (encode_completed c) \<and> rh_expires e = Some expires"

lemma valkey_complete_stores:
  assumes "valkey_complete vk i ow c w = (Inr True, w')"
  shows "\<exists>e. ve_data (w_env w') (storage_key vk i) = Some (RedisHash e) \<and>
     completed_entry c (ve_now (w_env w) (ve_calls (w_env w)) + vk_result_ttl_seconds vk) e"
  using eval_flag_True [OF assms [unfolded valkey_complete_def]]
  by (auto simp: run_script_def complete_script_def completed_entry_def owned_processing_def truthy_def
      split: option.splits redis_value.splits if_splits prod.splits)

lemma begin_script_completed:
  "completed_entry c x e \<Longrightarrow> begin_script (bytes_hex (cr_request_hash c)) ow l t (Some e) =
     (RawList [RawInt 2, RawText (encode_completed c)], Some e)"
  by (simp add: begin_script_def completed_entry_def Let_def)

text \<open>
  C31. What an owner completed is what later requests get: after \<open>complete\<close> has succeeded, a \<open>begin\<close> with
  the same request hash before the result expires answers \<open>REPLAY\<close> with that result, encoded to JSON
  text and decoded again, equal up to the order of the keys of its payload, as long as the server
  answers and nobody else writes the key.
\<close>
theorem hot_store_replays_the_completed_result:
  assumes reads: "pydantic_reads vk" and c: "encodable c"
    and stored: "valkey_complete vk i ow c w = (Inr True, w')"
    and env: "env = w_env w'" and n: "n = ve_calls env"
    and "ve_rival env n (ve_data env) (storage_key vk i) = ve_data env (storage_key vk i)"
    and "ve_fate env n = RedisAnswers" and "0 < l"
    and "ve_now env n < ve_now (w_env w) (ve_calls (w_env w)) + vk_result_ttl_seconds vk"
  shows "\<exists>w''. valkey_begin vk i (cr_request_hash c) ow' l w' =
     (Inr \<lparr>br_action = BEGIN_REPLAY, br_completed = Some (sorted_payload c)\<rparr>, w'')"
proof -
  let ?h = "cr_request_hash c" and ?key = "storage_key vk i"
  from valkey_complete_stores [OF stored] obtain e where e: "ve_data env ?key = Some (RedisHash e)"
    and entry: "completed_entry c (ve_now (w_env w) (ve_calls (w_env w)) + vk_result_ttl_seconds vk) e"
    unfolding env by blast
  have h: "length ?h = 32"
    using c by (auto simp: encodable_def CompletedIdempotencyResult_def split: if_splits)
  have "\<not> expired_at (ve_now env n) e"
    using entry assms(9) by (simp add: completed_entry_def expired_at_def)
  then have ran: "fst (run_script (begin_script (bytes_hex ?h) (uuid_str ow') l) ?key (ve_now env n)
      (ve_rival env n (ve_data env))) = Some (RawList [RawInt 2, RawText (encode_completed c)])"
    using e assms(6) begin_script_completed [OF entry] by (simp add: run_script_def)
  then obtain w'' where "redis_eval (begin_script (bytes_hex ?h) (uuid_str ow') l) ?key w' =
      (Inr (RedisReply (RawList [RawInt 2, RawText (encode_completed c)])), w'')"
    using assms(7) env n by (simp add: redis_eval_def Let_def)
  moreover have "begin_answer vk ?h (RawList [RawInt 2, RawText (encode_completed c)]) =
      Inr \<lparr>br_action = BEGIN_REPLAY, br_completed = Some (sorted_payload c)\<rparr>"
    using decode_encode [OF reads c] by (simp add: begin_answer_def result_code_def BeginResult_def sorted_payload_def)
  ultimately show ?thesis using h assms(8) by (simp add: valkey_begin_def bind_def return_def)
qed

text \<open>
  C15. The hot store decides nothing about the business effect: with the Valkey adapter behind its
  circuit breaker, whatever fails there, the coordinator either runs the durable execution and passes
  its answer and its effects on unchanged (unless the task is cancelled), or commits nothing and does
  not answer \<open>EXECUTED\<close>.
\<close>
theorem coordinator_refines_durable_execution:
  assumes "0 < l" and "length h = 32"
    and "coordinator_execute ret (Some (hot_idempotency_store vk)) beats i h operation l w = (r, w')"
  shows "(\<exists>w1 r0 w2. same_base w w1 \<and> execute_once ret i h operation w1 = (r0, w2) \<and> same_base w2 w' \<and>
       (r = r0 \<or> r = Inl CancelledError)) \<or>
     only_rivals w w' \<and> (\<forall>res. r = Inr res \<longrightarrow> er_outcome res \<noteq> OUTCOME_EXECUTED)"
  using assms(3)
proof (cases rule: valkey.coordinator_cases)
  case refused
  with assms(1,2) show ?thesis by simp
next
  case (durable w1 r0 w2)
  then show ?thesis by blast
qed auto

subsection \<open>Witnesses\<close>

definition sample_valkey :: valkey where
  "sample_valkey = \<lparr>vk_sha256 = id, vk_validate_json = json_loads,
     vk_lax_int = (\<lambda>j. case j of JInt i \<Rightarrow> Some i | _ \<Rightarrow> None), vk_result_ttl_seconds = 60,
     vk_key_namespace = ''idempotency''\<rparr>"

lemma sample_valkey_reads: "pydantic_reads sample_valkey"
  by (simp add: pydantic_reads_def sample_valkey_def json_loads_reads)

lemma sample_result_encodable: "encodable sample_result"
  using sample_result_ok by (simp add: encodable_def sample_result_def list_all_iff)

definition taken_entry :: hot_entry where
  "taken_entry = \<lparr>rh_fields = [''format_version'' \<mapsto> ''1'', ''state'' \<mapsto> ''processing'',
     ''request_hash'' \<mapsto> bytes_hex sample_hash, ''owner_token'' \<mapsto> uuid_str 7], rh_expires = Some 30\<rparr>"

definition hot_world :: "hot_env world" where
  "hot_world = quiet_world empty_db
     \<lparr>be_breaker = \<lparr>cb_fail_max = 3, cb_recovery_timeout = 5, cb_state = CLOSED, cb_failure_count = 0,
        cb_opened_at = None, cb_probe_in_progress = False, cb_probe_token = None, cb_generation = 0\<rparr>,
      be_mono = (\<lambda>_. 0), be_monos = 0, be_tokens = 0, be_rival = (\<lambda>_ b. b),
      ve_data = [storage_key sample_valkey sample_identity \<mapsto> RedisHash taken_entry], ve_now = (\<lambda>_. 0),
      ve_fate = (\<lambda>_. RedisAnswers), ve_rival = (\<lambda>_ d. d), ve_calls = 0\<rparr>"

theorem hot_entry_contract_witness:
  "begin_script (bytes_hex sample_hash) (uuid_str 8) 30 0 (Some taken_entry) =
     (RawList [RawInt 4], Some taken_entry) \<and>
   abandon_script (uuid_str 8) 0 (Some taken_entry) = (RawInt 0, Some taken_entry)"
proof -
  have "hot_step (0, None) (0, snd (begin_script (bytes_hex sample_hash) (uuid_str 7) 30 0 (visible 0 None)))"
    by (rule begins) simp
  then have steps: "hot_step\<^sup>*\<^sup>* (0, None) (0, Some taken_entry)"
    by (auto simp: begin_script_def visible_def taken_entry_def)
  have "uuid_str 8 \<noteq> uuid_str 7" using uuid_str_inj [of 8 7] by auto
  moreover have "owned_processing (uuid_str 7) taken_entry"
    "rh_fields taken_entry ''request_hash'' = Some (bytes_hex sample_hash)"
    by (simp_all add: owned_processing_def taken_entry_def)
  ultimately show ?thesis
    using hot_entry_contract [OF steps, of "bytes_hex sample_hash" "uuid_str 8" 30 "[]" 60] by auto
qed

theorem hot_store_replays_the_completed_result_witness:
  "\<exists>w' w''. valkey_complete sample_valkey sample_identity 7 sample_result hot_world = (Inr True, w') \<and>
     valkey_begin sample_valkey sample_identity (cr_request_hash sample_result) 8 30 w' =
       (Inr \<lparr>br_action = BEGIN_REPLAY, br_completed = Some (sorted_payload sample_result)\<rparr>, w'')"
proof -
  obtain r w' where run: "valkey_complete sample_valkey sample_identity 7 sample_result hot_world = (r, w')"
    by fastforce
  have hash: "cr_request_hash sample_result = sample_hash"
    by (simp add: sample_result_def sample_hash_def)
  have "r = Inr True" "ve_rival (w_env w') = (\<lambda>_ d. d)" "ve_fate (w_env w') = (\<lambda>_. RedisAnswers)"
    "ve_now (w_env w') = (\<lambda>_. 0)"
    using run by (auto simp: valkey_complete_def eval_flag_def redis_eval_def hot_world_def quiet_world_def Let_def
        bind_def run_script_def expired_at_def taken_entry_def complete_script_def owned_processing_def
        truthy_def return_def hash)
  moreover have "ve_now (w_env hot_world) = (\<lambda>_. 0)" by (simp add: hot_world_def quiet_world_def)
  moreover have "vk_result_ttl_seconds sample_valkey = 60" by (simp add: sample_valkey_def)
  ultimately show ?thesis
    using hot_store_replays_the_completed_result [OF sample_valkey_reads sample_result_encodable _ refl refl,
        of sample_identity 7 hot_world w' 30 8] run by auto
qed

theorem coordinator_refines_durable_execution_witness:
  "\<exists>r w'. coordinator_execute 300 (Some (hot_idempotency_store sample_valkey)) 2 sample_identity sample_hash
       (return (stored_result.truncate sample_result)) 30 hot_world = (r, w') \<and>
     ((\<exists>w1 r0 w2. same_base hot_world w1 \<and> execute_once 300 sample_identity sample_hash
         (return (stored_result.truncate sample_result)) w1 = (r0, w2) \<and> same_base w2 w' \<and>
         (r = r0 \<or> r = Inl CancelledError)) \<or> only_rivals hot_world w')"
proof -
  obtain r w' where run: "coordinator_execute 300 (Some (hot_idempotency_store sample_valkey)) 2 sample_identity
      sample_hash (return (stored_result.truncate sample_result)) 30 hot_world = (r, w')" by fastforce
  from coordinator_refines_durable_execution [OF _ sample_hash_length run] run show ?thesis by auto
qed

end
