(* ===== verification/Session_Store.thy ===== *)
theory Session_Store
  imports Idempotency
begin

section \<open>The tables of sessions and refresh tokens\<close>

text \<open>
  What the statements of \<open>AuthSessionRepository\<close> and \<open>RefreshTokenRepository\<close> do to the tables, and
  the invariant they keep: unique keys, rows that load into valid aggregates, every token in a
  session and every session in an account, and in each session at most one token that has not been
  consumed.
\<close>

definition live_token :: "db \<Rightarrow> refresh_token \<Rightarrow> bool" where
  "live_token d t \<longleftrightarrow> t \<in> set (db_tokens d) \<and> \<not> is_used t"

definition sessions_ok :: "db \<Rightarrow> bool" where
  "sessions_ok d \<longleftrightarrow>
     distinct (map s_id (db_sessions d)) \<and> distinct (map t_id (db_tokens d)) \<and>
     distinct (map t_token_hash (db_tokens d)) \<and>
     (\<forall>s \<in> set (db_sessions d). session_row s = s \<and> valid_session s \<and> s_user_id s \<in> u_id ` set (db_users d)) \<and>
     (\<forall>t \<in> set (db_tokens d). valid_token t \<and>
        (\<exists>s \<in> set (db_sessions d). s_id s = t_session_id t \<and> s_created_at s \<le> t_created_at t)) \<and>
     (\<forall>t t'. live_token d t \<and> live_token d t' \<and> t_session_id t = t_session_id t' \<longrightarrow> t = t')"

lemma sessions_okD:
  assumes "sessions_ok d"
  shows "distinct (map s_id (db_sessions d))" "distinct (map t_id (db_tokens d))"
    "distinct (map t_token_hash (db_tokens d))"
    "s \<in> set (db_sessions d) \<Longrightarrow> session_row s = s \<and> valid_session s \<and> s_user_id s \<in> u_id ` set (db_users d)"
    "t \<in> set (db_tokens d) \<Longrightarrow> valid_token t \<and>
        (\<exists>s \<in> set (db_sessions d). s_id s = t_session_id t \<and> s_created_at s \<le> t_created_at t)"
    "live_token d t \<Longrightarrow> live_token d t' \<Longrightarrow> t_session_id t = t_session_id t' \<Longrightarrow> t = t'"
  using assms unfolding sessions_ok_def by blast+

subsection \<open>Loading\<close>

lemma validated_same:
  "validate_refresh_token t = Inr t' \<Longrightarrow> t' = t" "validate_auth_session s = Inr s' \<Longrightarrow> s' = s"
  by (simp_all add: validate_refresh_token_result validate_auth_session_result)

lemma token_to_domain_result: "token_to_domain t = Inr t' \<longleftrightarrow> t' = t \<and> valid_token t"
  by (auto simp: token_to_domain_def valid_token_def dest: validated_same split: sum.splits)

lemma session_to_domain_result: "session_to_domain s = Inr s' \<longleftrightarrow> s' = s \<and> validate_auth_session s = Inr s"
  by (auto simp: session_to_domain_def dest: validated_same split: sum.splits)

lemma optional_Some: "optional f row = Inr (Some y) \<longleftrightarrow> (\<exists>x. row = Some x \<and> f x = Inr y)"
  by (auto simp: optional_def bind_res_iffs split: option.splits)

lemma optional_None: "optional f row = Inr None \<longleftrightarrow> row = None"
  by (auto simp: optional_def bind_res_iffs split: option.splits)

lemma with_token_Some:
  "with_token row t = Inr (Some s) \<longleftrightarrow>
     (\<exists>r. row = Some r \<and> validate_auth_session r = Inr r \<and> s = r\<lparr>s_refresh_token := Some t\<rparr>)"
  by (auto simp: with_token_def dest: validated_same split: option.splits sum.splits)

lemma session_row_fixed: "session_row s = s \<longleftrightarrow> s_refresh_token s = None \<and> s_replacement_token s = None"
  by (cases s) (auto simp: session_row_def)

lemma session_row_sel [simp]:
  "s_id (session_row s) = s_id s" "s_user_id (session_row s) = s_user_id s"
  "s_created_at (session_row s) = s_created_at s" "s_idle_expires_at (session_row s) = s_idle_expires_at s"
  "s_revoked_at (session_row s) = s_revoked_at s" "session_row (session_row s) = session_row s"
  by (simp_all add: session_row_def)

lemma find_in_table: "find p rows = Some r \<Longrightarrow> r \<in> set rows \<and> p r"
  by (auto simp: find_Some_iff)

definition loaded :: "db \<Rightarrow> refresh_token \<Rightarrow> auth_session \<Rightarrow> bool" where
  "loaded d t s \<longleftrightarrow>
     t \<in> set (db_tokens d) \<and> valid_token t \<and> t_session_id t = s_id s \<and> s_refresh_token s = Some t \<and>
     session_row s \<in> set (db_sessions d) \<and>
     s_replacement_token s = None"

lemma loadedD:
  assumes "sessions_ok d" and "loaded d t s"
  shows "session_row s \<in> set (db_sessions d)" "t \<in> set (db_tokens d)" "s_refresh_token s = Some t"
    "s_replacement_token s = None" "t_session_id t = s_id s" "valid_token t"
  using assms by (auto simp: loaded_def session_row_def)

lemma loaded_with_token:
  assumes "sessions_ok d" and "t \<in> set (db_tokens d)" and "valid_token t"
    and "with_token (find (\<lambda>s. s_id s = t_session_id t) (db_sessions d)) t = Inr (Some s)"
  shows "loaded d t s"
proof -
  from assms(4) obtain r where r: "find (\<lambda>s. s_id s = t_session_id t) (db_sessions d) = Some r"
    and s: "s = r\<lparr>s_refresh_token := Some t\<rparr>" by (auto simp: with_token_Some)
  have row: "session_row r = r" using find_in_table [OF r] sessions_okD(4) [OF assms(1)] by blast
  then have "s_replacement_token r = None" by (simp add: session_row_fixed)
  with row assms(2,3) find_in_table [OF r] s show ?thesis by (auto simp: loaded_def session_row_def)
qed

lemma load_by_id:
  assumes "sessions_ok d" and "get_by_refresh_id i d = Inr (Some s)"
  shows "\<exists>t. loaded d t s \<and> t_id t = i"
proof -
  from assms(2) obtain t where t: "find (\<lambda>r. t_id r = i) (db_tokens d) = Some t" "valid_token t"
    and "with_token (find (\<lambda>s. s_id s = t_session_id t) (db_sessions d)) t = Inr (Some s)"
    by (auto simp: get_by_refresh_id_def repo_get_def bind_res_iffs
        optional_Some optional_None token_to_domain_result split: option.splits)
  with loaded_with_token [OF assms(1)] find_in_table [OF t(1)] show ?thesis by blast
qed

lemma load_by_hash:
  assumes "sessions_ok d"
  shows "get_by_refresh_hash_for_update h d = Inr (Some s) \<longleftrightarrow> (\<exists>t. loaded d t s \<and> t_token_hash t = h)"
proof
  assume "get_by_refresh_hash_for_update h d = Inr (Some s)"
  then obtain t where t: "find (\<lambda>r. t_token_hash r = h) (db_tokens d) = Some t" "valid_token t"
    and "with_token (find (\<lambda>s. s_id s = t_session_id t) (db_sessions d)) t = Inr (Some s)"
    by (auto simp: get_by_refresh_hash_for_update_def get_by_hash_for_update_def bind_res_iffs
        optional_Some optional_None token_to_domain_result split: option.splits)
  with loaded_with_token [OF assms] find_in_table [OF t(1)] show "\<exists>t. loaded d t s \<and> t_token_hash t = h" by blast
next
  assume "\<exists>t. loaded d t s \<and> t_token_hash t = h"
  then obtain t where l: "loaded d t s" and h: "t_token_hash t = h" by blast
  note d = loadedD [OF assms l]
  have "find (\<lambda>r. t_token_hash r = h) (db_tokens d) = Some t"
    using find_unique_key [OF sessions_okD(3) [OF assms] d(2)] h by simp
  moreover have "find (\<lambda>r. s_id r = t_session_id t) (db_sessions d) = Some (session_row s)"
    using find_unique_key [OF sessions_okD(1) [OF assms] d(1)] d(5) by (simp add: session_row_def)
  moreover have "validate_auth_session (session_row s) = Inr (session_row s)"
    using sessions_okD(4) [OF assms d(1)] by (simp add: valid_session_def)
  moreover have "s = (session_row s)\<lparr>s_refresh_token := Some t\<rparr>"
    using d(3,4) by (simp add: session_row_def)
  ultimately show "get_by_refresh_hash_for_update h d = Inr (Some s)"
    using d(6) unfolding get_by_refresh_hash_for_update_def get_by_hash_for_update_def
    by (auto simp: bind_res_iffs optional_Some token_to_domain_result with_token_Some intro!: exI [of _ "Some t"])
qed

subsection \<open>Saving\<close>

definition put :: "('r \<Rightarrow> uuid) \<Rightarrow> 'r \<Rightarrow> 'r list \<Rightarrow> 'r list" where
  "put k x rows = update_where (\<lambda>r. k r = k x) (\<lambda>_. x) rows"

lemma map_put [simp]: "map k (put k x rows) = map k rows"
  unfolding put_def by (rule update_where_map_eq) simp

lemma keys_put [simp]: "k ` set (put k x rows) = k ` set rows"
  using map_put [of k x rows] by (metis list.set_map)

lemma set_put: "\<exists>r \<in> set rows. k r = k x \<Longrightarrow> set (put k x rows) = insert x {r \<in> set rows. k r \<noteq> k x}"
  by (auto simp: put_def in_set_update_where)

lemma put_same: "distinct (map k rows) \<Longrightarrow> x \<in> set rows \<Longrightarrow> put k x rows = rows"
  unfolding put_def update_where_def by (rule map_idI) (auto dest: unique_key)

lemma repo_create_Inr:
  "repo_create v f x rows = Inr (y, rows') \<longleftrightarrow> v x rows = None \<and> f x = Inr y \<and> rows' = rows @ [x]"
  by (auto simp: repo_create_def bind_res_iffs split: option.splits)

lemma repo_update_Inr:
  "repo_update k v f x rows = Inr (y, rows') \<longleftrightarrow>
     (\<exists>r \<in> set rows. k r = k x) \<and> v x (filter (\<lambda>r. k r \<noteq> k x) rows) = None \<and> f x = Inr y \<and>
     rows' = put k x rows"
  by (auto simp: repo_update_def put_def bind_res_iffs list_ex_iff split: option.splits if_splits)

lemma list_ex_keys: "list_ex (\<lambda>r. k r = x) rows \<longleftrightarrow> x \<in> k ` set rows"
  by (induction rows) auto

lemma list_ex_disj: "list_ex (\<lambda>r. p r \<or> q r) rows \<longleftrightarrow> list_ex p rows \<or> list_ex q rows"
  by (auto simp: list_ex_iff)

lemma token_violation_None:
  "token_violation ss t others = None \<longleftrightarrow>
     token_checks t \<and> t_id t \<notin> t_id ` set others \<and> t_token_hash t \<notin> t_token_hash ` set others \<and>
     t_session_id t \<in> s_id ` set ss"
  unfolding token_violation_def list_ex_disj list_ex_keys by auto

lemma session_violation_None:
  "session_violation us s others = None \<longleftrightarrow>
     session_checks s \<and> s_id s \<notin> s_id ` set others \<and> s_user_id s \<in> u_id ` set us"
  unfolding session_violation_def list_ex_keys by (auto split: if_splits)

text \<open>A save replaces the row of the session and of the presented token and adds the replacement.\<close>

lemma session_save_Inr:
  "session_save s d = Inr (u, d') \<longleftrightarrow>
     (\<exists>r \<in> set (db_sessions d). s_id r = s_id s) \<and>
     session_checks s \<and> s_user_id s \<in> u_id ` set (db_users d) \<and>
     validate_auth_session (session_row s) = Inr (session_row s) \<and>
     (\<exists>ts. (case s_refresh_token s of
         None \<Rightarrow> ts = db_tokens d
       | Some t \<Rightarrow> (\<exists>r \<in> set (db_tokens d). t_id r = t_id t) \<and>
           token_violation (db_sessions d) t (filter (\<lambda>r. t_id r \<noteq> t_id t) (db_tokens d)) = None \<and>
           valid_token t \<and> ts = put t_id t (db_tokens d)) \<and>
       (case s_replacement_token s of
         None \<Rightarrow> d' = d\<lparr>db_sessions := put s_id (session_row s) (db_sessions d), db_tokens := ts\<rparr>
       | Some t \<Rightarrow> token_violation (db_sessions d) t ts = None \<and> valid_token t \<and>
           d' = d\<lparr>db_sessions := put s_id (session_row s) (db_sessions d), db_tokens := ts @ [t]\<rparr>))"
proof -
  have fk: "token_violation (put s_id (session_row s) (db_sessions d)) t others =
      token_violation (db_sessions d) t others" for t others
    by (simp add: token_violation_def list_ex_keys)
  have checks: "session_checks (session_row s) = session_checks s" 
    by (simp add: session_checks_def split: option.splits)
  show ?thesis
    by (auto simp: session_save_def bind_res_iffs repo_update_Inr repo_create_Inr session_violation_None
        token_to_domain_result session_to_domain_result fk checks
        split: option.splits)
qed

lemma loaded_valid:
  assumes "sessions_ok d" and "loaded d t s"
  shows "valid_session s"
proof -
  note l = loadedD [OF assms]
  from sessions_okD(5) [OF assms(1) l(2)] obtain r where r: "r \<in> set (db_sessions d)"
    "s_id r = t_session_id t" "s_created_at r \<le> t_created_at t" by blast
  with l(1,5) unique_key [OF sessions_okD(1) [OF assms(1)], of r "session_row s"] have "r = session_row s" by simp
  with r(3) have "s_created_at s \<le> t_created_at t" by simp
  moreover have "valid_session (session_row s)" using sessions_okD(4) [OF assms(1) l(1)] by blast
  ultimately show ?thesis
    using l(3-6) by (auto simp: valid_session_def validate_auth_session_result foreign_token_def
        bad_replacement_def session_row_def)
qed

lemma valid_session_checks: "valid_session s \<Longrightarrow> session_checks s"
  by (auto simp: valid_session_def validate_auth_session_result session_checks_def split: option.splits)

lemma valid_session_row: "valid_session s \<Longrightarrow> valid_session (session_row s)"
  by (auto simp: valid_session_def validate_auth_session_result foreign_token_def bad_replacement_def
      session_row_def)

lemma valid_token_checks: "valid_token t \<Longrightarrow> token_checks t"
  by (auto simp: valid_token_def validate_refresh_token_result token_checks_def split: option.splits)

lemma other_hashes:
  assumes "distinct (map t_id ts)" and "distinct (map t_token_hash ts)" and "t \<in> set ts"
  shows "t_id t \<notin> t_id ` set (filter (\<lambda>r. t_id r \<noteq> t_id t) ts)"
    "t_token_hash t \<notin> t_token_hash ` set (filter (\<lambda>r. t_id r \<noteq> t_id t) ts)"
  using unique_key [OF assms(2) _ assms(3)] by auto

lemma save_revoked:
  assumes ok: "sessions_ok d" and l: "loaded d t s" and rv: "revoke now s = Inr s'"
  shows "session_save s' d = Inr ((), d\<lparr>db_sessions := put s_id (session_row s') (db_sessions d)\<rparr>)"
proof -
  note ld = loadedD [OF ok l] and fr = revoke_frame [OF rv]
  have valid: "valid_session s'" by (rule revoke_valid [OF loaded_valid [OF ok l] rv])
  have "token_violation (db_sessions d) t (filter (\<lambda>r. t_id r \<noteq> t_id t) (db_tokens d)) = None"
    unfolding token_violation_None
    using valid_token_checks [OF ld(6)] other_hashes [OF sessions_okD(2,3) [OF ok] ld(2)] ld(1,5)
    by (metis image_eqI session_row_sel(1))
  moreover have "put t_id t (db_tokens d) = db_tokens d"
    by (rule put_same [OF sessions_okD(2) [OF ok] ld(2)])
  moreover have "s_user_id s \<in> u_id ` set (db_users d)" using sessions_okD(4) [OF ok ld(1)] by simp
  moreover have "validate_auth_session (session_row s') = Inr (session_row s')"
    using valid_session_row [OF valid] by (simp add: valid_session_def)
  ultimately show ?thesis
    using ld fr valid_session_checks [OF valid] by (auto simp: session_save_Inr intro!: bexI [of _ "session_row s"])
qed

lemma save_rotated:
  assumes ok: "sessions_ok d" and l: "loaded d t s" and rot: "rotate now ttl h rid s = Inr (r, s')"
  shows "session_save s' d = Inr (u, d') \<longleftrightarrow>
    rid \<notin> t_id ` set (db_tokens d) \<and> h \<notin> t_token_hash ` set (db_tokens d) \<and>
    d' = d\<lparr>db_sessions := put s_id (session_row s') (db_sessions d),
           db_tokens := put t_id (t\<lparr>t_used_at := Some now\<rparr>) (db_tokens d) @ [r]\<rparr>"
proof -
  note ld = loadedD [OF ok l] and valid = rotate_valid [OF loaded_valid [OF ok l] rot]
  let ?t = "t\<lparr>t_used_at := Some now\<rparr>"
  from rot ld(3) have s': "s' = s\<lparr>s_refresh_token := Some ?t, s_replacement_token := Some r,
      s_idle_expires_at := plus_delta now ttl\<rparr>"
    and r: "t_id r = rid" "t_token_hash r = h" "t_session_id r = s_id s" by (auto simp: rotate_result)
  from valid(1) s' have vt: "valid_token ?t" by (simp add: valid_session_def)
  have hashes: "t_token_hash ` set (put t_id ?t (db_tokens d)) = t_token_hash ` set (db_tokens d)"
  proof -
    have "map t_token_hash (put t_id ?t (db_tokens d)) = map t_token_hash (db_tokens d)"
      unfolding put_def using unique_key [OF sessions_okD(2) [OF ok] _ ld(2)]
      by (intro update_where_map_eq) fastforce
    then show ?thesis by (metis list.set_map)
  qed
  have sid: "s_id s \<in> s_id ` set (db_sessions d)" using ld(1) by (metis image_eqI session_row_sel(1))
  have old: "token_violation (db_sessions d) ?t (filter (\<lambda>r. t_id r \<noteq> t_id ?t) (db_tokens d)) = None"
    unfolding token_violation_None
    using valid_token_checks [OF vt] other_hashes [OF sessions_okD(2,3) [OF ok] ld(2)] ld(5) sid by auto
  have new: "token_violation (db_sessions d) r (put t_id ?t (db_tokens d)) = None \<longleftrightarrow>
      rid \<notin> t_id ` set (db_tokens d) \<and> h \<notin> t_token_hash ` set (db_tokens d)"
    unfolding token_violation_None using valid_token_checks [OF valid(2)] sid r hashes by simp
  have "s_user_id s \<in> u_id ` set (db_users d)" using sessions_okD(4) [OF ok ld(1)] by simp
  moreover have "validate_auth_session (session_row s') = Inr (session_row s')"
    using valid_session_row [OF valid(1)] by (simp add: valid_session_def)
  moreover have "\<exists>q \<in> set (db_sessions d). s_id q = s_id s" "\<exists>q \<in> set (db_tokens d). t_id q = t_id t"
    using ld(1,2) by (auto intro: bexI [of _ "session_row s"])
  moreover have "s_id s' = s_id s" "s_user_id s' = s_user_id s" "s_refresh_token s' = Some ?t"
    "s_replacement_token s' = Some r" by (simp_all add: s')
  ultimately show ?thesis
    using old new vt valid(2) valid_session_checks [OF valid(1)] by (auto simp: session_save_Inr)
qed

subsection \<open>The invariant is kept\<close>

lemma live_token_cong: "db_tokens d' = db_tokens d \<Longrightarrow> live_token d' = live_token d"
  by (simp add: live_token_def fun_eq_iff)

lemma replaced_ok:
  assumes ok: "sessions_ok d" and row: "row \<in> set (db_sessions d)" and valid: "valid_session row'"
    and same: "session_row row' = row'" "s_id row' = s_id row" "s_user_id row' = s_user_id row"
      "s_created_at row' = s_created_at row"
  shows "sessions_ok (d\<lparr>db_sessions := put s_id row' (db_sessions d)\<rparr>)"
proof -
  let ?ss = "put s_id row' (db_sessions d)"
  have "\<exists>r \<in> set (db_sessions d). s_id r = s_id row'" using row same(2) by auto
  then have set: "set ?ss = insert row' {r \<in> set (db_sessions d). s_id r \<noteq> s_id row}"
    using set_put [of "db_sessions d" s_id row'] same(2) by simp
  have rows: "session_row r = r \<and> valid_session r \<and> s_user_id r \<in> u_id ` set (db_users d)" if "r \<in> set ?ss" for r
    using that sessions_okD(4) [OF ok] sessions_okD(4) [OF ok row] valid same unfolding set by auto
  have "\<exists>r \<in> set ?ss. s_id r = t_session_id q \<and> s_created_at r \<le> t_created_at q" if q: "q \<in> set (db_tokens d)" for q
  proof -
    from sessions_okD(5) [OF ok q] obtain r where r: "r \<in> set (db_sessions d)" "s_id r = t_session_id q"
      "s_created_at r \<le> t_created_at q" by blast
    with unique_key [OF sessions_okD(1) [OF ok] r(1) row] same show ?thesis
      unfolding set by (cases "s_id r = s_id row") auto
  qed
  with rows sessions_okD [OF ok] show ?thesis
    unfolding sessions_ok_def live_token_def by auto
qed

lemma rotated_tokens_ok:
  assumes ok: "sessions_ok d" and t: "live_token d t" and r: "valid_token r" "t_session_id r = t_session_id t"
    and fresh: "t_id r \<notin> t_id ` set (db_tokens d)" "t_token_hash r \<notin> t_token_hash ` set (db_tokens d)"
    and t': "t' = t\<lparr>t_used_at := Some now\<rparr>" "valid_token t'"
    and born: "\<And>s. s \<in> set (db_sessions d) \<Longrightarrow> s_id s = t_session_id t \<Longrightarrow> s_created_at s \<le> t_created_at r"
  shows "sessions_ok (d\<lparr>db_tokens := put t_id t' (db_tokens d) @ [r]\<rparr>)"
proof -
  let ?ts = "put t_id t' (db_tokens d)"
  have mem: "t \<in> set (db_tokens d)" "\<not> is_used t" using t by (simp_all add: live_token_def)
  have hashes: "map t_token_hash ?ts = map t_token_hash (db_tokens d)"
    unfolding put_def using unique_key [OF sessions_okD(2) [OF ok] _ mem(1)] t'(1)
    by (intro update_where_map_eq) fastforce
  have set: "set ?ts = insert t' {q \<in> set (db_tokens d). t_id q \<noteq> t_id t}"
    using set_put [of "db_tokens d" t_id t'] mem(1) t'(1) by auto
  have parent: "\<exists>s \<in> set (db_sessions d). s_id s = t_session_id t \<and> s_created_at s \<le> t_created_at t"
    using sessions_okD(5) [OF ok mem(1)] by blast
  have rows: "valid_token q \<and> (\<exists>s \<in> set (db_sessions d). s_id s = t_session_id q \<and> s_created_at s \<le> t_created_at q)"
    if "q \<in> set (?ts @ [r])" for q
    using that sessions_okD(5) [OF ok] parent born r t' unfolding set_append set by (auto simp: t'(1))
  have live: "q = r" if "q \<in> set (?ts @ [r])" "\<not> is_used q" "t_session_id q = t_session_id t" for q
    using that mem sessions_okD(6) [OF ok _ t, of q] unfolding set_append set
    by (auto simp: t'(1) is_used_def live_token_def)
  have "q = q'" if "q \<in> set (?ts @ [r])" "q' \<in> set (?ts @ [r])" "\<not> is_used q" "\<not> is_used q'"
    "t_session_id q = t_session_id q'" for q q'
  proof (cases "t_session_id q = t_session_id t")
    case True
    with live that show ?thesis by metis
  next
    case False
    have "live_token d p" if "p \<in> set (?ts @ [r])" "\<not> is_used p" "t_session_id p \<noteq> t_session_id t" for p
      using that r(2) unfolding set_append set by (auto simp: live_token_def t'(1))
    with False that sessions_okD(6) [OF ok] show ?thesis by metis
  qed
  moreover have "distinct (map t_id (?ts @ [r]))" "distinct (map t_token_hash (?ts @ [r]))"
    using sessions_okD(2,3) [OF ok] fresh hashes arg_cong [OF hashes, of set] by auto
  ultimately show ?thesis
    using sessions_okD(1,4) [OF ok] rows unfolding sessions_ok_def live_token_def by auto
qed

lemma revoked_ok:
  assumes ok: "sessions_ok d" and l: "loaded d t s" and rv: "revoke now s = Inr s'"
  shows "sessions_ok (d\<lparr>db_sessions := put s_id (session_row s') (db_sessions d)\<rparr>)"
  using revoke_frame [OF rv]
  by (intro replaced_ok [OF ok loadedD(1) [OF ok l]] valid_session_row
      revoke_valid [OF loaded_valid [OF ok l] rv]) simp_all

lemma rotated_ok:
  assumes ok: "sessions_ok d" and l: "loaded d t s" and rot: "rotate now ttl h rid s = Inr (r, s')"
    and fresh: "rid \<notin> t_id ` set (db_tokens d)" "h \<notin> t_token_hash ` set (db_tokens d)"
  shows "sessions_ok (d\<lparr>db_sessions := put s_id (session_row s') (db_sessions d),
           db_tokens := put t_id (t\<lparr>t_used_at := Some now\<rparr>) (db_tokens d) @ [r]\<rparr>)"
proof -
  note ld = loadedD [OF ok l] and valid = rotate_valid [OF loaded_valid [OF ok l] rot]
  let ?d = "d\<lparr>db_sessions := put s_id (session_row s') (db_sessions d)\<rparr>"
  from rot ld(3) have s': "s' = s\<lparr>s_refresh_token := Some (t\<lparr>t_used_at := Some now\<rparr>), s_replacement_token := Some r,
      s_idle_expires_at := plus_delta now ttl\<rparr>" and unused: "t_used_at t = None"
    and r: "t_id r = rid" "t_token_hash r = h" "t_session_id r = s_id s" "s_created_at s \<le> t_created_at r"
    by (auto simp: rotate_result)
  have ok1: "sessions_ok ?d"
    by (rule replaced_ok [OF ok ld(1) valid_session_row [OF valid(1)]]) (simp_all add: s')
  have born: "s_created_at q \<le> t_created_at r" if "q \<in> set (db_sessions ?d)" "s_id q = t_session_id t" for q
  proof -
    have "session_row s' \<in> set (db_sessions ?d)"
      using set_put [of "db_sessions d" s_id "session_row s'"] ld(1) by (force simp: s')
    with unique_key [OF sessions_okD(1) [OF ok1] that(1)] that(2) ld(5) have "q = session_row s'" by (simp add: s')
    with r(4) show ?thesis by (simp add: s')
  qed
  have "valid_token (t\<lparr>t_used_at := Some now\<rparr>)" using valid(1) by (simp add: valid_session_def s')
  with rotated_tokens_ok [OF ok1 _ valid(2) _ _ _ refl _ born] ld unused r fresh show ?thesis
    by (simp add: live_token_def is_used_def)
qed

lemma create_started:
  assumes "start uid h now ttl sid tid = Inr s"
  shows "session_create s d = Inr (s', d') \<longleftrightarrow>
    s' = s \<and> sid \<notin> s_id ` set (db_sessions d) \<and> uid \<in> u_id ` set (db_users d) \<and>
    tid \<notin> t_id ` set (db_tokens d) \<and> h \<notin> t_token_hash ` set (db_tokens d) \<and>
    d' = d\<lparr>db_sessions := db_sessions d @ [session_row s],
           db_tokens := db_tokens d @ [the (s_refresh_token s)]\<rparr>"
proof -
  note valid = start_valid [OF assms]
  obtain t where t: "s_refresh_token s = Some t" "t_id t = tid" "t_token_hash t = h" "t_session_id t = sid"
    and s: "s_id s = sid" "s_user_id s = uid" using assms by (auto simp: start_result)
  have "valid_token t" using valid t(1) by (simp add: valid_session_def)
  moreover have "validate_auth_session (session_row s) = Inr (session_row s)"
    using valid_session_row [OF valid] by (simp add: valid_session_def)
  moreover have "session_checks (session_row s)" by (rule valid_session_checks [OF valid_session_row [OF valid]])
  ultimately show ?thesis
    using t s valid_token_checks [of t]
    by (auto simp: session_create_def bind_res_iffs repo_create_Inr session_violation_None token_violation_None
        token_to_domain_result session_to_domain_result)
qed

lemma created_ok:
  assumes ok: "sessions_ok d" and st: "start uid h now ttl sid tid = Inr s"
    and fresh: "sid \<notin> s_id ` set (db_sessions d)" "uid \<in> u_id ` set (db_users d)"
      "tid \<notin> t_id ` set (db_tokens d)" "h \<notin> t_token_hash ` set (db_tokens d)"
  shows "sessions_ok (d\<lparr>db_sessions := db_sessions d @ [session_row s],
           db_tokens := db_tokens d @ [the (s_refresh_token s)]\<rparr>)"
proof -
  note valid = start_valid [OF st]
  obtain t where t: "s_refresh_token s = Some t" "t_id t = tid" "t_token_hash t = h" "t_session_id t = sid"
    "t_created_at t = now"
    and s: "s_id s = sid" "s_user_id s = uid" "s_created_at s = now" using st by (auto simp: start_result)
  have vt: "valid_token t" using valid t(1) by (simp add: valid_session_def)
  have old: "t_session_id q \<noteq> sid" if "q \<in> set (db_tokens d)" for q
    using sessions_okD(5) [OF ok that] fresh(1) by (metis image_eqI)
  have "q = q'" if "q \<in> set (db_tokens d @ [t])" "q' \<in> set (db_tokens d @ [t])" "\<not> is_used q" "\<not> is_used q'"
    "t_session_id q = t_session_id q'" for q q'
    using that old [of q] old [of q'] t(4) sessions_okD(6) [OF ok, of q q'] by (auto simp: live_token_def)
  then show ?thesis
    using sessions_okD(1-5) [OF ok] fresh t s vt valid_session_row [OF valid]
    unfolding sessions_ok_def live_token_def by auto
qed

end
