(* ===== verification/Sessions.thy ===== *)
theory Sessions
  imports Security Hot_Store Session_Store
begin

section \<open>Login, refresh, logout and the current user\<close>

text \<open>
  The use cases of \<open>application/use_cases\<close> that work on sessions, with their commands. The ports are
  one record: the address parser, the hasher, the token issuer, the protector of replayed results,
  the verifier and the hot store. A refresh is an idempotent operation: its effect on the session
  and the encrypted result are committed with the idempotency record, and a refusal that revokes a
  session is a recorded result as well, because an exception would roll the revocation back.
\<close>

record ('k, 'e) session_ports =
  sp_email_str :: "string \<Rightarrow> string option"
  sp_hasher :: "'e hasher"
  sp_issuer :: "('k, 'e) token_issuer"
  sp_protector :: "'e protector"
  sp_verifier :: "'k access_verifier"
  sp_hot_store :: "'e hot_store option"
  sp_beats :: nat
  sp_session_idle_ttl :: timedelta
  sp_lease_seconds :: int
  sp_retention_seconds :: int

definition digest_of :: "('k, 'e) session_ports \<Rightarrow> string \<Rightarrow> bytes" where
  "digest_of ports token = opaque_digest (ti_sha256 (sp_issuer ports)) token"

subsection \<open>Login\<close>

record login_command =
  lc_email :: string
  lc_password :: string

definition LoginCommand :: "(string \<Rightarrow> string option) \<Rightarrow> login_command \<Rightarrow> exn + login_command" where
  "LoginCommand email_str c =
     bind_res (NormalizedEmail email_str (lc_email c)) (\<lambda>email.
       if length (lc_password c) < 1 \<or> 128 < length (lc_password c) then Inl InvalidCommandError
       else Inr (c\<lparr>lc_email := email\<rparr>))"

definition start_session ::
    "('k, 'e) session_ports \<Rightarrow> user \<Rightarrow> string \<Rightarrow> ('e, issued_token_pair) io" where
  "start_session ports candidate password_hash =
     bind (query (\<lambda>d. get_for_update (sp_email_str ports) (u_id candidate) (db_users d))) (\<lambda>user.
       case user of
         None \<Rightarrow> throw InvalidCredentialsError
       | Some user \<Rightarrow>
           if \<not> can_authenticate user \<or> u_password_hash user \<noteq> password_hash
           then throw InvalidCredentialsError
           else
             bind utc_now (\<lambda>now.
             bind (issue_pair (sp_issuer ports) user now) (\<lambda>issued.
             bind new_uuid (\<lambda>session_id. bind new_uuid (\<lambda>token_id.
             bind (liftr (start (u_id user) (itp_refresh_digest issued) now (sp_session_idle_ttl ports)
                            session_id token_id)) (\<lambda>session.
             bind (stmt (session_create session)) (\<lambda>_. return issued)))))))"

definition login_execute :: "('k, 'e) session_ports \<Rightarrow> login_command \<Rightarrow> ('e, token_pair) io" where
  "login_execute ports command =
     bind (uow (query (\<lambda>d. user_get_by_email (sp_email_str ports) (lc_email command) (db_users d)))) (\<lambda>candidate.
       let password_hash =
         (case candidate of
            Some u \<Rightarrow> if can_authenticate u then Some (u_password_hash u) else None
          | None \<Rightarrow> None)
       in bind (verify_or_dummy (sp_hasher ports) (lc_password command) password_hash) (\<lambda>verified.
            case (candidate, password_hash) of
              (Some u, Some ph) \<Rightarrow>
                if \<not> verified then throw InvalidCredentialsError
                else bind (uow (start_session ports u ph)) (\<lambda>issued. return (itp_pair issued))
            | _ \<Rightarrow> throw InvalidCredentialsError))"

subsection \<open>Refresh\<close>

definition replay_aad :: "idempotency_identity \<Rightarrow> bytes \<Rightarrow> string \<Rightarrow> int \<Rightarrow> bytes" where
  "replay_aad identity request_hash result_type result_version =
     utf8 (json_dumps True (JObj
       [(''format_version'', JInt 1), (''subject_id'', JStr (id_subject_id identity)),
        (''operation'', JStr (id_operation identity)), (''key_hash'', JStr (bytes_hex (id_key_hash identity))),
        (''request_hash'', JStr (bytes_hex request_hash)), (''result_type'', JStr result_type),
        (''result_version'', JInt result_version)]))"

definition rejected_result :: stored_result where
  "rejected_result = \<lparr>sr_result_type = ''auth.refresh.rejected'',
     sr_result_payload = Some (JObj [(''code'', JStr ''invalid_refresh'')]), sr_result_version = 1,
     sr_resource_type = None, sr_resource_id = None, sr_resource_version = None\<rparr>"

definition success_result :: "json \<Rightarrow> uuid \<Rightarrow> stored_result" where
  "success_result envelope replacement_id = \<lparr>sr_result_type = ''auth.refresh.success'',
     sr_result_payload = Some envelope, sr_result_version = 1, sr_resource_type = Some ''refresh_token'',
     sr_resource_id = Some (uuid_str replacement_id), sr_resource_version = None\<rparr>"

definition rotate_session ::
    "('k, 'e) session_ports \<Rightarrow> idempotency_identity \<Rightarrow> bytes \<Rightarrow> datetime \<Rightarrow> user \<Rightarrow> auth_session
     \<Rightarrow> ('e, stored_result) io" where
  "rotate_session ports identity request_hash now user session =
     bind (issue_pair (sp_issuer ports) user now) (\<lambda>issued.
     bind new_uuid (\<lambda>replacement_id.
     bind (liftr (rotate now (sp_session_idle_ttl ports) (itp_refresh_digest issued) replacement_id session))
       (\<lambda>(replacement, rotated).
     bind (stmt (session_save rotated)) (\<lambda>_.
     bind (protect (sp_protector ports) (pair_json (itp_pair issued))
             (replay_aad identity request_hash ''auth.refresh.success'' 1)) (\<lambda>envelope.
       liftr (StoredResult (success_result envelope (t_id replacement))))))))"

definition refresh_operation ::
    "('k, 'e) session_ports \<Rightarrow> string \<Rightarrow> idempotency_identity \<Rightarrow> bytes \<Rightarrow> ('e, stored_result) io" where
  "refresh_operation ports raw_token identity request_hash =
     bind (query (get_by_refresh_hash_for_update (digest_of ports raw_token))) (\<lambda>found.
       case found of
         None \<Rightarrow> throw InvalidRefreshTokenError
       | Some session \<Rightarrow>
           bind (query (\<lambda>d. user_get (sp_email_str ports) (s_user_id session) (db_users d))) (\<lambda>user.
           bind utc_now (\<lambda>now.
           bind (liftr (accepts_refresh now (case user of None \<Rightarrow> False | Some u \<Rightarrow> can_authenticate u) session))
             (\<lambda>(accepted, session).
               if \<not> accepted
               then bind (stmt (session_save session)) (\<lambda>_. liftr (StoredResult rejected_result))
               else case user of
                 None \<Rightarrow> throw InvalidRefreshTokenError
               | Some user \<Rightarrow> rotate_session ports identity request_hash now user session))))"

record refresh_command =
  fc_refresh_token :: string
  fc_key_hash :: bytes

definition RefreshCommand :: "refresh_command \<Rightarrow> exn + refresh_command" where
  "RefreshCommand c = (if length (fc_key_hash c) \<noteq> 32 then Inl InvalidCommandError else Inr c)"

text \<open>\<open>compute_request_hash\<close> of a mapping with one string.\<close>

definition refresh_request_hash :: "('k, 'e) session_ports \<Rightarrow> string \<Rightarrow> bytes" where
  "refresh_request_hash ports token =
     ti_sha256 (sp_issuer ports)
       (utf8 (json_dumps False (JObj [(''refresh_token_digest'', JStr (bytes_hex (digest_of ports token)))])))"

definition replay_result ::
    "('k, 'e) session_ports \<Rightarrow> idempotency_identity \<Rightarrow> bytes \<Rightarrow> completed_result \<Rightarrow> json \<Rightarrow> string
     \<Rightarrow> ('e, token_pair) io" where
  "replay_result ports identity request_hash completed payload resource_id =
     catch
       (case uuid_of_str resource_id of
          None \<Rightarrow> throw ValueError
        | Some token_id \<Rightarrow>
            bind (uow (bind (query (get_by_refresh_id token_id)) (\<lambda>session.
              case session of
                None \<Rightarrow> throw InvalidRefreshTokenError
              | Some s \<Rightarrow>
                  bind utc_now (\<lambda>now. bind (liftr (can_replay now s)) (\<lambda>ok.
                    if \<not> ok then throw InvalidRefreshTokenError else return ()))))) (\<lambda>_.
            bind (liftr (restore (sp_protector ports) payload
                   (replay_aad identity request_hash (sr_result_type completed) (sr_result_version completed))))
              (\<lambda>d. liftr (pair_of_dict d))))
       (\<lambda>e. if isinstance e ValueError then throw RefreshReplayUnavailableError else throw e)"

definition refresh_execute :: "('k, 'e) session_ports \<Rightarrow> refresh_command \<Rightarrow> ('e, token_pair) io" where
  "refresh_execute ports command =
     bind (liftr (IdempotencyIdentity \<lparr>id_subject_id = ''public-refresh'', id_operation = ''auth.refresh'',
             id_key_hash = fc_key_hash command\<rparr>)) (\<lambda>identity.
     let request_hash = refresh_request_hash ports (fc_refresh_token command);
         effect = refresh_operation ports (fc_refresh_token command) identity request_hash
     in bind (coordinator_execute (sp_retention_seconds ports) (sp_hot_store ports) (sp_beats ports)
                identity request_hash effect (sp_lease_seconds ports)) (\<lambda>result.
       if er_outcome result = OUTCOME_CONFLICT then throw IdempotencyKeyConflictError
       else if er_outcome result = OUTCOME_IN_PROGRESS then throw IdempotencyRequestInProgressError
       else case er_completed result of
         None \<Rightarrow> throw RuntimeError
       | Some completed \<Rightarrow>
           if sr_result_type completed = ''auth.refresh.rejected'' then throw InvalidRefreshTokenError
           else if sr_result_type completed \<noteq> ''auth.refresh.success'' then throw RefreshReplayUnavailableError
           else case (sr_result_payload completed, sr_resource_id completed) of
             (Some payload, Some resource_id) \<Rightarrow>
               replay_result ports identity request_hash completed payload resource_id
           | _ \<Rightarrow> throw RefreshReplayUnavailableError))"

subsection \<open>Logout and the current user\<close>

definition logout_execute :: "('k, 'e) session_ports \<Rightarrow> string option \<Rightarrow> ('e, unit) io" where
  "logout_execute ports refresh_token =
     (case refresh_token of
        None \<Rightarrow> return ()
      | Some token \<Rightarrow>
          uow (bind (query (get_by_refresh_hash_for_update (digest_of ports token))) (\<lambda>found.
            case found of
              None \<Rightarrow> return ()
            | Some session \<Rightarrow>
                bind utc_now (\<lambda>now. bind (liftr (revoke now session)) (\<lambda>revoked. stmt (session_save revoked))))))"

record current_user =
  cu_id :: uuid
  cu_email :: string
  cu_role :: user_role
  cu_created_at :: datetime

definition get_current_user :: "('k, 'e) session_ports \<Rightarrow> string \<Rightarrow> ('e, current_user) io" where
  "get_current_user ports access_token =
     bind (liftr (access_verify (ti_lib (sp_issuer ports)) (sp_verifier ports) access_token)) (\<lambda>claims.
     bind (uow (bind (query (\<lambda>d. user_get (sp_email_str ports) (ac_user_id claims) (db_users d))) (\<lambda>user.
       case user of
         None \<Rightarrow> throw InvalidTokenError
       | Some u \<Rightarrow> if \<not> can_authenticate u then throw InvalidTokenError else return u))) (\<lambda>u.
     bind (liftr (NormalizedEmail (sp_email_str ports) (u_email u))) (\<lambda>email.
       return \<lparr>cu_id = u_id u, cu_email = email, cu_role = u_role u, cu_created_at = u_created_at u\<rparr>)))"

subsection \<open>What the ports leave alone\<close>

text \<open>The random sources of the operating system never touch the database.\<close>

definition quiet_sources :: "('k, 'e) session_ports \<Rightarrow> bool" where
  "quiet_sources ports \<longleftrightarrow>
     (\<forall>s n d. keeps (base_frame s n d) (ti_token_urlsafe (sp_issuer ports)) \<and>
        keeps (base_frame s n d) (pr_urandom (sp_protector ports)) \<and>
        (\<forall>k. keeps (base_frame s n d) (ph_random_below (sp_hasher ports) k)))"

lemma quiet_sources_frames:
  assumes "quiet_sources ports"
  shows "keeps (base_frame s n d) (issue_pair (sp_issuer ports) user now)"
    "keeps (base_frame s n d) (protect (sp_protector ports) payload aad)"
    "keeps (base_frame s n d) (verify_or_dummy (sp_hasher ports) password password_hash)"
proof -
  have src: "keeps (base_frame s n d) (ti_token_urlsafe (sp_issuer ports))"
    "keeps (base_frame s n d) (pr_urandom (sp_protector ports))"
    "keeps (base_frame s n d) (ph_random_below (sp_hasher ports) k)" for k
    using assms unfolding quiet_sources_def by blast+
  show "keeps (base_frame s n d) (issue_pair (sp_issuer ports) user now)"
    unfolding issue_pair_def access_issue_def opaque_issue_def
    by (auto intro!: keeps_intros src split: sum.splits jwt_failure.splits)
  show "keeps (base_frame s n d) (protect (sp_protector ports) payload aad)"
    unfolding protect_def Let_def
    by (auto intro!: keeps_intros src split: option.splits)
  show "keeps (base_frame s n d) (verify_or_dummy (sp_hasher ports) password password_hash)"
    unfolding verify_or_dummy_def hash_password_def verify_password_def sleep_jitter_def Let_def
    by (cases password_hash)
      (auto intro!: keeps_intros src split: sum.splits hash_failure.splits verify_failure.splits)
qed

lemma frame_transactional: "(\<And>s n d. keeps (base_frame s n d) m) \<Longrightarrow> transactional m"
  unfolding transactional_def keeps_def base_frame_def by blast

lemmas quiet_transactional = quiet_sources_frames [THEN frame_transactional]

lemma issue_pair_Inr:
  "issue_pair ti user now w = (Inr issued, w') \<Longrightarrow>
     itp_refresh_digest issued = opaque_digest (ti_sha256 ti) (tp_refresh_token (itp_pair issued)) \<and>
     length (itp_refresh_digest issued) = 32"
  by (auto simp: issue_pair_def opaque_issue_def IssuedRefreshToken_def res_simps split: if_splits)

lemma StoredResult_same: "StoredResult r = Inr r' \<Longrightarrow> r' = r"
  by (auto simp: StoredResult_def split: if_splits)

subsection \<open>The effect of a refresh\<close>

definition account_active :: "('k, 'e) session_ports \<Rightarrow> uuid \<Rightarrow> db \<Rightarrow> bool" where
  "account_active ports user_id d \<longleftrightarrow>
     (\<exists>u. user_get (sp_email_str ports) user_id (db_users d) = Inr (Some u) \<and> can_authenticate u)"

text \<open>The session is revoked and nothing else has changed.\<close>

definition revokes_session :: "auth_session \<Rightarrow> datetime \<Rightarrow> db \<Rightarrow> db \<Rightarrow> bool" where
  "revokes_session s now d d' \<longleftrightarrow>
     d' = d\<lparr>db_sessions := put s_id
       ((session_row s)\<lparr>s_revoked_at := Some (case s_revoked_at s of None \<Rightarrow> now | Some r \<Rightarrow> r)\<rparr>) (db_sessions d)\<rparr>"

text \<open>
  The presented token is consumed, its replacement is inserted, the idle window of the session
  starts again, and nothing else has changed.
\<close>

definition rotates_session ::
    "refresh_token \<Rightarrow> refresh_token \<Rightarrow> auth_session \<Rightarrow> datetime \<Rightarrow> timedelta \<Rightarrow> db \<Rightarrow> db \<Rightarrow> bool" where
  "rotates_session t r s now ttl d d' \<longleftrightarrow>
     \<not> is_used t \<and> is_active now s = Inr True \<and>
     \<not> is_used r \<and> t_session_id r = s_id s \<and> t_created_at r = now \<and> length (t_token_hash r) = 32 \<and>
     t_id r \<notin> t_id ` set (db_tokens d) \<and> t_token_hash r \<notin> t_token_hash ` set (db_tokens d) \<and>
     d' = d\<lparr>db_sessions := put s_id ((session_row s)\<lparr>s_idle_expires_at := plus_delta now ttl\<rparr>) (db_sessions d),
            db_tokens := put t_id (t\<lparr>t_used_at := Some now\<rparr>) (db_tokens d) @ [r]\<rparr>"

definition refresh_effect ::
    "('k, 'e) session_ports \<Rightarrow> string \<Rightarrow> stored_result \<Rightarrow> db \<Rightarrow> db \<Rightarrow> bool" where
  "refresh_effect ports raw_token stored d d' \<longleftrightarrow>
     (\<exists>t s now. loaded d t s \<and> t_token_hash t = digest_of ports raw_token \<and>
        (stored = rejected_result \<and> (is_used t \<or> \<not> account_active ports (s_user_id s) d) \<and>
           revokes_session s now d d' \<or>
         account_active ports (s_user_id s) d \<and>
           (\<exists>r envelope. stored = success_result envelope (t_id r) \<and>
              rotates_session t r s now (sp_session_idle_ttl ports) d d')))"

lemma revoked_row:
  assumes "revoke now s = Inr s'"
  shows "session_row s' = (session_row s)\<lparr>s_revoked_at := Some (case s_revoked_at s of None \<Rightarrow> now | Some r \<Rightarrow> r)\<rparr>"
  using assms by (cases "s_revoked_at s")
    (auto simp: revoke_def change_state_def validate_auth_session_result session_row_def)

lemma rotate_session_effect:
  assumes ok: "sessions_ok (w_db w)" and l: "loaded (w_db w) t s" and quiet: "quiet_sources ports"
    and run: "rotate_session ports i h now user s w = (Inr stored, w')"
  shows "\<exists>r envelope. rotates_session t r s now (sp_session_idle_ttl ports) (w_db w) (w_db w') \<and>
     sessions_ok (w_db w') \<and> stored = success_result envelope (t_id r)"
proof -
  from run obtain issued w1 rid r s2 d2 w2 envelope where
    iss: "issue_pair (sp_issuer ports) user now w = (Inr issued, w1)"
    and rot: "rotate now (sp_session_idle_ttl ports) (itp_refresh_digest issued) rid s = Inr (r, s2)"
    and env: "protect (sp_protector ports) (pair_json (itp_pair issued))
       (replay_aad i h ''auth.refresh.success'' 1) w2 = (Inr envelope, w')" and d2: "w_db w2 = d2"
    and save: "session_save s2 (w_db w1) = Inr ((), d2)"
    and st: "StoredResult (success_result envelope (t_id r)) = Inr stored"
    by (fastforce simp: rotate_session_def res_simps)
  have "w_db w1 = w_db w" "w_db w' = d2"
    using keeps_same_base [OF quiet_sources_frames(1) [OF quiet] iss]
      keeps_same_base [OF quiet_sources_frames(2) [OF quiet] env] d2 by (simp_all add: same_base_def)
  with save have save': "session_save s2 (w_db w) = Inr ((), w_db w')" by simp
  note saved = save' [unfolded save_rotated [OF ok l rot]]
  from rot loadedD(3) [OF ok l] have "is_active now s = Inr True" "\<not> is_used t" "t_id r = rid"
    "t_token_hash r = itp_refresh_digest issued" "\<not> is_used r" "t_session_id r = s_id s" "t_created_at r = now"
    "length (t_token_hash r) = 32"
    "session_row s2 = (session_row s)\<lparr>s_idle_expires_at := plus_delta now (sp_session_idle_ttl ports)\<rparr>"
    by (auto simp: rotate_result is_active_result is_used_def session_row_def)
  with saved have "rotates_session t r s now (sp_session_idle_ttl ports) (w_db w) (w_db w')"
    unfolding rotates_session_def by simp
  moreover have "sessions_ok (w_db w')" using saved rotated_ok [OF ok l rot] by simp
  ultimately show ?thesis using StoredResult_same [OF st] by blast
qed

lemma refresh_operation_effect:
  assumes ok: "sessions_ok (w_db w)" and quiet: "quiet_sources ports"
    and run: "refresh_operation ports raw i h w = (Inr stored, w')"
  shows "refresh_effect ports raw stored (w_db w) (w_db w') \<and> sessions_ok (w_db w')"
proof -
  let ?d = "w_db w" and ?now = "w_clock w (w_ticks w)" and ?w = "w\<lparr>w_ticks := Suc (w_ticks w)\<rparr>"
  from run obtain f where f: "get_by_refresh_hash_for_update (digest_of ports raw) ?d = Inr f" and "f \<noteq> None"
    unfolding refresh_operation_def by (auto simp: bind_eq_Inr query_eq throw_eq split: option.splits)
  with run obtain s user b s1 where
    found: "get_by_refresh_hash_for_update (digest_of ports raw) ?d = Inr (Some s)"
    and user: "user_get (sp_email_str ports) (s_user_id s) (db_users ?d) = Inr user"
    and acc: "accepts_refresh ?now (case user of None \<Rightarrow> False | Some u \<Rightarrow> can_authenticate u) s = Inr (b, s1)"
    and rest: "(if \<not> b then bind (stmt (session_save s1)) (\<lambda>_. liftr (StoredResult rejected_result))
        else case user of None \<Rightarrow> throw InvalidRefreshTokenError
          | Some user \<Rightarrow> rotate_session ports i h ?now user s1) ?w = (Inr stored, w')"
    by (auto simp: refresh_operation_def res_simps)
  from found load_by_hash [OF ok] obtain t where l: "loaded ?d t s" and t: "t_token_hash t = digest_of ports raw" by blast
  have active: "account_active ports (s_user_id s) ?d \<longleftrightarrow> (case user of None \<Rightarrow> False | Some u \<Rightarrow> can_authenticate u)"
    using user by (auto simp: account_active_def split: option.splits)
  note tok = loadedD(3) [OF ok l]
  show ?thesis
  proof (cases b)
    case False
    from acc False tok have why: "is_used t \<or> \<not> account_active ports (s_user_id s) ?d" and rv: "revoke ?now s = Inr s1"
      unfolding active by (auto simp: accepts_refresh_result is_used_def split: if_splits)
    from rest False save_revoked [OF ok l rv] have
      "w_db w' = ?d\<lparr>db_sessions := put s_id (session_row s1) (db_sessions ?d)\<rparr>" "stored = rejected_result"
      by (auto simp: res_simps dest: StoredResult_same)
    with l t why revoked_ok [OF ok l rv] show ?thesis
      unfolding refresh_effect_def revokes_session_def revoked_row [OF rv] by auto
  next
    case True
    from acc True tok have ac: "account_active ports (s_user_id s) ?d" and s1: "s1 = s"
      unfolding active by (auto simp: accepts_refresh_result split: if_splits)
    from rest True s1 obtain u where rot: "rotate_session ports i h ?now u s ?w = (Inr stored, w')"
      by (cases user) (auto simp: res_simps)
    from rotate_session_effect [OF _ _ quiet rot, of t] ok l obtain r envelope where
      "rotates_session t r s ?now (sp_session_idle_ttl ports) ?d (w_db w')" "sessions_ok (w_db w')"
      "stored = success_result envelope (t_id r)" by auto
    with l t ac show ?thesis unfolding refresh_effect_def by blast
  qed
qed

subsection \<open>A refresh request\<close>

lemma transactional_cases:
  "transactional m \<Longrightarrow> (\<And>x. transactional (f x)) \<Longrightarrow> transactional (case v of None \<Rightarrow> m | Some x \<Rightarrow> f x)"
  "(\<And>x y. transactional (g x y)) \<Longrightarrow> transactional (case p of (x, y) \<Rightarrow> g x y)"
  by (auto split: option.splits prod.splits)

lemma transactional_refresh: "quiet_sources ports \<Longrightarrow> transactional (refresh_operation ports raw i h)"
  unfolding refresh_operation_def rotate_session_def
  by (intro transactional_intros transactional_cases quiet_transactional)

lemma coordinator_without_hot_store:
  assumes "coordinator_execute ret None beats i h operation l w = (r, w')"
  shows "same_base w w' \<and> r = Inl ValueError \<or>
    (\<exists>w1 w2. same_base w w1 \<and> execute_once ret i h operation w1 = (r, w2) \<and> same_base w2 w')"
proof (cases "l \<le> 0 \<or> length h \<noteq> 32")
  case True
  with assms show ?thesis by (auto simp: coordinator_execute_def throw_def same_base_def split: if_splits)
next
  case False
  let ?w = "w\<lparr>w_trace := w_trace w @ [Observed ''hot_degraded'' ''disabled'']\<rparr>"
  obtain r0 w2 where ex: "execute_once ret i h operation ?w = (r0, w2)" by fastforce
  with assms False have "same_base w2 w' \<and> r = r0"
    by (cases r0) (auto simp: coordinator_execute_def bind_def observe_hot_degraded_def emit_def modify_def
        observe_result_def return_def same_base_def scripts_def)
  moreover have "same_base w ?w" by (simp add: same_base_def scripts_def)
  ultimately show ?thesis using ex by blast
qed

definition known_hot_store :: "hot_env hot_store option \<Rightarrow> bool" where
  "known_hot_store hot \<longleftrightarrow> hot = None \<or> (\<exists>vk. hot = Some (hot_idempotency_store vk))"

lemma executed_between_extend:
  assumes "same_base w w1" and "executed_between ret i h op c w1 w2" and "same_base w2 w3"
  shows "executed_between ret i h op c w w3"
  using assms unfolding executed_between_def
  by (meson only_rivals_trans same_base_only_rivals)

lemma coordinator_effect:
  assumes hot: "known_hot_store hot" and op: "transactional operation"
    and run: "coordinator_execute ret hot beats i h operation l w = (r, w')"
  shows "only_rivals w w' \<or> (\<exists>c. executed_between ret i h operation c w w')"
proof -
  have durable: ?thesis if "same_base w w1" "execute_once ret i h operation w1 = (r0, w2)" "same_base w2 w'" for w1 r0 w2
    using op that(2)
  proof (cases rule: execute_once_cases)
    case idle
    with that show ?thesis by (meson only_rivals_trans same_base_only_rivals)
  next
    case (executed c)
    with that executed_between_extend show ?thesis by blast
  qed
  from hot consider "hot = None" | vk where "hot = Some (hot_idempotency_store vk)" unfolding known_hot_store_def by blast
  then show ?thesis
  proof cases
    case 1
    with coordinator_without_hot_store run durable same_base_only_rivals show ?thesis by metis
  next
    case 2
    with run have "coordinator_execute ret (Some (hot_idempotency_store vk)) beats i h operation l w = (r, w')" by simp
    then show ?thesis
      by (cases rule: valkey.coordinator_cases) (use durable same_base_only_rivals in blast)+
  qed
qed

text \<open>
  Between the two states one refresh has been committed: its effect on the session together with the
  idempotency record of its result.
\<close>

definition refreshed_between ::
    "('k, 'e) session_ports \<Rightarrow> string \<Rightarrow> idempotency_identity \<Rightarrow> 'e world \<Rightarrow> 'e world \<Rightarrow> bool" where
  "refreshed_between ports raw_token identity w w' \<longleftrightarrow>
     (\<exists>w1 w2 d record. only_rivals w w1 \<and> \<not> has_record identity d \<and>
        refresh_effect ports raw_token (i_result record) (w_db w1) d \<and> i_identity record = identity \<and>
        w_db w2 = d\<lparr>db_records := db_records d @ [record]\<rparr> \<and> only_rivals w2 w')"

lemma sessions_ok_cong:
  "db_users d' = db_users d \<Longrightarrow> db_sessions d' = db_sessions d \<Longrightarrow> db_tokens d' = db_tokens d \<Longrightarrow>
   sessions_ok d' = sessions_ok d"
  by (simp add: sessions_ok_def live_token_def)

lemma refresh_executed:
  assumes ok: "world_ok sessions_ok w" and quiet: "quiet_sources ports"
    and ex: "executed_between ret i h (refresh_operation ports raw i h) c w w'"
  shows "refreshed_between ports raw i w w' \<and> world_ok sessions_ok w' \<and> scripts w' = scripts w"
proof -
  from ex obtain w1 w2 stored w3 now new_id where rv: "only_rivals w w1" "only_rivals w2 w'"
    and op: "refresh_operation ports raw i h w1 = (Inr stored, w3)" and c: "c = completed_of h stored"
    and fresh: "\<not> has_record i (w_db w3)" and scr: "scripts w2 = scripts w1"
    and w2: "w_db w2 = (w_db w3)\<lparr>db_records := db_records (w_db w3) @ [completed_row ret now new_id i c]\<rparr>"
    unfolding executed_between_def commits_execution_def by blast
  have rivals: "sessions_ok d \<Longrightarrow> sessions_ok (w_rival w n d)" for n d using ok by (simp add: world_ok_def)
  have ok1: "sessions_ok (w_db w1)"
    by (rule only_rivals_keeps [OF rv(1) rivals world_ok_db [OF ok]])
  note eff = refresh_operation_effect [OF ok1 quiet op]
  have "i_identity (completed_row ret now new_id i c) = i" "i_result (completed_row ret now new_id i c) = stored"
    by (simp_all add: completed_row_def c completed_of_def stored_result.truncate_def)
  with eff rv fresh w2 have "refreshed_between ports raw i w w'"
    unfolding refreshed_between_def by metis
  moreover have "sessions_ok (w_db w2)" using eff w2 sessions_ok_cong [of "w_db w2" "w_db w3"] by simp
  then have "sessions_ok (w_db w')"
    using only_rivals_keeps [OF rv(2), of sessions_ok] rivals scr rv(1) unfolding only_rivals_def
    by (metis scripts_rival)
  moreover have "scripts w' = scripts w" using rv scr by (simp add: only_rivals_def)
  ultimately show ?thesis using world_ok_scripts [OF ok] by blast
qed

lemma only_rivals_world_ok: "world_ok I w \<Longrightarrow> only_rivals w w' \<Longrightarrow> world_ok I w'"
  using only_rivals_keeps [of w w' I] by (auto simp: world_ok_def only_rivals_def scripts_def)

definition refresh_identity :: "refresh_command \<Rightarrow> idempotency_identity" where
  "refresh_identity command =
     \<lparr>id_subject_id = ''public-refresh'', id_operation = ''auth.refresh'', id_key_hash = fc_key_hash command\<rparr>"

lemma replay_check_frame:
  "keeps (\<lambda>w. scripts w = s \<and> w_txs w = n \<and> w_db w = d)
     (bind (query (get_by_refresh_id token_id)) (\<lambda>session.
        case session of None \<Rightarrow> throw InvalidRefreshTokenError
        | Some s \<Rightarrow> bind utc_now (\<lambda>now. bind (liftr (can_replay now s)) (\<lambda>ok.
            if \<not> ok then throw InvalidRefreshTokenError else return ()))))"
proof -
  have prim: "keeps (\<lambda>w. scripts w = s \<and> w_txs w = n \<and> w_db w = d) utc_now"
    "keeps (\<lambda>w. scripts w = s \<and> w_txs w = n \<and> w_db w = d) (query g)" for g :: "db \<Rightarrow> exn + 'c"
    by (auto simp: keeps_def utc_now_def query_def scripts_def)
  show ?thesis by (intro keeps_intros prim)
qed

lemma replay_result_only_rivals:
  assumes "replay_result ports i h completed payload resource_id w = (r, w')"
  shows "only_rivals w w'"
proof (cases "uuid_of_str resource_id")
  case None
  with assms show ?thesis by (auto simp: replay_result_def catch_def throw_def isinstance_same)
next
  case (Some token_id)
  let ?body = "bind (query (get_by_refresh_id token_id)) (\<lambda>session.
        case session of None \<Rightarrow> throw InvalidRefreshTokenError
        | Some s \<Rightarrow> bind utc_now (\<lambda>now. bind (liftr (can_replay now s)) (\<lambda>ok.
            if \<not> ok then throw InvalidRefreshTokenError else return ())))"
  obtain x w1 where up: "uow ?body w = (x, w1)" by fastforce
  have "only_rivals w w1" by (rule uow_read_only [OF replay_check_frame up])
  moreover have "w' = w1"
    using assms Some up by (cases x) (auto simp: replay_result_def catch_def bind_def throw_def liftr_def
        split: sum.splits if_splits)
  ultimately show ?thesis by simp
qed

lemma replay_result_Inr:
  assumes ok: "world_ok sessions_ok w" and run: "replay_result ports i h completed payload resource_id w = (Inr pair, w')"
  shows "\<exists>t s now. loaded (w_db w') t s \<and> uuid_of_str resource_id = Some (t_id t) \<and>
     \<not> is_used t \<and> is_active now s = Inr True \<and> now \<in> range (w_clock w)"
proof -
  from run obtain token_id w1 where tid: "uuid_of_str resource_id = Some token_id"
    and up: "uow (bind (query (get_by_refresh_id token_id)) (\<lambda>session.
        case session of None \<Rightarrow> throw InvalidRefreshTokenError
        | Some s \<Rightarrow> bind utc_now (\<lambda>now. bind (liftr (can_replay now s)) (\<lambda>ok.
            if \<not> ok then throw InvalidRefreshTokenError else return ())))) w = (Inr (), w')"
    by (auto simp: replay_result_def res_simps split: option.splits if_splits)
  from uow_Inr [OF up] obtain s where s: "get_by_refresh_id token_id (w_db (begin_tx w)) = Inr (Some s)"
    "can_replay (w_clock w (w_ticks w)) s = Inr True" "w_db w' = w_db (begin_tx w)"
    by (auto simp: res_simps split: option.splits if_splits)
  from load_by_id [OF world_ok_db [OF world_ok_begin_tx [OF ok]] s(1)] s(2,3) tid show ?thesis
    by (fastforce simp: can_replay_result loaded_def is_used_def split: if_splits)
qed

lemma refresh_execute_cases:
  assumes "refresh_execute ports command w = (r, w')"
  obtains (refused) "r = Inl ValidationError" and "w' = w"
  | (coordinated) x w1 where
      "coordinator_execute (sp_retention_seconds ports) (sp_hot_store ports) (sp_beats ports)
         (refresh_identity command) (refresh_request_hash ports (fc_refresh_token command))
         (refresh_operation ports (fc_refresh_token command) (refresh_identity command)
            (refresh_request_hash ports (fc_refresh_token command))) (sp_lease_seconds ports) w = (x, w1)"
      and "(\<exists>e. r = Inl e \<and> w' = w1) \<or>
        (\<exists>res completed payload resource_id. x = Inr res \<and> er_completed res = Some completed \<and>
           replay_result ports (refresh_identity command) (refresh_request_hash ports (fc_refresh_token command))
             completed payload resource_id w1 = (r, w'))"
proof (cases "IdempotencyIdentity (refresh_identity command)")
  case (Inl e)
  with assms show ?thesis
    by (intro refused) (auto simp: refresh_execute_def bind_def liftr_def refresh_identity_def
        IdempotencyIdentity_def split: if_splits)
next
  case (Inr i)
  then have i: "IdempotencyIdentity (refresh_identity command) = Inr (refresh_identity command)"
    by (auto simp: IdempotencyIdentity_def split: if_splits)
  obtain x w1 where x: "coordinator_execute (sp_retention_seconds ports) (sp_hot_store ports) (sp_beats ports)
         (refresh_identity command) (refresh_request_hash ports (fc_refresh_token command))
         (refresh_operation ports (fc_refresh_token command) (refresh_identity command)
            (refresh_request_hash ports (fc_refresh_token command))) (sp_lease_seconds ports) w = (x, w1)" by fastforce
  show ?thesis
  proof (rule coordinated [OF x], goal_cases)
    case 1
    show ?case
      using assms i x unfolding refresh_execute_def refresh_identity_def [symmetric]
      by (cases x) (auto simp: bind_def liftr_def throw_def Let_def split: if_splits option.splits)
  qed
qed

subsection \<open>Properties of refresh\<close>

text \<open>
  C2. A refresh request, whatever fails in the database or in the hot store, commits nothing or
  exactly one of two things together with its idempotency record: the rotation of an unused token of
  an active session of an active account, or, for a consumed token or an inactive account, the
  revocation of the session. Either way the tables keep their invariant, so a session never has two
  usable tokens.
\<close>
theorem refresh_rotates_or_revokes:
  assumes "quiet_sources ports" and "known_hot_store (sp_hot_store ports)" and "world_ok sessions_ok w"
    and run: "refresh_execute ports command w = (r, w')"
  shows "(only_rivals w w' \<or> refreshed_between ports (fc_refresh_token command) (refresh_identity command) w w') \<and>
    world_ok sessions_ok w'"
  using run
proof (cases rule: refresh_execute_cases)
  case refused
  with assms(3) show ?thesis by simp
next
  case (coordinated x w1)
  have later: "only_rivals w1 w'"
    using coordinated(2) replay_result_only_rivals by auto
  from coordinator_effect [OF assms(2) transactional_refresh [OF assms(1)] coordinated(1)]
  show ?thesis
  proof
    assume "only_rivals w w1"
    then have "only_rivals w w'" using later by (rule only_rivals_trans)
    with only_rivals_world_ok [OF assms(3)] show ?thesis by blast
  next
    assume "\<exists>c. executed_between (sp_retention_seconds ports) (refresh_identity command)
        (refresh_request_hash ports (fc_refresh_token command))
        (refresh_operation ports (fc_refresh_token command) (refresh_identity command)
           (refresh_request_hash ports (fc_refresh_token command))) c w w1"
    with refresh_executed [OF assms(3,1)] have
      "refreshed_between ports (fc_refresh_token command) (refresh_identity command) w w1" "world_ok sessions_ok w1"
      by blast+
    with later only_rivals_world_ok only_rivals_trans show ?thesis unfolding refreshed_between_def by meson
  qed
qed

subsection \<open>Reuse of a refresh token\<close>

text \<open>No other process writes, and every transaction reaches its commit.\<close>

definition calm :: "'e world \<Rightarrow> bool" where
  "calm w \<longleftrightarrow> (\<forall>n d. w_rival w n d = d) \<and> (\<forall>n. w_fate w n = Commits)"

lemma find_existing_unknown:
  assumes "calm w" and "\<not> has_record i (w_db w)" and "length h = 32"
  shows "find_existing i h w = (Inr None, (begin_tx w)\<lparr>w_ticks := Suc (w_ticks w)\<rparr>)"
proof -
  have "filter (\<lambda>r. i_identity r = i) (db_records (w_db w)) = []"
    using assms(2) by (auto simp: has_record_def list_ex_iff filter_empty_conv)
  then have "lookup_completed i (begin_tx w) = (Inr None, (begin_tx w)\<lparr>w_ticks := Suc (w_ticks w)\<rparr>)"
    using assms(1) by (simp add: lookup_completed_def bind_def utc_now_def query_def get_completed_def calm_def)
  from uow_commits [where body = "lookup_completed i" and w = w, OF _ this] assms(1,3) show ?thesis
    by (simp add: find_existing_def bind_def liftr_def validate_digest_def return_def calm_def)
qed

lemma execute_once_runs:
  assumes "calm w" and "\<not> has_record i (w_db w)" and "length h = 32"
    and op: "operation (begin_tx ((begin_tx w)\<lparr>w_ticks := Suc (w_ticks w)\<rparr>)) = (Inr stored, w3)"
    and c: "CompletedIdempotencyResult c = Inr c" "c = completed_of h stored"
    and add: "try_add_completed ret (w_clock w3 (w_ticks w3)) (w_uuids w3 (w_drawn w3)) i c
      (db_records (w_db w3)) = Inr (True, rows)"
  shows "execute_once ret i h operation w = (Inr \<lparr>er_outcome = OUTCOME_EXECUTED, er_completed = Some c\<rparr>,
     w3\<lparr>w_ticks := Suc (w_ticks w3), w_drawn := Suc (w_drawn w3), w_db := (w_db w3)\<lparr>db_records := rows\<rparr>\<rparr>)"
proof -
  let ?w1 = "(begin_tx w)\<lparr>w_ticks := Suc (w_ticks w)\<rparr>"
  have "execution_tx ret i h operation (begin_tx ?w1) =
      (Inr c, w3\<lparr>w_ticks := Suc (w_ticks w3), w_drawn := Suc (w_drawn w3), w_db := (w_db w3)\<lparr>db_records := rows\<rparr>\<rparr>)"
    using op c add by (simp add: execution_tx_def add_completed_def bind_def liftr_def utc_now_def new_uuid_def
        stmt_def on_records_def return_def)
  moreover have "w_fate ?w1 (w_txs ?w1) = Commits" using assms(1) by (simp add: calm_def)
  ultimately have "uow (execution_tx ret i h operation) ?w1 =
      (Inr c, w3\<lparr>w_ticks := Suc (w_ticks w3), w_drawn := Suc (w_drawn w3), w_db := (w_db w3)\<lparr>db_records := rows\<rparr>\<rparr>)"
    by (metis uow_commits)
  with find_existing_unknown [OF assms(1-3)] assms(3) show ?thesis
    by (simp add: execute_once_def bind_def liftr_def validate_digest_def try_else_def ExecutionResult_def)
qed

lemma rejected_stored: "StoredResult rejected_result = Inr rejected_result" "fits 255 (sr_resource_id rejected_result)"
  by (simp_all add: StoredResult_def stored_fields_def validate_replayability_def rejected_result_def fits_def)

lemma refresh_operation_reused:
  assumes ok: "sessions_ok (w_db w)" and l: "loaded (w_db w) t s" and used: "is_used t"
    and hash: "t_token_hash t = digest_of ports raw" and "\<And>n. tz_aware (w_clock w n) \<and> s_created_at s \<le> w_clock w n"
    and user: "user_get (sp_email_str ports) (s_user_id s) (db_users (w_db w)) = Inr user"
  shows "\<exists>d. refresh_operation ports raw i h w =
      (Inr rejected_result, w\<lparr>w_ticks := Suc (w_ticks w), w_db := d\<rparr>) \<and>
    revokes_session s (w_clock w (w_ticks w)) (w_db w) d"
proof -
  let ?now = "w_clock w (w_ticks w)"
  obtain s' where rv: "revoke ?now s = Inr s'"
    using revoke_result [OF loaded_valid [OF ok l], of ?now] assms(5) [of "w_ticks w"] by (cases "s_revoked_at s") auto
  have "accepts_refresh ?now b s = Inr (False, s')" for b
    using rv used loadedD(3) [OF ok l] by (simp add: accepts_refresh_result is_used_def)
  moreover have "get_by_refresh_hash_for_update (digest_of ports raw) (w_db w) = Inr (Some s)"
    using load_by_hash [OF ok] l hash by blast
  moreover note rejected_stored(1)
  ultimately show ?thesis
    using save_revoked [OF ok l rv] user
    by (auto simp: refresh_operation_def bind_def query_def utc_now_def liftr_def stmt_def revokes_session_def
        revoked_row [OF rv, symmetric])
qed

lemma completed_record:
  assumes st: "StoredResult stored = Inr stored" and fits: "fits 255 (sr_resource_id stored)"
    and "0 < ret" and "length h = 32" and "length (id_key_hash i) = 32" and "length (id_subject_id i) \<le> 255"
    and "length (id_operation i) \<le> 100" and "\<not> has_record i d" and "new_id \<notin> i_id ` set (db_records d)"
  shows "CompletedIdempotencyResult (completed_of h stored) = Inr (completed_of h stored)"
    "try_add_completed ret now new_id i (completed_of h stored) (db_records d) =
      Inr (True, db_records d @ [completed_row ret now new_id i (completed_of h stored)])"
proof -
  have ok: "stored_fields stored" "validate_replayability stored"
    using st by (auto simp: StoredResult_def split: if_splits)
  then show "CompletedIdempotencyResult (completed_of h stored) = Inr (completed_of h stored)"
    using assms(4) by (simp add: CompletedIdempotencyResult_def completed_of_def stored_fields_def
        validate_replayability_def)
  have expiry: "now < plus_delta now (timedelta_seconds (of_int ret))"
    using assms(3) timedelta_seconds_of_int [of ret] by (simp add: plus_delta_def less_datetime_def)
  have row: "i_result (completed_row ret now new_id i (completed_of h stored)) = stored"
    by (simp add: completed_row_def completed_of_def stored_result.truncate_def)
  have "idempotency_widths (completed_row ret now new_id i (completed_of h stored))"
    unfolding idempotency_widths_def row using assms(6,7) fits ok(1)
    by (auto simp: completed_row_def stored_fields_def fits_def split: option.splits)
  moreover have "idempotency_checks (completed_row ret now new_id i (completed_of h stored))"
    unfolding idempotency_checks_def row Let_def using assms(4,5) expiry ok
    by (auto simp: completed_row_def completed_of_def stored_fields_def validate_replayability_def Let_def
        split: option.splits)
  moreover have "\<not> list_ex (\<lambda>r. i_id r = new_id) (db_records d)" using assms(9) by (simp add: list_ex_keys)
  ultimately show "try_add_completed ret now new_id i (completed_of h stored) (db_records d) =
      Inr (True, db_records d @ [completed_row ret now new_id i (completed_of h stored)])"
    using assms(8) by (simp add: try_add_completed_def has_record_def)
qed

lemma execute_once_reused:
  assumes calm: "calm w" and ret: "0 < ret" and h: "length h = 32" and kh: "length (id_key_hash i) = 32"
    and widths: "length (id_subject_id i) \<le> 255" "length (id_operation i) \<le> 100"
    and ok: "sessions_ok (w_db w)" and l: "loaded (w_db w) t s" and used: "is_used t"
    and hash: "t_token_hash t = digest_of ports raw"
    and fresh: "\<not> has_record i (w_db w)" "w_uuids w (w_drawn w) \<notin> i_id ` set (db_records (w_db w))"
    and clock: "\<And>n. tz_aware (w_clock w n) \<and> s_created_at s \<le> w_clock w n"
    and user: "user_get (sp_email_str ports) (s_user_id s) (db_users (w_db w)) = Inr user"
  shows "\<exists>w' now d record. execute_once ret i h (refresh_operation ports raw i h) w =
      (Inr \<lparr>er_outcome = OUTCOME_EXECUTED, er_completed = Some (completed_of h rejected_result)\<rparr>, w') \<and>
    revokes_session s now (w_db w) d \<and> w_db w' = d\<lparr>db_records := db_records d @ [record]\<rparr>"
proof -
  let ?c = "completed_of h rejected_result"
  define w2 where "w2 = begin_tx ((begin_tx w)\<lparr>w_ticks := Suc (w_ticks w)\<rparr>)"
  have w2: "w_db w2 = w_db w" "w_clock w2 = w_clock w" "w_uuids w2 = w_uuids w" "w_drawn w2 = w_drawn w"
    using calm by (simp_all add: w2_def calm_def)
  have "\<exists>d. refresh_operation ports raw i h w2 = (Inr rejected_result, w2\<lparr>w_ticks := Suc (w_ticks w2), w_db := d\<rparr>) \<and>
      revokes_session s (w_clock w2 (w_ticks w2)) (w_db w2) d"
    by (rule refresh_operation_reused [where t = t and user = user]) (simp_all add: w2 ok l used hash clock user)
  then obtain d where rev: "revokes_session s (w_clock w2 (w_ticks w2)) (w_db w) d"
    and op: "refresh_operation ports raw i h w2 = (Inr rejected_result, w2\<lparr>w_ticks := Suc (w_ticks w2), w_db := d\<rparr>)"
    unfolding w2 by blast
  define w3 where "w3 = w2\<lparr>w_ticks := Suc (w_ticks w2), w_db := d\<rparr>"
  have w3: "w_db w3 = d" "w_uuids w3 (w_drawn w3) = w_uuids w (w_drawn w)" by (simp_all add: w3_def w2)
  have recs: "db_records d = db_records (w_db w)" using rev by (simp add: revokes_session_def)
  have "\<not> has_record i d" "w_uuids w (w_drawn w) \<notin> i_id ` set (db_records d)"
    using fresh by (simp_all add: recs has_record_def)
  note add = completed_record [OF rejected_stored ret h kh widths this]
  with execute_once_runs [where operation = "refresh_operation ports raw i h" and ret = ret, OF calm fresh(1) h
      op [folded w3_def, unfolded w2_def] add(1) refl]
  have "execute_once ret i h (refresh_operation ports raw i h) w =
    (Inr \<lparr>er_outcome = OUTCOME_EXECUTED, er_completed = Some ?c\<rparr>,
     w3\<lparr>w_ticks := Suc (w_ticks w3), w_drawn := Suc (w_drawn w3), w_db := d\<lparr>db_records := db_records d @
       [completed_row ret (w_clock w3 (w_ticks w3)) (w_uuids w (w_drawn w)) i ?c]\<rparr>\<rparr>)"
    by (simp add: w3)
  with rev show ?thesis by fastforce
qed

text \<open>
  Presenting a refresh token that has been consumed kills its session for good: with a database that
  answers, the request raises \<open>InvalidRefreshTokenError\<close>, and although it raises, the revocation of the
  session is committed; nothing else of the accounts, sessions and tokens has changed.
\<close>
lemma reuse_revokes_durably:
  assumes calm: "calm w" and hot: "sp_hot_store ports = None" and conf: "0 < sp_lease_seconds ports" "0 < sp_retention_seconds ports"
    and ok: "sessions_ok (w_db w)" and l: "loaded (w_db w) t s" and used: "is_used t"
    and hash: "t_token_hash t = digest_of ports (fc_refresh_token command)"
    and sha256: "\<And>bs. length (ti_sha256 (sp_issuer ports) bs) = 32" and key: "RefreshCommand command = Inr command"
    and fresh: "\<not> has_record (refresh_identity command) (w_db w)" "w_uuids w (w_drawn w) \<notin> i_id ` set (db_records (w_db w))"
    and clock: "\<And>n. tz_aware (w_clock w n) \<and> s_created_at s \<le> w_clock w n"
    and user: "user_get (sp_email_str ports) (s_user_id s) (db_users (w_db w)) = Inr user"
  shows "\<exists>w' now d record. refresh_execute ports command w = (Inl InvalidRefreshTokenError, w') \<and>
    revokes_session s now (w_db w) d \<and> w_db w' = d\<lparr>db_records := db_records d @ [record]\<rparr>"
proof -
  let ?i = "refresh_identity command" and ?h = "refresh_request_hash ports (fc_refresh_token command)"
  let ?op = "refresh_operation ports (fc_refresh_token command) ?i ?h" and ?c = "completed_of ?h rejected_result"
  define w0 where "w0 = w\<lparr>w_trace := w_trace w @ [Observed ''hot_degraded'' ''disabled'']\<rparr>"
  have h: "length ?h = 32" and kh: "length (fc_key_hash command) = 32"
    using sha256 key by (simp_all add: refresh_request_hash_def RefreshCommand_def split: if_splits)
  have "\<exists>w' now d record. execute_once (sp_retention_seconds ports) ?i ?h ?op w0 =
      (Inr \<lparr>er_outcome = OUTCOME_EXECUTED, er_completed = Some ?c\<rparr>, w') \<and>
    revokes_session s now (w_db w0) d \<and> w_db w' = d\<lparr>db_records := db_records d @ [record]\<rparr>"
    by (rule execute_once_reused [where t = t and user = user])
      (use calm conf h kh ok l used hash fresh clock user in \<open>simp_all add: w0_def calm_def refresh_identity_def\<close>)
  then obtain w1 now d row where ex: "execute_once (sp_retention_seconds ports) ?i ?h ?op w0 =
      (Inr \<lparr>er_outcome = OUTCOME_EXECUTED, er_completed = Some ?c\<rparr>, w1)"
    and eff: "revokes_session s now (w_db w) d" "w_db w1 = d\<lparr>db_records := db_records d @ [row]\<rparr>"
    by (auto simp: w0_def)
  have "IdempotencyIdentity ?i = Inr ?i" using kh by (simp add: IdempotencyIdentity_def refresh_identity_def)
  then have "\<exists>w'. refresh_execute ports command w = (Inl InvalidRefreshTokenError, w') \<and> w_db w' = w_db w1"
    using hot conf(1) h ex unfolding refresh_execute_def refresh_identity_def [symmetric]
    by (simp add: Let_def bind_def liftr_def coordinator_execute_def observe_hot_degraded_def emit_def modify_def
        observe_result_def return_def throw_def completed_of_def rejected_result_def w0_def)
  with eff show ?thesis by metis
qed

subsection \<open>Properties of login\<close>

text \<open>
  A session has been opened: the account that was found under the address is, read again under its
  lock, active and has the hash the password was checked against; the session and its first token
  are inserted, and the token is the digest of the one in the answer.
\<close>

definition login_effect :: "('k, 'e) session_ports \<Rightarrow> login_command \<Rightarrow> token_pair \<Rightarrow> db \<Rightarrow> db \<Rightarrow> bool" where
  "login_effect ports command pair d d' \<longleftrightarrow>
     (\<exists>u now session_id token_id s.
        get_for_update (sp_email_str ports) (u_id u) (db_users d) = Inr (Some u) \<and> can_authenticate u \<and>
        ph_verify (sp_hasher ports) (lc_password command) (u_password_hash u) = Inr True \<and>
        start (u_id u) (digest_of ports (tp_refresh_token pair)) now (sp_session_idle_ttl ports)
          session_id token_id = Inr s \<and>
        session_id \<notin> s_id ` set (db_sessions d) \<and> token_id \<notin> t_id ` set (db_tokens d) \<and>
        digest_of ports (tp_refresh_token pair) \<notin> t_token_hash ` set (db_tokens d) \<and>
        d' = d\<lparr>db_sessions := db_sessions d @ [session_row s],
               db_tokens := db_tokens d @ [the (s_refresh_token s)]\<rparr>)"

lemma user_to_domain_id: "user_to_domain f u = Inr u' \<Longrightarrow> u_id u' = u_id u"
  by (auto simp: user_to_domain_def validate_user_result split: sum.splits if_splits)

lemma get_for_update_id: "get_for_update f i us = Inr (Some u) \<Longrightarrow> u_id u = i"
  by (auto simp: get_for_update_def optional_Some dest!: user_to_domain_id find_in_table)

lemma start_session_effect:
  assumes ok: "sessions_ok (w_db w)" and quiet: "quiet_sources ports"
    and verified: "ph_verify (sp_hasher ports) (lc_password command) ph = Inr True"
    and run: "start_session ports candidate ph w = (Inr issued, w')"
  shows "login_effect ports command (itp_pair issued) (w_db w) (w_db w') \<and> sessions_ok (w_db w')"
proof -
  let ?now = "w_clock w (w_ticks w)" and ?w = "w\<lparr>w_ticks := Suc (w_ticks w)\<rparr>"
  from run obtain f where f: "get_for_update (sp_email_str ports) (u_id candidate) (db_users (w_db w)) = Inr f" and "f \<noteq> None"
    unfolding start_session_def by (auto simp: bind_eq_Inr query_eq throw_eq split: option.splits)
  with run obtain u w1 sid tid s d where
    u: "get_for_update (sp_email_str ports) (u_id candidate) (db_users (w_db w)) = Inr (Some u)"
    and auth: "can_authenticate u" "u_password_hash u = ph"
    and iss: "issue_pair (sp_issuer ports) u ?now ?w = (Inr issued, w1)"
    and st: "start (u_id u) (itp_refresh_digest issued) ?now (sp_session_idle_ttl ports) sid tid = Inr s"
    and cr: "session_create s (w_db w1) = Inr (s, d)" and d: "w_db w' = d"
    by (fastforce simp: start_session_def res_simps create_started split: if_splits)
  have same: "w_db w1 = w_db w" using keeps_same_base [OF quiet_sources_frames(1) [OF quiet] iss] by (simp add: same_base_def)
  note cr' = cr [unfolded same create_started [OF st]]
  have id: "get_for_update (sp_email_str ports) (u_id u) (db_users (w_db w)) = Inr (Some u)"
    using u get_for_update_id [OF u] by simp
  have "sessions_ok d" using created_ok [OF ok st] cr' by simp
  moreover have "itp_refresh_digest issued = digest_of ports (tp_refresh_token (itp_pair issued))"
    using issue_pair_Inr [OF iss] by (simp add: digest_of_def)
  moreover from this have "login_effect ports command (itp_pair issued) (w_db w) d"
    unfolding login_effect_def
    by (intro exI [of _ u] exI [of _ ?now] exI [of _ sid] exI [of _ tid] exI [of _ s])
      (use id auth verified st cr' in simp)
  ultimately show ?thesis by (simp add: d)
qed

lemma verify_or_dummy_True:
  "verify_or_dummy h password (Some ph) w = (Inr True, w') \<Longrightarrow> ph_verify h password ph = Inr True"
  by (auto simp: verify_or_dummy_def verify_password_def res_simps split: sum.splits verify_failure.splits if_splits)

lemma read_user_only_rivals:
  "uow (query f) w = (r, w') \<Longrightarrow> only_rivals w w'"
  by (rule uow_read_only [of "query f"]) (auto simp: keeps_def query_def)

lemma transactional_start_session: "quiet_sources ports \<Longrightarrow> transactional (start_session ports u ph)"
  unfolding start_session_def by (intro transactional_intros transactional_cases quiet_transactional)

lemma login_execute_cases:
  assumes quiet: "quiet_sources ports" and run: "login_execute ports command w = (r, w')"
  obtains (refused) e where "only_rivals w w'" and "r = Inl e"
  | (verified) candidate w2 x where "only_rivals w w2"
      and "ph_verify (sp_hasher ports) (lc_password command) (u_password_hash candidate) = Inr True"
      and "uow (start_session ports candidate (u_password_hash candidate)) w2 = (x, w')"
      and "r = map_sum id itp_pair x"
proof -
  let ?hash = "\<lambda>candidate. case candidate of
      Some u \<Rightarrow> if can_authenticate u then Some (u_password_hash u) else None | None \<Rightarrow> None"
  obtain c w1 where c: "uow (query (\<lambda>d. user_get_by_email (sp_email_str ports) (lc_email command) (db_users d))) w = (c, w1)"
    by fastforce
  note rivals1 = read_user_only_rivals [OF c]
  show ?thesis
  proof (cases c)
    case (Inl e)
    with run c rivals1 show ?thesis by (intro refused) (auto simp: login_execute_def bind_def)
  next
    case (Inr candidate)
    obtain v w2 where v: "verify_or_dummy (sp_hasher ports) (lc_password command) (?hash candidate) w1 = (v, w2)" by fastforce
    have rivals2: "only_rivals w w2"
      using only_rivals_trans [OF rivals1 same_base_only_rivals [OF keeps_same_base [OF quiet_sources_frames(3) [OF quiet] v]]] .
    show ?thesis
    proof (cases "v = Inr True \<and> ?hash candidate \<noteq> None")
      case True
      then obtain u where u: "candidate = Some u" "can_authenticate u" by (auto split: option.splits if_splits)
      obtain x w3 where x: "uow (start_session ports u (u_password_hash u)) w2 = (x, w3)" by fastforce
      have ph: "ph_verify (sp_hasher ports) (lc_password command) (u_password_hash u) = Inr True"
        using v True u verify_or_dummy_True by auto
      have "r = map_sum id itp_pair x \<and> w' = w3"
        using run c Inr v True u x by (cases x) (auto simp: login_execute_def bind_def return_def)
      with x verified [OF rivals2 ph] show ?thesis by blast
    next
      case False
      with run c Inr v have "w' = w2 \<and> (\<exists>e. r = Inl e)"
        by (auto simp: login_execute_def bind_def throw_def split: sum.splits option.splits if_splits)
      with rivals2 refused show ?thesis by blast
    qed
  qed
qed

text \<open>What a login commits.\<close>

lemma login_outcome:
  assumes "quiet_sources ports" and "world_ok sessions_ok w" and run: "login_execute ports command w = (r, w')"
  shows "world_ok sessions_ok w' \<and>
    ((only_rivals w w' \<and> (\<exists>e. r = Inl e)) \<or>
     (\<exists>pair w1. only_rivals w w1 \<and> login_effect ports command pair (w_db w1) (w_db w') \<and>
        (r = Inr pair \<or> (\<exists>e. r = Inl (translated e) \<and> CommitLost e \<in> range (w_fate w)))))"
  using assms(1) run
proof (cases rule: login_execute_cases)
  case refused
  with only_rivals_world_ok [OF assms(2)] show ?thesis by blast
next
  case (verified candidate w2 x)
  note ok2 = only_rivals_world_ok [OF assms(2) verified(1)]
  from transactional_start_session [OF assms(1)] verified(3) show ?thesis
  proof (cases rule: uow_outcome)
    case (uncommitted e)
    with only_rivals_trans [OF verified(1)] only_rivals_world_ok [OF assms(2)] verified(4) show ?thesis by auto
  next
    case (committed issued)
    from start_session_effect [OF world_ok_db [OF world_ok_begin_tx [OF ok2]] assms(1) verified(2) committed(1)]
    have eff: "login_effect ports command (itp_pair issued) (w_db (begin_tx w2)) (w_db w')" "sessions_ok (w_db w')" by blast+
    have "scripts w' = scripts w"
      using transactionalD [OF transactional_start_session [OF assms(1)] committed(1)] verified(1)
      by (simp add: only_rivals_def)
    then have "world_ok sessions_ok w'" using world_ok_scripts [OF assms(2)] eff(2) by blast
    moreover have "only_rivals w (begin_tx w2)" by (rule only_rivals_trans [OF verified(1) only_rivals_begin_tx])
    moreover have "w_fate w2 = w_fate w" using verified(1) by (simp add: only_rivals_def scripts_def)
    ultimately show ?thesis using eff(1) committed(2) verified(4) by (metis id_apply map_sum.simps rangeI)
  qed
qed

text \<open>
  C7. A login opens exactly one session or none: if it answers, the account is active, the password
  verified against its current hash, and the session with the digest of the returned refresh token is
  committed; if it raises, nothing is committed, unless the commit was lost on the way back. The
  tables keep their invariant.
\<close>
theorem login_opens_one_session:
  assumes "quiet_sources ports" and "world_ok sessions_ok w" and run: "login_execute ports command w = (r, w')"
  shows "world_ok sessions_ok w' \<and>
    ((only_rivals w w' \<and> (\<exists>e. r = Inl e)) \<or>
     (\<exists>pair w1. only_rivals w w1 \<and> login_effect ports command pair (w_db w1) (w_db w') \<and>
        (r = Inr pair \<or> (\<exists>e. r = Inl (translated e) \<and> CommitLost e \<in> range (w_fate w)))))"
  by (rule login_outcome [OF assms])

definition kdf_runs :: "'e world \<Rightarrow> nat" where
  "kdf_runs w = length (filter (\<lambda>x. \<exists>what. x = Observed ''argon2'' what) (w_trace w))"

definition draws :: "'e hasher \<Rightarrow> bool" where
  "draws h \<longleftrightarrow> (\<forall>k w. \<exists>v w'. ph_random_below h k w = (Inr v, w') \<and> w_trace w' = w_trace w)"

lemma verify_or_dummy_runs:
  assumes "draws h"
    and "ph_hash h password = Inr x" and "case password_hash of None \<Rightarrow> True | Some ph \<Rightarrow> ph_verify h password ph = Inr False"
  shows "\<exists>w'. verify_or_dummy h password password_hash w = (Inr False, w') \<and> kdf_runs w' = Suc (kdf_runs w)"
proof -
  obtain w1 where "sleep_jitter h w = (Inr (), w1)" "kdf_runs w1 = kdf_runs w"
  proof -
    let ?k = "ph_jitter_max_ms h - ph_jitter_min_ms h + 1"
    from assms(1) obtain v w0 where "ph_random_below h ?k w = (Inr v, w0)" "w_trace w0 = w_trace w"
      unfolding draws_def by blast
    with that show thesis
      by (cases "0 < ph_jitter_min_ms h + v")
        (auto simp: sleep_jitter_def Let_def bind_def emit_def modify_def return_def kdf_runs_def)
  qed
  with assms(2,3) show ?thesis
    by (cases password_hash) (auto simp: verify_or_dummy_def hash_password_def verify_password_def bind_def
        emit_def modify_def return_def kdf_runs_def)
qed

text \<open>
  C13. A failed login tells nothing about the account: with no account under the address, with an
  account that may not log in and with a wrong password, the caller gets the same
  \<open>InvalidCredentialsError\<close> after exactly one run of the KDF, and nothing has been written.
\<close>
theorem failed_logins_look_alike:
  assumes quiet: "quiet_sources ports" and fate: "w_fate w (w_txs w) = Commits"
    and candidate: "user_get_by_email (sp_email_str ports) (lc_email command) (db_users (w_db (begin_tx w))) = Inr candidate"
    and failing: "\<And>u. candidate = Some u \<Longrightarrow> can_authenticate u \<Longrightarrow>
      ph_verify (sp_hasher ports) (lc_password command) (u_password_hash u) = Inr False"
    and kdf: "ph_hash (sp_hasher ports) (lc_password command) = Inr x"
    and random: "draws (sp_hasher ports)"
  shows "\<exists>w'. login_execute ports command w = (Inl InvalidCredentialsError, w') \<and> only_rivals w w' \<and>
    kdf_runs w' = Suc (kdf_runs w)"
proof -
  let ?hash = "case candidate of
      Some u \<Rightarrow> if can_authenticate u then Some (u_password_hash u) else None | None \<Rightarrow> None"
  have read: "uow (query (\<lambda>d. user_get_by_email (sp_email_str ports) (lc_email command) (db_users d))) w =
      (Inr candidate, begin_tx w)"
    by (rule uow_commits [OF fate]) (use candidate in \<open>simp add: query_def\<close>)
  have "case ?hash of None \<Rightarrow> True | Some ph \<Rightarrow> ph_verify (sp_hasher ports) (lc_password command) ph = Inr False"
    using failing by (auto split: option.splits)
  from verify_or_dummy_runs [where w = "begin_tx w", OF random kdf this] obtain w' where
    v: "verify_or_dummy (sp_hasher ports) (lc_password command) ?hash (begin_tx w) = (Inr False, w')"
    and runs: "kdf_runs w' = Suc (kdf_runs (begin_tx w))" by blast
  have "only_rivals w w'"
    by (rule only_rivals_trans [OF only_rivals_begin_tx
        same_base_only_rivals [OF keeps_same_base [OF quiet_sources_frames(3) [OF quiet] v]]])
  moreover have "login_execute ports command w = (Inl InvalidCredentialsError, w')"
    using read v by (auto simp: login_execute_def bind_def throw_def split: option.splits)
  ultimately show ?thesis using runs by (simp add: kdf_runs_def)
qed

subsection \<open>Properties of logout\<close>

lemma revokes_session_revoked:
  assumes ok: "sessions_ok d" and l: "loaded d t s" and rv: "revokes_session s now d d'"
    and l': "loaded d' t' s'" and same: "t_token_hash t' = t_token_hash t"
  shows "s_revoked_at s' \<noteq> None"
proof -
  let ?row = "(session_row s)\<lparr>s_revoked_at := Some (case s_revoked_at s of None \<Rightarrow> now | Some r \<Rightarrow> r)\<rparr>"
  have d': "db_tokens d' = db_tokens d" "db_sessions d' = put s_id ?row (db_sessions d)"
    using rv by (simp_all add: revokes_session_def)
  have "t' = t"
    using unique_key [OF sessions_okD(3) [OF ok], of t' t] l l' same d'(1) by (simp add: loaded_def)
  then have id: "s_id s' = s_id s" using l l' by (simp add: loaded_def)
  have "\<exists>r \<in> set (db_sessions d). s_id r = s_id ?row" using loadedD(1) [OF ok l] by (auto intro!: bexI [of _ "session_row s"])
  from set_put [OF this] l' id d'(2) have "session_row s' = ?row" by (auto simp: loaded_def)
  then have "s_revoked_at (session_row s') = s_revoked_at ?row" by (rule arg_cong)
  then show ?thesis by simp
qed

text \<open>
  Logging out works once and for all: a request that returns leaves no usable session behind the
  presented token, whether the token was unknown, live, consumed or already logged out; it writes at
  most the revocation of that one session and keeps the invariant of the tables. Without a token it
  does nothing.
\<close>
theorem logout_revokes:
  assumes "world_ok sessions_ok w" and run: "logout_execute ports (Some token) w = (r, w')"
  shows "world_ok sessions_ok w' \<and>
    (only_rivals w w' \<or> (\<exists>t s now. loaded (w_db (begin_tx w)) t s \<and> t_token_hash t = digest_of ports token \<and>
       revokes_session s now (w_db (begin_tx w)) (w_db w'))) \<and>
    (\<forall>t s. r = Inr () \<and> loaded (w_db w') t s \<and> t_token_hash t = digest_of ports token \<longrightarrow> s_revoked_at s \<noteq> None) \<and>
    logout_execute ports None w = (Inr (), w)"
proof -
  let ?d = "w_db (begin_tx w)"
  let ?body = "bind (query (get_by_refresh_hash_for_update (digest_of ports token))) (\<lambda>found.
      case found of None \<Rightarrow> return () | Some session \<Rightarrow>
        bind utc_now (\<lambda>now. bind (liftr (revoke now session)) (\<lambda>revoked. stmt (session_save revoked))))"
  have tx: "transactional ?body" by (intro transactional_intros transactional_cases)
  from run have up: "uow ?body w = (r, w')" by (simp add: logout_execute_def)
  have none: "logout_execute ports None w = (Inr (), w)" by (simp add: logout_execute_def return_def)
  have ok: "sessions_ok ?d" using world_ok_db [OF world_ok_begin_tx [OF assms(1)]] .
  from tx up show ?thesis
  proof (cases rule: uow_outcome)
    case (uncommitted e)
    with only_rivals_world_ok [OF assms(1)] none show ?thesis by blast
  next
    case (committed u)
    have scr: "scripts w' = scripts w" "w_txs w' = Suc (w_txs w)" using transactionalD [OF tx committed(1)] by simp_all
    from committed(1) obtain f where f: "get_by_refresh_hash_for_update (digest_of ports token) ?d = Inr f"
      by (auto simp: bind_eq_Inr query_eq)
    show ?thesis
    proof (cases f)
      case None
      with committed(1) f have "w' = begin_tx w" by (simp add: bind_def query_def return_def)
      moreover have "\<not> (loaded ?d t s \<and> t_token_hash t = digest_of ports token)" for t s
        using f None load_by_hash [OF ok, of "digest_of ports token" s] by auto
      ultimately show ?thesis using none only_rivals_begin_tx world_ok_begin_tx [OF assms(1)] by auto
    next
      case (Some s)
      with f load_by_hash [OF ok] obtain t where l: "loaded ?d t s" and t: "t_token_hash t = digest_of ports token" by blast
      from committed(1) f Some obtain now s' where rv: "revoke now s = Inr s'" and "session_save s' ?d = Inr ((), w_db w')"
        by (auto simp: res_simps)
      with save_revoked [OF ok l rv] revoked_ok [OF ok l rv] have
        rs: "revokes_session s now ?d (w_db w')" and "sessions_ok (w_db w')"
        by (auto simp: revokes_session_def revoked_row [OF rv, symmetric])
      with world_ok_scripts [OF assms(1) scr(1)] l t none revokes_session_revoked [OF ok l rs] show ?thesis by metis
    qed
  qed
qed

subsection \<open>Witnesses\<close>

text \<open>One account with one session, whose first token has been rotated into a second one.\<close>

definition sample_ports :: "(unit, hot_env) session_ports" where
  "sample_ports =
     \<lparr>sp_email_str = Some, sp_hasher = sample_hasher,
      sp_issuer = \<lparr>ti_lib = sample_lib,
        ti_access = \<lparr>ai_private_key = (), ai_key_id = ''k1'', ai_issuer = ''identity'', ai_audiences = [''api''], ai_ttl = 60\<rparr>,
        ti_sha256 = (\<lambda>bs. take 32 (bs @ replicate 32 0)), ti_token_urlsafe = return ''fresh''\<rparr>,
      sp_protector = sample_protector ''new'' [(''new'', replicate 32 2)], sp_verifier = sample_verifier,
      sp_hot_store = None, sp_beats = 0, sp_session_idle_ttl = 1000000000, sp_lease_seconds = 30,
      sp_retention_seconds = 300\<rparr>"

definition sample_account :: user where
  "sample_account = \<lparr>u_id = 3, u_created_at = Datetime 0 True, u_updated_at = None, u_email = ''ann@example.org'',
     u_password_hash = ''secret'', u_role = USER, u_status = ACTIVE\<rparr>"

definition stored_token :: "uuid \<Rightarrow> string \<Rightarrow> datetime option \<Rightarrow> refresh_token" where
  "stored_token token_id raw used = \<lparr>t_id = token_id, t_created_at = Datetime 0 True, t_session_id = 5,
     t_token_hash = digest_of sample_ports raw, t_used_at = used\<rparr>"

definition stored_session :: auth_session where
  "stored_session = \<lparr>s_id = 5, s_created_at = Datetime 0 True, s_user_id = 3,
     s_idle_expires_at = Datetime 1000000000 True, s_revoked_at = None, s_refresh_token = None,
     s_replacement_token = None\<rparr>"

definition auth_world :: "hot_env world" where
  "auth_world = hot_world\<lparr>w_db := empty_db\<lparr>db_users := [sample_account], db_sessions := [stored_session],
     db_tokens := [stored_token 6 ''spent'' (Some (Datetime 0 True)), stored_token 7 ''live'' None]\<rparr>\<rparr>"

definition sample_refresh :: "string \<Rightarrow> refresh_command" where
  "sample_refresh token = \<lparr>fc_refresh_token = token, fc_key_hash = replicate 32 1\<rparr>"

lemma sample_digest_length: "length (digest_of sample_ports token) = 32"
  by (simp add: digest_of_def opaque_digest_def sample_ports_def min_def)

lemma sample_digest_neq: "digest_of sample_ports ''spent'' \<noteq> digest_of sample_ports ''live''"
  by code_simp

lemma sample_account_loads: "user_to_domain Some sample_account = Inr sample_account"
  by code_simp

lemma sample_sources: "quiet_sources sample_ports"
  by (simp add: quiet_sources_def sample_ports_def sample_protector_def sample_hasher_def keeps_def return_def)

lemma auth_world_sel:
  "db_users (w_db auth_world) = [sample_account]" "db_sessions (w_db auth_world) = [stored_session]"
  "db_tokens (w_db auth_world) = [stored_token 6 ''spent'' (Some (Datetime 0 True)), stored_token 7 ''live'' None]"
  "db_records (w_db auth_world) = []" "w_rival auth_world = (\<lambda>_ d. d)" "w_fate auth_world = (\<lambda>_. Commits)"
  "w_clock auth_world = (\<lambda>n. Datetime (int (Suc n) * 1000000) True)" "w_uuids auth_world = (\<lambda>n. 100 + n)"
  "w_db_now auth_world = (\<lambda>_. Datetime 1000000 True)"
  by (simp_all add: auth_world_def hot_world_def quiet_world_def empty_db_def)

lemma auth_world_calm: "calm auth_world"
  by (simp add: calm_def auth_world_sel)

lemma stored_rows_valid:
  "valid_session stored_session" "session_row stored_session = stored_session"
  "used = None \<or> used = Some (Datetime 0 True) \<Longrightarrow> valid_token (stored_token i token used)"
  by (auto simp: valid_session_def valid_token_def validate_refresh_token_result validate_auth_session_result
      foreign_token_def bad_replacement_def session_row_def stored_session_def stored_token_def sample_digest_length)

lemma auth_world_ok: "sessions_ok (w_db auth_world)"
  using stored_rows_valid sample_digest_neq
  by (auto simp: sessions_ok_def auth_world_sel live_token_def is_used_def)
    (simp_all add: stored_token_def stored_session_def sample_account_def)

lemma auth_world_world_ok: "world_ok sessions_ok auth_world"
  using auth_world_ok by (simp add: world_ok_def auth_world_sel)

definition loaded_session :: "refresh_token \<Rightarrow> auth_session" where
  "loaded_session t = stored_session\<lparr>s_refresh_token := Some t\<rparr>"

lemma sample_loaded:
  "loaded (w_db auth_world) (stored_token 6 ''spent'' (Some (Datetime 0 True)))
     (loaded_session (stored_token 6 ''spent'' (Some (Datetime 0 True))))"
  "loaded (w_db auth_world) (stored_token 7 ''live'' None) (loaded_session (stored_token 7 ''live'' None))"
  using stored_rows_valid(3)
  by (simp_all add: loaded_def auth_world_sel loaded_session_def session_row_def)
    (simp_all add: stored_session_def stored_token_def)

lemma sample_user_get: "user_get Some 3 (db_users (w_db auth_world)) = Inr (Some sample_account)"
  using sample_account_loads by (simp add: user_get_def auth_world_sel optional_def sample_account_def)

lemma sample_hot_store: "known_hot_store (sp_hot_store sample_ports)"
  by (simp add: known_hot_store_def sample_ports_def)

lemma sample_sel:
  "sp_hot_store sample_ports = None" "sp_lease_seconds sample_ports = 30" "sp_retention_seconds sample_ports = 300"
  "sp_email_str sample_ports = Some" "sp_hasher sample_ports = sample_hasher"
  "sp_session_idle_ttl sample_ports = 1000000000" "length (ti_sha256 (sp_issuer sample_ports) bs) = 32"
  "fc_refresh_token (sample_refresh token) = token" "RefreshCommand (sample_refresh token) = Inr (sample_refresh token)"
  "\<not> has_record i (w_db auth_world)" "t_token_hash (stored_token j token used) = digest_of sample_ports token"
  "is_used (stored_token j token used) \<longleftrightarrow> used \<noteq> None" "t_created_at (stored_token j token used) = Datetime 0 True"
  "s_user_id (loaded_session t) = 3" "s_created_at (loaded_session t) = Datetime 0 True"
  "t_id (stored_token j token used) = j" "s_id (loaded_session t) = 5" "s_id stored_session = 5"
  by (simp_all add: sample_ports_def min_def sample_refresh_def RefreshCommand_def has_record_def auth_world_sel
      stored_token_def is_used_def loaded_session_def stored_session_def)

lemma fresh_digest:
  "digest_of sample_ports ''fresh'' \<noteq> digest_of sample_ports ''spent''"
  "digest_of sample_ports ''fresh'' \<noteq> digest_of sample_ports ''live''"
  by code_simp+

lemma sample_issue:
  assumes "tz_aware now"
  shows "issue_pair (sp_issuer sample_ports) user now w =
    (Inr \<lparr>itp_pair = \<lparr>tp_access_token = ''token'', tp_refresh_token = ''fresh'', tp_token_type = ''bearer''\<rparr>,
          itp_refresh_digest = digest_of sample_ports ''fresh''\<rparr>, w\<lparr>w_drawn := Suc (w_drawn w)\<rparr>)"
  using assms sample_digest_length [of "''fresh''"] unfolding digest_of_def
  by (simp add: issue_pair_def access_issue_def opaque_issue_def IssuedRefreshToken_def sample_ports_def sample_lib_def
      bind_def new_uuid_def return_def liftr_def)

theorem refresh_rotates_or_revokes_witness:
  "\<exists>r w'. refresh_execute sample_ports (sample_refresh ''spent'') auth_world = (r, w') \<and>
     (only_rivals auth_world w' \<or>
      refreshed_between sample_ports ''spent'' (refresh_identity (sample_refresh ''spent'')) auth_world w')"
proof -
  obtain r w' where run: "refresh_execute sample_ports (sample_refresh ''spent'') auth_world = (r, w')" by fastforce
  from refresh_rotates_or_revokes [OF sample_sources sample_hot_store auth_world_world_ok run] run show ?thesis
    by (auto simp: sample_refresh_def)
qed

definition sample_login :: "string \<Rightarrow> login_command" where
  "sample_login password = \<lparr>lc_email = ''ann@example.org'', lc_password = password\<rparr>"

theorem login_opens_one_session_witness:
  "\<exists>r w'. login_execute sample_ports (sample_login ''secret'') auth_world = (r, w') \<and> world_ok sessions_ok w'"
proof -
  obtain r w' where run: "login_execute sample_ports (sample_login ''secret'') auth_world = (r, w')" by fastforce
  from login_opens_one_session [OF sample_sources auth_world_world_ok run] run show ?thesis by blast
qed

theorem failed_logins_look_alike_witness:
  "\<exists>w'. login_execute sample_ports (sample_login ''guess'') auth_world = (Inl InvalidCredentialsError, w') \<and>
     only_rivals auth_world w' \<and> kdf_runs w' = Suc (kdf_runs auth_world)"
proof (rule failed_logins_look_alike [OF sample_sources])
  show "user_get_by_email (sp_email_str sample_ports) (lc_email (sample_login ''guess''))
      (db_users (w_db (begin_tx auth_world))) = Inr (Some sample_account)"
    using sample_account_loads by (simp add: user_get_by_email_def auth_world_sel sample_sel optional_def
        sample_login_def sample_account_def)
  show "w_fate auth_world (w_txs auth_world) = Commits" by (simp add: auth_world_sel)
  show "ph_verify (sp_hasher sample_ports) (lc_password (sample_login ''guess'')) (u_password_hash u) = Inr False"
    if "Some sample_account = Some u" "can_authenticate u" for u
    using that by (auto simp: sample_sel sample_hasher_def sample_login_def sample_account_def)
  show "ph_hash (sp_hasher sample_ports) (lc_password (sample_login ''guess'')) = Inr ''guess''"
    by (simp add: sample_sel sample_hasher_def sample_login_def)
  show "draws (sp_hasher sample_ports)" by (simp add: draws_def sample_sel sample_hasher_def return_def)
qed

theorem logout_revokes_witness:
  "\<exists>w' row. logout_execute sample_ports (Some ''live'') auth_world = (Inr (), w') \<and>
     db_sessions (w_db w') = [row] \<and> s_revoked_at row \<noteq> None \<and> world_ok sessions_ok w'"
proof -
  obtain r w' where run: "logout_execute sample_ports (Some ''live'') auth_world = (r, w')" by fastforce
  let ?t = "stored_token 7 ''live'' None"
  have db: "w_db (begin_tx auth_world) = w_db auth_world" by (simp add: auth_world_sel)
  have found: "get_by_refresh_hash_for_update (digest_of sample_ports ''live'') (w_db auth_world) = Inr (Some (loaded_session ?t))"
    using load_by_hash [OF auth_world_ok] sample_loaded(2) sample_sel(11) by blast
  have "\<exists>s'. revoke (w_clock auth_world (w_ticks auth_world)) (loaded_session ?t) = Inr s'"
    using revoke_result [OF loaded_valid [OF auth_world_ok sample_loaded(2)]]
    by (auto simp: auth_world_sel loaded_session_def stored_session_def)
  then obtain s' where rv: "revoke (w_clock auth_world (w_ticks auth_world)) (loaded_session ?t) = Inr s'" by blast
  have r: "r = Inr ()" and w': "db_sessions (w_db w') = [session_row s']"
  proof -
    note save = save_revoked [OF auth_world_ok sample_loaded(2) rv]
    have "s_id s' = 5" using revoke_frame [OF rv] by (simp add: loaded_session_def stored_session_def)
    with run found rv save show "r = Inr ()" "db_sessions (w_db w') = [session_row s']"
      by (auto simp: logout_execute_def uow_def Let_def auth_world_sel bind_def query_def utc_now_def liftr_def
          stmt_def aexit_def put_def stored_session_def)
  qed
  from logout_revokes [OF auth_world_world_ok run] have "world_ok sessions_ok w'" by blast
  with run r w' revoke_revoked [OF rv] show ?thesis by auto
qed

end
