(* ===== verification/Refresh_Liveness.thy ===== *)
theory Refresh_Liveness
  imports Sessions
begin

section \<open>A refresh that succeeds\<close>

text \<open>
  The other half of the contract of \<open>application/use_cases/refresh/handler.py\<close>: with a database
  that answers and libraries that work, a live token is rotated and the caller gets the new pair, and
  whoever gets a pair, first hand or as a replay, gets it for a live session.
\<close>

text \<open>
  The libraries work: the signer signs, the random generator gives tokens that have never been used
  and nonces of bytes, and the envelope can be opened again.
\<close>

definition issuing :: "('k, 'e) session_ports \<Rightarrow> db \<Rightarrow> bool" where
  "issuing ports d \<longleftrightarrow>
     quiet_sources ports \<and> envelope_libs (sp_protector ports) \<and>
     map_of (pr_keys (sp_protector ports)) (pr_active_key_id (sp_protector ports)) \<noteq> None \<and>
     (\<forall>w. \<exists>nonce w'. pr_urandom (sp_protector ports) w = (Inr nonce, w') \<and> (\<forall>b \<in> set nonce. b < 256)) \<and>
     (\<forall>user now w. tz_aware now \<longrightarrow> (\<exists>issued w'. issue_pair (sp_issuer ports) user now w = (Inr issued, w') \<and>
        itp_refresh_digest issued \<notin> t_token_hash ` set (db_tokens d)))"

lemma issuing_protects:
  assumes "issuing ports d"
  shows "\<exists>envelope w' dict. protect (sp_protector ports) (pair_json pair) aad w = (Inr envelope, w') \<and>
    restore (sp_protector ports) envelope aad = Inr dict \<and> pair_of_dict dict = Inr pair"
proof -
  let ?p = "sp_protector ports"
  have urandom: "\<exists>nonce w'. pr_urandom ?p w = (Inr nonce, w') \<and> (\<forall>b \<in> set nonce. b < 256)" for w
    using assms unfolding issuing_def by blast
  from assms obtain key where "map_of (pr_keys ?p) (pr_active_key_id ?p) = Some key" unfolding issuing_def by blast
  with urandom [of w] obtain envelope w' where run: "protect ?p (pair_json pair) aad w = (Inr envelope, w')"
    by (auto simp: protect_def bind_def return_def)
  have bytes: "\<forall>b \<in> set nonce. b < 256" if "pr_urandom ?p w = (Inr nonce, w')" for w nonce w'
    using urandom [of w] that by auto
  have "\<exists>dict. restore ?p envelope aad = Inr dict \<and> pair_of_dict dict = Inr pair"
    by (rule envelope_restores [OF _ run]) (use assms bytes in \<open>simp_all add: issuing_def\<close>)
  with run show ?thesis by blast
qed

lemma rotate_possible:
  assumes "valid_session s" and "s_refresh_token s = Some t" and "\<not> is_used t" and "is_active now s = Inr True"
    and "t_created_at t \<le> now" and "0 < ttl" and "length h = 32 \<and> rid \<noteq> t_id t \<and> h \<noteq> t_token_hash t"
  shows "\<exists>r s'. rotate now ttl h rid s = Inr (r, s')"
proof -
  have now: "s_created_at s \<le> now" "tz_aware now" "now < plus_delta now ttl"
    using assms(4,6) by (auto simp: is_active_result plus_delta_def less_datetime_def)
  then have "s_created_at s < plus_delta now ttl" by (meson le_less_trans)
  with assms now show ?thesis
    by (auto simp: rotate_result is_active_result is_used_def valid_session_def valid_token_def
        validate_refresh_token_result validate_auth_session_result foreign_token_def bad_replacement_def
        plus_delta_def)
qed

lemma success_stored:
  "StoredResult (success_result envelope rid) = Inr (success_result envelope rid)"
  "fits 255 (sr_resource_id (success_result envelope rid))"
  by (simp_all add: StoredResult_def stored_fields_def validate_replayability_def success_result_def fits_def)

lemma rotate_session_succeeds:
  assumes ok: "sessions_ok (w_db w)" and l: "loaded (w_db w) t s" and lib: "issuing ports (w_db w)"
    and unused: "\<not> is_used t" and act: "is_active now s = Inr True" and born: "t_created_at t \<le> now"
    and ttl: "0 < sp_session_idle_ttl ports"
    and fresh: "\<And>n. w_uuids w n \<notin> t_id ` set (db_tokens (w_db w))"
  shows "\<exists>envelope r pair dict n w'. rotate_session ports i h now user s w = (Inr (success_result envelope (t_id r)), w') \<and>
    rotates_session t r s now (sp_session_idle_ttl ports) (w_db w) (w_db w') \<and> t_id r = w_uuids w n \<and>
    t_token_hash r = digest_of ports (tp_refresh_token pair) \<and> sessions_ok (w_db w') \<and>
    scripts w' = scripts w \<and> w_txs w' = w_txs w \<and>
    restore (sp_protector ports) envelope (replay_aad i h ''auth.refresh.success'' 1) = Inr dict \<and>
    pair_of_dict dict = Inr pair"
proof -
  have quiet: "quiet_sources ports" using lib by (simp add: issuing_def)
  have aware: "tz_aware now" using act by (simp add: is_active_result)
  from lib aware obtain issued w1 where iss: "issue_pair (sp_issuer ports) user now w = (Inr issued, w1)"
    and new: "itp_refresh_digest issued \<notin> t_token_hash ` set (db_tokens (w_db w))" unfolding issuing_def by blast
  note base1 = keeps_same_base [OF quiet_sources_frames(1) [OF quiet] iss]
  let ?h = "itp_refresh_digest issued" and ?rid = "w_uuids w1 (w_drawn w1)" and ?ttl = "sp_session_idle_ttl ports"
  have rid: "?rid = w_uuids w (w_drawn w1)" using base1 by (simp add: same_base_def scripts_def)
  have "?rid \<noteq> t_id t" "?h \<noteq> t_token_hash t" using fresh [of "w_drawn w1"] new loadedD(2) [OF ok l] by (auto simp: rid)
  then obtain r s' where rot: "rotate now ?ttl ?h ?rid s = Inr (r, s')"
    using rotate_possible [OF loaded_valid [OF ok l] loadedD(3) [OF ok l] unused act born ttl] issue_pair_Inr [OF iss] by blast
  then have r: "t_id r = ?rid" "t_token_hash r = ?h" by (auto simp: rotate_result)
  define d where "d = (w_db w)\<lparr>db_sessions := put s_id (session_row s') (db_sessions (w_db w)),
      db_tokens := put t_id (t\<lparr>t_used_at := Some now\<rparr>) (db_tokens (w_db w)) @ [r]\<rparr>"
  have save: "session_save s' (w_db w1) = Inr ((), d)"
    using save_rotated [OF ok l rot] fresh [of "w_drawn w1"] new base1 by (simp add: d_def rid same_base_def)
  define w2 where "w2 = w1\<lparr>w_drawn := Suc (w_drawn w1), w_db := d\<rparr>"
  from issuing_protects [OF lib] obtain envelope w' dict where
    env: "protect (sp_protector ports) (pair_json (itp_pair issued)) (replay_aad i h ''auth.refresh.success'' 1) w2 =
      (Inr envelope, w')" and dict: "restore (sp_protector ports) envelope (replay_aad i h ''auth.refresh.success'' 1) = Inr dict"
    "pair_of_dict dict = Inr (itp_pair issued)" by blast
  have run: "rotate_session ports i h now user s w = (Inr (success_result envelope (t_id r)), w')"
    using iss rot save env unfolding w2_def
    by (simp add: rotate_session_def bind_def new_uuid_def liftr_def stmt_def success_stored)
  from rotate_session_effect [OF ok l quiet run] obtain r' where
    eff: "rotates_session t r' s now ?ttl (w_db w) (w_db w')" "sessions_ok (w_db w')" by blast
  have "scripts w' = scripts w \<and> w_txs w' = w_txs w"
    using keeps_same_base [OF quiet_sources_frames(2) [OF quiet] env] base1
    by (simp add: same_base_def w2_def scripts_def)
  moreover have "w_db w' = d" using keeps_same_base [OF quiet_sources_frames(2) [OF quiet] env]
    by (simp add: same_base_def w2_def)
  with eff(1) have "db_tokens d = put t_id (t\<lparr>t_used_at := Some now\<rparr>) (db_tokens (w_db w)) @ [r']"
    by (simp add: rotates_session_def)
  then have "r' = r" by (simp add: d_def)
  moreover have "?h = digest_of ports (tp_refresh_token (itp_pair issued))"
    using issue_pair_Inr [OF iss] by (simp add: digest_of_def)
  ultimately show ?thesis using run eff(1,2) r rid dict by metis
qed

lemma refresh_operation_succeeds:
  assumes ok: "sessions_ok (w_db w)" and l: "loaded (w_db w) t s" and lib: "issuing ports (w_db w)"
    and hash: "t_token_hash t = digest_of ports raw" and unused: "\<not> is_used t"
    and act: "\<And>n. is_active (w_clock w n) s = Inr True \<and> t_created_at t \<le> w_clock w n"
    and account: "account_active ports (s_user_id s) (w_db w)" and ttl: "0 < sp_session_idle_ttl ports"
    and fresh: "\<And>n. w_uuids w n \<notin> t_id ` set (db_tokens (w_db w))"
  shows "\<exists>envelope r pair dict m n w'. refresh_operation ports raw i h w = (Inr (success_result envelope (t_id r)), w') \<and>
    rotates_session t r s (w_clock w m) (sp_session_idle_ttl ports) (w_db w) (w_db w') \<and> t_id r = w_uuids w n \<and>
    t_token_hash r = digest_of ports (tp_refresh_token pair) \<and> sessions_ok (w_db w') \<and>
    scripts w' = scripts w \<and> w_txs w' = w_txs w \<and>
    restore (sp_protector ports) envelope (replay_aad i h ''auth.refresh.success'' 1) = Inr dict \<and>
    pair_of_dict dict = Inr pair"
proof -
  let ?now = "w_clock w (w_ticks w)"
  define w1 where "w1 = w\<lparr>w_ticks := Suc (w_ticks w)\<rparr>"
  have w1: "w_db w1 = w_db w" "w_uuids w1 = w_uuids w" "scripts w1 = scripts w" "w_txs w1 = w_txs w"
    by (simp_all add: w1_def scripts_def)
  from account obtain u where u: "user_get (sp_email_str ports) (s_user_id s) (db_users (w_db w)) = Inr (Some u)"
    "can_authenticate u" unfolding account_active_def by blast
  have "accepts_refresh ?now True s = Inr (True, s)"
    using act [of "w_ticks w"] unused loadedD(3) [OF ok l] by (simp add: accepts_refresh_result is_active_result is_used_def)
  moreover have "get_by_refresh_hash_for_update (digest_of ports raw) (w_db w) = Inr (Some s)"
    using load_by_hash [OF ok] l hash by blast
  ultimately have run: "refresh_operation ports raw i h w = rotate_session ports i h ?now u s w1"
    using u by (simp add: refresh_operation_def bind_def query_def utc_now_def liftr_def w1_def)
  have "\<exists>envelope r pair dict n w'. rotate_session ports i h ?now u s w1 = (Inr (success_result envelope (t_id r)), w') \<and>
    rotates_session t r s ?now (sp_session_idle_ttl ports) (w_db w1) (w_db w') \<and> t_id r = w_uuids w1 n \<and>
    t_token_hash r = digest_of ports (tp_refresh_token pair) \<and> sessions_ok (w_db w') \<and>
    scripts w' = scripts w1 \<and> w_txs w' = w_txs w1 \<and>
    restore (sp_protector ports) envelope (replay_aad i h ''auth.refresh.success'' 1) = Inr dict \<and>
    pair_of_dict dict = Inr pair"
    by (rule rotate_session_succeeds) (use ok l lib unused act ttl fresh in \<open>simp_all add: w1\<close>)
  then show ?thesis unfolding run w1 by blast
qed

lemma loaded_by_id:
  assumes ok: "sessions_ok d" and l: "loaded d t s"
  shows "get_by_refresh_id (t_id t) d = Inr (Some s)"
proof -
  note ld = loadedD [OF ok l]
  have "find (\<lambda>r. t_id r = t_id t) (db_tokens d) = Some t"
    using find_unique_key [OF sessions_okD(2) [OF ok] ld(2)] by simp
  moreover have "find (\<lambda>r. s_id r = t_session_id t) (db_sessions d) = Some (session_row s)"
    using find_unique_key [OF sessions_okD(1) [OF ok] ld(1)] ld(5) by simp
  moreover have "validate_auth_session (session_row s) = Inr (session_row s)"
    using sessions_okD(4) [OF ok ld(1)] by (simp add: valid_session_def)
  moreover have "s = (session_row s)\<lparr>s_refresh_token := Some t\<rparr>" using ld(3,4) by (simp add: session_row_def)
  ultimately show ?thesis
    using ld(6) unfolding get_by_refresh_id_def repo_get_def
    by (auto simp: bind_res_iffs optional_Some token_to_domain_result with_token_Some intro!: exI [of _ "Some t"])
qed

lemma rotates_loaded:
  assumes ok: "sessions_ok d" and ok': "sessions_ok d'" and l: "loaded d t s" and rot: "rotates_session t r s now ttl d d'"
  shows "loaded d' r (s\<lparr>s_refresh_token := Some r, s_idle_expires_at := plus_delta now ttl\<rparr>)"
proof -
  let ?row = "(session_row s)\<lparr>s_idle_expires_at := plus_delta now ttl\<rparr>"
  have "\<exists>q \<in> set (db_sessions d). s_id q = s_id ?row"
    using loadedD(1) [OF ok l] by (auto intro!: bexI [of _ "session_row s"])
  from set_put [OF this] rot have "?row \<in> set (db_sessions d')" "r \<in> set (db_tokens d')" "t_session_id r = s_id s"
    by (simp_all add: rotates_session_def)
  moreover have "session_row (s\<lparr>s_refresh_token := Some r, s_idle_expires_at := plus_delta now ttl\<rparr>) = ?row"
    by (simp add: session_row_def)
  ultimately show ?thesis
    using sessions_okD(5) [OF ok', of r] loadedD(4) [OF ok l] by (simp add: loaded_def)
qed

lemma rotated_can_replay:
  assumes "rotates_session t r s now ttl d d'" and "tz_aware now'" and "s_created_at s \<le> now'" and "now' < plus_delta now ttl"
  shows "can_replay now' (s\<lparr>s_refresh_token := Some r, s_idle_expires_at := plus_delta now ttl\<rparr>) = Inr True"
  using assms by (auto simp: can_replay_result is_active_result rotates_session_def is_used_def)

lemma replay_result_succeeds:
  assumes "calm w" and ok: "sessions_ok (w_db w)" and l: "loaded (w_db w) r s" and id: "uuid_of_str resource_id = Some (t_id r)"
    and live: "can_replay (w_clock w (w_ticks w)) s = Inr True"
    and dict: "restore (sp_protector ports) payload (replay_aad i h (sr_result_type c) (sr_result_version c)) = Inr dict"
      "pair_of_dict dict = Inr pair"
  shows "\<exists>w'. replay_result ports i h c payload resource_id w = (Inr pair, w') \<and> w_db w' = w_db w"
proof -
  let ?body = "bind (query (get_by_refresh_id (t_id r))) (\<lambda>session.
        case session of None \<Rightarrow> throw InvalidRefreshTokenError
        | Some s \<Rightarrow> bind utc_now (\<lambda>now. bind (liftr (can_replay now s)) (\<lambda>ok.
            if \<not> ok then throw InvalidRefreshTokenError else return ())))"
  define w' where "w' = (begin_tx w)\<lparr>w_ticks := Suc (w_ticks w)\<rparr>"
  have db: "w_db (begin_tx w) = w_db w" using assms(1) by (simp add: calm_def)
  have "?body (begin_tx w) = (Inr (), w')"
    using loaded_by_id [OF ok l] live db by (simp add: bind_def query_def utc_now_def liftr_def return_def w'_def)
  then have "uow ?body w = (Inr (), w')" using assms(1) by (intro uow_commits) (simp_all add: calm_def)
  then have "replay_result ports i h c payload resource_id w = (Inr pair, w')"
    using id dict by (simp add: replay_result_def catch_def bind_def liftr_def)
  moreover have "w_db w' = w_db w" using db by (simp add: w'_def)
  ultimately show ?thesis by blast
qed

text \<open>
  A live token in good order: the token is unused, its session active and its account active at every
  reading of the clock, the readings lie within one idle window, and the identifiers drawn are new.
\<close>

definition refreshable :: "('k, 'e) session_ports \<Rightarrow> refresh_token \<Rightarrow> auth_session \<Rightarrow> 'e world \<Rightarrow> bool" where
  "refreshable ports t s w \<longleftrightarrow>
     sessions_ok (w_db w) \<and> loaded (w_db w) t s \<and> \<not> is_used t \<and> account_active ports (s_user_id s) (w_db w) \<and>
     0 < sp_session_idle_ttl ports \<and>
     (\<forall>n. is_active (w_clock w n) s = Inr True \<and> t_created_at t \<le> w_clock w n) \<and>
     (\<forall>m n. w_clock w n < plus_delta (w_clock w m) (sp_session_idle_ttl ports)) \<and>
     (\<forall>n. w_uuids w n \<notin> t_id ` set (db_tokens (w_db w)) \<and> w_uuids w n \<notin> i_id ` set (db_records (w_db w)) \<and>
        w_uuids w n < 2 ^ 128)"

lemma execute_once_rotates:
  assumes calm: "calm w" and lib: "issuing ports (w_db w)" and rf: "refreshable ports t s w"
    and hash: "t_token_hash t = digest_of ports raw"
    and ret: "0 < ret" and h: "length h = 32" and kh: "length (id_key_hash i) = 32"
    and widths: "length (id_subject_id i) \<le> 255" "length (id_operation i) \<le> 100"
    and fresh: "\<not> has_record i (w_db w)"
  shows "\<exists>envelope r pair dict m n d w'. execute_once ret i h (refresh_operation ports raw i h) w =
      (Inr \<lparr>er_outcome = OUTCOME_EXECUTED, er_completed = Some (completed_of h (success_result envelope (t_id r)))\<rparr>, w') \<and>
    rotates_session t r s (w_clock w m) (sp_session_idle_ttl ports) (w_db w) d \<and> sessions_ok d \<and>
    (\<exists>record. w_db w' = d\<lparr>db_records := db_records d @ [record]\<rparr>) \<and> scripts w' = scripts w \<and>
    t_id r = w_uuids w n \<and> t_token_hash r = digest_of ports (tp_refresh_token pair) \<and>
    restore (sp_protector ports) envelope (replay_aad i h ''auth.refresh.success'' 1) = Inr dict \<and>
    pair_of_dict dict = Inr pair"
proof -
  define w2 where "w2 = begin_tx ((begin_tx w)\<lparr>w_ticks := Suc (w_ticks w)\<rparr>)"
  have w2: "w_db w2 = w_db w" "w_clock w2 = w_clock w" "w_uuids w2 = w_uuids w" "scripts w2 = scripts w"
    using calm by (simp_all add: w2_def calm_def scripts_def)
  have "\<exists>envelope r pair dict m n w'. refresh_operation ports raw i h w2 = (Inr (success_result envelope (t_id r)), w') \<and>
    rotates_session t r s (w_clock w2 m) (sp_session_idle_ttl ports) (w_db w2) (w_db w') \<and> t_id r = w_uuids w2 n \<and>
    t_token_hash r = digest_of ports (tp_refresh_token pair) \<and> sessions_ok (w_db w') \<and>
    scripts w' = scripts w2 \<and> w_txs w' = w_txs w2 \<and>
    restore (sp_protector ports) envelope (replay_aad i h ''auth.refresh.success'' 1) = Inr dict \<and>
    pair_of_dict dict = Inr pair"
    by (rule refresh_operation_succeeds) (use rf lib hash in \<open>simp_all add: w2 refreshable_def\<close>)
  then obtain envelope r pair dict m n w3 where
    op: "refresh_operation ports raw i h w2 = (Inr (success_result envelope (t_id r)), w3)"
    and rot: "rotates_session t r s (w_clock w m) (sp_session_idle_ttl ports) (w_db w) (w_db w3)"
    and r: "t_id r = w_uuids w n" "t_token_hash r = digest_of ports (tp_refresh_token pair)"
    and w3: "sessions_ok (w_db w3)" "scripts w3 = scripts w"
    and dict: "restore (sp_protector ports) envelope (replay_aad i h ''auth.refresh.success'' 1) = Inr dict"
      "pair_of_dict dict = Inr pair"
    unfolding w2 by blast
  let ?c = "completed_of h (success_result envelope (t_id r))" and ?new = "w_uuids w3 (w_drawn w3)"
  have recs: "db_records (w_db w3) = db_records (w_db w)" using rot by (simp add: rotates_session_def)
  have "w_uuids w3 = w_uuids w" using w3(2) by (simp add: scripts_def)
  then have "\<not> has_record i (w_db w3)" "?new \<notin> i_id ` set (db_records (w_db w3))"
    using fresh rf by (auto simp: recs has_record_def refreshable_def)
  note add = completed_record [OF success_stored ret h kh widths this]
  note run = execute_once_runs [where operation = "refresh_operation ports raw i h" and ret = ret, OF calm fresh h
      op [unfolded w2_def] add(1) refl add(2)]
  have "scripts (w3\<lparr>w_ticks := a, w_drawn := b, w_db := c\<rparr>) = scripts w" for a b c
    using w3(2) by (simp add: scripts_def)
  with run rot r w3(1) dict show ?thesis by fastforce
qed

lemma refresh_exchanges:
  assumes calm: "calm w" and hot: "sp_hot_store ports = None" and conf: "0 < sp_lease_seconds ports" "0 < sp_retention_seconds ports"
    and lib: "issuing ports (w_db w)" and rf: "refreshable ports t s w"
    and hash: "t_token_hash t = digest_of ports (fc_refresh_token command)"
    and sha256: "\<And>bs. length (ti_sha256 (sp_issuer ports) bs) = 32" and key: "RefreshCommand command = Inr command"
    and fresh: "\<not> has_record (refresh_identity command) (w_db w)"
  shows "\<exists>pair w' r d now. refresh_execute ports command w = (Inr pair, w') \<and>
    rotates_session t r s now (sp_session_idle_ttl ports) (w_db w) d \<and>
    t_token_hash r = digest_of ports (tp_refresh_token pair) \<and>
    (\<exists>record. w_db w' = d\<lparr>db_records := db_records d @ [record]\<rparr>)"
proof -
  let ?i = "refresh_identity command" and ?h = "refresh_request_hash ports (fc_refresh_token command)"
  let ?op = "refresh_operation ports (fc_refresh_token command) ?i ?h"
  define w0 where "w0 = w\<lparr>w_trace := w_trace w @ [Observed ''hot_degraded'' ''disabled'']\<rparr>"
  have w0: "w_db w0 = w_db w" "w_clock w0 = w_clock w" "w_uuids w0 = w_uuids w" "scripts w0 = scripts w"
    by (simp_all add: w0_def scripts_def)
  have h: "length ?h = 32" and kh: "length (fc_key_hash command) = 32"
    using sha256 key by (simp_all add: refresh_request_hash_def RefreshCommand_def split: if_splits)
  have i: "IdempotencyIdentity ?i = Inr ?i" "length (id_key_hash ?i) = 32" "length (id_subject_id ?i) \<le> 255"
    "length (id_operation ?i) \<le> 100" using kh by (simp_all add: IdempotencyIdentity_def refresh_identity_def)
  have "refreshable ports t s w0" using rf by (simp add: refreshable_def w0)
  moreover have "calm w0" using calm by (simp add: calm_def w0_def)
  ultimately obtain envelope r pair dict m n d w1 row where
    ex: "execute_once (sp_retention_seconds ports) ?i ?h ?op w0 =
      (Inr \<lparr>er_outcome = OUTCOME_EXECUTED, er_completed = Some (completed_of ?h (success_result envelope (t_id r)))\<rparr>, w1)"
    and rot: "rotates_session t r s (w_clock w m) (sp_session_idle_ttl ports) (w_db w) d" and ok: "sessions_ok d"
    and w1: "w_db w1 = d\<lparr>db_records := db_records d @ [row]\<rparr>" "scripts w1 = scripts w"
    and r: "t_id r = w_uuids w n" "t_token_hash r = digest_of ports (tp_refresh_token pair)"
    and dict: "restore (sp_protector ports) envelope (replay_aad ?i ?h ''auth.refresh.success'' 1) = Inr dict"
      "pair_of_dict dict = Inr pair"
    using execute_once_rotates [OF _ _ _ hash conf(2) h i(2-4), of w0] lib fresh unfolding w0 by blast
  let ?c = "completed_of ?h (success_result envelope (t_id r))"
  let ?s = "s\<lparr>s_refresh_token := Some r, s_idle_expires_at := plus_delta (w_clock w m) (sp_session_idle_ttl ports)\<rparr>"
  define w2 where "w2 = w1\<lparr>w_trace := w_trace w1 @ [Observed ''outcome'' ''EXECUTED'']\<rparr>"
  have w2: "w_db w2 = w_db w1" "w_clock w2 = w_clock w" "calm w2"
    using calm w1(2) by (simp_all add: w2_def scripts_def calm_def)
  have ok1: "sessions_ok (w_db w2)" using ok w1(1) w2(1) sessions_ok_cong [of "w_db w1" d] by simp
  have "loaded d r ?s" using rotates_loaded [OF _ ok _ rot] rf by (simp add: refreshable_def)
  then have l: "loaded (w_db w2) r ?s" using w1(1) w2(1) by (simp add: loaded_def)
  have "uuid_of_str (uuid_str (t_id r)) = Some (t_id r)" using rf uuid_of_str_str by (simp add: r refreshable_def)
  moreover have "can_replay (w_clock w2 (w_ticks w2)) ?s = Inr True"
    by (rule rotated_can_replay [OF rot]) (use rf in \<open>simp_all add: refreshable_def is_active_result w2\<close>)
  ultimately obtain w' where rep: "replay_result ports ?i ?h ?c envelope (uuid_str (t_id r)) w2 = (Inr pair, w')"
    and db: "w_db w' = w_db w2"
    using replay_result_succeeds [OF w2(3) ok1 l, of "uuid_str (t_id r)" ports envelope ?i ?h ?c dict pair] dict
    by (auto simp: completed_of_def success_result_def)
  have "refresh_execute ports command w = (Inr pair, w')"
    using hot conf(1) h ex i(1) rep unfolding refresh_execute_def refresh_identity_def [symmetric]
    by (simp add: Let_def bind_def liftr_def coordinator_execute_def observe_hot_degraded_def emit_def modify_def
        observe_result_def return_def completed_of_def success_result_def w0_def w2_def outcome_value_def)
  with rot r(2) db w1(1) w2(1) show ?thesis by metis
qed

subsection \<open>Properties\<close>




subsection \<open>Witnesses\<close>

definition steady_world :: "hot_env world" where
  "steady_world = auth_world\<lparr>w_clock := \<lambda>n. Datetime (1000000 + int (n mod 1000)) True, w_uuids := \<lambda>n. 100 + n mod 1000\<rparr>"

lemma steady_world_sel:
  "w_db steady_world = w_db auth_world" "w_clock steady_world = (\<lambda>n. Datetime (1000000 + int (n mod 1000)) True)"
  "w_uuids steady_world = (\<lambda>n. 100 + n mod 1000)" "w_rival steady_world = w_rival auth_world"
  "w_fate steady_world = w_fate auth_world" "w_db_now steady_world = w_db_now auth_world"
  by (simp_all add: steady_world_def)

lemma sample_issuing: "issuing sample_ports (w_db auth_world)"
  unfolding issuing_def
proof (intro conjI allI impI)
  show "quiet_sources sample_ports" by (rule sample_sources)
  show "envelope_libs (sp_protector sample_ports)"
    using json_loads_bytes by (simp add: envelope_libs_def sample_ports_def sample_protector_def)
  show "map_of (pr_keys (sp_protector sample_ports)) (pr_active_key_id (sp_protector sample_ports)) \<noteq> None"
    by (simp add: sample_ports_def sample_protector_def)
  show "\<exists>nonce w'. pr_urandom (sp_protector sample_ports) w = (Inr nonce, w') \<and> (\<forall>b \<in> set nonce. b < 256)" for w
    by (simp add: sample_ports_def sample_protector_def return_def)
  show "\<exists>issued w'. issue_pair (sp_issuer sample_ports) user now w = (Inr issued, w') \<and>
      itp_refresh_digest issued \<notin> t_token_hash ` set (db_tokens (w_db auth_world))" if "tz_aware now" for user now w
    using sample_issue [OF that] fresh_digest by (auto simp: auth_world_sel sample_sel)
qed

lemma sample_refreshable:
  "refreshable sample_ports (stored_token 7 ''live'' None) (loaded_session (stored_token 7 ''live'' None)) steady_world"
proof -
  have "account_active sample_ports 3 (w_db auth_world)"
    using sample_user_get by (simp add: account_active_def sample_sel can_authenticate_def sample_account_def)
  moreover have "is_active (Datetime (1000000 + int (n mod 1000)) True) (loaded_session t) = Inr True" for n t
    by (simp add: is_active_result loaded_session_def stored_session_def less_datetime_def less_eq_datetime_def)
  moreover have "Datetime (1000000 + int (n mod 1000)) True < plus_delta (Datetime (1000000 + int (m mod 1000)) True) 1000000000" for m n
    by (simp add: plus_delta_def less_datetime_def)
  moreover have "n mod 1000 < 340282366920938463463374607431768211356" for n :: nat
    by (rule less_trans [of _ 1000]) simp_all
  ultimately show ?thesis
    using auth_world_ok sample_loaded(2)
    by (simp add: refreshable_def steady_world_sel sample_sel auth_world_sel)
qed

lemma steady_world_ok: "world_ok sessions_ok steady_world" "calm steady_world"
  using auth_world_world_ok auth_world_calm by (simp_all add: world_ok_def calm_def steady_world_sel)

lemma sample_exchange:
  "\<exists>pair w'. refresh_execute sample_ports (sample_refresh ''live'') steady_world = (Inr pair, w')"
  using refresh_exchanges [OF steady_world_ok(2) _ _ _ _ sample_refreshable, of "sample_refresh ''live''"] sample_issuing
  by (auto simp: sample_sel steady_world_sel)



end
