(* ===== verification/Http.thy ===== *)
theory Http
  imports Sessions Profile_Client
begin

section \<open>The HTTP interface of the service\<close>

text \<open>
  \<open>entrypoints/http/routers/exception_handlers.py\<close>, \<open>entrypoints/http/routers/v1/auth.py\<close>,
  \<open>entrypoints/http/routers/health.py\<close> and the schemas of \<open>entrypoints/http/schemas\<close>. An endpoint is
  a program that returns a response; an exception that leaves it is turned into a response by the
  handlers that \<open>register_exception_handlers\<close> has registered, and by the 500 of the outer middleware if
  none of them is responsible. Which handler is responsible is decided by Starlette, so it is a
  parameter: it takes a handler of the class of the exception or of one of its base classes.

  A response carries its cookies apart from its other headers; \<open>set_cookie\<close> and \<open>delete_cookie\<close> append
  one cookie each.
\<close>

subsection \<open>Responses\<close>

record cookie =
  ck_key :: string
  ck_value :: string
  ck_httponly :: bool
  ck_secure :: bool
  ck_samesite :: string
  ck_max_age :: int
  ck_path :: string

record http_response =
  hr_status :: int
  hr_headers :: "(string \<times> string) list"
  hr_cookies :: "cookie list"
  hr_body :: "json option"

definition empty_response :: "int \<Rightarrow> http_response" where
  "empty_response status = \<lparr>hr_status = status, hr_headers = [], hr_cookies = [], hr_body = None\<rparr>"

fun set_entry :: "string \<Rightarrow> string \<Rightarrow> (string \<times> string) list \<Rightarrow> (string \<times> string) list" where
  "set_entry k v [] = [(k, v)]"
| "set_entry k v ((k', v') # hs) = (if k' = k then (k, v) # hs else (k', v') # set_entry k v hs)"

definition set_header :: "string \<Rightarrow> string \<Rightarrow> http_response \<Rightarrow> http_response" where
  "set_header k v r = r\<lparr>hr_headers := set_entry k v (hr_headers r)\<rparr>"

subsection \<open>Errors\<close>

datatype AuthApiErrorCode =
    VALIDATION_ERROR | INTERNAL_ERROR | EMAIL_ALREADY_EXISTS | INVALID_CREDENTIALS | INVALID_TOKEN
  | INVALID_REFRESH_TOKEN | IDEMPOTENCY_KEY_CONFLICT | IDEMPOTENCY_REQUEST_IN_PROGRESS
  | IDEMPOTENCY_UNAVAILABLE | REFRESH_REPLAY_UNAVAILABLE | USER_NOT_FOUND
  | PROFILE_PROVISIONING_UNAVAILABLE

definition code_value :: "AuthApiErrorCode \<Rightarrow> string" where
  "code_value code =
     (case code of
        VALIDATION_ERROR \<Rightarrow> ''request.validation_error''
      | INTERNAL_ERROR \<Rightarrow> ''request.internal_error''
      | EMAIL_ALREADY_EXISTS \<Rightarrow> ''auth.email_already_exists''
      | INVALID_CREDENTIALS \<Rightarrow> ''auth.invalid_credentials''
      | INVALID_TOKEN \<Rightarrow> ''auth.invalid_token''
      | INVALID_REFRESH_TOKEN \<Rightarrow> ''auth.invalid_refresh_token''
      | IDEMPOTENCY_KEY_CONFLICT \<Rightarrow> ''auth.idempotency_key_conflict''
      | IDEMPOTENCY_REQUEST_IN_PROGRESS \<Rightarrow> ''auth.idempotency_request_in_progress''
      | IDEMPOTENCY_UNAVAILABLE \<Rightarrow> ''auth.idempotency_unavailable''
      | REFRESH_REPLAY_UNAVAILABLE \<Rightarrow> ''auth.refresh_replay_unavailable''
      | USER_NOT_FOUND \<Rightarrow> ''auth.user_not_found''
      | PROFILE_PROVISIONING_UNAVAILABLE \<Rightarrow> ''auth.profile_provisioning_unavailable'')"

definition no_store_headers :: "(string \<times> string) list" where
  "no_store_headers = [(''Cache-Control'', ''no-store''), (''Pragma'', ''no-cache'')]"

record http_error_spec =
  es_status_code :: int
  es_code :: AuthApiErrorCode
  es_detail :: string
  es_headers :: "(string \<times> string) list"

definition HttpErrorSpec :: "int \<Rightarrow> AuthApiErrorCode \<Rightarrow> string \<Rightarrow> http_error_spec" where
  "HttpErrorSpec status_code code detail =
     \<lparr>es_status_code = status_code, es_code = code, es_detail = detail, es_headers = no_store_headers\<rparr>"

definition validation_error_spec :: http_error_spec where
  "validation_error_spec = HttpErrorSpec 422 VALIDATION_ERROR ''request validation failed''"

definition http_error_specs :: "(exn \<times> http_error_spec) list" where
  "http_error_specs =
     [(InvalidCommandError, validation_error_spec),
      (InvalidEmailError, validation_error_spec),
      (InvalidPasswordError, validation_error_spec),
      (ProfileProvisioningUnavailableError,
         HttpErrorSpec 503 PROFILE_PROVISIONING_UNAVAILABLE ''registration is temporarily unavailable''),
      (RequestValidationError, HttpErrorSpec 422 VALIDATION_ERROR ''request validation failed''),
      (UserAlreadyExistsError, HttpErrorSpec 409 EMAIL_ALREADY_EXISTS ''user with this email already exists''),
      (InvalidCredentialsError, HttpErrorSpec 401 INVALID_CREDENTIALS ''invalid email or password''),
      (InvalidTokenError, HttpErrorSpec 401 INVALID_TOKEN ''invalid or expired token''),
      (InvalidRefreshTokenError, HttpErrorSpec 401 INVALID_REFRESH_TOKEN ''refresh token is invalid''),
      (IdempotencyKeyConflictError,
         HttpErrorSpec 409 IDEMPOTENCY_KEY_CONFLICT ''idempotency key was used with another request''),
      (IdempotencyRequestInProgressError,
         HttpErrorSpec 423 IDEMPOTENCY_REQUEST_IN_PROGRESS ''request with this idempotency key is still processing''),
      (IdempotencyStorageUnavailableError,
         HttpErrorSpec 503 IDEMPOTENCY_UNAVAILABLE ''request safety service is temporarily unavailable''),
      (RefreshReplayUnavailableError,
         HttpErrorSpec 503 REFRESH_REPLAY_UNAVAILABLE ''refresh replay is temporarily unavailable''),
      (UserNotFoundError, HttpErrorSpec 404 USER_NOT_FOUND ''user not found'')]"

definition internal_error_spec :: http_error_spec where
  "internal_error_spec = HttpErrorSpec 500 INTERNAL_ERROR ''internal server error''"

definition response_from_spec :: "http_error_spec \<Rightarrow> http_response" where
  "response_from_spec es =
     \<lparr>hr_status = es_status_code es, hr_headers = es_headers es, hr_cookies = [],
      hr_body = Some (JObj [(''code'', JStr (code_value (es_code es))), (''detail'', JStr (es_detail es))])\<rparr>"

definition create_internal_error_response :: http_response where
  "create_internal_error_response = response_from_spec internal_error_spec"

definition create_error_response :: "exn \<Rightarrow> exn + http_response" where
  "create_error_response error_type =
     (case map_of http_error_specs error_type of
        None \<Rightarrow> Inl KeyError
      | Some es \<Rightarrow> Inr (response_from_spec es))"

definition register_exception_handlers :: "int \<Rightarrow> (exn \<times> http_error_spec) list" where
  "register_exception_handlers idempotency_retry_after_seconds =
     map (\<lambda>(error_type, es).
        if error_type = IdempotencyRequestInProgressError
        then (error_type, es\<lparr>es_headers := es_headers es @
                [(''Retry-After'', int_str idempotency_retry_after_seconds)]\<rparr>)
        else (error_type, es)) http_error_specs"

text \<open>
  \<open>openapi_error_responses\<close>: per status the examples, by code, and whether \<open>Retry-After\<close> is documented.
\<close>

record openapi_response =
  oa_examples :: "(string \<times> string) list"
  oa_retry_after :: bool

fun add_example ::
    "int \<Rightarrow> string \<Rightarrow> string \<Rightarrow> bool \<Rightarrow> (int \<times> openapi_response) list \<Rightarrow> (int \<times> openapi_response) list" where
  "add_example status code detail retry_after [] =
     [(status, \<lparr>oa_examples = [(code, detail)], oa_retry_after = retry_after\<rparr>)]"
| "add_example status code detail retry_after ((s, r) # rs) =
     (if s = status
      then (s, \<lparr>oa_examples = set_entry code detail (oa_examples r), oa_retry_after = oa_retry_after r \<or> retry_after\<rparr>) # rs
      else (s, r) # add_example status code detail retry_after rs)"

fun openapi_error_responses ::
    "exn list \<Rightarrow> (int \<times> openapi_response) list \<Rightarrow> exn + (int \<times> openapi_response) list" where
  "openapi_error_responses [] responses = Inr responses"
| "openapi_error_responses (error_type # error_types) responses =
     (case map_of http_error_specs error_type of
        None \<Rightarrow> Inl KeyError
      | Some es \<Rightarrow> openapi_error_responses error_types
          (add_example (es_status_code es) (code_value (es_code es)) (es_detail es)
             (error_type = IdempotencyRequestInProgressError) responses))"

subsection \<open>Cookies\<close>

record security_settings =
  ss_cookie_secure :: bool
  ss_cookie_samesite :: string
  ss_access_token_ttl_seconds :: int
  ss_session_idle_ttl_seconds :: int

definition set_cookie :: "cookie \<Rightarrow> http_response \<Rightarrow> http_response" where
  "set_cookie c r = r\<lparr>hr_cookies := hr_cookies r @ [c]\<rparr>"

definition set_no_store_headers :: "http_response \<Rightarrow> http_response" where
  "set_no_store_headers response =
     set_header ''Pragma'' ''no-cache'' (set_header ''Cache-Control'' ''no-store'' response)"

definition auth_cookie :: "security_settings \<Rightarrow> string \<Rightarrow> string \<Rightarrow> int \<Rightarrow> string \<Rightarrow> cookie" where
  "auth_cookie settings key value max_age path =
     \<lparr>ck_key = key, ck_value = value, ck_httponly = True, ck_secure = ss_cookie_secure settings,
      ck_samesite = ss_cookie_samesite settings, ck_max_age = max_age, ck_path = path\<rparr>"

definition set_tokens_cookies :: "token_pair \<Rightarrow> security_settings \<Rightarrow> http_response \<Rightarrow> http_response" where
  "set_tokens_cookies pair settings response =
     set_no_store_headers
       (set_cookie (auth_cookie settings ''refresh_token'' (tp_refresh_token pair)
                      (ss_session_idle_ttl_seconds settings) ''/api/v1/auth'')
       (set_cookie (auth_cookie settings ''access_token'' (tp_access_token pair)
                      (ss_access_token_ttl_seconds settings) ''/'') response))"

text \<open>\<open>delete_cookie\<close> sets an empty cookie that has expired.\<close>

definition delete_auth_cookies :: "security_settings \<Rightarrow> http_response \<Rightarrow> http_response" where
  "delete_auth_cookies settings response =
     set_no_store_headers
       (set_cookie (auth_cookie settings ''refresh_token'' [] 0 ''/api/v1/auth'')
       (set_cookie (auth_cookie settings ''access_token'' [] 0 ''/'') response))"

subsection \<open>Endpoints\<close>

text \<open>
  The body of a request is the pair of its two strings, validated by \<open>RegisterRequest\<close> and
  \<open>LoginRequest\<close>; the header is absent or a string, validated by \<open>Header(min_length=8,
  max_length=128)\<close>. An invalid address raises from within the validation of the body.
\<close>

record credentials =
  cr_email :: string
  cr_password :: string

definition request_body ::
    "(string \<Rightarrow> string option) \<Rightarrow> nat \<Rightarrow> credentials \<Rightarrow> exn + credentials" where
  "request_body email_str min_length c =
     bind_res (NormalizedEmail email_str (cr_email c)) (\<lambda>email.
       if length (cr_password c) < min_length \<or> 128 < length (cr_password c) then Inl RequestValidationError
       else Inr (c\<lparr>cr_email := email\<rparr>))"

definition idempotency_key_header :: "string option \<Rightarrow> exn + string" where
  "idempotency_key_header header =
     (case header of
        None \<Rightarrow> Inl RequestValidationError
      | Some key \<Rightarrow> if length key < 8 \<or> 128 < length key then Inl RequestValidationError else Inr key)"

definition hash_idempotency_key :: "(bytes \<Rightarrow> bytes) \<Rightarrow> string \<Rightarrow> exn + bytes" where
  "hash_idempotency_key sha256 raw_key = (if raw_key = [] then Inl ValueError else Inr (sha256 (utf8 raw_key)))"

definition register_response :: "registration_result \<Rightarrow> http_response" where
  "register_response result =
     (if res_outcome result = OUTCOME_PENDING
      then set_header ''Retry-After''
             (int_str (case res_retry_after_seconds result of None \<Rightarrow> 1 | Some n \<Rightarrow> if n = 0 then 1 else n))
             ((set_no_store_headers (empty_response 201))\<lparr>hr_status := 202,
                hr_body := Some (JObj [(''registrationId'', JStr (uuid_str (res_operation_id result))),
                  (''userId'', JStr (uuid_str (res_user_id result))), (''status'', JStr ''PENDING'')])\<rparr>)
      else (set_no_store_headers (empty_response 201))\<lparr>hr_body :=
             Some (JObj [(''userId'', JStr (uuid_str (res_user_id result)))])\<rparr>)"

definition register_endpoint ::
    "registration_config \<Rightarrow> (uuid \<Rightarrow> datetime \<Rightarrow> ('e, unit) io) \<Rightarrow> (bytes \<Rightarrow> bytes) \<Rightarrow> credentials
     \<Rightarrow> string option \<Rightarrow> ('e, http_response) io" where
  "register_endpoint cfg create_profile sha256 body header =
     bind (liftr (request_body (g_email_str cfg) 8 body)) (\<lambda>payload.
     bind (liftr (idempotency_key_header header)) (\<lambda>key.
     bind (liftr (hash_idempotency_key sha256 key)) (\<lambda>key_hash.
     bind (liftr (RegisterUserCommand (g_email_str cfg) \<lparr>rc_email = cr_email payload,
             rc_password = cr_password payload, rc_key_hash = key_hash\<rparr>)) (\<lambda>command.
     bind (register_execute cfg create_profile command) (\<lambda>result.
       return (register_response result))))))"

definition login_endpoint ::
    "('k, 'e) session_ports \<Rightarrow> security_settings \<Rightarrow> credentials \<Rightarrow> ('e, http_response) io" where
  "login_endpoint ports settings body =
     bind (liftr (request_body (sp_email_str ports) 1 body)) (\<lambda>payload.
     bind (liftr (LoginCommand (sp_email_str ports)
             \<lparr>lc_email = cr_email payload, lc_password = cr_password payload\<rparr>)) (\<lambda>command.
     bind (login_execute ports command) (\<lambda>pair.
       return (set_tokens_cookies pair settings (empty_response 204)))))"

definition login_test_endpoint ::
    "('k, 'e) session_ports \<Rightarrow> credentials \<Rightarrow> ('e, http_response) io" where
  "login_test_endpoint ports body =
     bind (liftr (request_body (sp_email_str ports) 1 body)) (\<lambda>payload.
     bind (liftr (LoginCommand (sp_email_str ports)
             \<lparr>lc_email = cr_email payload, lc_password = cr_password payload\<rparr>)) (\<lambda>command.
     bind (login_execute ports command) (\<lambda>pair.
       return ((set_no_store_headers (empty_response 200))\<lparr>hr_body := Some (JObj
         [(''accessToken'', JStr (tp_access_token pair)), (''refreshToken'', JStr (tp_refresh_token pair))])\<rparr>))))"

definition refresh_endpoint ::
    "('k, 'e) session_ports \<Rightarrow> security_settings \<Rightarrow> string option \<Rightarrow> string option \<Rightarrow> ('e, http_response) io" where
  "refresh_endpoint ports settings refresh_token header =
     bind (liftr (idempotency_key_header header)) (\<lambda>key.
       case refresh_token of
         None \<Rightarrow> throw InvalidRefreshTokenError
       | Some token \<Rightarrow>
           try_else
             (bind (liftr (hash_idempotency_key (ti_sha256 (sp_issuer ports)) (py_strip key))) (\<lambda>key_hash.
              bind (liftr (RefreshCommand \<lparr>fc_refresh_token = token, fc_key_hash = key_hash\<rparr>)) (\<lambda>command.
                refresh_execute ports command)))
             (\<lambda>e. if isinstance e InvalidRefreshTokenError
                  then bind (liftr (create_error_response InvalidRefreshTokenError)) (\<lambda>response.
                         return (delete_auth_cookies settings response))
                  else throw e)
             (\<lambda>pair. return (set_tokens_cookies pair settings (empty_response 204))))"

definition logout_endpoint ::
    "('k, 'e) session_ports \<Rightarrow> security_settings \<Rightarrow> string option \<Rightarrow> ('e, http_response) io" where
  "logout_endpoint ports settings refresh_token =
     bind (logout_execute ports refresh_token) (\<lambda>_.
       return (delete_auth_cookies settings (empty_response 204)))"

text \<open>\<open>created_at\<close> is serialised by pydantic, hence the argument \<open>datetime_json\<close>.\<close>

definition me_endpoint ::
    "(datetime \<Rightarrow> json) \<Rightarrow> ('k, 'e) session_ports \<Rightarrow> string option \<Rightarrow> ('e, http_response) io" where
  "me_endpoint datetime_json ports credentials =
     (case credentials of
        None \<Rightarrow> throw InvalidTokenError
      | Some token \<Rightarrow>
          bind (get_current_user ports token) (\<lambda>user.
          bind (liftr (NormalizedEmail (sp_email_str ports) (cu_email user))) (\<lambda>email.
            return ((set_no_store_headers (empty_response 200))\<lparr>hr_body := Some (JObj
              [(''id'', JStr (uuid_str (cu_id user))), (''email'', JStr email),
               (''role'', JStr (role_value (cu_role user))), (''createdAt'', datetime_json (cu_created_at user))])\<rparr>))))"

text \<open>
  \<open>routers/health.py\<close>: the two probes are the statement sent to PostgreSQL and the \<open>ping\<close> of Valkey. They
  run concurrently in the code and share no state, so the order of the model does not matter.
\<close>

definition check_postgres :: "('s, unit) prog \<Rightarrow> ('s, bool) prog" where
  "check_postgres probe =
     catch (bind probe (\<lambda>_. return True)) (\<lambda>e. if is_exception e then return False else throw e)"

definition check_valkey :: "('s, bool) prog \<Rightarrow> ('s, bool) prog" where
  "check_valkey ping = catch ping (\<lambda>e. if is_exception e then return False else throw e)"

definition live :: http_response where
  "live = (empty_response 200)\<lparr>hr_body := Some (JObj [(''status'', JStr ''ok'')])\<rparr>"

definition ready :: "('s, unit) prog \<Rightarrow> ('s, bool) prog \<Rightarrow> ('s, http_response) prog" where
  "ready probe ping =
     bind (check_postgres probe) (\<lambda>postgres_ok.
     bind (check_valkey ping) (\<lambda>valkey_ok.
       return ((empty_response (if postgres_ok then 200 else 503))\<lparr>hr_body := Some (JObj
         [(''status'', JStr (if postgres_ok then ''ready'' else ''unavailable'')),
          (''postgres'', JStr (if postgres_ok then ''ok'' else ''unavailable'')),
          (''valkey'', JStr (if valkey_ok then ''ok'' else ''degraded''))])\<rparr>)))"

text \<open>PostgreSQL alone decides whether the service is ready: Valkey may be down.\<close>

lemma ready_without_valkey:
  assumes "probe s = (r, s1)" and "ping s1 = (v, s2)" and "r \<noteq> Inl CancelledError" and "v \<noteq> Inl CancelledError"
  shows "\<exists>response. ready probe ping s = (Inr response, s2) \<and>
    hr_status response = (case r of Inl _ \<Rightarrow> 503 | Inr _ \<Rightarrow> 200)"
  using assms by (cases r; cases v)
    (auto simp: ready_def check_postgres_def check_valkey_def is_exception_def prog_defs empty_response_def)

subsection \<open>Routing\<close>

datatype auth_request =
    PostRegister credentials "string option"
  | PostLogin credentials
  | PostLoginTest credentials
  | PostRefresh "string option" "string option"
  | PostLogout "string option"
  | GetMe "string option"

record ('k, 'e) auth_app =
  aa_registration :: registration_config
  aa_create_profile :: "uuid \<Rightarrow> datetime \<Rightarrow> ('e, unit) io"
  aa_ports :: "('k, 'e) session_ports"
  aa_settings :: security_settings
  aa_datetime_json :: "datetime \<Rightarrow> json"

text \<open>The route of a request, if there is one.\<close>

definition create_auth_router ::
    "('k, 'e) auth_app \<Rightarrow> bool \<Rightarrow> auth_request \<Rightarrow> ('e, http_response) io option" where
  "create_auth_router app include_test_token_endpoint request =
     (case request of
        PostRegister body header \<Rightarrow>
          Some (register_endpoint (aa_registration app) (aa_create_profile app)
                  (ti_sha256 (sp_issuer (aa_ports app))) body header)
      | PostLogin body \<Rightarrow> Some (login_endpoint (aa_ports app) (aa_settings app) body)
      | PostLoginTest body \<Rightarrow>
          if include_test_token_endpoint then Some (login_test_endpoint (aa_ports app) body) else None
      | PostRefresh token header \<Rightarrow> Some (refresh_endpoint (aa_ports app) (aa_settings app) token header)
      | PostLogout token \<Rightarrow> Some (logout_endpoint (aa_ports app) (aa_settings app) token)
      | GetMe credentials \<Rightarrow> Some (me_endpoint (aa_datetime_json app) (aa_ports app) credentials))"

subsection \<open>What the client sees\<close>

text \<open>
  The response to a request: the exception that left the endpoint goes to the handler that
  \<open>dispatch\<close> picks, and without one to the middleware, which answers with the internal error. A cancelled
  request gets no response.
\<close>

definition serve ::
    "((exn \<times> http_error_spec) list \<Rightarrow> exn \<Rightarrow> http_error_spec option) \<Rightarrow> int \<Rightarrow> ('e, http_response) io
     \<Rightarrow> ('e, http_response) io" where
  "serve dispatch retry_after endpoint =
     catch endpoint (\<lambda>e.
       if \<not> is_exception e then throw e
       else case dispatch (register_exception_handlers retry_after) e of
         Some es \<Rightarrow> return (response_from_spec es)
       | None \<Rightarrow> return create_internal_error_response)"

text \<open>
  What is known of the choice: the handler belongs to the class of the exception or to one of its bases,
  and there is one whenever such a class is registered.
\<close>

definition picks_by_class ::
    "((exn \<times> http_error_spec) list \<Rightarrow> exn \<Rightarrow> http_error_spec option) \<Rightarrow> bool" where
  "picks_by_class dispatch \<longleftrightarrow>
     (\<forall>hs e. (\<forall>es. dispatch hs e = Some es \<longrightarrow> (\<exists>c. (c, es) \<in> set hs \<and> isinstance e c)) \<and>
        (dispatch hs e = None \<longrightarrow> \<not> (\<exists>c es. (c, es) \<in> set hs \<and> isinstance e c)))"

definition first_match :: "(exn \<times> http_error_spec) list \<Rightarrow> exn \<Rightarrow> http_error_spec option" where
  "first_match hs e = map_option snd (find (\<lambda>(c, _). isinstance e c) hs)"

lemma first_match_picks: "picks_by_class first_match"
  unfolding picks_by_class_def first_match_def
  by (auto simp: find_Some_iff find_None_iff) (metis nth_mem prod.collapse split_def)

lemma handlers_keys: "map fst (register_exception_handlers n) = map fst http_error_specs"
  by (simp add: register_exception_handlers_def http_error_specs_def)

lemma handlers_distinct: "distinct (map fst (register_exception_handlers n))"
  unfolding handlers_keys by (simp add: http_error_specs_def)

text \<open>No registered class is a base of another one, so at most one handler is responsible.\<close>

lemma registered_classes_disjoint:
  assumes "c \<in> set (map fst http_error_specs)" and "c' \<in> set (map fst http_error_specs)"
    and "isinstance e c" and "isinstance e c'"
  shows "c = c'"
  using assms
  by (cases e) (auto simp: http_error_specs_def isinstance_def numeral_3_eq_3)


lemma spec_headers: "(c, es) \<in> set http_error_specs \<Longrightarrow> es_headers es = no_store_headers"
proof -
  have "list_all (\<lambda>es. es_headers es = no_store_headers) (map snd http_error_specs)"
    by (simp add: http_error_specs_def HttpErrorSpec_def validation_error_spec_def)
  then show "(c, es) \<in> set http_error_specs \<Longrightarrow> es_headers es = no_store_headers" by (force simp: list_all_iff)
qed

lemma handler_of:
  assumes "(c, es) \<in> set (register_exception_handlers n)"
  shows "\<exists>es0. (c, es0) \<in> set http_error_specs \<and> es_status_code es = es_status_code es0 \<and>
     hr_body (response_from_spec es) = hr_body (response_from_spec es0) \<and>
     es_headers es = no_store_headers @
       (if c = IdempotencyRequestInProgressError then [(''Retry-After'', int_str n)] else [])"
proof -
  from assms obtain es0 where es0: "(c, es0) \<in> set http_error_specs"
    and es: "es = (if c = IdempotencyRequestInProgressError
        then es0\<lparr>es_headers := es_headers es0 @ [(''Retry-After'', int_str n)]\<rparr> else es0)"
    unfolding register_exception_handlers_def by (auto split: if_splits)
  from spec_headers [OF es0] have "es_headers es0 = no_store_headers" .
  with es0 es show ?thesis by (intro exI [of _ es0]) (simp add: response_from_spec_def)
qed

lemma spec_unique:
  "(c, es) \<in> set http_error_specs \<Longrightarrow> (c', es') \<in> set http_error_specs \<Longrightarrow> isinstance e c \<Longrightarrow> isinstance e c' \<Longrightarrow>
   c = c' \<and> es = es'"
proof -
  assume in_table: "(c, es) \<in> set http_error_specs" "(c', es') \<in> set http_error_specs"
    and inst: "isinstance e c" "isinstance e c'"
  then have "c = c'" by (intro registered_classes_disjoint [of c c' e]) force+
  moreover have "distinct (map fst http_error_specs)" using handlers_distinct handlers_keys by metis
  ultimately show ?thesis using in_table by (metis map_of_eq_Some_iff option.inject)
qed

lemma retry_after_not_no_store: "map_of no_store_headers ''Retry-After'' = None"
  by (simp add: no_store_headers_def)

text \<open>What \<open>serve\<close> answers when the endpoint has raised.\<close>

lemma serve_raised:
  assumes picks: "picks_by_class dispatch" and run: "endpoint w = (Inl e, w')" and e: "is_exception e"
  obtains r where "serve dispatch n endpoint w = (Inr r, w')"
    and "\<And>c es. (c, es) \<in> set http_error_specs \<Longrightarrow> isinstance e c \<Longrightarrow>
           hr_status r = es_status_code es \<and> hr_body r = hr_body (response_from_spec es)"
    and "(\<And>c es. (c, es) \<in> set http_error_specs \<Longrightarrow> \<not> isinstance e c) \<Longrightarrow> r = create_internal_error_response"
    and "hr_headers r = no_store_headers @
           (if isinstance e IdempotencyRequestInProgressError then [(''Retry-After'', int_str n)] else [])"
    and "hr_cookies r = []"
proof (cases "dispatch (register_exception_handlers n) e")
  case None
  have none: "\<not> isinstance e c" if "(c, es) \<in> set http_error_specs" for c es
  proof -
    from that have "c \<in> set (map fst (register_exception_handlers n))" unfolding handlers_keys by force
    then obtain es' where "(c, es') \<in> set (register_exception_handlers n)" by auto
    with picks None show ?thesis unfolding picks_by_class_def by blast
  qed
  have "\<not> isinstance e IdempotencyRequestInProgressError" by (rule none) (simp add: http_error_specs_def)
  with none None run e show ?thesis
    by (intro that [of create_internal_error_response])
      (simp_all add: serve_def prog_defs create_internal_error_response_def response_from_spec_def internal_error_spec_def
        HttpErrorSpec_def)
next
  case (Some es)
  with picks obtain c where c: "(c, es) \<in> set (register_exception_handlers n)" "isinstance e c"
    unfolding picks_by_class_def by blast
  from handler_of [OF this(1)] obtain es0 where es0: "(c, es0) \<in> set http_error_specs"
    "es_status_code es = es_status_code es0" "hr_body (response_from_spec es) = hr_body (response_from_spec es0)"
    "es_headers es = no_store_headers @
       (if c = IdempotencyRequestInProgressError then [(''Retry-After'', int_str n)] else [])" by blast
  have only: "c' = c \<and> es' = es0" if "(c', es') \<in> set http_error_specs" "isinstance e c'" for c' es'
    using spec_unique [OF that(1) es0(1) that(2) c(2)] by simp
  have "(IdempotencyRequestInProgressError, HttpErrorSpec 423 IDEMPOTENCY_REQUEST_IN_PROGRESS
      ''request with this idempotency key is still processing'') \<in> set http_error_specs"
    by (simp add: http_error_specs_def)
  then have "isinstance e IdempotencyRequestInProgressError \<longleftrightarrow> c = IdempotencyRequestInProgressError"
    using only c(2) by blast
  then have headers: "es_headers es = no_store_headers @
      (if isinstance e IdempotencyRequestInProgressError then [(''Retry-After'', int_str n)] else [])"
    unfolding es0(4) by simp
  show ?thesis
  proof (rule that [of "response_from_spec es"])
    show "serve dispatch n endpoint w = (Inr (response_from_spec es), w')"
      using Some run e by (simp add: serve_def catch_def return_def)
    show "hr_status (response_from_spec es) = es_status_code es' \<and>
        hr_body (response_from_spec es) = hr_body (response_from_spec es')"
      if "(c', es') \<in> set http_error_specs" "isinstance e c'" for c' es'
      using only [OF that] es0(2,3) by (simp add: response_from_spec_def)
    show "response_from_spec es = create_internal_error_response"
      if "\<And>c es. (c, es) \<in> set http_error_specs \<Longrightarrow> \<not> isinstance e c"
      using that [OF es0(1)] c(2) by blast
    show "hr_headers (response_from_spec es) = no_store_headers @
        (if isinstance e IdempotencyRequestInProgressError then [(''Retry-After'', int_str n)] else [])"
      using headers by (simp add: response_from_spec_def)
    show "hr_cookies (response_from_spec es) = []" by (simp add: response_from_spec_def)
  qed
qed

lemma no_store_kept: "set no_store_headers \<subseteq> set (hr_headers (set_no_store_headers r))" for r
proof -
  have mem: "(k, v) \<in> set (set_entry k v hs)" for k v hs by (induction hs) auto
  have keep: "(k, v) \<in> set (set_entry k' v' hs)" if "(k, v) \<in> set hs" "k \<noteq> k'" for k v k' v' hs
    using that by (induction hs) auto
  show ?thesis by (auto simp: no_store_headers_def set_no_store_headers_def set_header_def mem intro: keep)
qed

lemma raised_status:
  assumes picks: "picks_by_class dispatch" and run: "endpoint w = (Inl e, w')" and e: "is_exception e"
    and served: "serve dispatch n endpoint w = (Inr r, w'')"
  shows "400 \<le> hr_status r" "w'' = w'"
proof -
  have bad: "list_all (\<lambda>es. 400 \<le> es_status_code es) (map snd http_error_specs)"
    by (simp add: http_error_specs_def HttpErrorSpec_def validation_error_spec_def)
  obtain r' where r': "serve dispatch n endpoint w = (Inr r', w')"
    and known: "\<And>c es. (c, es) \<in> set http_error_specs \<Longrightarrow> isinstance e c \<Longrightarrow>
           hr_status r' = es_status_code es \<and> hr_body r' = hr_body (response_from_spec es)"
    and unknown: "(\<And>c es. (c, es) \<in> set http_error_specs \<Longrightarrow> \<not> isinstance e c) \<Longrightarrow> r' = create_internal_error_response"
    and "hr_headers r' = no_store_headers @
           (if isinstance e IdempotencyRequestInProgressError then [(''Retry-After'', int_str n)] else [])"
    and "hr_cookies r' = []"
    by (rule serve_raised [where endpoint = endpoint and w = w and n = n, OF picks run e]) (rule that; blast)
  from r' served show "w'' = w'" by simp
  show "400 \<le> hr_status r"
  proof (cases "\<exists>c es. (c, es) \<in> set http_error_specs \<and> isinstance e c")
    case True
    then obtain c es where es: "(c, es) \<in> set http_error_specs" "isinstance e c" by blast
    with bad have "400 \<le> es_status_code es" by (force simp: list_all_iff)
    with known [OF es] r' served show ?thesis by simp
  next
    case False
    with unknown have "r' = create_internal_error_response" by blast
    with r' served show ?thesis
      by (simp add: create_internal_error_response_def response_from_spec_def internal_error_spec_def HttpErrorSpec_def)
  qed
qed

text \<open>
  C33. The public answer to an error is fixed by its class: whatever handler Starlette picks among those
  whose class fits, an error of a class of the table is answered with the status and the body of that
  class, any other error with the internal error; the answer is never cached, sets no cookie, has the
  status of an error, and tells the client when to retry exactly if the request is still in progress.
\<close>
theorem errors_become_responses:
  assumes picks: "picks_by_class dispatch" and run: "endpoint w = (Inl e, w')" and e: "is_exception e"
  shows "\<exists>r. serve dispatch n endpoint w = (Inr r, w') \<and>
    (\<forall>(c, es) \<in> set http_error_specs. isinstance e c \<longrightarrow>
       hr_status r = es_status_code es \<and> hr_body r = hr_body (response_from_spec es)) \<and>
    ((\<forall>(c, es) \<in> set http_error_specs. \<not> isinstance e c) \<longrightarrow> r = create_internal_error_response) \<and>
    set no_store_headers \<subseteq> set (hr_headers r) \<and> hr_cookies r = [] \<and> 400 \<le> hr_status r \<and>
    map_of (hr_headers r) ''Retry-After'' =
      (if isinstance e IdempotencyRequestInProgressError then Some (int_str n) else None)"
proof -
  obtain r where r: "serve dispatch n endpoint w = (Inr r, w')"
    and known: "\<And>c es. (c, es) \<in> set http_error_specs \<Longrightarrow> isinstance e c \<Longrightarrow>
           hr_status r = es_status_code es \<and> hr_body r = hr_body (response_from_spec es)"
    and unknown: "(\<And>c es. (c, es) \<in> set http_error_specs \<Longrightarrow> \<not> isinstance e c) \<Longrightarrow> r = create_internal_error_response"
    and headers: "hr_headers r = no_store_headers @
           (if isinstance e IdempotencyRequestInProgressError then [(''Retry-After'', int_str n)] else [])"
    and cookies: "hr_cookies r = []"
    by (rule serve_raised [where endpoint = endpoint and w = w and n = n, OF picks run e]) (rule that; blast)
  have status: "400 \<le> hr_status r" by (rule raised_status [where endpoint = endpoint, OF picks run e r])
  have "r = create_internal_error_response" if "\<forall>(c, es) \<in> set http_error_specs. \<not> isinstance e c"
    using that by (intro unknown) blast
  with r known cookies status show ?thesis by (intro exI [of _ r]) (auto simp: headers no_store_headers_def)
qed

theorem errors_become_responses_witness:
  "\<exists>r. serve first_match 30 (throw RefreshTokenReuseError) auth_world = (Inr r, auth_world) \<and>
     hr_status r = 401 \<and> set no_store_headers \<subseteq> set (hr_headers r)"
proof -
  have e: "is_exception RefreshTokenReuseError" by (simp add: is_exception_def)
  have inst: "isinstance RefreshTokenReuseError InvalidRefreshTokenError" by (simp add: isinstance_def numeral_3_eq_3)
  have mem: "(InvalidRefreshTokenError, HttpErrorSpec 401 INVALID_REFRESH_TOKEN ''refresh token is invalid'')
      \<in> set http_error_specs" by (simp add: http_error_specs_def)
  from errors_become_responses [OF first_match_picks _ e, where endpoint = "throw RefreshTokenReuseError"
      and w = auth_world and w' = auth_world and n = 30, simplified throw_def, OF refl]
  obtain r where "serve first_match 30 (throw RefreshTokenReuseError) auth_world = (Inr r, auth_world)"
    "\<forall>(c, es) \<in> set http_error_specs. isinstance RefreshTokenReuseError c \<longrightarrow> hr_status r = es_status_code es"
    "set no_store_headers \<subseteq> set (hr_headers r)" unfolding throw_def by blast
  with bspec [OF this(2) mem] inst show ?thesis by (auto simp: HttpErrorSpec_def)
qed

subsection \<open>Tokens on the wire\<close>

definition guarded_cookie :: "security_settings \<Rightarrow> cookie \<Rightarrow> bool" where
  "guarded_cookie settings c \<longleftrightarrow>
     ck_httponly c \<and> ck_secure c = ss_cookie_secure settings \<and> ck_samesite c = ss_cookie_samesite settings \<and>
     (ck_key c, ck_path c) \<in> {(''access_token'', ''/''), (''refresh_token'', ''/api/v1/auth'')}"

definition body_keys :: "http_response \<Rightarrow> string set" where
  "body_keys r = (case hr_body r of Some (JObj kvs) \<Rightarrow> fst ` set kvs | _ \<Rightarrow> {})"

definition hides_tokens :: "security_settings \<Rightarrow> http_response \<Rightarrow> bool" where
  "hides_tokens settings r \<longleftrightarrow>
     set no_store_headers \<subseteq> set (hr_headers r) \<and> list_all (guarded_cookie settings) (hr_cookies r) \<and>
     body_keys r \<inter> {''accessToken'', ''refreshToken''} = {} \<and>
     (list_ex (\<lambda>c. ck_value c \<noteq> []) (hr_cookies r) \<longrightarrow> hr_status r = 204 \<and> hr_body r = None)"

lemma set_header_sel [simp]:
  "hr_status (set_header k v r) = hr_status r" "hr_cookies (set_header k v r) = hr_cookies r"
  "hr_body (set_header k v r) = hr_body r"
  by (simp_all add: set_header_def)

lemma set_no_store_sel [simp]:
  "hr_status (set_no_store_headers r) = hr_status r" "hr_cookies (set_no_store_headers r) = hr_cookies r"
  "hr_body (set_no_store_headers r) = hr_body r"
  by (simp_all add: set_no_store_headers_def)

lemma set_header_keeps:
  "k \<notin> fst ` set no_store_headers \<Longrightarrow> set no_store_headers \<subseteq> set (hr_headers r) \<Longrightarrow>
   set no_store_headers \<subseteq> set (hr_headers (set_header k v r))"
proof -
  have keep: "(a, b) \<in> set (set_entry k v hs)" if "(a, b) \<in> set hs" "a \<noteq> k" for a b hs
    using that by (induction hs) auto
  assume "k \<notin> fst ` set no_store_headers" "set no_store_headers \<subseteq> set (hr_headers r)"
  then show ?thesis by (auto simp: set_header_def no_store_headers_def intro!: keep)
qed

lemmas token_response_simps = hides_tokens_def body_keys_def guarded_cookie_def auth_cookie_def set_cookie_def
  empty_response_def no_store_kept

lemma token_responses_hide:
  "hides_tokens settings (set_tokens_cookies pair settings (empty_response 204))"
  "hides_tokens settings (delete_auth_cookies settings (empty_response 204))"
  "hides_tokens settings (delete_auth_cookies settings (response_from_spec es))"
  by (simp_all add: token_response_simps set_tokens_cookies_def delete_auth_cookies_def response_from_spec_def)

lemma register_response_hides: "hides_tokens settings (register_response result)"
  by (simp add: register_response_def token_response_simps)
    (simp add: set_header_keeps no_store_headers_def set_header_def set_no_store_headers_def empty_response_def)

lemma create_error_hides:
  "create_error_response c = Inr r \<Longrightarrow> hides_tokens settings (delete_auth_cookies settings r)"
  by (auto simp: create_error_response_def token_responses_hide split: option.splits)

lemma error_hides:
  assumes "hr_headers r = no_store_headers @ hs" and "hr_cookies r = []" and "hr_body r = hr_body (response_from_spec es)"
  shows "hides_tokens settings r"
  using assms by (simp add: hides_tokens_def body_keys_def response_from_spec_def)

lemma object_hides:
  "fst ` set kvs \<inter> {''accessToken'', ''refreshToken''} = {} \<Longrightarrow>
   hides_tokens settings ((set_no_store_headers (empty_response status))\<lparr>hr_body := Some (JObj kvs)\<rparr>)"
  using no_store_kept [of "empty_response status"] by (simp add: hides_tokens_def body_keys_def empty_response_def)

text \<open>Every endpoint but the one for tests hides the tokens.\<close>

lemma endpoints_hide:
  assumes route: "create_auth_router app test request = Some endpoint" and "\<And>body. request \<noteq> PostLoginTest body"
    and run: "endpoint w = (Inr r, w')"
  shows "hides_tokens (aa_settings app) r"
proof (cases request)
  case (PostRegister body header)
  with route run show ?thesis
    by (auto simp: create_auth_router_def register_endpoint_def res_simps register_response_hides)
next
  case (PostLogin body)
  with route run show ?thesis
    by (auto simp: create_auth_router_def login_endpoint_def res_simps token_responses_hide)
next
  case (PostRefresh token header)
  with route run show ?thesis
    by (auto simp: create_auth_router_def refresh_endpoint_def res_simps token_responses_hide create_error_hides
        split: option.splits if_splits)
next
  case (PostLogout token)
  with route run show ?thesis
    by (auto simp: create_auth_router_def logout_endpoint_def res_simps token_responses_hide)
next
  case (GetMe credentials)
  with route run show ?thesis
    by (auto simp: create_auth_router_def me_endpoint_def res_simps object_hides split: option.splits)
qed (use assms in simp)

text \<open>
  Tokens leave the service only in guarded cookies: every answer of the production routes, errors
  included, forbids caching, has no token in its body, sets nothing but the two cookies of the service,
  each \<open>HttpOnly\<close>, with the \<open>Secure\<close> and \<open>SameSite\<close> attributes of the settings and its own path, and
  gives them a value only in a 204 without a body; the route that returns tokens in its body does not
  exist unless it has been enabled.
\<close>
lemma tokens_only_in_guarded_cookies:
  assumes route: "create_auth_router app test request = Some endpoint" and picks: "picks_by_class dispatch"
    and run: "serve dispatch n endpoint w = (Inr r, w')"
  shows "hides_tokens (aa_settings app) r \<or> test \<and> (\<exists>body. request = PostLoginTest body)"
proof (cases "\<exists>body. request = PostLoginTest body")
  case True
  with route show ?thesis by (auto simp: create_auth_router_def split: if_splits)
next
  case False
  then have prod: "\<And>body. request \<noteq> PostLoginTest body" by blast
  show ?thesis
  proof (cases "endpoint w")
    case (Pair res w1)
    show ?thesis
    proof (cases res)
      case (Inr r')
      with Pair run endpoints_hide [OF route prod] show ?thesis by (simp add: serve_def catch_def)
    next
      case (Inl e)
      with Pair run have raised: "endpoint w = (Inl e, w1)" and e: "is_exception e"
        by (auto simp: serve_def catch_def throw_def split: if_splits)
      from run have "\<exists>es. hr_body r = hr_body (response_from_spec es)"
        using raised e by (auto simp: serve_def catch_def return_def create_internal_error_response_def split: option.splits)
      moreover obtain r' hs where "serve dispatch n endpoint w = (Inr r', w1)" "hr_headers r' = no_store_headers @ hs"
        "hr_cookies r' = []"
        by (rule serve_raised [where endpoint = endpoint and w = w and n = n, OF picks raised e]) blast
      ultimately show ?thesis using run error_hides by auto
    qed
  qed
qed

definition sample_settings :: security_settings where
  "sample_settings = \<lparr>ss_cookie_secure = True, ss_cookie_samesite = ''lax'', ss_access_token_ttl_seconds = 900,
     ss_session_idle_ttl_seconds = 2592000\<rparr>"

definition sample_app :: "(unit, hot_env) auth_app" where
  "sample_app = \<lparr>aa_registration = sample_config, aa_create_profile = (\<lambda>_ _. throw ProfileProvisioningUnavailableError),
     aa_ports = sample_ports, aa_settings = sample_settings, aa_datetime_json = (\<lambda>d. JInt (instant d))\<rparr>"

subsection \<open>The refresh endpoint\<close>

lemma invalid_refresh_response:
  "create_error_response InvalidRefreshTokenError =
     Inr (response_from_spec (HttpErrorSpec 401 INVALID_REFRESH_TOKEN ''refresh token is invalid''))"
  by (simp add: create_error_response_def http_error_specs_def)



text \<open>
  An idempotency key that consists of white space only passes the validation of the header, which
  counts its characters, but is empty after \<open>strip\<close>: the request is answered with the internal error,
  and nothing happens.
\<close>
theorem blank_key_is_an_internal_error:
  assumes picks: "picks_by_class dispatch" and key: "8 \<le> length key" "length key \<le> 128" "py_strip key = []"
  shows "serve dispatch n (refresh_endpoint ports settings (Some token) (Some key)) w =
    (Inr create_internal_error_response, w)"
proof -
  have inst: "\<not> isinstance ValueError InvalidRefreshTokenError" by (simp add: isinstance_def numeral_3_eq_3)
  have raised: "refresh_endpoint ports settings (Some token) (Some key) w = (Inl ValueError, w)"
    using key inst
    by (simp add: refresh_endpoint_def idempotency_key_header_def hash_idempotency_key_def prog_defs)
  have e: "is_exception ValueError" by (simp add: is_exception_def)
  have "list_all (\<lambda>c. \<not> isinstance ValueError c) (map fst http_error_specs)"
    by (simp add: http_error_specs_def isinstance_def numeral_3_eq_3)
  then have none: "\<not> isinstance ValueError c" if "(c, es) \<in> set http_error_specs" for c es
    using that by (force simp: list_all_iff)
  show ?thesis
    by (rule serve_raised [where endpoint = "refresh_endpoint ports settings (Some token) (Some key)" and w = w
          and n = n, OF picks raised e]) (use none in blast)
qed

theorem blank_key_is_an_internal_error_witness:
  "serve first_match 30 (refresh_endpoint sample_ports sample_settings (Some ''live'')
     (Some (replicate 8 (char_of (160 :: nat))))) auth_world = (Inr create_internal_error_response, auth_world)"
proof (rule blank_key_is_an_internal_error [OF first_match_picks])
  show "py_strip (replicate 8 (char_of (160 :: nat))) = []" by code_simp
qed simp_all

subsection \<open>The current user\<close>

lemma user_get_id: "user_get f i us = Inr (Some u) \<Longrightarrow> u_id u = i"
  by (auto simp: user_get_def optional_Some dest!: user_to_domain_id find_in_table)

lemma get_current_user_run:
  assumes "get_current_user ports token w = (r, w')"
  shows "only_rivals w w'"
    "r = Inr cu \<Longrightarrow> \<exists>c u. access_verify (ti_lib (sp_issuer ports)) (sp_verifier ports) token = Inr c \<and>
       user_get (sp_email_str ports) (ac_user_id c) (db_users (w_db w')) = Inr (Some u) \<and> can_authenticate u \<and>
       cu_id cu = u_id u \<and> cu_role cu = u_role u \<and> cu_created_at cu = u_created_at u"
proof -
  let ?verify = "access_verify (ti_lib (sp_issuer ports)) (sp_verifier ports) token"
  let ?body = "\<lambda>c. bind (query (\<lambda>d. user_get (sp_email_str ports) (ac_user_id c) (db_users d))) (\<lambda>user.
       case user of None \<Rightarrow> throw InvalidTokenError
       | Some u \<Rightarrow> if \<not> can_authenticate u then throw InvalidTokenError else return u)"
  have read: "keeps (\<lambda>w. scripts w = s \<and> w_txs w = n \<and> w_db w = d) (?body c)" for s n d c
    by (intro keeps_intros) (auto simp: keeps_def query_def)
  show "only_rivals w w'"
  proof (cases ?verify)
    case (Inl e)
    with assms show ?thesis by (auto simp: get_current_user_def bind_def liftr_def)
  next
    case (Inr c)
    obtain x w1 where tx: "uow (?body c) w = (x, w1)" by fastforce
    have "w' = w1" using assms Inr tx
      by (cases x) (auto simp: get_current_user_def bind_def liftr_def return_def split: sum.splits)
    then show ?thesis using uow_read_only [OF read tx] by simp
  qed
  assume "r = Inr cu"
  with assms obtain c u where c: "?verify = Inr c" and tx: "uow (?body c) w = (Inr u, w')"
    and cu: "cu_id cu = u_id u" "cu_role cu = u_role u" "cu_created_at cu = u_created_at u"
    by (auto simp: get_current_user_def res_simps)
  from uow_Inr [OF tx] have "user_get (sp_email_str ports) (ac_user_id c) (db_users (w_db w')) = Inr (Some u) \<and> can_authenticate u"
    by (auto simp: res_simps query_eq split: option.splits if_splits)
  with c cu show "\<exists>c u. ?verify = Inr c \<and>
       user_get (sp_email_str ports) (ac_user_id c) (db_users (w_db w')) = Inr (Some u) \<and> can_authenticate u \<and>
       cu_id cu = u_id u \<and> cu_role cu = u_role u \<and> cu_created_at cu = u_created_at u" by blast
qed


lemma sample_me:
  "\<exists>r w'. me_endpoint (\<lambda>d. JInt (instant d)) sample_ports (Some ''token'') auth_world = (Inr r, w') \<and> hr_status r = 200"
proof -
  let ?c = "\<lparr>ac_issuer = ''identity'', ac_user_id = 3, ac_audiences = [''api''], ac_issued_at = Datetime 10000000 True,
    ac_expires_at = Datetime 20000000 True, ac_token_id = 4, ac_role = USER\<rparr>"
  have c: "access_verify (ti_lib (sp_issuer sample_ports)) (sp_verifier sample_ports) ''token'' = Inr ?c"
    by (simp add: sample_ports_def access_verify_def select_public_key_def sample_lib_def sample_verifier_def json_field_def
        claims_of_payload_def claim_def non_blank_def audiences_of_def numeric_date_def role_of_value_def
        py_strip_def py_isspace_def less_eq_datetime_def)
  have email: "NormalizedEmail Some ''ann@example.org'' = Inr ''ann@example.org''"
    by (simp add: NormalizedEmail_def py_strip_def py_isspace_def casefold_def)
  have "\<exists>w'. get_current_user sample_ports ''token'' auth_world =
      (Inr \<lparr>cu_id = 3, cu_email = ''ann@example.org'', cu_role = USER, cu_created_at = Datetime 0 True\<rparr>, w')"
    using c email sample_user_get
    by (simp add: get_current_user_def uow_def Let_def auth_world_sel bind_def query_def liftr_def return_def aexit_def
        sample_sel sample_account_def can_authenticate_def)
  with email show ?thesis
    by (auto simp: me_endpoint_def bind_def liftr_def return_def sample_sel empty_response_def)
qed


subsection \<open>The documented errors\<close>

definition documents :: "(int \<times> openapi_response) list \<Rightarrow> int \<Rightarrow> string \<Rightarrow> string option" where
  "documents docs status code =
     (case map_of docs status of None \<Rightarrow> None | Some doc \<Rightarrow> map_of (oa_examples doc) code)"

definition documents_retry :: "(int \<times> openapi_response) list \<Rightarrow> int \<Rightarrow> bool" where
  "documents_retry docs status = (case map_of docs status of None \<Rightarrow> False | Some doc \<Rightarrow> oa_retry_after doc)"

text \<open>The answer of one of the error types has the status, the code and the detail.\<close>

definition answers :: "exn list \<Rightarrow> int \<Rightarrow> string \<Rightarrow> string \<Rightarrow> bool" where
  "answers error_types status code detail \<longleftrightarrow>
     (\<exists>(c, es) \<in> set http_error_specs. c \<in> set error_types \<and> hr_status (response_from_spec es) = status \<and>
        hr_body (response_from_spec es) = Some (JObj [(''code'', JStr code), (''detail'', JStr detail)]))"

lemma set_entry_lookup: "map_of (set_entry k v hs) k' = (if k' = k then Some v else map_of hs k')"
  by (induction hs) auto

lemma map_of_add_example:
  "map_of (add_example s c d ra docs) s' =
     (if s' = s then Some (case map_of docs s of
          None \<Rightarrow> \<lparr>oa_examples = [(c, d)], oa_retry_after = ra\<rparr>
        | Some r \<Rightarrow> \<lparr>oa_examples = set_entry c d (oa_examples r), oa_retry_after = oa_retry_after r \<or> ra\<rparr>)
      else map_of docs s')"
  by (induction s c d ra docs rule: add_example.induct) auto

lemma documents_add_example:
  "documents (add_example s c d ra docs) s' c' = (if s' = s \<and> c' = c then Some d else documents docs s' c')"
  "documents_retry (add_example s c d ra docs) s' \<longleftrightarrow> documents_retry docs s' \<or> s' = s \<and> ra"
  by (auto simp: documents_def documents_retry_def map_of_add_example set_entry_lookup split: option.splits)

lemma specs_distinct: "distinct (map fst http_error_specs)"
  using handlers_distinct handlers_keys by metis

lemma answers_iff:
  "answers ts status code detail \<longleftrightarrow>
     (\<exists>t \<in> set ts. \<exists>es. map_of http_error_specs t = Some es \<and> status = es_status_code es \<and>
        code = code_value (es_code es) \<and> detail = es_detail es)"
  unfolding answers_def map_of_eq_Some_iff [OF specs_distinct] by (auto simp: response_from_spec_def)

lemma answers_Cons:
  "map_of http_error_specs t = Some es \<Longrightarrow> answers (t # ts) status code detail \<longleftrightarrow>
     (status = es_status_code es \<and> code = code_value (es_code es) \<and> detail = es_detail es) \<or> answers ts status code detail"
  unfolding answers_iff by simp

lemma code_value_inj: "code_value a = code_value b \<Longrightarrow> a = b"
  by (cases a; cases b; simp add: code_value_def)

text \<open>The code of an error fixes its detail, so that no example overwrites another one.\<close>

lemma detail_by_code:
  assumes "(c, es) \<in> set http_error_specs" "(c', es') \<in> set http_error_specs" "es_code es = es_code es'"
  shows "es_detail es = es_detail es'"
proof -
  let ?f = "\<lambda>code. es_detail (the (find (\<lambda>es. es_code es = code) (map snd http_error_specs)))"
  have "list_all (\<lambda>es. es_detail es = ?f (es_code es)) (map snd http_error_specs)"
    by (simp add: http_error_specs_def HttpErrorSpec_def validation_error_spec_def)
  then have "es_detail es = ?f (es_code es)" "es_detail es' = ?f (es_code es')"
    using assms(1,2) by (force simp: list_all_iff)+
  with assms(3) show ?thesis by simp
qed

lemma openapi_step:
  assumes "openapi_error_responses (t # ts) docs = Inr docs'"
  obtains es where "map_of http_error_specs t = Some es"
    and "openapi_error_responses ts (add_example (es_status_code es) (code_value (es_code es)) (es_detail es)
           (t = IdempotencyRequestInProgressError) docs) = Inr docs'"
    and "\<And>status d. answers ts status (code_value (es_code es)) d \<Longrightarrow> d = es_detail es"
    and "t = IdempotencyRequestInProgressError \<Longrightarrow> es_status_code es = 423"
proof -
  from assms obtain es where es: "map_of http_error_specs t = Some es" and rest: "openapi_error_responses ts
      (add_example (es_status_code es) (code_value (es_code es)) (es_detail es)
        (t = IdempotencyRequestInProgressError) docs) = Inr docs'"
    by (auto split: option.splits)
  have mem: "(t, es) \<in> set http_error_specs" using map_of_SomeD [OF es] .
  show ?thesis
  proof (rule that [OF es rest])
    show "d = es_detail es" if "answers ts status (code_value (es_code es)) d" for status d
      using that detail_by_code [OF _ mem] by (auto simp: answers_iff dest!: map_of_SomeD code_value_inj)
    show "es_status_code es = 423" if "t = IdempotencyRequestInProgressError"
      using es that by (auto simp: http_error_specs_def HttpErrorSpec_def)
  qed
qed

lemma openapi_error_responses_lookup:
  "openapi_error_responses ts docs = Inr docs' \<Longrightarrow>
     (documents docs' status code = Some detail \<longleftrightarrow>
        answers ts status code detail \<or> documents docs status code = Some detail \<and> (\<nexists>d. answers ts status code d)) \<and>
     (documents_retry docs' status \<longleftrightarrow> documents_retry docs status \<or>
        status = 423 \<and> IdempotencyRequestInProgressError \<in> set ts) \<and>
     set ts \<subseteq> fst ` set http_error_specs"
proof (induction ts arbitrary: docs)
  case Nil
  then show ?case by (simp add: answers_def)
next
  case (Cons t ts)
  obtain es where es: "map_of http_error_specs t = Some es"
    and rest: "openapi_error_responses ts (add_example (es_status_code es) (code_value (es_code es)) (es_detail es)
           (t = IdempotencyRequestInProgressError) docs) = Inr docs'"
    and same: "\<And>status d. answers ts status (code_value (es_code es)) d \<Longrightarrow> d = es_detail es"
    and "t = IdempotencyRequestInProgressError \<Longrightarrow> es_status_code es = 423"
    using openapi_step [OF Cons.prems] by blast
  moreover have "t \<in> fst ` set http_error_specs" using map_of_SomeD [OF es] by force
  moreover note Cons.IH [OF rest]
  ultimately show ?case
    unfolding documents_add_example answers_Cons [OF es] by (auto dest: same)
qed

lemma openapi_error: "openapi_error_responses ts docs = Inl e \<Longrightarrow> e = KeyError \<and> \<not> set ts \<subseteq> fst ` set http_error_specs"
  by (induction ts arbitrary: docs) (auto simp: map_of_eq_None_iff split: option.splits)

text \<open>The errors that the routes document.\<close>

definition register_errors :: "exn list" where
  "register_errors = [UserAlreadyExistsError, ProfileProvisioningUnavailableError, IdempotencyKeyConflictError,
     RequestValidationError]"

definition login_errors :: "exn list" where
  "login_errors = [InvalidCredentialsError, RequestValidationError]"

definition login_test_errors :: "exn list" where
  "login_test_errors = [InvalidCredentialsError, RequestValidationError]"

definition refresh_errors :: "exn list" where
  "refresh_errors = [InvalidRefreshTokenError, RequestValidationError, IdempotencyKeyConflictError,
     IdempotencyRequestInProgressError, IdempotencyStorageUnavailableError, RefreshReplayUnavailableError]"

definition me_errors :: "exn list" where
  "me_errors = [InvalidTokenError]"

text \<open>The decorators run when the module is imported, and never raise.\<close>

lemma routes_are_documented:
  "\<forall>ts \<in> {register_errors, login_errors, login_test_errors, refresh_errors, me_errors}.
     \<exists>docs. openapi_error_responses ts [] = Inr docs"
  by (simp add: register_errors_def login_errors_def login_test_errors_def refresh_errors_def me_errors_def http_error_specs_def)

text \<open>
  C34. The documentation of a route is the contract of the run-time: \<open>openapi_error_responses\<close> is defined exactly
  for registered error types; then it lists, per status and code, exactly the answers that the listed
  types are given at run-time, none hiding another one, and \<open>Retry-After\<close> exactly where it is sent.
\<close>
theorem documented_errors_are_the_answers:
  "case openapi_error_responses error_types [] of
     Inl e \<Rightarrow> e = KeyError \<and> \<not> set error_types \<subseteq> fst ` set http_error_specs
   | Inr docs \<Rightarrow> set error_types \<subseteq> fst ` set http_error_specs \<and>
       (documents docs status code = Some detail \<longleftrightarrow> answers error_types status code detail) \<and>
       (documents_retry docs status \<longleftrightarrow> status = 423 \<and> IdempotencyRequestInProgressError \<in> set error_types)"
proof (cases "openapi_error_responses error_types []")
  case (Inl e)
  then show ?thesis using openapi_error by simp
next
  case (Inr docs)
  have "documents [] status code = None" "\<not> documents_retry [] status" by (simp_all add: documents_def documents_retry_def)
  with openapi_error_responses_lookup [OF Inr, of status code detail] Inr show ?thesis by simp
qed

end
