(* ===== verification/Middleware.thy ===== *)
theory Middleware
  imports Http
begin

section \<open>The request correlation boundary\<close>

text \<open>
  \<open>entrypoints/http/middlewares\<close>: the policy that accepts or generates a request ID
  (\<open>request_id_policy.py\<close>), the state and the observers of a request (\<open>request_lifecycle.py\<close>) and the ASGI
  middleware itself (\<open>request_id.py\<close>).

  The wrapped application is a value of the datatype \<open>asgi_app\<close>: it returns, raises, or sends a message and
  goes on depending on what \<open>send\<close> did. The server decides what becomes of each message it is handed
  (\<open>mw_fate\<close>); \<open>MutableHeaders\<close>, \<open>Headers.getlist\<close> and \<open>Response.__call__\<close> belong to Starlette and are
  arguments.
\<close>

subsection \<open>The policy for request IDs\<close>

definition ascii_alnum :: "char \<Rightarrow> bool" where
  "ascii_alnum c \<longleftrightarrow>
     (let n = (of_char c :: nat) in 48 \<le> n \<and> n \<le> 57 \<or> 65 \<le> n \<and> n \<le> 90 \<or> 97 \<le> n \<and> n \<le> 122)"

definition safe_request_id :: "string \<Rightarrow> bool" where
  "safe_request_id s =
     (case s of
        [] \<Rightarrow> False
      | c # cs \<Rightarrow> ascii_alnum c \<and> list_all (\<lambda>c. ascii_alnum c \<or> c \<in> set ''._:-'') cs)"

record request_id_resolver =
  rr_max_length :: int
  rr_generator :: "nat \<Rightarrow> string"

text \<open>The generator may answer differently each time it is called, hence its argument.\<close>

definition ValidatedRequestIdResolver :: "request_id_resolver \<Rightarrow> exn + request_id_resolver" where
  "ValidatedRequestIdResolver resolver = (if rr_max_length resolver < 1 then Inl ValueError else Inr resolver)"

definition request_id_is_valid :: "request_id_resolver \<Rightarrow> string \<Rightarrow> bool" where
  "request_id_is_valid resolver value \<longleftrightarrow> int (length value) \<le> rr_max_length resolver \<and> safe_request_id value"

definition request_id_resolve :: "request_id_resolver \<Rightarrow> nat \<Rightarrow> string option \<Rightarrow> exn + string" where
  "request_id_resolve resolver n candidate =
     (let generated = rr_generator resolver n in
      case candidate of
        Some value \<Rightarrow>
          if request_id_is_valid resolver value then Inr value
          else if \<not> request_id_is_valid resolver generated then Inl ValueError else Inr generated
      | None \<Rightarrow> if \<not> request_id_is_valid resolver generated then Inl ValueError else Inr generated)"

definition default_resolver :: "(nat \<Rightarrow> uuid) \<Rightarrow> request_id_resolver" where
  "default_resolver uuid4 = \<lparr>rr_max_length = 128, rr_generator = (\<lambda>n. uuid_str (uuid4 n))\<rparr>"

subsection \<open>The state of a response\<close>

datatype asgi_exn = OSError | AppError exn

record response_state =
  rs_status_code :: int
  rs_response_started :: bool
  rs_failed :: bool
  rs_client_disconnected :: bool

definition HttpResponseState :: response_state where
  "HttpResponseState = \<lparr>rs_status_code = 500, rs_response_started = False, rs_failed = False, rs_client_disconnected = False\<rparr>"

definition mark_failure :: "response_state \<Rightarrow> response_state" where
  "mark_failure r =
     (let r = r\<lparr>rs_failed := True\<rparr> in if \<not> rs_response_started r then r\<lparr>rs_status_code := 500\<rparr> else r)"

definition mark_client_disconnected :: "response_state \<Rightarrow> response_state" where
  "mark_client_disconnected r = r\<lparr>rs_failed := True, rs_client_disconnected := True\<rparr>"

definition response_start :: "int \<Rightarrow> response_state \<Rightarrow> asgi_exn option \<times> response_state" where
  "response_start status_code r =
     (if rs_response_started r then (Some (AppError RuntimeError), mark_failure r)
      else (None, r\<lparr>rs_response_started := True, rs_status_code := status_code,
                    rs_failed := rs_failed r \<or> 500 \<le> status_code\<rparr>))"

subsection \<open>Messages, applications and the world of a request\<close>

datatype 'h message =
    ResponseStart (msg_status: int) (msg_headers: 'h)
  | OtherMessage string bytes

datatype 'h asgi_app =
    AppReturns
  | AppRaises asgi_exn
  | AppSends "'h message" "asgi_exn option \<Rightarrow> 'h asgi_app"

record request_metadata =
  rm_request_id :: string
  rm_method :: string
  rm_path :: string

datatype lifecycle_event =
    RequestStarted (ev_method: string) (ev_path: string)
  | RequestFailed (ev_method: string) (ev_path: string) (ev_response_started: bool) (ev_error: asgi_exn)
  | RequestDisconnected (ev_method: string) (ev_path: string) (ev_response_started: bool)
  | RequestFinished (ev_method: string) (ev_path: string) (ev_status: int) (ev_duration: rat) (ev_failed: bool)
      (ev_client_disconnected: bool)

text \<open>
  A line of the log carries the context variables that are bound when it is written
  (\<open>merge_contextvars\<close> of \<open>core/logging.py\<close>). \<open>mw_sent\<close> are the messages handed to the server.
\<close>

record 'h mw_world =
  mw_response :: response_state
  mw_sent :: "'h message list"
  mw_fate :: "nat \<Rightarrow> asgi_exn option"
  mw_log :: "((string \<rightharpoonup> string) \<times> lifecycle_event) list"
  mw_context :: "string \<rightharpoonup> string"
  mw_clock :: "nat \<Rightarrow> seconds"
  mw_ticks :: nat

definition write_log :: "lifecycle_event \<Rightarrow> 'h mw_world \<Rightarrow> 'h mw_world" where
  "write_log event w = w\<lparr>mw_log := mw_log w @ [(mw_context w, event)]\<rparr>"

definition server_send :: "'h message \<Rightarrow> 'h mw_world \<Rightarrow> asgi_exn option \<times> 'h mw_world" where
  "server_send message w = (mw_fate w (length (mw_sent w)), w\<lparr>mw_sent := mw_sent w @ [message]\<rparr>)"

subsection \<open>The observer\<close>

definition observer_started :: "request_metadata \<Rightarrow> 'h mw_world \<Rightarrow> 'h mw_world" where
  "observer_started request = write_log (RequestStarted (rm_method request) (rm_path request))"

definition observer_failed :: "request_metadata \<Rightarrow> asgi_exn \<Rightarrow> 'h mw_world \<Rightarrow> 'h mw_world" where
  "observer_failed request error w =
     write_log (RequestFailed (rm_method request) (rm_path request) (rs_response_started (mw_response w)) error) w"

definition observer_disconnected :: "request_metadata \<Rightarrow> 'h mw_world \<Rightarrow> 'h mw_world" where
  "observer_disconnected request w =
     write_log (RequestDisconnected (rm_method request) (rm_path request) (rs_response_started (mw_response w))) w"

definition observer_finished :: "request_metadata \<Rightarrow> rat \<Rightarrow> 'h mw_world \<Rightarrow> 'h mw_world" where
  "observer_finished request duration_ms w =
     (let response = mw_response w in
      write_log (RequestFinished (rm_method request) (rm_path request) (rs_status_code response) duration_ms
        (rs_failed response) (rs_client_disconnected response)) w)"

text \<open>\<open>StructlogRequestContext.bind\<close>: what is bound is gone at the end, however the body ends.\<close>

definition context_bind ::
    "string \<Rightarrow> string \<Rightarrow> ('h mw_world \<Rightarrow> 'a \<times> 'h mw_world) \<Rightarrow> 'h mw_world \<Rightarrow> 'a \<times> 'h mw_world" where
  "context_bind field_name request_id body w =
     (case body (w\<lparr>mw_context := [field_name \<mapsto> request_id]\<rparr>) of
        (result, w') \<Rightarrow> (result, w'\<lparr>mw_context := Map.empty\<rparr>))"

subsection \<open>The middleware\<close>

record 'h scope =
  sc_type :: string
  sc_method :: "string option"
  sc_path :: "string option"
  sc_headers :: 'h
  sc_state :: "(string \<rightharpoonup> string) option"

record 'h middleware =
  mw_app :: "'h scope \<Rightarrow> 'h asgi_app"
  mw_resolver :: request_id_resolver
  mw_internal_error_response :: "'h scope \<Rightarrow> 'h asgi_app"
  mw_header_name :: string
  mw_state_key :: string
  mw_getlist :: "'h \<Rightarrow> string \<Rightarrow> string list"
  mw_set_header :: "string \<Rightarrow> string \<Rightarrow> 'h \<Rightarrow> 'h"
  mw_round :: "rat \<Rightarrow> rat"

definition http_header_name :: "string \<Rightarrow> bool" where
  "http_header_name s \<longleftrightarrow>
     s \<noteq> [] \<and> list_all (\<lambda>c. ascii_alnum c \<or> c \<in> set ''!#$%&*+-.^_`|~'' \<or> c = char_of (39 :: nat)) s"

definition RequestIdMiddleware :: "'h middleware \<Rightarrow> exn + 'h middleware" where
  "RequestIdMiddleware mw =
     bind_res (guard_res (http_header_name (mw_header_name mw)) ValueError) (\<lambda>_.
     bind_res (guard_res (mw_state_key mw \<noteq> []) ValueError) (\<lambda>_. Inr mw))"

definition resolve_request_id :: "'h middleware \<Rightarrow> nat \<Rightarrow> 'h scope \<Rightarrow> exn + string" where
  "resolve_request_id mw n scope =
     (let candidates = mw_getlist mw (sc_headers scope) (mw_header_name mw);
          candidate = (if length candidates = 1 then Some (candidates ! 0) else None)
      in request_id_resolve (mw_resolver mw) n candidate)"

definition copy_scope :: "'h middleware \<Rightarrow> 'h scope \<Rightarrow> string \<Rightarrow> 'h scope" where
  "copy_scope mw scope request_id =
     (let request_state = (case sc_state scope of None \<Rightarrow> Map.empty | Some s \<Rightarrow> s)
      in scope\<lparr>sc_state := Some (request_state(mw_state_key mw \<mapsto> request_id))\<rparr>)"

definition duration_ms :: "'h middleware \<Rightarrow> seconds \<Rightarrow> 'h mw_world \<Rightarrow> rat" where
  "duration_ms mw started_at w = mw_round mw ((mw_clock w (mw_ticks w) - started_at) * 1000)"

definition send_with_request_id ::
    "'h middleware \<Rightarrow> request_metadata \<Rightarrow> 'h message \<Rightarrow> 'h mw_world \<Rightarrow> asgi_exn option \<times> 'h mw_world" where
  "send_with_request_id mw request message w =
     (let (refused, response) =
            (case message of ResponseStart status _ \<Rightarrow> response_start status (mw_response w)
             | _ \<Rightarrow> (None, mw_response w));
          w = w\<lparr>mw_response := response\<rparr>;
          outbound_message =
            (case message of
               ResponseStart status headers \<Rightarrow>
                 ResponseStart status (mw_set_header mw (mw_header_name mw) (rm_request_id request) headers)
             | _ \<Rightarrow> message)
      in case refused of
           Some error \<Rightarrow> (Some error, w)
         | None \<Rightarrow>
             (case server_send outbound_message w of
                (Some OSError, w) \<Rightarrow>
                  (Some OSError,
                   observer_disconnected request (w\<lparr>mw_response := mark_client_disconnected (mw_response w)\<rparr>))
              | (result, w) \<Rightarrow> (result, w)))"

text \<open>How an application runs, with the \<open>send\<close> it has been given.\<close>

primrec run_app ::
    "('h message \<Rightarrow> 'h mw_world \<Rightarrow> asgi_exn option \<times> 'h mw_world) \<Rightarrow> 'h asgi_app \<Rightarrow> 'h mw_world
     \<Rightarrow> asgi_exn option \<times> 'h mw_world" where
  "run_app send AppReturns = (\<lambda>w. (None, w))"
| "run_app send (AppRaises error) = (\<lambda>w. (Some error, w))"
| "run_app send (AppSends message continue) =
     (\<lambda>w. case send message w of (result, w') \<Rightarrow> run_app send (continue result) w')"

text \<open>The \<open>try\<close> block with its two handlers; \<open>None\<close> is a normal end.\<close>

definition handle_request ::
    "'h middleware \<Rightarrow> 'h scope \<Rightarrow> request_metadata \<Rightarrow> 'h mw_world \<Rightarrow> asgi_exn option \<times> 'h mw_world" where
  "handle_request mw request_scope request w =
     (let (result, w) = run_app (send_with_request_id mw request) (mw_app mw request_scope) w;
          result = (if result = None \<and> \<not> rs_response_started (mw_response w) then Some (AppError RuntimeError) else result)
      in case result of
           None \<Rightarrow> (None, w)
         | Some error \<Rightarrow>
             (let w = w\<lparr>mw_response := mark_failure (mw_response w)\<rparr> in
              if error = AppError CancelledError then (Some error, w)
              else if rs_client_disconnected (mw_response w) then (Some error, w)
              else let w = observer_failed request error w in
                if rs_response_started (mw_response w) then (Some error, w)
                else run_app (send_with_request_id mw request) (mw_internal_error_response mw request_scope) w))"

definition middleware_call ::
    "'h middleware \<Rightarrow> nat \<Rightarrow> 'h scope \<Rightarrow> 'h mw_world \<Rightarrow> asgi_exn option \<times> 'h mw_world" where
  "middleware_call mw n scope w =
     (if sc_type scope \<noteq> ''http'' then run_app server_send (mw_app mw scope) w
      else case resolve_request_id mw n scope of
        Inl error \<Rightarrow> (Some (AppError error), w)
      | Inr request_id \<Rightarrow>
          let request_scope = copy_scope mw scope request_id;
              request = \<lparr>rm_request_id = request_id, rm_method = case_option [] id (sc_method scope),
                         rm_path = case_option [] id (sc_path scope)\<rparr>;
              started_at = mw_clock w (mw_ticks w);
              w = w\<lparr>mw_response := HttpResponseState, mw_ticks := Suc (mw_ticks w)\<rparr>
          in context_bind ''request_id'' request_id (\<lambda>w.
               let (result, w) = handle_request mw request_scope request (observer_started request w);
                   w = (if \<not> rs_response_started (mw_response w)
                        then w\<lparr>mw_response := mark_failure (mw_response w)\<rparr> else w);
                   w = observer_finished request (duration_ms mw started_at w) w
               in (result, w\<lparr>mw_ticks := Suc (mw_ticks w)\<rparr>)) w)"

subsection \<open>Request IDs are safe\<close>

lemma hex_digit_safe: "uuid_char c \<Longrightarrow> c \<noteq> CHR ''-'' \<Longrightarrow> ascii_alnum c"
  by (auto simp: uuid_char_def is_hex_digit_def hex_value_def ascii_alnum_def Let_def split: if_splits)

lemma uuid_str_starts_with_digit: "\<exists>c cs. uuid_str u = c # cs \<and> is_hex_digit c"
proof -
  let ?h = "map hex_digit (digits 16 32 u)"
  obtain c cs where h: "?h = c # cs" by (cases ?h) (simp_all flip: length_0_conv)
  then have "c \<in> set ?h" by simp
  then have "is_hex_digit c" using digits_bound [of 16 _ 32 u] by (auto simp: is_hex_digit_def)
  moreover have "\<exists>cs. uuid_str u = c # cs" unfolding uuid_str_def Let_def h by simp
  ultimately show ?thesis by blast
qed

lemma uuid_str_safe: "safe_request_id (uuid_str u)"
proof -
  obtain c cs where u: "uuid_str u = c # cs" "is_hex_digit c" using uuid_str_starts_with_digit by blast
  have "list_all uuid_char (c # cs)" using uuid_str_chars [of u] u by simp
  moreover from u(2) have "c \<noteq> CHR ''-''" by (auto simp: is_hex_digit_def hex_value_def)
  ultimately show ?thesis unfolding u safe_request_id_def by (auto simp: list_all_iff hex_digit_safe)
qed

lemma request_id_resolve_valid: "request_id_resolve rs n c = Inr rid \<Longrightarrow> request_id_is_valid rs rid"
  by (auto simp: request_id_resolve_def Let_def split: option.splits if_splits)

lemma default_resolver_resolves: "\<exists>rid. request_id_resolve (default_resolver uuid4) n c = Inr rid"
  by (auto simp: request_id_resolve_def Let_def default_resolver_def request_id_is_valid_def uuid_str_safe split: option.splits)

subsection \<open>One request\<close>

definition starts :: "'h message list \<Rightarrow> 'h message list" where
  "starts = filter (\<lambda>m. case m of ResponseStart _ _ \<Rightarrow> True | _ \<Rightarrow> False)"

definition is_finished :: "lifecycle_event \<Rightarrow> bool" where
  "is_finished e = (case e of RequestFinished _ _ _ _ _ _ \<Rightarrow> True | _ \<Rightarrow> False)"

lemma starts_simps [simp]:
  "starts [] = []" "starts (xs @ ys) = starts xs @ starts ys" "starts [ResponseStart s h] = [ResponseStart s h]"
  "starts [OtherMessage t b] = []"
  by (simp_all add: starts_def)

definition sets_header :: "'h middleware \<Rightarrow> bool" where
  "sets_header mw \<longleftrightarrow> (\<forall>k v h. mw_getlist mw (mw_set_header mw k v h) k = [v])"

text \<open>
  What holds while a request is served: what has been sent and logged since it began, against the
  state of its response.
\<close>

definition serving :: "'h middleware \<Rightarrow> request_metadata \<Rightarrow> 'h mw_world \<Rightarrow> 'h mw_world \<Rightarrow> bool" where
  "serving mw request w0 w \<longleftrightarrow>
     mw_context w = [''request_id'' \<mapsto> rm_request_id request] \<and> mw_fate w = mw_fate w0 \<and>
     (\<exists>ms. mw_sent w = mw_sent w0 @ ms \<and>
        (if rs_response_started (mw_response w)
         then \<exists>h. starts ms = [ResponseStart (rs_status_code (mw_response w)) h] \<and>
                mw_getlist mw h (mw_header_name mw) = [rm_request_id request]
         else starts ms = [])) \<and>
     (\<exists>es. mw_log w = mw_log w0 @ es \<and>
        list_all (\<lambda>(c, e). c = [''request_id'' \<mapsto> rm_request_id request] \<and> \<not> is_finished e) es)"

lemma mark_failure_sel [simp]:
  "rs_response_started (mark_failure r) = rs_response_started r" "rs_failed (mark_failure r)"
  "rs_client_disconnected (mark_failure r) = rs_client_disconnected r"
  "rs_response_started r \<Longrightarrow> rs_status_code (mark_failure r) = rs_status_code r"
  "\<not> rs_response_started r \<Longrightarrow> rs_status_code (mark_failure r) = 500"
  by (simp_all add: mark_failure_def Let_def)

lemma serving_log:
  "serving mw request w0 w \<Longrightarrow> \<not> is_finished event \<Longrightarrow> serving mw request w0 (write_log event w)"
  unfolding serving_def write_log_def by auto

lemma serving_response:
  "serving mw request w0 w \<Longrightarrow> rs_response_started r = rs_response_started (mw_response w) \<Longrightarrow>
   (rs_response_started r \<Longrightarrow> rs_status_code r = rs_status_code (mw_response w)) \<Longrightarrow>
   serving mw request w0 (w\<lparr>mw_response := r\<rparr>)"
  unfolding serving_def by (auto split: if_splits)

lemma serving_mark_failure:
  "serving mw request w0 w \<Longrightarrow> serving mw request w0 (w\<lparr>mw_response := mark_failure (mw_response w)\<rparr>)"
  by (erule serving_response) simp_all

lemma serving_disconnected:
  "serving mw request w0 w \<Longrightarrow>
   serving mw request w0 (observer_disconnected request (w\<lparr>mw_response := mark_client_disconnected (mw_response w)\<rparr>))"
  unfolding observer_disconnected_def
  by (intro serving_log serving_response) (simp_all add: mark_client_disconnected_def is_finished_def)

lemma serving_send:
  assumes "sets_header mw" and "serving mw request w0 w"
    and "send_with_request_id mw request message w = (result, w')"
  shows "serving mw request w0 w'"
proof (cases message)
  case (ResponseStart status h)
  show ?thesis
  proof (cases "rs_response_started (mw_response w)")
    case True
    with assms ResponseStart show ?thesis
      by (auto simp: send_with_request_id_def response_start_def Let_def intro: serving_mark_failure)
  next
    case False
    let ?h = "mw_set_header mw (mw_header_name mw) (rm_request_id request) h"
    let ?r = "snd (response_start status (mw_response w))"
    let ?w = "w\<lparr>mw_response := ?r, mw_sent := mw_sent w @ [ResponseStart status ?h]\<rparr>"
    have "serving mw request w0 ?w"
      using assms(1,2) False unfolding serving_def by (auto simp: response_start_def sets_header_def)
    with serving_disconnected [OF this] assms(3) ResponseStart False show ?thesis
      by (auto simp: send_with_request_id_def response_start_def server_send_def Let_def split: option.splits asgi_exn.splits)
  qed
next
  case (OtherMessage t b)
  let ?w = "w\<lparr>mw_sent := mw_sent w @ [OtherMessage t b]\<rparr>"
  have "serving mw request w0 ?w" using assms(2) unfolding serving_def by auto
  with serving_disconnected [OF this] assms(3) OtherMessage show ?thesis
    by (auto simp: send_with_request_id_def server_send_def Let_def split: option.splits asgi_exn.splits)
qed

lemma serving_run_app:
  "sets_header mw \<Longrightarrow> serving mw request w0 w \<Longrightarrow> run_app (send_with_request_id mw request) app w = (result, w') \<Longrightarrow>
   serving mw request w0 w'"
proof (induction app arbitrary: w)
  case (AppSends message continue)
  obtain r w1 where send: "send_with_request_id mw request message w = (r, w1)" by fastforce
  with AppSends.prems(3) have "run_app (send_with_request_id mw request) (continue r) w1 = (result, w')" by simp
  with AppSends.IH [OF rangeI AppSends.prems(1) serving_send [OF AppSends.prems(1,2) send]] show ?case .
qed auto

lemma serving_handle_request:
  assumes "sets_header mw" and "serving mw request w0 w" and "handle_request mw scope request w = (result, w')"
  shows "serving mw request w0 w'"
proof -
  obtain r w1 where run: "run_app (send_with_request_id mw request) (mw_app mw scope) w = (r, w1)" by fastforce
  note served = serving_run_app [OF assms(1,2) run]
  have failed: "serving mw request w0 (observer_failed request e (w1\<lparr>mw_response := mark_failure (mw_response w1)\<rparr>))" for e
    unfolding observer_failed_def by (intro serving_log serving_mark_failure served) (simp add: is_finished_def)
  from assms(3) run served serving_mark_failure [OF served] failed serving_run_app [OF assms(1) failed] show ?thesis
    by (auto simp: handle_request_def Let_def split: if_splits option.splits)
qed

subsection \<open>Every request is answered\<close>

text \<open>The status of the first response that an application starts if every message is accepted.\<close>

primrec first_start :: "'h asgi_app \<Rightarrow> int option" where
  "first_start AppReturns = None"
| "first_start (AppRaises e) = None"
| "first_start (AppSends message continue) =
     (case message of ResponseStart status _ \<Rightarrow> Some status | OtherMessage _ _ \<Rightarrow> first_start (continue None))"

text \<open>The server accepts every message, and the client is still there.\<close>

definition connected :: "'h mw_world \<Rightarrow> bool" where
  "connected w \<longleftrightarrow> (\<forall>k. mw_fate w k = None) \<and> \<not> rs_client_disconnected (mw_response w)"

lemma connected_send:
  assumes "connected w" and "send_with_request_id mw request message w = (result, w')"
  shows "connected w'"
    "rs_response_started (mw_response w) \<Longrightarrow> rs_response_started (mw_response w') \<and>
       rs_status_code (mw_response w') = rs_status_code (mw_response w)"
    "\<not> rs_response_started (mw_response w) \<Longrightarrow> result = None \<and>
       (case message of
          ResponseStart status _ \<Rightarrow> rs_response_started (mw_response w') \<and> rs_status_code (mw_response w') = status
        | OtherMessage _ _ \<Rightarrow> mw_response w' = mw_response w)"
  using assms
  by (auto simp: send_with_request_id_def response_start_def server_send_def connected_def Let_def
      split: message.splits if_splits)

lemma connected_run_app_started:
  "connected w \<Longrightarrow> rs_response_started (mw_response w) \<Longrightarrow> run_app (send_with_request_id mw request) app w = (result, w') \<Longrightarrow>
   connected w' \<and> rs_response_started (mw_response w') \<and> rs_status_code (mw_response w') = rs_status_code (mw_response w)"
proof (induction app arbitrary: w)
  case (AppSends message continue)
  obtain r w1 where send: "send_with_request_id mw request message w = (r, w1)" by fastforce
  with AppSends.prems(3) have "run_app (send_with_request_id mw request) (continue r) w1 = (result, w')" by simp
  with AppSends.IH [OF rangeI] connected_send [OF AppSends.prems(1) send] AppSends.prems(2) show ?case by metis
qed auto

lemma connected_run_app:
  "connected w \<Longrightarrow> \<not> rs_response_started (mw_response w) \<Longrightarrow> run_app (send_with_request_id mw request) app w = (result, w') \<Longrightarrow>
   connected w' \<and> (case first_start app of
     Some status \<Rightarrow> rs_response_started (mw_response w') \<and> rs_status_code (mw_response w') = status
   | None \<Rightarrow> \<not> rs_response_started (mw_response w'))"
proof (induction app arbitrary: w)
  case (AppSends message continue)
  obtain r w1 where send: "send_with_request_id mw request message w = (r, w1)" by fastforce
  note step = connected_send [OF AppSends.prems(1) send]
  have r: "r = None" using step(3) AppSends.prems(2) by blast
  with send AppSends.prems(3) have rest: "run_app (send_with_request_id mw request) (continue None) w1 = (result, w')" by simp
  show ?case
  proof (cases message)
    case (ResponseStart status h)
    with step(3) AppSends.prems(2) have "rs_response_started (mw_response w1)" "rs_status_code (mw_response w1) = status" by auto
    with connected_run_app_started [OF step(1) _ rest] ResponseStart show ?thesis by simp
  next
    case (OtherMessage t b)
    with step(3) AppSends.prems(2) have "\<not> rs_response_started (mw_response w1)" by auto
    with AppSends.IH [OF rangeI step(1) _ rest] OtherMessage show ?thesis by simp
  qed
qed auto

lemma connected_log: "connected (write_log e w) = connected w" "mw_response (write_log e w) = mw_response w"
  by (simp_all add: connected_def write_log_def)

text \<open>The response of the factory starts with its status.\<close>

definition responds_with :: "int \<Rightarrow> ('h scope \<Rightarrow> 'h asgi_app) \<Rightarrow> bool" where
  "responds_with status response \<longleftrightarrow> (\<forall>scope. first_start (response scope) = Some status)"

lemma connected_handle_request:
  assumes "connected w" and "\<not> rs_response_started (mw_response w)"
    and run: "handle_request mw scope request w = (result, w')" and "result \<noteq> Some (AppError CancelledError)"
    and resp: "responds_with 500 (mw_internal_error_response mw)"
  shows "rs_response_started (mw_response w') \<and>
    rs_status_code (mw_response w') = (case first_start (mw_app mw scope) of Some status \<Rightarrow> status | None \<Rightarrow> 500)"
proof -
  obtain r w1 where app: "run_app (send_with_request_id mw request) (mw_app mw scope) w = (r, w1)" by fastforce
  note w1 = connected_run_app [OF assms(1,2) app]
  show ?thesis
  proof (cases "first_start (mw_app mw scope)")
    case (Some status)
    with w1 app run show ?thesis
      by (auto simp: handle_request_def Let_def observer_failed_def connected_def connected_log split: if_splits option.splits)
  next
    case None
    then have quiet: "\<not> rs_response_started (mw_response w1)" "connected w1" using w1 by auto
    then obtain error w2 where w2: "w2 = observer_failed request error (w1\<lparr>mw_response := mark_failure (mw_response w1)\<rparr>)"
      and rest: "run_app (send_with_request_id mw request) (mw_internal_error_response mw scope) w2 = (result, w')"
      using app run assms(4)
      by (auto simp: handle_request_def Let_def observer_failed_def connected_def connected_log split: if_splits option.splits)
    have "connected w2" "\<not> rs_response_started (mw_response w2)"
      using quiet unfolding w2 by (simp_all add: observer_failed_def connected_log) (simp add: connected_def)
    from connected_run_app [OF this rest] resp None show ?thesis by (simp add: responds_with_def)
  qed
qed

subsection \<open>Properties of the boundary\<close>

definition metadata_of :: "'h scope \<Rightarrow> string \<Rightarrow> request_metadata" where
  "metadata_of scope rid = \<lparr>rm_request_id = rid, rm_method = case_option [] id (sc_method scope),
     rm_path = case_option [] id (sc_path scope)\<rparr>"

definition opened :: "string \<Rightarrow> 'h mw_world \<Rightarrow> 'h mw_world" where
  "opened rid w = w\<lparr>mw_response := HttpResponseState, mw_ticks := Suc (mw_ticks w),
     mw_context := [''request_id'' \<mapsto> rid]\<rparr>"

text \<open>The parts of a call that both properties look at: the state after the \<open>try\<close> and its handlers, and the last line.\<close>

lemma middleware_call_http:
  assumes "sc_type scope = ''http''" and "resolve_request_id mw n scope = Inr rid"
    and "middleware_call mw n scope w = (result, w')"
  obtains w1 duration where
    "handle_request mw (copy_scope mw scope rid) (metadata_of scope rid)
       (observer_started (metadata_of scope rid) (opened rid w)) = (result, w1)"
    and "mw_context w' = Map.empty" and "mw_sent w' = mw_sent w1"
    and "mw_log w' = mw_log w1 @ [(mw_context w1, RequestFinished (case_option [] id (sc_method scope))
      (case_option [] id (sc_path scope)) (if rs_response_started (mw_response w1) then rs_status_code (mw_response w1) else 500)
      duration (\<not> rs_response_started (mw_response w1) \<or> rs_failed (mw_response w1)) (rs_client_disconnected (mw_response w1)))]"
proof -
  let ?w = "opened rid w"
  obtain r w1 where handled: "handle_request mw (copy_scope mw scope rid) (metadata_of scope rid)
      (observer_started (metadata_of scope rid) ?w) = (r, w1)" by fastforce
  define w2 where "w2 = (if \<not> rs_response_started (mw_response w1)
    then w1\<lparr>mw_response := mark_failure (mw_response w1)\<rparr> else w1)"
  show ?thesis
    by (rule that [of w1 "duration_ms mw (mw_clock w (mw_ticks w)) w2"])
      (use assms handled in \<open>auto simp: middleware_call_def context_bind_def opened_def metadata_of_def Let_def w2_def
        observer_finished_def write_log_def split: if_splits\<close>)
qed

lemma default_request_id:
  assumes "mw_resolver mw = default_resolver uuid4"
  obtains rid where "resolve_request_id mw n scope = Inr rid" and "safe_request_id rid" and "length rid \<le> 128"
proof -
  obtain rid where rid: "resolve_request_id mw n scope = Inr rid"
    unfolding resolve_request_id_def Let_def assms using default_resolver_resolves by blast
  then have "request_id_is_valid (default_resolver uuid4) rid"
    unfolding resolve_request_id_def Let_def assms by (rule request_id_resolve_valid)
  then show ?thesis using that rid by (simp add: request_id_is_valid_def default_resolver_def)
qed

lemma serving_opened: "serving mw (metadata_of scope rid) (opened rid w) (observer_started (metadata_of scope rid) (opened rid w))"
  unfolding observer_started_def
  by (intro serving_log) (auto simp: serving_def opened_def metadata_of_def HttpResponseState_def is_finished_def)

text \<open>
  C11. What the boundary guarantees for every HTTP request, whatever the application and the server do: the
  request has a safe ID, taken from its header or generated; every line logged for it carries this ID
  and the last one, and only that one, says that it has finished; the server is handed at most one start of
  a response, which carries the ID in its header and the status that the last line reports; without
  a start the report says failed with 500; and no context is left behind.
\<close>
theorem request_boundary:
  assumes http: "sc_type scope = ''http''" and hd: "sets_header mw" and res: "mw_resolver mw = default_resolver uuid4"
    and run: "middleware_call mw n scope w = (result, w')"
  shows "\<exists>rid ms es duration status failed disconnected.
    safe_request_id rid \<and> length rid \<le> 128 \<and> mw_context w' = Map.empty \<and> mw_sent w' = mw_sent w @ ms \<and>
    mw_log w' = mw_log w @ es @ [([''request_id'' \<mapsto> rid], RequestFinished (case_option [] id (sc_method scope))
      (case_option [] id (sc_path scope)) status duration failed disconnected)] \<and>
    list_all (\<lambda>(c, e). c = [''request_id'' \<mapsto> rid] \<and> \<not> is_finished e) es \<and>
    (starts ms = [] \<and> status = 500 \<and> failed \<or>
     (\<exists>h. starts ms = [ResponseStart status h] \<and> mw_getlist mw h (mw_header_name mw) = [rid]))"
proof -
  obtain rid where rid: "resolve_request_id mw n scope = Inr rid" and safe: "safe_request_id rid" "length rid \<le> 128"
    by (rule default_request_id [OF res])
  obtain w1 duration where handled: "handle_request mw (copy_scope mw scope rid) (metadata_of scope rid)
       (observer_started (metadata_of scope rid) (opened rid w)) = (result, w1)"
    and w': "mw_context w' = Map.empty" "mw_sent w' = mw_sent w1"
      "mw_log w' = mw_log w1 @ [(mw_context w1, RequestFinished (case_option [] id (sc_method scope))
      (case_option [] id (sc_path scope)) (if rs_response_started (mw_response w1) then rs_status_code (mw_response w1) else 500)
      duration (\<not> rs_response_started (mw_response w1) \<or> rs_failed (mw_response w1)) (rs_client_disconnected (mw_response w1)))]"
    by (rule middleware_call_http [OF http rid run])
  from serving_handle_request [OF hd serving_opened handled] safe w' show ?thesis
    unfolding serving_def by (cases "rs_response_started (mw_response w1)") (auto simp: opened_def metadata_of_def)
qed

text \<open>
  C32. A client that stays connected is always answered: unless the request is cancelled, exactly one
  response is started, with the request ID, and its status is the one the application has chosen; an
  application that raises or returns without having started a response is answered with the internal error.
\<close>
theorem connected_request_is_answered:
  assumes http: "sc_type scope = ''http''" and hd: "sets_header mw" and res: "mw_resolver mw = default_resolver uuid4"
    and run: "middleware_call mw n scope w = (result, w')" and conn: "\<And>k. mw_fate w k = None"
    and resp: "responds_with 500 (mw_internal_error_response mw)" and uncancelled: "result \<noteq> Some (AppError CancelledError)"
  shows "\<exists>rid ms h. safe_request_id rid \<and> mw_sent w' = mw_sent w @ ms \<and>
    starts ms = [ResponseStart (case first_start (mw_app mw (copy_scope mw scope rid)) of Some status \<Rightarrow> status | None \<Rightarrow> 500) h] \<and>
    mw_getlist mw h (mw_header_name mw) = [rid]"
proof -
  obtain rid where rid: "resolve_request_id mw n scope = Inr rid" and safe: "safe_request_id rid"
    by (rule default_request_id [OF res])
  obtain w1 where handled: "handle_request mw (copy_scope mw scope rid) (metadata_of scope rid)
       (observer_started (metadata_of scope rid) (opened rid w)) = (result, w1)" and "mw_sent w' = mw_sent w1"
    by (rule middleware_call_http [OF http rid run])
  moreover have "connected (observer_started (metadata_of scope rid) (opened rid w))"
    "\<not> rs_response_started (mw_response (observer_started (metadata_of scope rid) (opened rid w)))"
    using conn by (simp_all add: observer_started_def connected_log) (simp_all add: connected_def opened_def HttpResponseState_def)
  note connected_handle_request [OF this handled uncancelled resp]
  ultimately show ?thesis
    using serving_handle_request [OF hd serving_opened handled] safe
    unfolding serving_def by (auto simp: opened_def metadata_of_def)
qed

subsection \<open>Witnesses\<close>

text \<open>An application that fails before it has started a response, behind a server that accepts everything.\<close>

definition plain_response :: "int \<Rightarrow> bytes \<Rightarrow> (string \<times> string) list asgi_app" where
  "plain_response status body =
     AppSends (ResponseStart status []) (\<lambda>r. case r of
         Some e \<Rightarrow> AppRaises e
       | None \<Rightarrow> AppSends (OtherMessage ''http.response.body'' body) (\<lambda>r. case r of
             Some e \<Rightarrow> AppRaises e | None \<Rightarrow> AppReturns))"

definition sample_middleware :: "(string \<times> string) list asgi_app \<Rightarrow> (string \<times> string) list middleware" where
  "sample_middleware app = \<lparr>mw_app = (\<lambda>_. app), mw_resolver = default_resolver (\<lambda>n. n),
     mw_internal_error_response = (\<lambda>_. plain_response 500 []), mw_header_name = ''X-Request-Id'',
     mw_state_key = ''request_id'', mw_getlist = (\<lambda>hs k. map snd (filter (\<lambda>(k', _). k' = k) hs)),
     mw_set_header = (\<lambda>k v hs. (k, v) # filter (\<lambda>(k', _). k' \<noteq> k) hs), mw_round = id\<rparr>"

definition sample_scope :: "(string \<times> string) list scope" where
  "sample_scope = \<lparr>sc_type = ''http'', sc_method = Some ''GET'', sc_path = Some ''/health/live'',
     sc_headers = [(''X-Request-Id'', ''abc-1'')], sc_state = None\<rparr>"

definition sample_mw_world :: "(nat \<Rightarrow> asgi_exn option) \<Rightarrow> (string \<times> string) list mw_world" where
  "sample_mw_world fate = \<lparr>mw_response = HttpResponseState, mw_sent = [], mw_fate = fate, mw_log = [],
     mw_context = Map.empty, mw_clock = (\<lambda>n. of_nat n), mw_ticks = 0\<rparr>"

lemma sample_sets_header: "sets_header (sample_middleware app)"
  by (auto simp: sets_header_def sample_middleware_def filter_empty_conv)

theorem request_boundary_witness:
  "\<exists>result w'. middleware_call (sample_middleware (plain_response 200 [])) 0 sample_scope
       (sample_mw_world (\<lambda>_. Some OSError)) = (result, w') \<and> mw_context w' = Map.empty \<and> length (starts (mw_sent w')) \<le> 1"
proof -
  let ?mw = "sample_middleware (plain_response 200 [])" and ?w = "sample_mw_world (\<lambda>_. Some OSError)"
  obtain result w' where run: "middleware_call ?mw 0 sample_scope ?w = (result, w')" by fastforce
  have http: "sc_type sample_scope = ''http''" by (simp add: sample_scope_def)
  have res: "mw_resolver ?mw = default_resolver (\<lambda>n. n)" by (simp add: sample_middleware_def)
  from request_boundary [OF http sample_sets_header res run]
  have "mw_context w' = Map.empty \<and> length (starts (mw_sent w')) \<le> 1"
    by (auto simp: sample_mw_world_def)
  with run show ?thesis by blast
qed

theorem connected_request_is_answered_witness:
  "\<exists>w' h. middleware_call (sample_middleware (AppRaises (AppError ValueError))) 0 sample_scope
       (sample_mw_world (\<lambda>_. None)) = (None, w') \<and> starts (mw_sent w') = [ResponseStart 500 h]"
proof -
  let ?mw = "sample_middleware (AppRaises (AppError ValueError))" and ?w = "sample_mw_world (\<lambda>_. None)"
  have run: "\<exists>w'. middleware_call ?mw 0 sample_scope ?w = (None, w')"
    by (simp add: middleware_call_def sample_scope_def resolve_request_id_def sample_middleware_def request_id_resolve_def
        default_resolver_def request_id_is_valid_def safe_request_id_def ascii_alnum_def context_bind_def handle_request_def
        plain_response_def send_with_request_id_def response_start_def server_send_def observer_started_def
        observer_failed_def write_log_def sample_mw_world_def HttpResponseState_def Let_def)
  then obtain w' where w': "middleware_call ?mw 0 sample_scope ?w = (None, w')" by blast
  have http: "sc_type sample_scope = ''http''" by (simp add: sample_scope_def)
  have res: "mw_resolver ?mw = default_resolver (\<lambda>n. n)" by (simp add: sample_middleware_def)
  have resp: "responds_with 500 (mw_internal_error_response ?mw)"
    by (simp add: responds_with_def sample_middleware_def plain_response_def)
  have "\<exists>h. starts (mw_sent w') = [ResponseStart 500 h]"
    using connected_request_is_answered [OF http sample_sets_header res w' _ resp]
    by (auto simp: sample_mw_world_def sample_middleware_def)
  with w' show ?thesis by blast
qed

end
