(* ===== verification/Registration_Http.thy ===== *)
theory Registration_Http
  imports Http Profile_Client
begin

section \<open>The answer to a registration\<close>

text \<open>
  What a client may rely on after \<open>POST /register\<close>: the endpoint, the handler and the stores taken together,
  against arbitrary rivals, lost commits and a profile service that does what it likes.
\<close>

definition registration_answer :: "register_command \<Rightarrow> registration_result \<Rightarrow> db \<Rightarrow> bool" where
  "registration_answer command res d \<longleftrightarrow>
     (\<exists>row \<in> set (db_registrations d). r_id row = res_operation_id res \<and> r_user_id row = res_user_id res \<and>
        r_email row = rc_email command \<and> r_key_hash row = rc_key_hash command) \<and>
     (case res_outcome res of
        OUTCOME_COMPLETED \<Rightarrow> \<exists>u \<in> set (db_users d). u_id u = res_user_id res
      | OUTCOME_PENDING \<Rightarrow> \<exists>n \<ge> 1. res_retry_after_seconds res = Some n)"

lemma answers_matches:
  assumes "matches op d" and "r_email op = rc_email command" and "r_key_hash op = rc_key_hash command"
    and "res_operation_id res = r_id op" and "res_user_id res = r_user_id op"
    and "res_outcome res = OUTCOME_COMPLETED \<Longrightarrow> \<exists>u \<in> set (db_users d). u_id u = r_user_id op"
    and "res_outcome res = OUTCOME_PENDING \<Longrightarrow> \<exists>n \<ge> 1. res_retry_after_seconds res = Some n"
  shows "registration_answer command res d"
  using assms by (fastforce simp: registration_answer_def matches_def registration_keys_def split: registration_outcome.splits)

lemma pending_result_answers:
  "pending_result op now ra = Inr res \<Longrightarrow>
   res_operation_id res = r_id op \<and> res_user_id res = r_user_id op \<and> res_outcome res = OUTCOME_PENDING \<and>
   (\<exists>n \<ge> 1. res_retry_after_seconds res = Some n)"
  by (auto simp: pending_result_eq)

lemma retry_or_block_answers:
  "retry_or_block cfg op ow e w = (Inr res, w') \<Longrightarrow> \<exists>now ra. pending_result op now ra = Inr res"
  by (auto simp: retry_or_block_def Let_def res_simps split: if_splits)

text \<open>The row that is claimed under a key is the row that was read under it.\<close>

lemma same_key_same_row:
  assumes "registration_db_ok es d" and "matches a d" and "matches b d" and "r_key_hash a = r_key_hash b"
  shows "registration_keys a = registration_keys b"
proof -
  from assms(2,3) obtain x y where "x \<in> set (db_registrations d)" "registration_keys x = registration_keys a"
    "y \<in> set (db_registrations d)" "registration_keys y = registration_keys b"
    by (auto simp: matches_def)
  moreover from assms(1) have "distinct (map r_key_hash (db_registrations d))"
    using registration_table_okD(2) by (auto simp: registration_db_ok_def)
  ultimately show ?thesis
    using unique_key [of r_key_hash "db_registrations d" x y] assms(4) by (simp add: registration_keys_def)
qed

lemma claimed_key:
  assumes "registration_db_ok es d" and "tz_aware e" "tz_aware ts"
    and claim: "claim_by_key_hash es k ow t e ts (db_registrations d) = Inr (Some op, rows)"
  shows "r_key_hash op = k"
proof -
  have "t < e" using registration_claim_Inr claim unfolding claim_by_key_hash_def by blast
  then have "Some op = map_option (registration_grant ow e ts)
      (find (\<lambda>r. r_key_hash r = k \<and> registration_eligible t r) (db_registrations d))"
    using registration_claim_result [of es "db_registrations d" t e ts k ow] assms
    by (simp add: registration_db_ok_def Let_def)
  then obtain r where r: "find (\<lambda>r. r_key_hash r = k \<and> registration_eligible t r) (db_registrations d) = Some r"
    and op: "op = registration_grant ow e ts r" by (auto simp: eq_commute [of "Some op"])
  have "registration_keys op = registration_keys r" by (simp add: op)
  with find_SomeD(1) [OF r] show ?thesis by (simp add: registration_keys_def)
qed

context profile_port
begin

lemma resume_answers:
  assumes "reg_inv (g_email_str cfg) S w" and "op \<in> S"
    and run: "resume_execute cfg create_profile op ow w = (Inr res, w')"
    and "r_email op = rc_email command" and "r_key_hash op = rc_key_hash command"
  shows "registration_answer command res (w_db w')"
proof -
  have "reg_inv (g_email_str cfg) S w'" by (rule keepsD [OF resume_execute_keeps [OF assms(2)] assms(1) run])
  then have m: "matches op (w_db w')" using assms(2) by (rule reg_invD(4))
  show ?thesis
  proof (cases "res_outcome res")
    case OUTCOME_COMPLETED
    from resume_completed [OF assms(1-3) this] show ?thesis
      using OUTCOME_COMPLETED by (intro answers_matches [OF m assms(4,5)]) auto
  next
    case OUTCOME_PENDING
    with run have "\<exists>now ra. pending_result op now ra = Inr res"
      by (auto simp: resume_execute_def res_simps completed_result_of_def RegistrationResult_def
          split: if_splits dest: retry_or_block_answers)
    with pending_result_answers show ?thesis
      using OUTCOME_PENDING by (intro answers_matches [OF m assms(4,5)]) force+
  qed
qed

lemma load_by_key_row:
  assumes inv: "reg_inv (g_email_str cfg) S w" and run: "load_by_key cfg k w = (Inr (Some op), w')"
  shows "reg_inv (g_email_str cfg) (insert op S) w'" and "r_key_hash op = k" and "registration_row_ok (g_email_str cfg) op"
proof -
  have inv': "reg_inv (g_email_str cfg) S w'"
    using run keepsD [OF keeps_reg_query inv] unfolding load_by_key_def by blast
  have "get_by_key_hash (g_email_str cfg) k (db_registrations (w_db w')) = Inr (Some op)"
    using uow_Inr [OF run [unfolded load_by_key_def]] by (auto simp: res_simps)
  then obtain row where row: "find (\<lambda>r. r_key_hash r = k) (db_registrations (w_db w')) = Some row"
    and op: "registration_to_domain (g_email_str cfg) row = Inr op"
    by (auto simp: get_by_key_hash_def optional_to_domain_def bind_res_iffs split: option.splits)
  have "row \<in> set (db_registrations (w_db w'))" and k: "r_key_hash row = k" using find_SomeD [OF row] by auto
  moreover from this have ok: "registration_row_ok (g_email_str cfg) row"
    using reg_invD(1) [OF inv'] registration_table_okD(5) by (auto simp: registration_db_ok_def)
  ultimately have "op = row" "matches op (w_db w')"
    using op registration_row_ok_to_domain [OF ok] by (auto simp: matches_def)
  with inv' k ok show "reg_inv (g_email_str cfg) (insert op S) w'" "r_key_hash op = k"
    "registration_row_ok (g_email_str cfg) op" by (auto simp: reg_inv_def)
qed

lemma claim_key_spec:
  fixes w :: "'e world"
  assumes "tz_aware now" and inv: "reg_inv (g_email_str cfg) S w"
    and run: "uow (bind db_now (\<lambda>ts. stmt (on_registrations (claim_by_key_hash (g_email_str cfg) k ow now
        (claim_lease cfg now) ts)))) w = (Inr (Some op), w')"
  shows "reg_inv (g_email_str cfg) (insert op S) w'" and "r_key_hash op = k"
proof -
  have inv1: "reg_inv (g_email_str cfg) S (begin_tx w)" by (rule reg_inv_begin_tx [OF inv])
  from uow_Inr [OF run] obtain rows where "claim_by_key_hash (g_email_str cfg) k ow now (claim_lease cfg now)
      (w_db_now (begin_tx w) (w_txs (begin_tx w))) (db_registrations (w_db (begin_tx w))) = Inr (Some op, rows)"
    by (auto simp: res_simps)
  moreover have "tz_aware (claim_lease cfg now)" using assms(1) by (simp add: claim_lease_def)
  ultimately show "r_key_hash op = k" using claimed_key [OF reg_invD(1) [OF inv1] _ reg_invD(3) [OF inv1]] by blast
  from specD(1) [OF claim_spec [OF assms(1)] inv run] show "reg_inv (g_email_str cfg) (insert op S) w'"
    by (simp add: claimed_matches_def reg_inv_def)
qed

lemma stored_password_hash_user:
  assumes "stored_password_hash cfg op w = (Inr h, w')" and "r_password_hash op = None"
  shows "\<exists>u \<in> set (db_users (w_db w')). u_id u = r_user_id op"
proof -
  from assms obtain u where "uow (query (\<lambda>d. user_get (g_email_str cfg) (r_user_id op) (db_users d))) w = (Inr (Some u), w')"
    by (auto simp: stored_password_hash_def res_simps split: option.splits)
  from uow_Inr [OF this] have "user_get (g_email_str cfg) (r_user_id op) (db_users (w_db w')) = Inr (Some u)"
    by (auto simp: res_simps)
  then show ?thesis
    by (auto simp: user_get_def optional_Some dest!: find_SomeD)
qed

lemma resume_existing_answers:
  assumes inv: "reg_inv (g_email_str cfg) S w" and op: "op \<in> S" "registration_row_ok (g_email_str cfg) op"
    and key: "r_key_hash op = rc_key_hash command"
    and run: "resume_existing cfg create_profile op (rc_email command) password w = (Inr res, w')"
  shows "registration_answer command res (w_db w')"
proof -
  let ?I = "reg_inv (g_email_str cfg) S"
  from run have email: "r_email op = rc_email command"
    by (auto simp: resume_existing_def res_simps split: if_splits)
  from run email obtain h w1 where hash: "stored_password_hash cfg op w = (Inr h, w1)"
    and rest: "r_status op = R_COMPLETED \<and> completed_result_of op (r_user_id op) = Inr res \<and> w' = w1 \<or>
      r_status op \<noteq> R_COMPLETED \<and> bind utc_now (\<lambda>now. bind new_uuid (\<lambda>owner_token.
        bind (uow (bind db_now (\<lambda>ts. stmt (on_registrations (claim_by_key_hash (g_email_str cfg) (r_key_hash op)
              owner_token now (claim_lease cfg now) ts))))) (\<lambda>claimed.
          case claimed of
            None \<Rightarrow> bind utc_now (\<lambda>now'. liftr (pending_result op now' None))
          | Some op \<Rightarrow> resume_execute cfg create_profile op owner_token))) w1 = (Inr res, w')"
    unfolding resume_existing_def by (auto simp: res_simps split: if_splits)
  have inv1: "?I w1" by (rule keepsD [OF stored_password_hash_keeps inv hash])
  from rest show ?thesis
  proof (elim disjE conjE)
    assume fin: "r_status op = R_COMPLETED" "completed_result_of op (r_user_id op) = Inr res" "w' = w1"
    then have "r_password_hash op = None" using op(2) by (auto simp: registration_row_ok_iff registration_checks_def registration_lifecycle_def)
    from stored_password_hash_user [OF hash this] fin show ?thesis
      by (intro answers_matches [OF reg_invD(4) [OF inv1 op(1)], folded fin(3)] email key)
        (auto simp: completed_result_of_def RegistrationResult_def)
  next
    assume go: "bind utc_now (\<lambda>now. bind new_uuid (\<lambda>owner_token.
        bind (uow (bind db_now (\<lambda>ts. stmt (on_registrations (claim_by_key_hash (g_email_str cfg) (r_key_hash op)
              owner_token now (claim_lease cfg now) ts))))) (\<lambda>claimed.
          case claimed of
            None \<Rightarrow> bind utc_now (\<lambda>now'. liftr (pending_result op now' None))
          | Some op \<Rightarrow> resume_execute cfg create_profile op owner_token))) w1 = (Inr res, w')"
    then obtain now w2 ow w3 c w4 where now: "utc_now w1 = (Inr now, w2)" and ow: "new_uuid w2 = (Inr ow, w3)"
      and claim: "uow (bind db_now (\<lambda>ts. stmt (on_registrations (claim_by_key_hash (g_email_str cfg) (r_key_hash op)
              ow now (claim_lease cfg now) ts)))) w3 = (Inr c, w4)"
      and tail: "(case c of None \<Rightarrow> bind utc_now (\<lambda>now'. liftr (pending_result op now' None))
          | Some op \<Rightarrow> resume_execute cfg create_profile op ow) w4 = (Inr res, w')"
      unfolding bind_eq_Inr by auto
    have aware: "tz_aware now" using now reg_invD(2) [OF inv1] by (auto simp: res_simps)
    have inv3: "?I w3" using keepsD [OF keeps_reg_primitives(5) inv1 now] keepsD [OF keeps_reg_primitives(1) _ ow] by blast
    show ?thesis
    proof (cases c)
      case None
      have "?I w4" using specD(1) [OF claim_spec [OF aware] inv3 claim] by simp
      moreover from tail None obtain t where t: "pending_result op t None = Inr res" and "w_db w' = w_db w4"
        by (auto simp: res_simps)
      ultimately have "matches op (w_db w')" using op(1) by (auto simp: reg_invD(4))
      with pending_result_answers [OF t] show ?thesis using email key by (intro answers_matches) auto
    next
      case (Some op')
      note c = claim_key_spec [OF aware inv3 claim [unfolded Some]]
      have "registration_keys op' = registration_keys op"
        using same_key_same_row [OF reg_invD(1) [OF c(1)] reg_invD(4) [OF c(1)] reg_invD(4) [OF c(1)]] op(1) c(2) by simp
      with email key have "r_email op' = rc_email command" "r_key_hash op' = rc_key_hash command"
        by (simp_all add: registration_keys_def)
      with resume_answers [OF c(1), of op'] tail Some show ?thesis by simp
    qed
  qed
qed

lemma created_candidate:
  fixes w :: "'e world"
  assumes inv: "reg_inv (g_email_str cfg) S w" and op: "RegistrationOperation (g_email_str cfg) op = Inr op" "r_status op = R_CLAIMED"
    and run: "create_candidate cfg op w = (Inr (Some op'), w')"
  shows "reg_inv (g_email_str cfg) (insert op' S) w'" and "op' = op"
proof -
  from uow_Inr [OF run [unfolded create_candidate_def]] show "op' = op"
    using op by (auto simp: res_simps try_create_def registration_to_domain_def bind_res_iffs split: option.splits if_splits)
  from specD(1) [OF create_candidate_spec [OF op] inv run] show "reg_inv (g_email_str cfg) (insert op' S) w'"
    by (simp add: claimed_matches_def reg_inv_def)
qed

lemma candidate_valid:
  assumes "RegistrationOperation es (candidate_operation cfg email ph kh now ow i u) = Inr op"
    and "NormalizedEmail es email = Inr email"
  shows "RegistrationOperation es op = Inr op" "r_status op = R_CLAIMED" "r_email op = email" "r_key_hash op = kh"
proof -
  from assms have "op = candidate_operation cfg email ph kh now ow i u"
    by (auto simp: RegistrationOperation_def candidate_operation_def bind_res_iffs split: if_splits)
  with assms(1) show "RegistrationOperation es op = Inr op" "r_status op = R_CLAIMED" "r_email op = email" "r_key_hash op = kh"
    by (simp_all add: candidate_operation_def)
qed

lemma register_answers:
  fixes w :: "'e world"
  assumes inv: "reg_inv (g_email_str cfg) S w" and email: "NormalizedEmail (g_email_str cfg) (rc_email command) = Inr (rc_email command)"
    and run: "register_execute cfg create_profile command w = (Inr res, w')"
  shows "registration_answer command res (w_db w')"
proof -
  let ?es = "g_email_str cfg"
  have existing: "registration_answer command res (w_db w')"
    if "reg_inv ?es S v" and "load_by_key cfg (rc_key_hash command) v = (Inr (Some op), v')"
      and "resume_existing cfg create_profile op (rc_email command) (rc_password command) v' = (Inr res, w')" for v v' op
    using resume_existing_answers [OF load_by_key_row(1) [OF that(1,2)] _ load_by_key_row(3) [OF that(1,2)]
        load_by_key_row(2) [OF that(1,2)] that(3)] by simp
  from run obtain e w1 where load: "load_by_key cfg (rc_key_hash command) w = (Inr e, w1)"
    unfolding register_execute_def Let_def bind_eq_Inr by blast
  have inv1: "reg_inv ?es S w1" using load keepsD [OF keeps_reg_query inv] unfolding load_by_key_def by blast
  show ?thesis
  proof (cases e)
    case (Some op)
    with existing [OF inv] load run show ?thesis
      unfolding register_execute_def Let_def by (auto simp: res_simps)
  next
    case None
    have "bind (liftr (g_hash cfg (rc_password command))) (\<lambda>password_hash.
      bind utc_now (\<lambda>now. bind new_uuid (\<lambda>ow. bind new_uuid (\<lambda>i. bind new_uuid (\<lambda>u.
      bind (liftr (RegistrationOperation ?es
          (candidate_operation cfg (rc_email command) password_hash (rc_key_hash command) now ow i u))) (\<lambda>op.
      bind (create_candidate cfg op) (\<lambda>c. case c of Some op \<Rightarrow> resume_execute cfg create_profile op ow
          | None \<Rightarrow> bind (load_by_key cfg (rc_key_hash command)) (\<lambda>existing'.
              case existing' of
                None \<Rightarrow> throw UserAlreadyExistsError
              | Some op \<Rightarrow> resume_existing cfg create_profile op (rc_email command) (rc_password command))))))))) w1 =
        (Inr res, w')"
      using run load None by (simp add: register_execute_def Let_def bind_def)
    then obtain ph now ow i u op w2 c w3 where
      cand: "RegistrationOperation ?es (candidate_operation cfg (rc_email command) ph (rc_key_hash command) now ow i u) = Inr op"
      and w2: "bind utc_now (\<lambda>now. bind new_uuid (\<lambda>ow. bind new_uuid (\<lambda>i. bind new_uuid (\<lambda>u. return (now, ow, i, u))))) w1 =
        (Inr (now, ow, i, u), w2)"
      and create: "create_candidate cfg op w2 = (Inr c, w3)"
      and tail: "(case c of Some op \<Rightarrow> resume_execute cfg create_profile op ow
          | None \<Rightarrow> bind (load_by_key cfg (rc_key_hash command)) (\<lambda>existing'.
              case existing' of
                None \<Rightarrow> throw UserAlreadyExistsError
              | Some op \<Rightarrow> resume_existing cfg create_profile op (rc_email command) (rc_password command))) w3 = (Inr res, w')"
      unfolding bind_eq_Inr liftr_eq return_eq by blast
    note cand = candidate_valid [OF cand email]
    have "keeps (reg_inv ?es S) (bind utc_now (\<lambda>now. bind new_uuid (\<lambda>ow. bind new_uuid (\<lambda>i. bind new_uuid (\<lambda>u.
        return (now, ow, i, u))))) :: ('e, _) io)" by (intro keeps_intros)
    from keepsD [OF this inv1 w2] have inv2: "reg_inv ?es S w2" .
    show ?thesis
    proof (cases c)
      case None
      have inv3: "reg_inv ?es S w3" using specD(1) [OF create_candidate_spec [OF cand(1,2)] inv2 create] by simp
      from tail [unfolded None option.case bind_eq_Inr] obtain e' w4 where "load_by_key cfg (rc_key_hash command) w3 = (Inr e', w4)"
        "(case e' of None \<Rightarrow> throw UserAlreadyExistsError
          | Some op \<Rightarrow> resume_existing cfg create_profile op (rc_email command) (rc_password command)) w4 = (Inr res, w')"
        by blast
      with existing [OF inv3] show ?thesis by (cases e') (auto simp: res_simps)
    next
      case (Some op')
      note made = created_candidate [OF inv2 cand(1,2) create [unfolded Some]]
      from resume_answers [OF made(1), of op'] tail Some cand(3,4) made(2) show ?thesis by simp
    qed
  qed
qed

end

subsection \<open>Properties\<close>

lemma register_response_cases:
  assumes "registration_answer command res d"
  shows "\<exists>row \<in> set (db_registrations d). r_email row = rc_email command \<and> r_key_hash row = rc_key_hash command \<and>
     (hr_status (register_response res) = 201 \<and>
        hr_body (register_response res) = Some (JObj [(''userId'', JStr (uuid_str (r_user_id row)))]) \<and>
        (\<exists>u \<in> set (db_users d). u_id u = r_user_id row) \<or>
      hr_status (register_response res) = 202 \<and>
        hr_body (register_response res) = Some (JObj [(''registrationId'', JStr (uuid_str (r_id row))),
          (''userId'', JStr (uuid_str (r_user_id row))), (''status'', JStr ''PENDING'')]) \<and>
        (\<exists>n \<ge> 1. (''Retry-After'', int_str n) \<in> set (hr_headers (register_response res))))"
proof -
  from assms obtain row where row: "row \<in> set (db_registrations d)" "r_id row = res_operation_id res"
    "r_user_id row = res_user_id res" "r_email row = rc_email command" "r_key_hash row = rc_key_hash command"
    by (auto simp: registration_answer_def)
  show ?thesis
  proof (cases "res_outcome res")
    case OUTCOME_COMPLETED
    with assms row show ?thesis
      by (intro bexI [of _ row]) (auto simp: registration_answer_def register_response_def set_no_store_headers_def
          set_header_def empty_response_def)
  next
    case OUTCOME_PENDING
    with assms row show ?thesis
      by (intro bexI [of _ row]) (auto simp: registration_answer_def register_response_def set_no_store_headers_def
          set_header_def empty_response_def)
  qed
qed

text \<open>
  C4. What \<open>POST /register\<close> answers is durable: whatever the profile service, rival processes and failing or
  lost commits do, an answer of the endpoint names the user of a committed operation with the
  normalised address and under the idempotency key of the request. A 201 is given only with an
  account of that user, a 202 only with a \<open>Retry-After\<close> of at least one second.
\<close>

theorem registration_answer_is_durable:
  assumes "registration_world (g_email_str cfg) w" and "email_stable (g_email_str cfg)"
    and "register_endpoint cfg (http_create_profile p) sha256 body header w = (Inr r, w')"
  shows "\<exists>key row. header = Some key \<and> row \<in> set (db_registrations (w_db w')) \<and>
     r_key_hash row = sha256 (utf8 key) \<and> NormalizedEmail (g_email_str cfg) (cr_email body) = Inr (r_email row) \<and>
     (hr_status r = 201 \<and> hr_body r = Some (JObj [(''userId'', JStr (uuid_str (r_user_id row)))]) \<and>
        (\<exists>u \<in> set (db_users (w_db w')). u_id u = r_user_id row) \<or>
      hr_status r = 202 \<and> hr_body r = Some (JObj [(''registrationId'', JStr (uuid_str (r_id row))),
          (''userId'', JStr (uuid_str (r_user_id row))), (''status'', JStr ''PENDING'')]) \<and>
        (\<exists>n \<ge> 1. (''Retry-After'', int_str n) \<in> set (hr_headers r)))"
proof -
  let ?es = "g_email_str cfg"
  from assms(3) obtain key email command res where key: "header = Some key"
    and email: "NormalizedEmail ?es (cr_email body) = Inr email"
    and command: "RegisterUserCommand ?es \<lparr>rc_email = email, rc_password = cr_password body,
        rc_key_hash = sha256 (utf8 key)\<rparr> = Inr command"
    and run: "register_execute cfg (http_create_profile p) command w = (Inr res, w')" and r: "r = register_response res"
    by (auto simp: register_endpoint_def res_simps request_body_def idempotency_key_header_def hash_idempotency_key_def
        bind_res_iffs split: if_splits option.splits)
  have stable: "NormalizedEmail ?es email = Inr email" using email assms(2) by (auto simp: email_stable_def)
  with command have c: "rc_email command = email" "rc_key_hash command = sha256 (utf8 key)"
    by (auto simp: RegisterUserCommand_def bind_res_iffs split: if_splits)
  have "reg_inv ?es {} w" using assms(1) by (simp add: reg_inv_def)
  from register_response_cases [OF http_port.register_answers [OF this _ run]] stable show ?thesis
    unfolding r using key email c by (metis (no_types))
qed

theorem registration_answer_is_durable_witness:
  "\<exists>r w'. register_endpoint (sample_config\<lparr>g_verify := \<lambda>_ _. Inr True\<rparr>) (http_create_profile sample_provisioner)
      (\<lambda>_. replicate 32 0) \<lparr>cr_email = ''a@b.c'', cr_password = ''password''\<rparr> (Some ''key-0001'') completed_world = (Inr r, w') \<and>
     hr_status r = 201 \<and> (\<exists>u \<in> set (db_users (w_db w')). hr_body r = Some (JObj [(''userId'', JStr (uuid_str (u_id u)))]))"
proof -
  let ?cfg = "sample_config\<lparr>g_verify := \<lambda>_ _. Inr True\<rparr>" and ?body = "\<lparr>cr_email = ''a@b.c'', cr_password = ''password''\<rparr>"
  let ?res = "\<lparr>res_operation_id = 10, res_user_id = 20, res_outcome = OUTCOME_COMPLETED, res_retry_after_seconds = None\<rparr>"
  obtain w' where run: "register_execute ?cfg (http_create_profile sample_provisioner)
      \<lparr>rc_email = ''a@b.c'', rc_password = ''password'', rc_key_hash = replicate 32 0\<rparr> completed_world = (Inr ?res, w')"
    using completed_world_replays by blast
  have email: "NormalizedEmail sample_email_str ''a@b.c'' = Inr ''a@b.c''"
    by (simp add: NormalizedEmail_def sample_email_str_def casefold_def py_strip_def py_isspace_def)
  have "validate_registration_password ''password'' = Inr ''password''"
    by (simp add: validate_registration_password_def)
  with run email have run': "register_endpoint ?cfg (http_create_profile sample_provisioner) (\<lambda>_. replicate 32 0) ?body
      (Some ''key-0001'') completed_world = (Inr (register_response ?res), w')"
    by (simp add: register_endpoint_def request_body_def idempotency_key_header_def hash_idempotency_key_def
        RegisterUserCommand_def bind_def liftr_def return_def)
  have st: "email_stable (g_email_str ?cfg)"
    by (auto simp: email_stable_def NormalizedEmail_def sample_email_str_def at_sign_casefold split: if_splits)
  have world: "registration_world (g_email_str ?cfg) completed_world" using completed_world_ok by simp
  define r where "r = register_response ?res"
  have created: "hr_status r = 201"
    by (simp add: r_def register_response_def set_no_store_headers_def set_header_def empty_response_def)
  from registration_answer_is_durable [OF world st run', folded r_def]
  have "\<exists>u \<in> set (db_users (w_db w')). hr_body r = Some (JObj [(''userId'', JStr (uuid_str (u_id u)))])"
    by (elim exE conjE disjE bexE, intro bexI) (use created in auto)
  with run' created show ?thesis unfolding r_def by blast
qed

end
