(* ===== verification/Browser.thy ===== *)
theory Browser
  imports Http
begin

section \<open>A browser session\<close>

text \<open>
  The service and the browser in front of it: the paths of the routes, which the prefixes of
  \<open>entrypoints/http/routers\<close> make up, and the cookies that \<open>entrypoints/http/routers/v1/auth.py\<close> scopes to them. The
  browser stores cookies, and sends them back, by the rules of RFC 6265 (5.1.4, 5.3 and 5.4) that
  the attributes in use refer to: name, path, \<open>Max-Age\<close> and \<open>Secure\<close>. Requests come from the site of the service, so
  that \<open>SameSite\<close> permits them.
\<close>

subsection \<open>The paths of the routes\<close>

definition auth_prefix :: string where
  "auth_prefix = ''/auth''"

definition create_v1_router :: string where
  "create_v1_router = ''/v1'' @ auth_prefix"

definition create_api_router :: string where
  "create_api_router = ''/api'' @ create_v1_router"

definition route_path :: "auth_request \<Rightarrow> string" where
  "route_path request = create_api_router @
     (case request of
        PostRegister _ _ \<Rightarrow> ''/register''
      | PostLogin _ \<Rightarrow> ''/login''
      | PostLoginTest _ \<Rightarrow> ''/login/test''
      | PostRefresh _ _ \<Rightarrow> ''/refresh''
      | PostLogout _ \<Rightarrow> ''/logout''
      | GetMe _ \<Rightarrow> ''/me'')"

subsection \<open>The cookies of a browser\<close>

record stored_cookie =
  sc_name :: string
  sc_path :: string
  sc_value :: string
  sc_secure :: bool
  sc_expires :: int

type_synonym jar = "stored_cookie list"

text \<open>A cookie replaces the one of its name and path; one that has expired only removes it.\<close>

definition receive_cookie :: "int \<Rightarrow> cookie \<Rightarrow> jar \<Rightarrow> jar" where
  "receive_cookie now c jar =
     filter (\<lambda>s. (sc_name s, sc_path s) \<noteq> (ck_key c, ck_path c)) jar @
     (if ck_max_age c \<le> 0 then []
      else [\<lparr>sc_name = ck_key c, sc_path = ck_path c, sc_value = ck_value c, sc_secure = ck_secure c,
             sc_expires = now + ck_max_age c\<rparr>])"

definition receive :: "int \<Rightarrow> http_response \<Rightarrow> jar \<Rightarrow> jar" where
  "receive now r jar = fold (receive_cookie now) (hr_cookies r) jar"

definition path_match :: "string \<Rightarrow> string \<Rightarrow> bool" where
  "path_match request_path cookie_path \<longleftrightarrow>
     request_path = cookie_path \<or>
     take (length cookie_path) request_path = cookie_path \<and>
       (last cookie_path = CHR ''/'' \<or> length cookie_path < length request_path \<and> request_path ! length cookie_path = CHR ''/'')"

definition sent_cookies :: "bool \<Rightarrow> int \<Rightarrow> string \<Rightarrow> jar \<Rightarrow> (string \<times> string) list" where
  "sent_cookies https now path jar =
     map (\<lambda>s. (sc_name s, sc_value s))
       (filter (\<lambda>s. now < sc_expires s \<and> path_match path (sc_path s) \<and> (sc_secure s \<longrightarrow> https)) jar)"

text \<open>A jar with nothing but the cookies of the service.\<close>

definition own_jar :: "jar \<Rightarrow> bool" where
  "own_jar jar \<longleftrightarrow>
     list_all (\<lambda>s. (sc_name s, sc_path s) \<in> {(''access_token'', ''/''), (''refresh_token'', ''/api/v1/auth'')}) jar"

lemma own_jar_replaced:
  assumes "own_jar jar"
  shows "receive now (set_cookie (auth_cookie st ''refresh_token'' v ttl ''/api/v1/auth'')
      (set_cookie (auth_cookie st ''access_token'' v' ttl' ''/'') (empty_response status))) jar =
    receive now (set_cookie (auth_cookie st ''refresh_token'' v ttl ''/api/v1/auth'')
      (set_cookie (auth_cookie st ''access_token'' v' ttl' ''/'') (empty_response status))) []"
  using assms
  by (auto simp: receive_def set_cookie_def auth_cookie_def empty_response_def receive_cookie_def own_jar_def
      list_all_iff filter_empty_conv)

text \<open>After a pair has been set, the refresh token is sent to the routes of the service, and nowhere else.\<close>

lemma token_cookie_sent:
  assumes "own_jar jar" and "now \<le> t" and "t < now + ss_session_idle_ttl_seconds st" and "ss_cookie_secure st \<longrightarrow> https"
  shows "map_of (sent_cookies https t path (receive now (set_tokens_cookies pair st (empty_response status)) jar)) ''refresh_token'' =
    (if path_match path ''/api/v1/auth'' then Some (tp_refresh_token pair) else None)"
proof -
  have "receive now (set_tokens_cookies pair st (empty_response status)) jar =
      receive now (set_tokens_cookies pair st (empty_response status)) []"
    using own_jar_replaced [OF assms(1)] by (simp add: receive_def set_tokens_cookies_def)
  then show ?thesis
    using assms(2-4)
    by (auto simp: receive_def set_tokens_cookies_def set_cookie_def auth_cookie_def empty_response_def receive_cookie_def
        sent_cookies_def)
qed

lemma deleted_cookies:
  "own_jar jar \<Longrightarrow> receive now (delete_auth_cookies st (empty_response status)) jar = []"
  using own_jar_replaced [of jar now st "[]" 0 "[]" 0 status]
  by (simp add: receive_def delete_auth_cookies_def set_cookie_def auth_cookie_def empty_response_def receive_cookie_def)

lemma own_jar_receive:
  assumes "own_jar jar"
  shows "own_jar (receive now (set_tokens_cookies pair st (empty_response status)) jar)"
  using assms
  by (auto simp: receive_def set_tokens_cookies_def set_cookie_def auth_cookie_def empty_response_def receive_cookie_def
      own_jar_def list_all_iff)

lemma routes_match: "path_match (route_path request) ''/api/v1/auth''"
  by (cases request) (simp_all add: path_match_def route_path_def create_api_router_def create_v1_router_def auth_prefix_def)

subsection \<open>Tokens that are never forgotten\<close>

text \<open>
  What every transaction of the service does for a token: it may be consumed and its session may be revoked, but
  it stays with its session.
\<close>

definition keeps_tokens :: "db \<Rightarrow> db \<Rightarrow> bool" where
  "keeps_tokens d d' \<longleftrightarrow>
     (\<forall>t \<in> set (db_tokens d). \<exists>t' \<in> set (db_tokens d'). t_token_hash t' = t_token_hash t \<and> t_session_id t' = t_session_id t)"

lemma keeps_tokens_trans: "keeps_tokens d d' \<Longrightarrow> keeps_tokens d' d'' \<Longrightarrow> keeps_tokens d d''"
  unfolding keeps_tokens_def by metis

definition rivals_keep_tokens :: "'e world \<Rightarrow> bool" where
  "rivals_keep_tokens w \<longleftrightarrow> (\<forall>n d. keeps_tokens d (w_rival w n d))"

lemma only_rivals_keep_tokens:
  assumes "rivals_keep_tokens w" and "only_rivals w w'"
  shows "keeps_tokens (w_db w) (w_db w')"
proof -
  have "keeps_tokens d (rival_run (w_rival w) n k d)" for n k d
  proof (induction k arbitrary: n d)
    case (Suc k)
    then show ?case using assms(1) keeps_tokens_trans by (fastforce simp: rivals_keep_tokens_def)
  qed (auto simp: keeps_tokens_def)
  with assms(2) show ?thesis by (simp add: only_rivals_def)
qed

lemma revokes_session_keeps_tokens: "revokes_session s now d d' \<Longrightarrow> keeps_tokens d d'"
  by (auto simp: revokes_session_def keeps_tokens_def)

lemma rotates_session_keeps_tokens:
  assumes "sessions_ok d" and "loaded d t s" and "rotates_session t r s now ttl d d'"
  shows "keeps_tokens d d'"
  unfolding keeps_tokens_def
proof
  fix q
  assume q: "q \<in> set (db_tokens d)"
  note t = loadedD(2) [OF assms(1,2)]
  let ?used = "t\<lparr>t_used_at := Some now\<rparr>"
  have "set (put t_id ?used (db_tokens d)) = insert ?used {r \<in> set (db_tokens d). t_id r \<noteq> t_id t}"
    using set_put [of "db_tokens d" t_id ?used] t by auto
  then have tokens: "?used \<in> set (db_tokens d')" "t_id q \<noteq> t_id t \<Longrightarrow> q \<in> set (db_tokens d')"
    using assms(3) q by (auto simp: rotates_session_def)
  have "t_id q = t_id t \<Longrightarrow> q = t" using q t sessions_okD(2) [OF assms(1)] by (auto simp: distinct_map inj_on_def)
  then show "\<exists>t' \<in> set (db_tokens d'). t_token_hash t' = t_token_hash q \<and> t_session_id t' = t_session_id q"
    using tokens by (cases "t_id q = t_id t") (auto intro: bexI [of _ ?used] bexI [of _ q])
qed

lemma login_effect_keeps_tokens: "login_effect ports command pair d d' \<Longrightarrow> keeps_tokens d d'"
  by (auto simp: login_effect_def keeps_tokens_def)

lemma kept_token_loads:
  assumes "sessions_ok d'" and "keeps_tokens d d'" and "t \<in> set (db_tokens d)"
  shows "\<exists>t' s. loaded d' t' s \<and> t_token_hash t' = t_token_hash t \<and> s_id s = t_session_id t"
proof -
  from assms(2,3) obtain t' where t': "t' \<in> set (db_tokens d')" "t_token_hash t' = t_token_hash t" "t_session_id t' = t_session_id t"
    unfolding keeps_tokens_def by blast
  from sessions_okD(5) [OF assms(1) t'(1)] obtain row where row: "row \<in> set (db_sessions d')" "s_id row = t_session_id t'"
    and valid: "valid_token t'" by blast
  have "session_row row = row" using sessions_okD(4) [OF assms(1) row(1)] by blast
  then have "loaded d' t' (row\<lparr>s_refresh_token := Some t', s_replacement_token := None\<rparr>)"
    using t' row valid by (auto simp: loaded_def session_row_def)
  with t' row show ?thesis
    by (intro exI [of _ t'] exI [of _ "row\<lparr>s_refresh_token := Some t', s_replacement_token := None\<rparr>"]) simp
qed

lemma login_effect_token:
  assumes "login_effect ports command pair d d'"
  shows "\<exists>t \<in> set (db_tokens d'). t_token_hash t = digest_of ports (tp_refresh_token pair) \<and>
    t_session_id t \<notin> s_id ` set (db_sessions d)"
  using assms unfolding login_effect_def start_result
  by (elim exE conjE, intro bexI [of _ "last (db_tokens d')"]) simp_all

text \<open>A logout that returns has revoked the session of a token that was kept until then.\<close>

lemma logout_revokes_kept:
  assumes "world_ok sessions_ok v" and "rivals_keep_tokens v" and "t \<in> set (db_tokens (w_db v))"
    and "t_token_hash t = digest_of ports token" and "logout_execute ports (Some token) v = (Inr (), v')"
  shows "\<exists>t' s. loaded (w_db v') t' s \<and> t_token_hash t' = digest_of ports token \<and> s_id s = t_session_id t \<and> s_revoked_at s \<noteq> None"
proof -
  note out = logout_revokes [OF assms(1,5)]
  have begun: "keeps_tokens (w_db v) (w_db (begin_tx v))" using assms(2) by (simp add: rivals_keep_tokens_def)
  have "keeps_tokens (w_db v) (w_db v')"
    using out only_rivals_keep_tokens [OF assms(2)] revokes_session_keeps_tokens keeps_tokens_trans [OF begun] by blast
  moreover have "sessions_ok (w_db v')" using out world_ok_db by blast
  ultimately obtain t' s where "loaded (w_db v') t' s" "t_token_hash t' = t_token_hash t" "s_id s = t_session_id t"
    using kept_token_loads assms(3) by blast
  with out assms(4) show ?thesis by metis
qed

subsection \<open>Properties\<close>


subsection \<open>Witness\<close>

definition opened_session :: auth_session where
  "opened_session = \<lparr>s_id = 101, s_created_at = Datetime 1000000 True, s_user_id = 3,
     s_idle_expires_at = plus_delta (Datetime 1000000 True) 1000000000, s_revoked_at = None,
     s_refresh_token = Some \<lparr>t_id = 102, t_created_at = Datetime 1000000 True, t_session_id = 101,
       t_token_hash = digest_of sample_ports ''fresh'', t_used_at = None\<rparr>, s_replacement_token = None\<rparr>"

lemma opened_session_starts:
  "start 3 (digest_of sample_ports ''fresh'') (Datetime 1000000 True) 1000000000 101 102 = Inr opened_session"
  by (simp add: start_result opened_session_def sample_digest_length)

definition opened_db :: db where
  "opened_db = (w_db auth_world)\<lparr>db_sessions := db_sessions (w_db auth_world) @ [session_row opened_session],
     db_tokens := db_tokens (w_db auth_world) @ [the (s_refresh_token opened_session)]\<rparr>"

lemma fresh_unused: "digest_of sample_ports ''fresh'' \<notin> t_token_hash ` set (db_tokens (w_db auth_world))"
  using fresh_digest by (simp add: auth_world_sel sample_sel)

lemma opened_created: "session_create opened_session (w_db auth_world) = Inr (opened_session, opened_db)"
  using fresh_unused
  by (auto simp: create_started [OF opened_session_starts] opened_db_def auth_world_sel sample_sel sample_account_def)

lemma sample_login_runs:
  "\<exists>w1. login_execute sample_ports (sample_login ''secret'') auth_world =
     (Inr \<lparr>tp_access_token = ''token'', tp_refresh_token = ''fresh'', tp_token_type = ''bearer''\<rparr>, w1) \<and> w_db w1 = opened_db"
proof -
  have email: "user_get_by_email Some (lc_email (sample_login ''secret'')) [sample_account] = Inr (Some sample_account)"
    using sample_account_loads by (simp add: user_get_by_email_def optional_def sample_login_def sample_account_def)
  have locked: "get_for_update Some (u_id sample_account) [sample_account] = Inr (Some sample_account)"
    using sample_account_loads by (simp add: get_for_update_def optional_def)
  have account: "can_authenticate sample_account" "u_password_hash sample_account = ''secret''" "u_id sample_account = 3"
    by (simp_all add: can_authenticate_def sample_account_def)
  have drawn: "w_drawn auth_world = 0" "w_ticks auth_world = 0"
    by (simp_all add: auth_world_def hot_world_def quiet_world_def)
  have db: "db_users (w_db auth_world) = [sample_account]" by (simp add: auth_world_sel)
  show ?thesis
    using email locked account drawn opened_session_starts opened_created db
    by (simp add: login_execute_def start_session_def uow_def Let_def bind_def query_def auth_world_sel(5-9) aexit_def verify_or_dummy_def
        verify_password_def sleep_jitter_def sample_sel sample_hasher_def emit_def modify_def return_def utc_now_def sample_issue
        new_uuid_def liftr_def stmt_def sample_login_def)
qed

lemma logout_returns:
  assumes "calm v" and ok: "sessions_ok (w_db v)" and l: "loaded (w_db v) t s" and "t_token_hash t = digest_of ports token"
    and rv: "revoke (w_clock v (w_ticks v)) s = Inr s'"
  shows "\<exists>v'. logout_execute ports (Some token) v = (Inr (), v')"
proof -
  have "get_by_refresh_hash_for_update (digest_of ports token) (w_db v) = Inr (Some s)"
    using load_by_hash [OF ok] l assms(4) by blast
  with assms(1) rv save_revoked [OF ok l rv] show ?thesis
    by (simp add: logout_execute_def uow_def Let_def calm_def bind_def query_def utc_now_def liftr_def stmt_def aexit_def)
qed

lemma opened_db_ok: "sessions_ok opened_db"
  unfolding opened_db_def
  by (rule created_ok [OF auth_world_ok opened_session_starts])
    (use fresh_unused in \<open>simp_all add: auth_world_sel sample_sel sample_account_def\<close>)

lemma opened_session_loads: "loaded opened_db (the (s_refresh_token opened_session)) opened_session"
proof -
  have "valid_token (the (s_refresh_token opened_session))"
    using start_valid [OF opened_session_starts] by (simp add: valid_session_def opened_session_def)
  then show ?thesis by (simp add: loaded_def opened_db_def opened_session_def)
qed

lemma calm_only_rivals:
  assumes "calm w" and "only_rivals w w'"
  shows "w_db w' = w_db w"
proof -
  have "rival_run (w_rival w) n k d = d" for n k d
    using assms(1) by (induction "w_rival w" n k d rule: rival_run.induct) (simp_all add: calm_def)
  with assms(2) show ?thesis by (simp add: only_rivals_def)
qed

text \<open>The login of the account, and the logout a minute later.\<close>

abbreviation sample_login_answer :: http_response where
  "sample_login_answer \<equiv> set_tokens_cookies
     \<lparr>tp_access_token = ''token'', tp_refresh_token = ''fresh'', tp_token_type = ''bearer''\<rparr> sample_settings (empty_response 204)"

abbreviation opened_world :: "hot_env world" where
  "opened_world \<equiv> auth_world\<lparr>w_db := opened_db\<rparr>"

lemma sample_login_answered:
  "\<exists>w1. login_endpoint sample_ports sample_settings \<lparr>cr_email = ''ann@example.org'', cr_password = ''secret''\<rparr> auth_world =
     (Inr sample_login_answer, w1) \<and> w_db w1 = opened_db"
proof -
  have "NormalizedEmail Some ''ann@example.org'' = Inr ''ann@example.org''"
    by (simp add: NormalizedEmail_def py_strip_def py_isspace_def casefold_def)
  with sample_login_runs show ?thesis
    by (auto simp: login_endpoint_def request_body_def LoginCommand_def sample_sel sample_login_def bind_def liftr_def return_def)
qed

lemma opened_world_ok:
  "calm opened_world" "world_ok sessions_ok opened_world" "rivals_keep_tokens opened_world"
  using auth_world_calm auth_world_world_ok opened_db_ok
  by (auto simp: calm_def world_ok_def rivals_keep_tokens_def keeps_tokens_def auth_world_sel)

lemma sample_logout_answered:
  "\<exists>v'. logout_endpoint sample_ports sample_settings (Some ''fresh'') opened_world =
     (Inr (delete_auth_cookies sample_settings (empty_response 204)), v')"
proof -
  have "\<exists>s'. revoke (w_clock opened_world (w_ticks opened_world)) opened_session = Inr s'"
    using revoke_result [OF start_valid [OF opened_session_starts]] by (simp add: auth_world_sel opened_session_def)
  then have "\<exists>v'. logout_execute sample_ports (Some ''fresh'') opened_world = (Inr (), v')"
    using logout_returns [OF opened_world_ok(1), of "the (s_refresh_token opened_session)" opened_session sample_ports "''fresh''"]
      opened_db_ok opened_session_loads by (auto simp: opened_session_def)
  then show ?thesis by (auto simp: logout_endpoint_def bind_def return_def)
qed


end
