(* ===== verification/Settings.thy ===== *)
theory Settings
  imports Http Relay
begin

section \<open>Settings and the components built from them\<close>

text \<open>
  The validation of \<open>core/settings\<close> and the providers of \<open>infrastructure/di\<close> that turn settings into
  components. A failing field or a \<open>ValueError\<close> of a validator reaches the caller as pydantic's
  \<open>ValidationError\<close>; \<open>InvalidTokenConfigurationError\<close> is no \<open>ValueError\<close> and passes through. Reading the
  environment and parsing a URL are the work of pydantic: a group of settings arrives here with the types
  of its fields, and the groups are validated in the order of their declaration.
\<close>

subsection \<open>Strings\<close>

fun split_on :: "char \<Rightarrow> string \<Rightarrow> string list" where
  "split_on sep [] = [[]]"
| "split_on sep (c # cs) =
     (if c = sep then [] # split_on sep cs
      else case split_on sep cs of w # ws \<Rightarrow> (c # w) # ws | [] \<Rightarrow> [[c]])"

definition partition_at :: "char \<Rightarrow> string \<Rightarrow> string \<times> bool \<times> string" where
  "partition_at sep s =
     (takeWhile (\<lambda>c. c \<noteq> sep) s, sep \<in> set s, drop 1 (dropWhile (\<lambda>c. c \<noteq> sep) s))"

definition non_blank_setting :: "string \<Rightarrow> exn + string" where
  "non_blank_setting value = (let value = py_strip value in if value = [] then Inl ValidationError else Inr value)"

text \<open>\<open>str.upper\<close> of ASCII letters.\<close>

definition normalize_log_level :: "string \<Rightarrow> string" where
  "normalize_log_level value =
     map (\<lambda>c. let n = (of_char c :: nat) in if 97 \<le> n \<and> n \<le> 122 then char_of (n - 32) else c) value"

definition field :: "bool \<Rightarrow> exn + unit" where
  "field ok = guard_res ok ValidationError"

subsection \<open>Security\<close>

record security_config = security_settings +
  ss_test_token_endpoint_enabled :: bool
  ss_jwt_active_key_id :: string
  ss_jwt_issuer :: string
  ss_jwt_service_audience :: string
  ss_jwt_audiences_raw :: string
  ss_jwt_clock_skew_seconds :: int
  ss_replay_active_key_id :: string
  ss_replay_key_paths_raw :: string

definition JWT_AUDIENCES :: "security_config \<Rightarrow> string list" where
  "JWT_AUDIENCES s = filter (\<lambda>v. v \<noteq> []) (map py_strip (split_on (CHR '','') (ss_jwt_audiences_raw s)))"

fun replay_key_paths :: "(string \<times> string) list \<Rightarrow> string list \<Rightarrow> exn + (string \<times> string) list" where
  "replay_key_paths pairs [] = Inr pairs"
| "replay_key_paths pairs (item # items) =
     (case partition_at (CHR ''='') (py_strip item) of
        (key_id, separator, path) \<Rightarrow>
          if \<not> separator \<or> key_id = [] \<or> path = [] then Inl ValueError
          else replay_key_paths (set_entry key_id path pairs) items)"

definition REPLAY_ENCRYPTION_KEY_PATHS :: "security_config \<Rightarrow> exn + (string \<times> string) list" where
  "REPLAY_ENCRYPTION_KEY_PATHS s = replay_key_paths [] (split_on (CHR '','') (ss_replay_key_paths_raw s))"

definition validate_security_invariants :: "security_config \<Rightarrow> exn + security_config" where
  "validate_security_invariants s =
     (if ss_jwt_service_audience s \<notin> set (JWT_AUDIENCES s) then Inl InvalidTokenConfigurationError
      else case REPLAY_ENCRYPTION_KEY_PATHS s of
        Inl _ \<Rightarrow> Inl ValidationError
      | Inr paths \<Rightarrow>
          if map_of paths (ss_replay_active_key_id s) = None then Inl ValidationError
          else if ss_cookie_samesite s = ''none'' \<and> \<not> ss_cookie_secure s then Inl ValidationError
          else Inr s)"

definition SecuritySettings :: "security_config \<Rightarrow> exn + security_config" where
  "SecuritySettings s =
     bind_res (field (ss_cookie_samesite s \<in> {''lax'', ''strict'', ''none''})) (\<lambda>_.
     bind_res (non_blank_setting (ss_jwt_active_key_id s)) (\<lambda>active_key_id.
     bind_res (non_blank_setting (ss_jwt_issuer s)) (\<lambda>issuer.
     bind_res (non_blank_setting (ss_jwt_service_audience s)) (\<lambda>service_audience.
     bind_res (field (0 \<le> ss_jwt_clock_skew_seconds s)) (\<lambda>_.
     bind_res (field (0 < ss_access_token_ttl_seconds s)) (\<lambda>_.
     bind_res (field (0 < ss_session_idle_ttl_seconds s)) (\<lambda>_.
     bind_res (non_blank_setting (ss_replay_active_key_id s)) (\<lambda>replay_key_id.
       validate_security_invariants (s\<lparr>ss_jwt_active_key_id := active_key_id, ss_jwt_issuer := issuer,
         ss_jwt_service_audience := service_audience, ss_replay_active_key_id := replay_key_id\<rparr>)))))))))"

subsection \<open>The other groups\<close>

record app_settings =
  as_service_name :: string
  as_version :: string
  as_environment :: string
  as_host :: string
  as_port :: int
  as_dev_logs :: bool
  as_log_level :: string
  as_mute_loggers :: "string list"

definition AppSettings :: "app_settings \<Rightarrow> exn + app_settings" where
  "AppSettings s =
     bind_res (non_blank_setting (as_service_name s)) (\<lambda>service_name.
     bind_res (field (as_environment s \<in> {''development'', ''test'', ''production''})) (\<lambda>_.
     bind_res (field (1 \<le> as_port s \<and> as_port s \<le> 65535)) (\<lambda>_.
       Inr (s\<lparr>as_service_name := service_name, as_log_level := normalize_log_level (as_log_level s)\<rparr>))))"

record postgres_settings =
  pg_host :: string
  pg_port :: int
  pg_user :: string
  pg_password :: string
  pg_name :: string
  pg_run_migrations :: bool
  pg_pool_size :: int
  pg_max_overflow :: int
  pg_pool_timeout :: rat
  pg_pool_recycle :: int

definition PostgresSettings :: "postgres_settings \<Rightarrow> exn + postgres_settings" where
  "PostgresSettings s =
     bind_res (field (1 \<le> pg_port s \<and> pg_port s \<le> 65535 \<and> 1 \<le> pg_pool_size s \<and> pg_pool_size s \<le> 100 \<and>
       0 \<le> pg_max_overflow s \<and> pg_max_overflow s \<le> 100 \<and> 1 / 10 \<le> pg_pool_timeout s \<and> 1 \<le> pg_pool_recycle s)) (\<lambda>_. Inr s)"

record valkey_settings =
  vs_host :: string
  vs_port :: int
  vs_db :: int
  vs_key_namespace :: string
  vs_max_connections :: int
  vs_socket_timeout :: rat
  vs_socket_connect_timeout :: rat
  vs_health_check_interval :: int

definition ValkeySettings :: "valkey_settings \<Rightarrow> exn + valkey_settings" where
  "ValkeySettings s =
     bind_res (field (1 \<le> vs_port s \<and> vs_port s \<le> 65535 \<and> 0 \<le> vs_db s)) (\<lambda>_.
     bind_res (non_blank_setting (vs_key_namespace s)) (\<lambda>key_namespace.
     bind_res (field (1 \<le> vs_max_connections s \<and> 1 / 10 \<le> vs_socket_timeout s \<and>
       1 / 10 \<le> vs_socket_connect_timeout s \<and> 0 \<le> vs_health_check_interval s)) (\<lambda>_.
       Inr (s\<lparr>vs_key_namespace := key_namespace\<rparr>))))"

record kafka_settings =
  ks_bootstrap_servers :: string
  ks_client_id :: string
  ks_user_registered_topic :: string
  ks_group_id :: string
  ks_auto_offset_reset :: string

definition KafkaSettings :: "kafka_settings \<Rightarrow> exn + kafka_settings" where
  "KafkaSettings s =
     bind_res (non_blank_setting (ks_bootstrap_servers s)) (\<lambda>servers.
     bind_res (non_blank_setting (ks_client_id s)) (\<lambda>client_id.
       Inr (s\<lparr>ks_bootstrap_servers := servers, ks_client_id := client_id\<rparr>)))"

record outbox_settings =
  os_poll_interval_seconds :: seconds
  os_batch_size :: int
  os_claim_lease_seconds :: seconds
  os_retry_initial_seconds :: seconds
  os_retry_max_seconds :: seconds
  os_retry_exponent :: rat
  os_retry_jitter_ratio :: rat
  os_retry_max_attempts :: int
  os_shutdown_timeout_seconds :: seconds

text \<open>The validator \<open>validate_max_retry_seconds\<close> returns its argument.\<close>

definition OutboxSettings :: "outbox_settings \<Rightarrow> exn + outbox_settings" where
  "OutboxSettings s =
     bind_res (field (0 < os_poll_interval_seconds s \<and> 0 < os_batch_size s \<and> 0 < os_claim_lease_seconds s \<and>
       0 < os_retry_initial_seconds s \<and> 0 < os_retry_max_seconds s \<and> 1 \<le> os_retry_exponent s \<and>
       0 \<le> os_retry_jitter_ratio s \<and> os_retry_jitter_ratio s \<le> 1 \<and> 0 < os_retry_max_attempts s \<and>
       0 < os_shutdown_timeout_seconds s)) (\<lambda>_. Inr s)"

record idempotency_settings =
  is_lease_seconds :: int
  is_result_ttl_seconds :: int
  is_cb_failures :: int
  is_cb_recovery_seconds :: seconds

definition IdempotencySettings :: "idempotency_settings \<Rightarrow> exn + idempotency_settings" where
  "IdempotencySettings s =
     bind_res (field (0 < is_lease_seconds s \<and> 0 < is_result_ttl_seconds s \<and> 0 < is_cb_failures s \<and>
       0 < is_cb_recovery_seconds s)) (\<lambda>_. Inr s)"

record http_url =
  url_username :: "string option"
  url_password :: "string option"
  url_path :: "string option"
  url_query :: "string option"
  url_fragment :: "string option"

record profile_service_settings =
  ps_url :: http_url
  ps_token :: "string option"
  ps_timeout_seconds :: seconds
  ps_retry_delay_seconds :: seconds
  ps_retry_max_delay_seconds :: seconds
  ps_cb_failures :: int
  ps_cb_recovery_seconds :: seconds

definition truthy :: "string option \<Rightarrow> bool" where
  "truthy v = (case v of None \<Rightarrow> False | Some s \<Rightarrow> s \<noteq> [])"

definition validate_origin :: "http_url \<Rightarrow> exn + http_url" where
  "validate_origin value =
     (if truthy (url_username value) \<or> truthy (url_password value) \<or> truthy (url_query value) \<or> truthy (url_fragment value)
      then Inl ValidationError
      else if url_path value \<notin> {None, Some ''/''} then Inl ValidationError
      else Inr value)"

definition is_ascii :: "string \<Rightarrow> bool" where
  "is_ascii s = list_all (\<lambda>c. (of_char c :: nat) < 128) s"

definition validate_token :: "string option \<Rightarrow> exn + string option" where
  "validate_token value =
     (case value of
        None \<Rightarrow> Inr None
      | Some token \<Rightarrow>
          if token = [] \<or> \<not> is_ascii token \<or> list_ex py_isspace token then Inl ValidationError else Inr (Some token))"

definition ProfileServiceSettings :: "profile_service_settings \<Rightarrow> exn + profile_service_settings" where
  "ProfileServiceSettings s =
     bind_res (validate_origin (ps_url s)) (\<lambda>_.
     bind_res (validate_token (ps_token s)) (\<lambda>_.
     bind_res (field (0 < ps_timeout_seconds s \<and> ps_timeout_seconds s \<le> 30 \<and>
       0 \<le> ps_retry_delay_seconds s \<and> ps_retry_delay_seconds s \<le> 5 \<and>
       0 < ps_retry_max_delay_seconds s \<and> ps_retry_max_delay_seconds s \<le> 30 \<and>
       0 < ps_cb_failures s \<and> ps_cb_failures s \<le> 100 \<and>
       0 < ps_cb_recovery_seconds s \<and> ps_cb_recovery_seconds s \<le> 300)) (\<lambda>_.
       if ps_retry_max_delay_seconds s < ps_retry_delay_seconds s then Inl ValidationError else Inr s)))"

record registration_settings =
  rg_poll_interval_seconds :: seconds
  rg_batch_size :: int
  rg_claim_lease_seconds :: seconds
  rg_retry_initial_seconds :: seconds
  rg_retry_max_seconds :: seconds
  rg_retry_exponent :: rat
  rg_retry_jitter_ratio :: rat
  rg_retry_max_attempts :: int
  rg_shutdown_timeout_seconds :: seconds

definition RegistrationSettings :: "registration_settings \<Rightarrow> exn + registration_settings" where
  "RegistrationSettings s =
     bind_res (field (0 < rg_poll_interval_seconds s \<and> 0 < rg_batch_size s \<and> rg_batch_size s \<le> 500 \<and>
       0 < rg_claim_lease_seconds s \<and> 0 < rg_retry_initial_seconds s \<and> 0 < rg_retry_max_seconds s \<and>
       1 \<le> rg_retry_exponent s \<and> 0 \<le> rg_retry_jitter_ratio s \<and> rg_retry_jitter_ratio s \<le> 1 \<and>
       0 < rg_retry_max_attempts s \<and> 0 < rg_shutdown_timeout_seconds s)) (\<lambda>_.
       if rg_retry_max_seconds s < rg_retry_initial_seconds s then Inl ValidationError else Inr s)"

subsection \<open>\<open>Settings\<close>\<close>

record settings =
  st_app :: app_settings
  st_postgres :: postgres_settings
  st_valkey :: valkey_settings
  st_kafka :: kafka_settings
  st_outbox :: outbox_settings
  st_security :: security_config
  st_idempotency :: idempotency_settings
  st_profile_service :: profile_service_settings
  st_registration :: registration_settings

definition test_token_endpoint_enabled :: "settings \<Rightarrow> bool" where
  "test_token_endpoint_enabled s \<longleftrightarrow>
     as_environment (st_app s) \<noteq> ''production'' \<and> ss_test_token_endpoint_enabled (st_security s)"

definition validate_security_contract :: "settings \<Rightarrow> exn + settings" where
  "validate_security_contract s =
     (if as_environment (st_app s) = ''production'' \<and> ss_test_token_endpoint_enabled (st_security s)
      then Inl InvalidTokenConfigurationError
      else
        let maximum_profile_attempt_seconds =
              2 * ps_timeout_seconds (st_profile_service s) + ps_retry_max_delay_seconds (st_profile_service s)
        in if rg_claim_lease_seconds (st_registration s) \<le> maximum_profile_attempt_seconds then Inl ValidationError
           else Inr s)"

definition Settings :: "settings \<Rightarrow> exn + settings" where
  "Settings s =
     bind_res (AppSettings (st_app s)) (\<lambda>app.
     bind_res (PostgresSettings (st_postgres s)) (\<lambda>postgres.
     bind_res (ValkeySettings (st_valkey s)) (\<lambda>valkey.
     bind_res (KafkaSettings (st_kafka s)) (\<lambda>kafka.
     bind_res (OutboxSettings (st_outbox s)) (\<lambda>outbox.
     bind_res (SecuritySettings (st_security s)) (\<lambda>security.
     bind_res (IdempotencySettings (st_idempotency s)) (\<lambda>idempotency.
     bind_res (ProfileServiceSettings (st_profile_service s)) (\<lambda>profile_service.
     bind_res (RegistrationSettings (st_registration s)) (\<lambda>registration.
       validate_security_contract \<lparr>st_app = app, st_postgres = postgres, st_valkey = valkey, st_kafka = kafka, st_outbox = outbox,
         st_security = security, st_idempotency = idempotency, st_profile_service = profile_service,
         st_registration = registration\<rparr>)))))))))"

subsection \<open>Providers\<close>

definition provide_profile_circuit_breaker :: "profile_service_settings \<Rightarrow> exn + breaker" where
  "provide_profile_circuit_breaker s = CircuitBreaker (ps_cb_failures s) (ps_cb_recovery_seconds s)"

definition provide_profile_provisioner :: "profile_service_settings \<Rightarrow> exn + provisioner" where
  "provide_profile_provisioner s =
     HTTPProfileProvisioner \<lparr>pc_configured = (ps_token s \<noteq> None),
       pc_retry_delay_seconds = ps_retry_delay_seconds s, pc_retry_max_delay_seconds = ps_retry_max_delay_seconds s\<rparr>"

definition provide_registration ::
    "(string \<Rightarrow> string option) \<Rightarrow> (string \<Rightarrow> exn + string) \<Rightarrow> (string \<Rightarrow> string \<Rightarrow> exn + bool) \<Rightarrow> settings
     \<Rightarrow> exn + registration_config" where
  "provide_registration email_str hash verify s =
     bind_res (RegistrationRetryPolicy \<lparr>initial_seconds = rg_retry_initial_seconds (st_registration s),
       max_seconds = rg_retry_max_seconds (st_registration s), exponent = rg_retry_exponent (st_registration s),
       jitter_ratio = rg_retry_jitter_ratio (st_registration s), max_attempts = rg_retry_max_attempts (st_registration s)\<rparr>) (\<lambda>policy.
     if rg_claim_lease_seconds (st_registration s) \<le> 0 then Inl ValueError
     else Inr \<lparr>g_email_str = email_str, g_hash = hash, g_verify = verify,
            g_topic = ks_user_registered_topic (st_kafka s), g_producer = as_service_name (st_app s), g_policy = policy,
            g_claim_lease_seconds = rg_claim_lease_seconds (st_registration s)\<rparr>)"

definition provide_outbox_relay_service :: "outbox_settings \<Rightarrow> exn + relay_config" where
  "provide_outbox_relay_service s =
     bind_res (OutboxRetryPolicy \<lparr>initial_seconds = os_retry_initial_seconds s, max_seconds = os_retry_max_seconds s,
       exponent = os_retry_exponent s, jitter_ratio = os_retry_jitter_ratio s, max_attempts = os_retry_max_attempts s\<rparr>) (\<lambda>policy.
       OutboxRelayService \<lparr>l_claim_lease_seconds = os_claim_lease_seconds s, l_policy = policy\<rparr>)"

definition provide_issuer :: "security_config \<Rightarrow> 'k \<Rightarrow> exn + 'k access_issuer" where
  "provide_issuer s private_key =
     PyJWTAccessTokenIssuer \<lparr>ai_private_key = private_key, ai_key_id = ss_jwt_active_key_id s,
       ai_issuer = ss_jwt_issuer s, ai_audiences = JWT_AUDIENCES s, ai_ttl = ss_access_token_ttl_seconds s * 1000000\<rparr>"

definition provide_verifier :: "('k \<Rightarrow> int) \<Rightarrow> security_config \<Rightarrow> 'k \<Rightarrow> exn + 'k access_verifier" where
  "provide_verifier key_size s public_key =
     PyJWTAccessTokenVerifier key_size \<lparr>av_public_keys = [(ss_jwt_active_key_id s, public_key)],
       av_issuer = ss_jwt_issuer s, av_audience = ss_jwt_service_audience s,
       av_leeway = ss_jwt_clock_skew_seconds s * 1000000\<rparr>"

fun load_replay_keys :: "(string \<Rightarrow> bytes) \<Rightarrow> (string \<times> string) list \<Rightarrow> exn + (string \<times> bytes) list" where
  "load_replay_keys file [] = Inr []"
| "load_replay_keys file ((key_id, path) # paths) =
     bind_res (load_replay_key (file path)) (\<lambda>key.
     bind_res (load_replay_keys file paths) (\<lambda>keys. Inr ((key_id, key) # keys)))"

text \<open>\<open>file\<close> gives the contents of a secret; AES-GCM and the random source are those of \<open>lib\<close>.\<close>

definition provide_replay_protector :: "'e protector \<Rightarrow> (string \<Rightarrow> bytes) \<Rightarrow> security_config \<Rightarrow> exn + 'e protector" where
  "provide_replay_protector lib file s =
     bind_res (REPLAY_ENCRYPTION_KEY_PATHS s) (\<lambda>paths.
     bind_res (load_replay_keys file paths) (\<lambda>keys.
       AESGCMReplayResultProtector (lib\<lparr>pr_active_key_id := ss_replay_active_key_id s, pr_keys := keys\<rparr>)))"

definition provide_hot_store :: "valkey \<Rightarrow> settings \<Rightarrow> exn + breaker \<times> valkey" where
  "provide_hot_store lib s =
     bind_res (CircuitBreaker (is_cb_failures (st_idempotency s)) (is_cb_recovery_seconds (st_idempotency s))) (\<lambda>circuit_breaker.
     bind_res (ValkeyHotIdempotencyStore (lib\<lparr>vk_result_ttl_seconds := is_result_ttl_seconds (st_idempotency s),
         vk_key_namespace := vs_key_namespace (st_valkey s)\<rparr>)) (\<lambda>vk. Inr (circuit_breaker, vk)))"

text \<open>The settings that \<open>LoginHandler\<close>, \<open>RefreshHandler\<close> and the idempotency records are given.\<close>

definition provide_session_ports ::
    "('k, hot_env) session_ports \<Rightarrow> 'k access_issuer \<Rightarrow> 'k access_verifier \<Rightarrow> hot_env protector \<Rightarrow> valkey \<Rightarrow> settings
     \<Rightarrow> ('k, hot_env) session_ports" where
  "provide_session_ports lib issuer verifier replay_protector vk s =
     lib\<lparr>sp_issuer := (sp_issuer lib)\<lparr>ti_access := issuer\<rparr>, sp_verifier := verifier, sp_protector := replay_protector,
       sp_hot_store := Some (hot_idempotency_store vk),
       sp_session_idle_ttl := ss_session_idle_ttl_seconds (st_security s) * 1000000,
       sp_lease_seconds := is_lease_seconds (st_idempotency s),
       sp_retention_seconds := is_result_ttl_seconds (st_idempotency s)\<rparr>"

text \<open>\<open>create_app\<close>: the router and the exception handlers get their arguments from the settings.\<close>

definition create_app ::
    "('k, 'e) auth_app \<Rightarrow> ((exn \<times> http_error_spec) list \<Rightarrow> exn \<Rightarrow> http_error_spec option) \<Rightarrow> settings \<Rightarrow> auth_request
     \<Rightarrow> ('e, http_response) io option" where
  "create_app app dispatch s request =
     map_option (serve dispatch (is_lease_seconds (st_idempotency s)))
       (create_auth_router (app\<lparr>aa_settings := security_settings.truncate (st_security s)\<rparr>)
          (test_token_endpoint_enabled s) request)"

subsection \<open>What accepted settings guarantee\<close>

lemma py_strip_idem [simp]: "py_strip (py_strip s) = py_strip s"
proof -
  let ?t = "dropWhile py_isspace s"
  let ?r = "py_strip s"
  have r: "?r = rev (dropWhile py_isspace (rev ?t))" by (simp add: py_strip_def)
  have "dropWhile py_isspace ?r = ?r"
  proof (cases ?r)
    case (Cons c cs)
    obtain rest where "?t = ?r @ rest"
      by (metis r rev_append rev_rev_ident takeWhile_dropWhile_id)
    with Cons have "?t \<noteq> []" "hd ?t = c" by auto
    with hd_dropWhile [of py_isspace s] Cons show ?thesis by simp
  qed simp
  moreover have "rev (dropWhile py_isspace (rev ?r)) = ?r" unfolding r by simp
  ultimately show ?thesis by (simp add: py_strip_def)
qed

lemma non_blank_setting_Inr: "non_blank_setting v = Inr v' \<longleftrightarrow> v' = py_strip v \<and> v' \<noteq> []"
  by (auto simp: non_blank_setting_def Let_def)

lemma field_Inr [simp]: "field ok = Inr u \<longleftrightarrow> ok"
  by (simp add: field_def)

lemma SecuritySettings_Inr:
  assumes "SecuritySettings s = Inr s'"
  shows "ss_jwt_active_key_id s' \<noteq> []" "py_strip (ss_jwt_active_key_id s') = ss_jwt_active_key_id s'"
    "ss_jwt_issuer s' \<noteq> []" "py_strip (ss_jwt_issuer s') = ss_jwt_issuer s'"
    "ss_jwt_service_audience s' \<noteq> []" "py_strip (ss_jwt_service_audience s') = ss_jwt_service_audience s'"
    "ss_jwt_service_audience s' \<in> set (JWT_AUDIENCES s')"
    "0 \<le> ss_jwt_clock_skew_seconds s'" "0 < ss_access_token_ttl_seconds s'" "0 < ss_session_idle_ttl_seconds s'"
    "ss_cookie_samesite s' = ''none'' \<longrightarrow> ss_cookie_secure s'"
    "\<exists>paths. REPLAY_ENCRYPTION_KEY_PATHS s' = Inr paths \<and> map_of paths (ss_replay_active_key_id s') \<noteq> None"
  using assms unfolding SecuritySettings_def validate_security_invariants_def
  by (auto simp: bind_res_eq_Inr non_blank_setting_Inr split: if_splits sum.splits)

lemma Settings_Inr:
  assumes "Settings s = Inr s'"
  shows "\<exists>x. SecuritySettings x = Inr (st_security s')" "OutboxSettings (st_outbox s') = Inr (st_outbox s')"
    "IdempotencySettings (st_idempotency s') = Inr (st_idempotency s')"
    "ProfileServiceSettings (st_profile_service s') = Inr (st_profile_service s')"
    "RegistrationSettings (st_registration s') = Inr (st_registration s')" "vs_key_namespace (st_valkey s') \<noteq> []"
    "2 * ps_timeout_seconds (st_profile_service s') + ps_retry_max_delay_seconds (st_profile_service s')
       < rg_claim_lease_seconds (st_registration s')"
    "as_environment (st_app s') = ''production'' \<longrightarrow> \<not> ss_test_token_endpoint_enabled (st_security s')"
proof -
  from assms obtain app postgres valkey kafka outbox security idempotency profile_service registration where
    parts: "ValkeySettings (st_valkey s) = Inr valkey" "OutboxSettings (st_outbox s) = Inr outbox"
      "SecuritySettings (st_security s) = Inr security" "IdempotencySettings (st_idempotency s) = Inr idempotency"
      "ProfileServiceSettings (st_profile_service s) = Inr profile_service" "RegistrationSettings (st_registration s) = Inr registration"
    and contract: "validate_security_contract \<lparr>st_app = app, st_postgres = postgres, st_valkey = valkey, st_kafka = kafka, st_outbox = outbox,
         st_security = security, st_idempotency = idempotency, st_profile_service = profile_service,
         st_registration = registration\<rparr> = Inr s'"
    unfolding Settings_def by (auto simp: bind_res_eq_Inr)
  from parts(2) have "outbox = st_outbox s" by (auto simp: OutboxSettings_def bind_res_eq_Inr)
  moreover from parts(4) have "idempotency = st_idempotency s" by (auto simp: IdempotencySettings_def bind_res_eq_Inr)
  moreover from parts(5) have "profile_service = st_profile_service s"
    by (auto simp: ProfileServiceSettings_def bind_res_eq_Inr split: if_splits)
  moreover from parts(6) have "registration = st_registration s"
    by (auto simp: RegistrationSettings_def bind_res_eq_Inr split: if_splits)
  moreover from parts(1) have "vs_key_namespace valkey \<noteq> []"
    by (auto simp: ValkeySettings_def bind_res_eq_Inr non_blank_setting_Inr)
  moreover from contract have "s' = \<lparr>st_app = app, st_postgres = postgres, st_valkey = valkey, st_kafka = kafka, st_outbox = outbox,
         st_security = security, st_idempotency = idempotency, st_profile_service = profile_service,
         st_registration = registration\<rparr>"
    by (auto simp: validate_security_contract_def Let_def split: if_splits)
  ultimately show "\<exists>x. SecuritySettings x = Inr (st_security s')" "OutboxSettings (st_outbox s') = Inr (st_outbox s')"
    "IdempotencySettings (st_idempotency s') = Inr (st_idempotency s')"
    "ProfileServiceSettings (st_profile_service s') = Inr (st_profile_service s')"
    "RegistrationSettings (st_registration s') = Inr (st_registration s')" "vs_key_namespace (st_valkey s') \<noteq> []"
    "2 * ps_timeout_seconds (st_profile_service s') + ps_retry_max_delay_seconds (st_profile_service s')
       < rg_claim_lease_seconds (st_registration s')"
    "as_environment (st_app s') = ''production'' \<longrightarrow> \<not> ss_test_token_endpoint_enabled (st_security s')"
    using parts contract by (auto simp: validate_security_contract_def Let_def split: if_splits)
qed

lemma JWT_AUDIENCES_stripped: "v \<in> set (JWT_AUDIENCES s) \<Longrightarrow> py_strip v = v \<and> v \<noteq> []"
  by (auto simp: JWT_AUDIENCES_def)

lemma strip_audiences: "map py_strip (JWT_AUDIENCES s) = JWT_AUDIENCES s"
  by (rule map_idI) (simp add: JWT_AUDIENCES_stripped)

lemma provide_issuer_Inr:
  assumes "SecuritySettings s0 = Inr s"
  shows "provide_issuer s key = Inr \<lparr>ai_private_key = key, ai_key_id = ss_jwt_active_key_id s, ai_issuer = ss_jwt_issuer s,
    ai_audiences = sort (remdups (JWT_AUDIENCES s)), ai_ttl = ss_access_token_ttl_seconds s * 1000000\<rparr>"
proof -
  note sec = SecuritySettings_Inr [OF assms]
  have "JWT_AUDIENCES s \<noteq> []" using sec(7) by auto
  moreover have "sort (remdups (JWT_AUDIENCES s)) \<noteq> []" using sec(7) by (metis empty_iff list.set(1) set_remdups set_sort)
  moreover have "\<not> list_ex (\<lambda>a. a = []) (sort (remdups (JWT_AUDIENCES s)))" by (auto simp: list_ex_iff JWT_AUDIENCES_stripped)
  ultimately show ?thesis using sec
    by (simp add: provide_issuer_def PyJWTAccessTokenIssuer_def Let_def strip_audiences)
qed

lemma provide_verifier_Inr:
  assumes "SecuritySettings s0 = Inr s" and "2048 \<le> key_size key"
  shows "provide_verifier key_size s key = Inr \<lparr>av_public_keys = [(ss_jwt_active_key_id s, key)], av_issuer = ss_jwt_issuer s,
    av_audience = ss_jwt_service_audience s, av_leeway = ss_jwt_clock_skew_seconds s * 1000000\<rparr>"
  using SecuritySettings_Inr [OF assms(1)] assms(2)
  by (simp add: provide_verifier_def PyJWTAccessTokenVerifier_def Let_def)

subsection \<open>Properties\<close>


text \<open>
  The settings of the outbox are accepted without a check that the longest retry delay is at least the
  first one: then the provider of the relay raises \<open>ValueError\<close>, and in every other case it returns the
  configured service.
\<close>
theorem relay_may_not_start:
  assumes "Settings s0 = Inr s"
  shows "provide_outbox_relay_service (st_outbox s) =
    (if os_retry_max_seconds (st_outbox s) < os_retry_initial_seconds (st_outbox s) then Inl ValueError
     else Inr \<lparr>l_claim_lease_seconds = os_claim_lease_seconds (st_outbox s),
       l_policy = \<lparr>initial_seconds = os_retry_initial_seconds (st_outbox s), max_seconds = os_retry_max_seconds (st_outbox s),
         exponent = os_retry_exponent (st_outbox s), jitter_ratio = os_retry_jitter_ratio (st_outbox s),
         max_attempts = os_retry_max_attempts (st_outbox s)\<rparr>\<rparr>)"
  using Settings_Inr(2) [OF assms]
  by (auto simp: OutboxSettings_def bind_res_eq_Inr provide_outbox_relay_service_def OutboxRetryPolicy_def OutboxRelayService_def)

text \<open>
  The settings bound neither the number of attempts nor the exponent from above, and the power is taken
  before it is capped: from the attempt 1025 on, the default exponent leaves the range of a float.
\<close>

lemma late_attempt_overflows:
  assumes "exponent p = 2" and "1025 \<le> attempt"
  shows "delay_seconds p attempt jitter = Inl OverflowError"
proof -
  have "1024 \<le> nat (max 0 (attempt - 1))" using assms(2) by simp
  then have "(2 :: rat) ^ 1024 \<le> 2 ^ nat (max 0 (attempt - 1))" by (intro power_increasing) simp_all
  then show ?thesis using assms(1) by (simp add: delay_seconds_def float_pow_def float_limit_def Let_def not_less)
qed


text \<open>
  What PyJWT and pydantic promise for one token: the header is the one that was signed, with the
  algorithm; the key that belongs to the signing key decodes it to the claims, dates as whole seconds, if the
  expected issuer is the one in it and the expected audience one of those in it; and an identifier and a
  date are read back from their serialised form. That the token has not expired is part of it.
\<close>

definition claims_payload :: "access_payload \<Rightarrow> json" where
  "claims_payload p = JObj [(''iss'', JStr (jc_iss p)), (''sub'', JStr (jc_sub p)), (''aud'', JList (map JStr (jc_aud p))),
     (''iat'', JInt (instant (jc_iat p) div 1000000)), (''exp'', JInt (instant (jc_exp p) div 1000000)),
     (''jti'', JStr (jc_jti p)), (''role'', JStr (jc_role p))]"

definition jwt_roundtrip :: "'k jwt_lib \<Rightarrow> 'k \<Rightarrow> json \<Rightarrow> access_payload \<Rightarrow> timedelta \<Rightarrow> string \<Rightarrow> bool" where
  "jwt_roundtrip lib public_key headers payload leeway token \<longleftrightarrow>
     token \<noteq> [] \<and>
     (\<exists>header. jl_header lib token = Inr header \<and> json_field ''alg'' header = Some (JStr ''RS256'') \<and>
        json_field ''typ'' header = json_field ''typ'' headers \<and> json_field ''kid'' header = json_field ''kid'' headers) \<and>
     (\<forall>audience \<in> set (jc_aud payload).
        jl_decode lib public_key (jc_iss payload) audience leeway token = Inr (claims_payload payload))"

definition conversions :: "'k jwt_lib \<Rightarrow> uuid set \<Rightarrow> bool" where
  "conversions lib ids \<longleftrightarrow>
     (\<forall>u \<in> ids. jl_uuid lib (JStr (uuid_str u)) = Some u) \<and>
     (\<forall>n. jl_datetime lib (JInt n) = Some (Datetime (n * 1000000) True))"

lemma non_blanks_stripped: "\<forall>a \<in> set as. py_strip a = a \<and> a \<noteq> [] \<Longrightarrow> non_blanks (map JStr as) = Some as"
  by (induction as) (simp_all add: non_blank_def)

lemma audiences_of_stripped:
  assumes "\<forall>a \<in> set as. py_strip a = a \<and> a \<noteq> []" and "as \<noteq> []"
  shows "audiences_of (JList (map JStr as)) = Some (sort (remdups as))"
  using non_blanks_stripped [OF assms(1)] assms(2) by (cases as) (simp_all add: audiences_of_def)

lemma role_roundtrip: "role_of_value (role_value r) = Some r"
  by (cases r) (simp_all add: role_of_value_def role_value_def)

lemma claims_of_issued:
  assumes sec: "SecuritySettings s0 = Inr s" and iss: "provide_issuer s private_key = Inr iss"
    and conv: "conversions lib {u, jti}" and now: "tz_aware now"
  shows "claims_of_payload lib (claims_payload (access_claims iss \<lparr>ap_user_id = u, ap_role = role\<rparr> now jti)) =
    Some \<lparr>ac_issuer = ss_jwt_issuer s, ac_user_id = u, ac_audiences = sort (remdups (JWT_AUDIENCES s)),
      ac_issued_at = Datetime (instant now div 1000000 * 1000000) True,
      ac_expires_at = Datetime ((instant now div 1000000 + ss_access_token_ttl_seconds s) * 1000000) True,
      ac_token_id = jti, ac_role = role\<rparr>"
proof -
  note props = SecuritySettings_Inr [OF sec]
  let ?as = "sort (remdups (JWT_AUDIENCES s))"
  have as: "audiences_of (JList (map JStr ?as)) = Some ?as"
  proof -
    have "\<forall>a \<in> set ?as. py_strip a = a \<and> a \<noteq> []" by (simp add: JWT_AUDIENCES_stripped)
    moreover have "?as \<noteq> []" using props(7) by (metis empty_iff list.set(1) set_remdups set_sort)
    moreover have "sort (remdups ?as) = ?as" by (simp add: distinct_remdups_id sort_key_id_if_sorted)
    ultimately show ?thesis using audiences_of_stripped by metis
  qed
  have iss_eq: "iss = \<lparr>ai_private_key = private_key, ai_key_id = ss_jwt_active_key_id s, ai_issuer = ss_jwt_issuer s,
      ai_audiences = ?as, ai_ttl = ss_access_token_ttl_seconds s * 1000000\<rparr>"
    using iss provide_issuer_Inr [OF sec, of private_key] by simp
  show ?thesis
    using props as conv now unfolding iss_eq
    by (simp add: claims_of_payload_def claims_payload_def access_claims_def claim_def json_field_def non_blank_def
        numeric_date_def conversions_def role_roundtrip plus_delta_def)
qed

text \<open>
  C36. The access tokens of the service are accepted by the service: a token that the configured issuer has
  signed is, while it is valid, verified by the configured verifier, which reads back the user, the role and the
  token ID it was issued for, and a life-time of exactly the configured number of seconds.
\<close>
theorem issued_access_token_is_accepted:
  assumes ok: "Settings s0 = Inr s" and size: "2048 \<le> jl_key_size lib public_key"
    and iss: "provide_issuer (st_security s) private_key = Inr iss"
    and ver: "provide_verifier (jl_key_size lib) (st_security s) public_key = Inr ver"
    and run: "access_issue lib iss \<lparr>ap_user_id = u, ap_role = role\<rparr> now w = (Inr token, w')"
    and jwt: "jwt_roundtrip lib public_key (jwt_headers iss) (access_claims iss \<lparr>ap_user_id = u, ap_role = role\<rparr> now
                (w_uuids w (w_drawn w))) (av_leeway ver) token"
    and conv: "conversions lib {u, w_uuids w (w_drawn w)}"
  shows "\<exists>c. access_verify lib ver token = Inr c \<and> ac_user_id c = u \<and> ac_role c = role \<and> ac_token_id c = w_uuids w (w_drawn w) \<and>
    instant (ac_expires_at c) - instant (ac_issued_at c) = ss_access_token_ttl_seconds (st_security s) * 1000000"
proof -
  from Settings_Inr(1) [OF ok] obtain s1 where sec: "SecuritySettings s1 = Inr (st_security s)" by blast
  let ?s = "st_security s" and ?jti = "w_uuids w (w_drawn w)"
  have now: "tz_aware now" using run by (auto simp: access_issue_def throw_def split: if_splits)
  have iss_eq: "iss = \<lparr>ai_private_key = private_key, ai_key_id = ss_jwt_active_key_id ?s, ai_issuer = ss_jwt_issuer ?s,
      ai_audiences = sort (remdups (JWT_AUDIENCES ?s)), ai_ttl = ss_access_token_ttl_seconds ?s * 1000000\<rparr>"
    using iss provide_issuer_Inr [OF sec, of private_key] by simp
  have ver_eq: "ver = \<lparr>av_public_keys = [(ss_jwt_active_key_id ?s, public_key)], av_issuer = ss_jwt_issuer ?s,
      av_audience = ss_jwt_service_audience ?s, av_leeway = ss_jwt_clock_skew_seconds ?s * 1000000\<rparr>"
    using ver provide_verifier_Inr [where key_size = "jl_key_size lib" and key = public_key, OF sec size] by simp
  have "select_public_key lib ver token = Inr public_key"
    using jwt by (auto simp: select_public_key_def jwt_roundtrip_def jwt_headers_def iss_eq ver_eq json_field_def)
  moreover have "jl_decode lib public_key (av_issuer ver) (av_audience ver) (av_leeway ver) token =
      Inr (claims_payload (access_claims iss \<lparr>ap_user_id = u, ap_role = role\<rparr> now ?jti))"
    using jwt SecuritySettings_Inr(7) [OF sec] by (simp add: jwt_roundtrip_def access_claims_def iss_eq ver_eq)
  ultimately show ?thesis
    using claims_of_issued [OF sec iss conv now] by (simp add: access_verify_def algebra_simps)
qed

subsection \<open>Witnesses\<close>

text \<open>The defaults of the code, in production, with shorter lists.\<close>

definition setup_security :: security_config where
  "setup_security = \<lparr>ss_cookie_secure = True, ss_cookie_samesite = ''lax'', ss_access_token_ttl_seconds = 900,
     ss_session_idle_ttl_seconds = 2592000, ss_test_token_endpoint_enabled = False, ss_jwt_active_key_id = ''k1'',
     ss_jwt_issuer = ''identity'', ss_jwt_service_audience = ''api'', ss_jwt_audiences_raw = ''api, ws,'',
     ss_jwt_clock_skew_seconds = 30, ss_replay_active_key_id = ''r1'', ss_replay_key_paths_raw = ''r1=/run/key''\<rparr>"

definition setup_outbox :: "seconds \<Rightarrow> outbox_settings" where
  "setup_outbox longest = \<lparr>os_poll_interval_seconds = 2, os_batch_size = 50, os_claim_lease_seconds = 30,
     os_retry_initial_seconds = 1, os_retry_max_seconds = longest, os_retry_exponent = 2, os_retry_jitter_ratio = 1 / 5,
     os_retry_max_attempts = 10, os_shutdown_timeout_seconds = 10\<rparr>"

definition start_up :: "seconds \<Rightarrow> settings" where
  "start_up longest = \<lparr>st_app = \<lparr>as_service_name = ''identity'', as_version = ''0.1.0'', as_environment = ''production'', as_host = ''0.0.0.0'',
       as_port = 8001, as_dev_logs = False, as_log_level = ''INFO'', as_mute_loggers = []\<rparr>,
     st_postgres = \<lparr>pg_host = ''db'', pg_port = 5432, pg_user = ''u'', pg_password = ''p'', pg_name = ''identity'',
       pg_run_migrations = False, pg_pool_size = 10, pg_max_overflow = 20, pg_pool_timeout = 30, pg_pool_recycle = 1800\<rparr>,
     st_valkey = \<lparr>vs_host = ''valkey'', vs_port = 6379, vs_db = 0, vs_key_namespace = ''ns'', vs_max_connections = 50, vs_socket_timeout = 2,
       vs_socket_connect_timeout = 2, vs_health_check_interval = 30\<rparr>,
     st_kafka = \<lparr>ks_bootstrap_servers = ''kafka'', ks_client_id = ''identity'', ks_user_registered_topic = ''users'',
       ks_group_id = ''identity'', ks_auto_offset_reset = ''earliest''\<rparr>,
     st_outbox = setup_outbox longest, st_security = setup_security,
     st_idempotency = \<lparr>is_lease_seconds = 30, is_result_ttl_seconds = 300, is_cb_failures = 3, is_cb_recovery_seconds = 10\<rparr>,
     st_profile_service = \<lparr>ps_url = \<lparr>url_username = None, url_password = None, url_path = Some ''/'', url_query = None,
       url_fragment = None\<rparr>, ps_token = Some ''t'', ps_timeout_seconds = 3, ps_retry_delay_seconds = 1 / 10,
       ps_retry_max_delay_seconds = 1, ps_cb_failures = 5, ps_cb_recovery_seconds = 30\<rparr>,
     st_registration = \<lparr>rg_poll_interval_seconds = 2, rg_batch_size = 25, rg_claim_lease_seconds = 30,
       rg_retry_initial_seconds = 1, rg_retry_max_seconds = 60, rg_retry_exponent = 2, rg_retry_jitter_ratio = 1 / 5,
       rg_retry_max_attempts = 10, rg_shutdown_timeout_seconds = 30\<rparr>\<rparr>"

lemma setup_strips:
  "py_strip ''k1'' = ''k1''" "py_strip ''identity'' = ''identity''" "py_strip ''api'' = ''api''" "py_strip '' ws'' = ''ws''"
  "py_strip [] = []" "py_strip ''r1'' = ''r1''" "py_strip ''r1=/run/key'' = ''r1=/run/key''" "py_strip ''ns'' = ''ns''"
  "py_strip ''kafka'' = ''kafka''"
  by (simp_all add: py_strip_def py_isspace_def)

lemma setup_log_level: "normalize_log_level ''INFO'' = ''INFO''"
  by (simp add: normalize_log_level_def)

lemma setup_security_accepted: "SecuritySettings setup_security = Inr setup_security"
  by (simp add: SecuritySettings_def setup_security_def non_blank_setting_def setup_strips validate_security_invariants_def
      JWT_AUDIENCES_def REPLAY_ENCRYPTION_KEY_PATHS_def partition_at_def field_def)

lemma setup_accepted: "0 < longest \<Longrightarrow> Settings (start_up longest) = Inr (start_up longest)"
  using setup_security_accepted
  by (simp add: Settings_def start_up_def setup_outbox_def AppSettings_def PostgresSettings_def ValkeySettings_def KafkaSettings_def OutboxSettings_def
      IdempotencySettings_def ProfileServiceSettings_def RegistrationSettings_def validate_security_contract_def
      validate_origin_def validate_token_def truthy_def is_ascii_def py_isspace_def non_blank_setting_def setup_strips field_def
      setup_security_def setup_log_level)


theorem relay_may_not_start_witness:
  "Settings (start_up (1 / 2)) = Inr (start_up (1 / 2)) \<and> provide_outbox_relay_service (setup_outbox (1 / 2)) = Inl ValueError"
  using relay_may_not_start [OF setup_accepted [of "1 / 2"]] setup_accepted [of "1 / 2"]
  by (simp add: start_up_def setup_outbox_def)


definition setup_lib :: "unit jwt_lib" where
  "setup_lib = \<lparr>jl_encode = (\<lambda>_ _ _. Inr ''token''),
     jl_header = (\<lambda>_. Inr (JObj [(''alg'', JStr ''RS256''), (''typ'', JStr ''at+jwt''), (''kid'', JStr ''k1'')])),
     jl_decode = (\<lambda>_ _ _ _ _. Inr (JObj [(''iss'', JStr ''identity''), (''sub'', JStr (uuid_str 3)),
        (''aud'', JList [JStr ''api'', JStr ''ws'']), (''iat'', JInt 10), (''exp'', JInt 910), (''jti'', JStr (uuid_str 4)),
        (''role'', JStr ''USER'')])),
     jl_uuid = (\<lambda>j. case j of JStr x \<Rightarrow> if x = uuid_str 3 then Some 3 else if x = uuid_str 4 then Some 4 else None | _ \<Rightarrow> None),
     jl_datetime = (\<lambda>j. case j of JInt i \<Rightarrow> Some (Datetime (i * 1000000) True) | _ \<Rightarrow> None),
     jl_key_size = (\<lambda>_. 2048)\<rparr>"

theorem issued_access_token_is_accepted_witness:
  "\<exists>iss ver token w' c. provide_issuer setup_security () = Inr iss \<and>
     access_issue setup_lib iss \<lparr>ap_user_id = 3, ap_role = USER\<rparr> (Datetime 10500000 True)
       (auth_world\<lparr>w_uuids := \<lambda>_. 4\<rparr>) = (Inr token, w') \<and>
     provide_verifier (\<lambda>_. 2048) setup_security () = Inr ver \<and> access_verify setup_lib ver token = Inr c \<and> ac_user_id c = 3"
proof -
  let ?w = "auth_world\<lparr>w_uuids := \<lambda>_. 4\<rparr>" and ?now = "Datetime 10500000 True" and ?s = "start_up 60"
  obtain iss where iss: "provide_issuer (st_security ?s) () = Inr iss"
    and auds: "iss = \<lparr>ai_private_key = (), ai_key_id = ''k1'', ai_issuer = ''identity'',
      ai_audiences = sort (remdups (JWT_AUDIENCES setup_security)), ai_ttl = 900000000\<rparr>"
    using provide_issuer_Inr [OF setup_security_accepted, of "()"] by (simp add: start_up_def) (simp add: setup_security_def)
  have "JWT_AUDIENCES setup_security = [''api'', ''ws'']" by (simp add: JWT_AUDIENCES_def setup_security_def setup_strips)
  moreover have "sort [''api'', ''ws''] = [''api'', ''ws'']" by simp
  ultimately have iss_eq: "iss = \<lparr>ai_private_key = (), ai_key_id = ''k1'', ai_issuer = ''identity'',
      ai_audiences = [''api'', ''ws''], ai_ttl = 900000000\<rparr>" using auds by simp
  obtain ver where ver: "provide_verifier (jl_key_size setup_lib) (st_security ?s) () = Inr ver"
    using provide_verifier_Inr [OF setup_security_accepted, of "jl_key_size setup_lib" "()"] by (simp add: setup_lib_def start_up_def)
  have run: "access_issue setup_lib iss \<lparr>ap_user_id = 3, ap_role = USER\<rparr> ?now ?w = (Inr ''token'', ?w\<lparr>w_drawn := Suc (w_drawn ?w)\<rparr>)"
    by (simp add: access_issue_def setup_lib_def bind_def new_uuid_def return_def)
  have jwt: "jwt_roundtrip setup_lib () (jwt_headers iss) (access_claims iss \<lparr>ap_user_id = 3, ap_role = USER\<rparr> ?now
      (w_uuids ?w (w_drawn ?w))) (av_leeway ver) ''token''"
    by (simp add: jwt_roundtrip_def setup_lib_def jwt_headers_def iss_eq access_claims_def claims_payload_def json_field_def
        plus_delta_def role_value_def)
  have "uuid_str 4 \<noteq> uuid_str 3" using uuid_str_inj [of 4 3] by auto
  then have conv: "conversions setup_lib {3, w_uuids ?w (w_drawn ?w)}" by (simp add: conversions_def setup_lib_def)
  from issued_access_token_is_accepted [OF setup_accepted [of 60] _ iss ver run jwt conv]
  obtain c where "access_verify setup_lib ver ''token'' = Inr c" "ac_user_id c = 3" by (auto simp: setup_lib_def)
  with iss ver run show ?thesis by (auto simp: start_up_def setup_lib_def)
qed

end
