(* ===== verification/Configuration.thy ===== *)
theory Configuration
  imports Settings "HOL-Library.AList"
begin

section \<open>Reading settings\<close>

text \<open>
  What happens to settings before their groups are validated: the readers of single variables in
  \<open>core/settings/base.py\<close>, the validators with \<open>mode="before"\<close>, \<open>Settings._route_flat_data\<close>, the cache of
  \<open>get_settings\<close>, and the URL and the options of the Valkey client. The environment is an argument; \<open>str.lower\<close>
  is \<open>casefold\<close> on the ASCII letters of the names in use.
\<close>

subsection \<open>Single variables\<close>

definition read_bool :: "(string \<Rightarrow> string option) \<Rightarrow> string \<Rightarrow> bool \<Rightarrow> exn + bool" where
  "read_bool getenv name fallback =
     (case getenv name of
        None \<Rightarrow> Inr fallback
      | Some raw \<Rightarrow>
          let normalized = casefold (py_strip raw) in
          if normalized \<in> {''1'', ''true'', ''yes'', ''on''} then Inr True
          else if normalized \<in> {''0'', ''false'', ''no'', ''off''} then Inr False
          else Inl ValueError)"

definition read_port :: "(string \<Rightarrow> string option) \<Rightarrow> int \<Rightarrow> exn + int" where
  "read_port getenv fallback =
     (case py_int (case getenv ''PORT'' of Some raw \<Rightarrow> raw | None \<Rightarrow> int_str fallback) of
        None \<Rightarrow> Inl ValueError
      | Some port \<Rightarrow> if \<not> (1 \<le> port \<and> port \<le> 65535) then Inl ValueError else Inr port)"

definition comma_list :: "string \<Rightarrow> string list" where
  "comma_list value = filter (\<lambda>item. item \<noteq> []) (map py_strip (split_on (CHR '','') value))"

definition read_mute_loggers :: "(string \<Rightarrow> string option) \<Rightarrow> string list" where
  "read_mute_loggers getenv = comma_list (case getenv ''MUTE_LOGGERS'' of Some raw \<Rightarrow> raw | None \<Rightarrow> [])"

subsection \<open>Values before validation\<close>

text \<open>A sequence or a set is given by the texts of its elements, a mapping by the texts of its items.\<close>

datatype raw_setting = RawStr string | RawItems "string list" | RawDict "(string \<times> string) list" | RawObject

definition normalize_mute_loggers :: "raw_setting \<Rightarrow> raw_setting" where
  "normalize_mute_loggers value = (case value of RawStr s \<Rightarrow> RawItems (comma_list s) | _ \<Rightarrow> value)"

fun comma_join :: "string list \<Rightarrow> string" where
  "comma_join [] = []"
| "comma_join [s] = s"
| "comma_join (s # t # ts) = s @ '','' @ comma_join (t # ts)"

definition normalize_audiences :: "raw_setting \<Rightarrow> raw_setting" where
  "normalize_audiences value = (case value of RawItems items \<Rightarrow> RawStr (comma_join items) | _ \<Rightarrow> value)"

definition normalize_replay_paths :: "raw_setting \<Rightarrow> raw_setting" where
  "normalize_replay_paths value =
     (case value of RawDict d \<Rightarrow> RawStr (comma_join (map (\<lambda>(k, v). k @ ''='' @ v) d)) | _ \<Rightarrow> value)"

text \<open>The two fields of \<open>SecuritySettings\<close> with such a validator are strings afterwards.\<close>

definition raw_str :: "raw_setting \<Rightarrow> exn + string" where
  "raw_str value = (case value of RawStr s \<Rightarrow> Inr s | _ \<Rightarrow> Inl ValidationError)"

definition with_raw_fields :: "raw_setting \<Rightarrow> raw_setting \<Rightarrow> security_config \<Rightarrow> exn + security_config" where
  "with_raw_fields audiences replay_paths s =
     bind_res (raw_str (normalize_audiences audiences)) (\<lambda>a.
     bind_res (raw_str (normalize_replay_paths replay_paths)) (\<lambda>p.
       Inr (s\<lparr>ss_jwt_audiences_raw := a, ss_replay_key_paths_raw := p\<rparr>)))"

subsection \<open>Flat keys\<close>

datatype 'v setting = Dict "(string \<times> 'v setting) list" | Scalar 'v

text \<open>A group with its fields: the name of a field and its \<open>validation_alias\<close>.\<close>

type_synonym group_fields = "(string \<times> string option) list"

definition canonical :: "string \<times> string option \<Rightarrow> string" where
  "canonical nested_field = (case nested_field of (name, validation_alias) \<Rightarrow>
     case validation_alias of None \<Rightarrow> name | Some alias \<Rightarrow> alias)"

definition dict_update :: "(string \<times> 'v) list \<Rightarrow> (string \<times> 'v) list \<Rightarrow> (string \<times> 'v) list" where
  "dict_update new d = fold (\<lambda>(k, v). AList.update k v) new d"

definition aliases :: "group_fields \<Rightarrow> (string \<times> string) list" where
  "aliases members = dict_update
     (concat (map (\<lambda>f. [(casefold (fst f), canonical f), (casefold (canonical f), canonical f)]) members)) []"

definition flat_items :: "group_fields \<Rightarrow> (string \<times> 'v setting) list \<Rightarrow> (string \<times> 'v setting) list" where
  "flat_items members data =
     dict_update (List.map_filter (\<lambda>(key, value).
       map_option (\<lambda>c. (c, value)) (map_of (aliases members) (casefold key))) data) []"

definition route_group ::
    "(string \<times> 'v setting) list \<Rightarrow> string \<times> group_fields \<Rightarrow> (string \<times> 'v setting) list
     \<Rightarrow> (string \<times> 'v setting) list" where
  "route_group data gf result =
     (case gf of (grp, members) \<Rightarrow>
        let flat = flat_items members data in
        case (case map_of result grp of None \<Rightarrow> Dict [] | Some nested \<Rightarrow> nested) of
          Dict nested \<Rightarrow> if flat \<noteq> [] then AList.update grp (Dict (dict_update flat nested)) result else result
        | Scalar _ \<Rightarrow> result)"

definition route_flat_data ::
    "(string \<times> group_fields) list \<Rightarrow> (string \<times> 'v setting) list \<Rightarrow> (string \<times> 'v setting) list" where
  "route_flat_data model_fields data = fold (route_group data) model_fields data"

subsection \<open>The groups of the service\<close>

definition settings_fields :: "(string \<times> group_fields) list" where
  "settings_fields =
     [(''app'', map (\<lambda>n. (n, None)) [''SERVICE_NAME'', ''APP_VERSION'', ''APP_ENVIRONMENT'', ''HOST'', ''PORT'', ''DEV_LOGS'',
         ''LOG_LEVEL'', ''MUTE_LOGGERS'']),
      (''postgres'', map (\<lambda>n. (n, None)) [''DATABASE_HOST'', ''DATABASE_PORT'', ''DATABASE_USER'', ''DATABASE_PASSWORD'',
         ''DATABASE_NAME'', ''RUN_MIGRATIONS'', ''DATABASE_POOL_SIZE'', ''DATABASE_MAX_OVERFLOW'', ''DATABASE_POOL_TIMEOUT'',
         ''DATABASE_POOL_RECYCLE'']),
      (''valkey'', map (\<lambda>n. (n, None)) [''VALKEY_HOST'', ''VALKEY_PORT'', ''VALKEY_DB'', ''VALKEY_KEY_NAMESPACE'',
         ''VALKEY_MAX_CONNECTIONS'', ''VALKEY_SOCKET_TIMEOUT'', ''VALKEY_SOCKET_CONNECT_TIMEOUT'', ''VALKEY_HEALTH_CHECK_INTERVAL'']),
      (''kafka'', map (\<lambda>n. (n, None)) [''KAFKA_BOOTSTRAP_SERVERS'', ''KAFKA_CLIENT_ID'', ''KAFKA_USER_REGISTERED_TOPIC'',
         ''KAFKA_GROUP_ID'', ''KAFKA_AUTO_OFFSET_RESET'']),
      (''outbox'', map (\<lambda>n. (n, None)) [''OUTBOX_POLL_INTERVAL_SECONDS'', ''OUTBOX_BATCH_SIZE'', ''OUTBOX_CLAIM_LEASE_SECONDS'',
         ''OUTBOX_RETRY_INITIAL_SECONDS'', ''OUTBOX_RETRY_MAX_SECONDS'', ''OUTBOX_RETRY_EXPONENT'', ''OUTBOX_RETRY_JITTER_RATIO'',
         ''OUTBOX_RETRY_MAX_ATTEMPTS'', ''OUTBOX_SHUTDOWN_TIMEOUT_SECONDS'']),
      (''security'', map (\<lambda>n. (n, None)) [''AUTH_COOKIE_SECURE'', ''AUTH_COOKIE_SAMESITE'', ''AUTH_TEST_TOKEN_ENDPOINT_ENABLED'',
         ''JWT_PRIVATE_KEY_PATH'', ''JWT_PUBLIC_KEY_PATH'', ''JWT_ACTIVE_KEY_ID'', ''JWT_ISSUER'', ''JWT_SERVICE_AUDIENCE''] @
         [(''jwt_audiences_raw'', Some ''JWT_AUDIENCES'')] @ map (\<lambda>n. (n, None)) [''JWT_CLOCK_SKEW_SECONDS'',
         ''ACCESS_TOKEN_TTL_SECONDS'', ''AUTH_SESSION_IDLE_TTL_SECONDS'', ''REPLAY_ENCRYPTION_ACTIVE_KEY_ID''] @
         [(''replay_key_paths_raw'', Some ''REPLAY_ENCRYPTION_KEY_PATHS'')]),
      (''idempotency'', map (\<lambda>n. (n, None)) [''IDEMPOTENCY_LEASE_SECONDS'', ''IDEMPOTENCY_RESULT_TTL_SECONDS'',
         ''IDEMPOTENCY_CB_FAILURES'', ''IDEMPOTENCY_CB_RECOVERY_SECONDS'']),
      (''profile_service'', map (\<lambda>n. (n, None)) [''PROFILE_SERVICE_URL'', ''PROFILE_SERVICE_TOKEN'',
         ''PROFILE_SERVICE_TIMEOUT_SECONDS'', ''PROFILE_SERVICE_RETRY_DELAY_SECONDS'', ''PROFILE_SERVICE_RETRY_MAX_DELAY_SECONDS'',
         ''PROFILE_SERVICE_CB_FAILURES'', ''PROFILE_SERVICE_CB_RECOVERY_SECONDS'']),
      (''registration'', map (\<lambda>n. (n, None)) [''REGISTRATION_POLL_INTERVAL_SECONDS'', ''REGISTRATION_BATCH_SIZE'',
         ''REGISTRATION_CLAIM_LEASE_SECONDS'', ''REGISTRATION_RETRY_INITIAL_SECONDS'', ''REGISTRATION_RETRY_MAX_SECONDS'',
         ''REGISTRATION_RETRY_EXPONENT'', ''REGISTRATION_RETRY_JITTER_RATIO'', ''REGISTRATION_RETRY_MAX_ATTEMPTS'',
         ''REGISTRATION_SHUTDOWN_TIMEOUT_SECONDS''])]"

text \<open>\<open>get_settings\<close> is cached: the process loads its settings once; an error is not remembered.\<close>

definition get_settings :: "exn + settings \<Rightarrow> settings option \<Rightarrow> (exn + settings) \<times> settings option" where
  "get_settings load cached =
     (case cached of
        Some s \<Rightarrow> (Inr s, cached)
      | None \<Rightarrow> (load, case load of Inl _ \<Rightarrow> None | Inr s \<Rightarrow> Some s))"

subsection \<open>The Valkey client\<close>

definition VALKEY_URL :: "valkey_settings \<Rightarrow> string" where
  "VALKEY_URL s =
     ''redis://'' @ vs_host s @ '':'' @ int_str (vs_port s) @ ''/'' @ int_str (vs_db s) @
     ''?socket_connect_timeout=2&socket_timeout=2''"

datatype client_option = OptBool bool | OptInt int | OptFloat rat

definition provide_valkey ::
    "(string \<Rightarrow> (string \<times> client_option) list \<Rightarrow> 'client) \<Rightarrow> valkey_settings \<Rightarrow> 'client" where
  "provide_valkey from_url s =
     from_url (VALKEY_URL s)
       [(''decode_responses'', OptBool False), (''max_connections'', OptInt (vs_max_connections s)),
        (''socket_timeout'', OptFloat (vs_socket_timeout s)),
        (''socket_connect_timeout'', OptFloat (vs_socket_connect_timeout s)),
        (''health_check_interval'', OptInt (vs_health_check_interval s))]"

subsection \<open>Lookups\<close>

lemma dict_update_lookup:
  "map_of (dict_update new d) k = (case map_of (rev new) k of Some v \<Rightarrow> Some v | None \<Rightarrow> map_of d k)"
proof (induction new arbitrary: d)
  case (Cons x xs)
  then show ?case
    by (cases x) (auto simp: dict_update_def map_of_append AList.update_conv' map_add_def split: option.splits)
qed (simp add: dict_update_def)

lemma dict_update_nil: "dict_update new [] = [] \<longleftrightarrow> new = []"
proof
  assume "dict_update new [] = []"
  then have "map_of (rev new) k = None" for k
    using dict_update_lookup [of new "[]" k] by (auto split: option.splits)
  then have "fst ` set new = {}" by (metis all_not_in_conv map_of_eq_None_iff set_rev)
  then show "new = []" by simp
qed (simp add: dict_update_def)

definition flat_value :: "group_fields \<Rightarrow> (string \<times> 'v setting) list \<Rightarrow> string \<Rightarrow> 'v setting option" where
  "flat_value members data c =
     map_option snd (find (\<lambda>(key, _). map_of (aliases members) (casefold key) = Some c) (rev data))"

lemma map_filter_lookup:
  "map_of (List.map_filter (\<lambda>(key, value). map_option (\<lambda>c. (c, value)) (f key)) data) c =
   map_option snd (find (\<lambda>(key, _). f key = Some c) data)"
  by (induction data) (auto simp: List.map_filter_simps split: option.splits)

lemma rev_map_filter: "rev (List.map_filter f xs) = List.map_filter f (rev xs)"
  by (simp add: List.map_filter_def rev_map rev_filter)

lemma flat_items_lookup: "map_of (flat_items members data) c = flat_value members data c"
  unfolding flat_items_def dict_update_lookup rev_map_filter map_filter_lookup flat_value_def
  by (simp split: option.splits)

definition group_entry :: "(string \<times> 'v setting) list \<Rightarrow> string \<Rightarrow> string \<Rightarrow> 'v setting option" where
  "group_entry d grp c = (case map_of d grp of Some (Dict es) \<Rightarrow> map_of es c | _ \<Rightarrow> None)"

lemma dict_update_distinct: "distinct (map fst d) \<Longrightarrow> distinct (map fst (dict_update new d))"
  by (induction new arbitrary: d) (auto simp: dict_update_def AList.distinct_update)

lemma dict_update_flat_lookup:
  "map_of (dict_update (flat_items members data) d) k =
   (case flat_value members data k of Some v \<Rightarrow> Some v | None \<Rightarrow> map_of d k)"
proof -
  have "distinct (map fst (flat_items members data))" unfolding flat_items_def by (rule dict_update_distinct) simp
  then have "map_of (rev (flat_items members data)) = map_of (flat_items members data)"
    by (subst map_of_inject_set) (simp_all add: rev_map [symmetric])
  then show ?thesis by (simp add: dict_update_lookup flat_items_lookup)
qed

lemma flat_items_nil: "flat_items members data = [] \<Longrightarrow> flat_value members data c = None"
  by (metis flat_items_lookup map_of.simps(1))

lemma route_group_entry:
  assumes "\<And>v. map_of result g \<noteq> Some (Scalar v)"
  shows "group_entry (route_group data (g, members) result) g c =
     (case flat_value members data c of Some v \<Rightarrow> Some v | None \<Rightarrow> group_entry result g c)"
proof (cases "flat_items members data = []")
  case True
  then show ?thesis
    by (auto simp: route_group_def flat_items_nil split: option.splits setting.splits)
next
  case False
  then show ?thesis
    using assms
    by (cases "map_of result g")
      (auto simp: route_group_def group_entry_def AList.update_conv' dict_update_flat_lookup Let_def
        split: option.splits setting.splits)
qed

lemma route_group_other: "k \<noteq> g \<Longrightarrow> map_of (route_group data (g, members) result) k = map_of result k"
  by (auto simp: route_group_def Let_def AList.update_conv' split: option.splits setting.splits)

lemma route_groups_other:
  "k \<notin> fst ` set groups \<Longrightarrow> map_of (fold (route_group data) groups result) k = map_of result k"
proof (induction groups arbitrary: result)
  case (Cons x groups)
  then show ?case by (cases x) (simp add: route_group_other)
qed simp

lemma route_groups_entry:
  assumes "distinct (map fst groups)" and "(g, members) \<in> set groups" and "\<And>v. map_of result g \<noteq> Some (Scalar v)"
  shows "group_entry (fold (route_group data) groups result) g c =
     (case flat_value members data c of Some v \<Rightarrow> Some v | None \<Rightarrow> group_entry result g c)"
  using assms
proof (induction groups arbitrary: result)
  case (Cons x groups)
  obtain h ms where x: "x = (h, ms)" by fastforce
  show ?case
  proof (cases "h = g")
    case True
    with Cons.prems have "members = ms" "g \<notin> fst ` set groups" by (force simp: x)+
    with Cons.prems(3) True show ?thesis
      using route_group_entry [of result g data ms c] by (simp add: x group_entry_def route_groups_other)
  next
    case False
    then have "group_entry (route_group data (h, ms) result) g c = group_entry result g c"
      by (simp add: group_entry_def route_group_other)
    with False Cons.prems Cons.IH [of "route_group data (h, ms) result"] show ?thesis
      by (simp add: x route_group_other cong: option.case_cong)
  qed
qed simp

text \<open>Lower-casing a character sets its sixth bit, which evaluates without arithmetic.\<close>

fun lower_char :: "char \<Rightarrow> char" where
  "lower_char (Char b0 b1 b2 b3 b4 b5 b6 b7) =
     (if \<not> b7 \<and> b6 \<and> \<not> b5 \<and> (b0 \<or> b1 \<or> b2 \<or> b3 \<or> b4) \<and> \<not> (b4 \<and> b3 \<and> (b2 \<or> b1 \<and> b0))
      then Char b0 b1 b2 b3 b4 True b6 b7 else Char b0 b1 b2 b3 b4 b5 b6 b7)"

lemma lower_char:
  "(let n = (of_char c :: nat) in if 65 \<le> n \<and> n \<le> 90 then char_of (n + 32) else c) = lower_char c"
proof (cases c)
  case (Char b0 b1 b2 b3 b4 b5 b6 b7)
  show ?thesis unfolding Char
    by (cases b0; cases b1; cases b2; cases b3; cases b4; cases b5; cases b6; cases b7)
      (simp_all add: char_of_def bit_0)
qed

lemma casefold_code [code]: "casefold s = map lower_char s"
  unfolding casefold_def lower_char ..

text \<open>The names of the service: no field has two homes, and every spelling of a field leads to it.\<close>

lemma settings_groups_distinct: "distinct (map fst settings_fields)"
  by code_simp

lemma settings_names:
  "list_all (\<lambda>(g, ms). list_all (\<lambda>f. filter (\<lambda>(k, c). c = canonical f) (aliases ms) =
       (if casefold (fst f) = casefold (canonical f) then [(casefold (fst f), canonical f)]
        else [(casefold (fst f), canonical f), (casefold (canonical f), canonical f)])) ms) settings_fields"
  by code_simp

lemma settings_names_distinct: "distinct (concat (map (\<lambda>(g, ms). map fst (aliases ms)) settings_fields))"
  by code_simp

lemma distinct_concat_disjoint:
  assumes "distinct (concat (map h xs))" and "x \<in> set xs" "y \<in> set xs" "x \<noteq> y"
  shows "set (h x) \<inter> set (h y) = {}"
  using assms by (induction xs) auto

lemma settings_names_disjoint:
  assumes "(g, ms) \<in> set settings_fields" and "(g', ms') \<in> set settings_fields" and "g \<noteq> g'"
  shows "fst ` set (aliases ms) \<inter> fst ` set (aliases ms') = {}"
  using distinct_concat_disjoint [OF settings_names_distinct assms(1,2)] assms(3) by simp

text \<open>The keys that lead to a field are the spellings of its name and of its alias.\<close>

lemma settings_spellings:
  assumes "(g, ms) \<in> set settings_fields" and "f \<in> set ms"
  shows "map_of (aliases ms) k = Some (canonical f) \<longleftrightarrow> k \<in> {casefold (fst f), casefold (canonical f)}"
proof -
  have "distinct (map fst (aliases ms))"
    using assms(1) settings_names_distinct by (auto simp: distinct_concat_iff)
  then have "map_of (aliases ms) k = Some (canonical f) \<longleftrightarrow> (k, canonical f) \<in> set (aliases ms)"
    by simp
  also have "\<dots> \<longleftrightarrow> (k, canonical f) \<in> set (filter (\<lambda>(k, c). c = canonical f) (aliases ms))" by simp
  also have "filter (\<lambda>(k, c). c = canonical f) (aliases ms) =
      (if casefold (fst f) = casefold (canonical f) then [(casefold (fst f), canonical f)]
       else [(casefold (fst f), canonical f), (casefold (canonical f), canonical f)])"
    using settings_names assms by (fastforce simp: list_all_iff)
  also have "(k, canonical f) \<in> set \<dots> \<longleftrightarrow> k \<in> {casefold (fst f), casefold (canonical f)}" by simp
  finally show ?thesis .
qed

subsection \<open>Properties\<close>

text \<open>
  C37. A flat key reaches its field whatever its case: for every field of every group of the
  service, the value that the group is validated with is that of the last flat key that spells the name of the field or
  its alias, and otherwise what the nested mapping of the group had; no other group
  sees such a key, and keys that name no group are passed on unchanged.
\<close>

theorem flat_settings_reach_their_group:
  assumes "(g, ms) \<in> set settings_fields" and "f \<in> set ms"
    and "\<And>v. map_of data g \<noteq> Some (Scalar v)"
  shows "group_entry (route_flat_data settings_fields data) g (canonical f) =
      (case find (\<lambda>(key, _). casefold key \<in> {casefold (fst f), casefold (canonical f)}) (rev data) of
         Some (_, v) \<Rightarrow> Some v | None \<Rightarrow> group_entry data g (canonical f)) \<and>
     (\<forall>(g', ms') \<in> set settings_fields. g' \<noteq> g \<longrightarrow>
        map_of (aliases ms') (casefold (fst f)) = None \<and> map_of (aliases ms') (casefold (canonical f)) = None) \<and>
     (\<forall>k. k \<notin> fst ` set settings_fields \<longrightarrow> map_of (route_flat_data settings_fields data) k = map_of data k)"
proof (intro conjI)
  have "flat_value ms data (canonical f) =
      map_option snd (find (\<lambda>(key, _). casefold key \<in> {casefold (fst f), casefold (canonical f)}) (rev data))"
    unfolding flat_value_def settings_spellings [OF assms(1,2)] ..
  then show "group_entry (route_flat_data settings_fields data) g (canonical f) =
      (case find (\<lambda>(key, _). casefold key \<in> {casefold (fst f), casefold (canonical f)}) (rev data) of
         Some (_, v) \<Rightarrow> Some v | None \<Rightarrow> group_entry data g (canonical f))"
    using route_groups_entry [OF settings_groups_distinct assms(1,3), of data "canonical f"]
    by (auto simp: route_flat_data_def split: option.splits)
  have mine: "{casefold (fst f), casefold (canonical f)} \<subseteq> fst ` set (aliases ms)"
  proof
    fix k
    assume "k \<in> {casefold (fst f), casefold (canonical f)}"
    then have "map_of (aliases ms) k = Some (canonical f)" unfolding settings_spellings [OF assms(1,2)] .
    then show "k \<in> fst ` set (aliases ms)" by (force dest: map_of_SomeD)
  qed
  show "\<forall>(g', ms') \<in> set settings_fields. g' \<noteq> g \<longrightarrow>
        map_of (aliases ms') (casefold (fst f)) = None \<and> map_of (aliases ms') (casefold (canonical f)) = None"
  proof (intro ballI, split prod.split, intro allI impI)
    fix x g' ms'
    assume x: "x \<in> set settings_fields" "x = (g', ms')" and "g' \<noteq> g"
    then have "fst ` set (aliases ms) \<inter> fst ` set (aliases ms') = {}"
      by (intro settings_names_disjoint [OF assms(1), of g']) simp_all
    with mine have "casefold (fst f) \<notin> fst ` set (aliases ms')" "casefold (canonical f) \<notin> fst ` set (aliases ms')" by blast+
    then show "map_of (aliases ms') (casefold (fst f)) = None \<and> map_of (aliases ms') (casefold (canonical f)) = None"
      by (simp add: map_of_eq_None_iff)
  qed
  show "\<forall>k. k \<notin> fst ` set settings_fields \<longrightarrow> map_of (route_flat_data settings_fields data) k = map_of data k"
    by (simp add: route_flat_data_def route_groups_other)
qed

abbreviation flat_data :: "(string \<times> string setting) list" where
  "flat_data \<equiv> [(''port'', Scalar ''1''), (''app'', Dict [(''PORT'', Scalar ''2''), (''HOST'', Scalar ''h'')]), (''Port'', Scalar ''3''),
     (''jwt_audiences'', Scalar ''a'')]"

theorem flat_settings_reach_their_group_witness:
  "group_entry (route_flat_data settings_fields flat_data) ''app'' ''PORT'' = Some (Scalar ''3'')"
proof -
  let ?ms = "the (map_of settings_fields ''app'')"
  have home: "(''app'', ?ms) \<in> set settings_fields" "(''PORT'', None) \<in> set ?ms"
    by (simp_all add: settings_fields_def)
  have "map_of flat_data ''app'' \<noteq> Some (Scalar v)" for v by simp
  with flat_settings_reach_their_group [OF home, of flat_data] show ?thesis
    by (simp add: canonical_def casefold_code)
qed

text \<open>Joining and splitting at commas.\<close>

lemma split_on_plain: "sep \<notin> set s \<Longrightarrow> split_on sep s = [s]"
  by (induction s) auto

lemma split_on_append: "sep \<notin> set s \<Longrightarrow> split_on sep (s @ sep # rest) = s # split_on sep rest"
  by (induction s) auto

lemma split_on_comma_join:
  "items \<noteq> [] \<Longrightarrow> (\<And>i. i \<in> set items \<Longrightarrow> CHR '','' \<notin> set i) \<Longrightarrow> split_on (CHR '','') (comma_join items) = items"
  by (induction items rule: comma_join.induct) (auto simp: split_on_plain split_on_append)

lemma set_entry_new: "k \<notin> fst ` set d \<Longrightarrow> set_entry k v d = d @ [(k, v)]"
  by (induction d) auto

lemma partition_at_first: "sep \<notin> set k \<Longrightarrow> partition_at sep (k @ sep # v) = (k, True, v)"
  by (auto simp: partition_at_def takeWhile_append dropWhile_append)

definition plain_path :: "string \<times> string \<Rightarrow> bool" where
  "plain_path kv = (case kv of (k, v) \<Rightarrow>
     k \<noteq> [] \<and> v \<noteq> [] \<and> CHR ''='' \<notin> set k \<and> CHR '','' \<notin> set k \<and> CHR '','' \<notin> set v \<and> py_strip (k @ ''='' @ v) = k @ ''='' @ v)"

lemma replay_key_paths_plain:
  assumes "list_all plain_path d" and "distinct (map fst (acc @ d))"
  shows "replay_key_paths acc (map (\<lambda>(k, v). k @ ''='' @ v) d) = Inr (acc @ d)"
  using assms
proof (induction d arbitrary: acc)
  case (Cons x d)
  then show ?case
    using Cons.IH [of "acc @ [x]"] by (cases x) (auto simp: plain_path_def partition_at_first set_entry_new)
qed simp

text \<open>
  Settings that are given as a list of audiences or as a mapping of key files mean what they say: the
  validators turn them into text, and reading the text gives the stripped audiences and the same
  mapping, provided no element contains a separator.
\<close>

theorem structured_settings_roundtrip:
  assumes "\<And>item. item \<in> set audiences \<Longrightarrow> CHR '','' \<notin> set item"
    and "paths \<noteq> []" and "distinct (map fst paths)" and "list_all plain_path paths"
  shows "\<exists>s'. with_raw_fields (RawItems audiences) (RawDict paths) s = Inr s' \<and>
     JWT_AUDIENCES s' = filter (\<lambda>a. a \<noteq> []) (map py_strip audiences) \<and> REPLAY_ENCRYPTION_KEY_PATHS s' = Inr paths"
proof -
  let ?s = "s\<lparr>ss_jwt_audiences_raw := comma_join audiences,
      ss_replay_key_paths_raw := comma_join (map (\<lambda>(k, v). k @ ''='' @ v) paths)\<rparr>"
  have "JWT_AUDIENCES ?s = filter (\<lambda>a. a \<noteq> []) (map py_strip audiences)"
    using split_on_comma_join [of audiences] assms(1)
    by (cases "audiences = []") (auto simp: JWT_AUDIENCES_def py_strip_def)
  moreover have "split_on (CHR '','') (comma_join (map (\<lambda>(k, v). k @ ''='' @ v) paths)) = map (\<lambda>(k, v). k @ ''='' @ v) paths"
    using assms(2,4) by (intro split_on_comma_join) (auto simp: list_all_iff plain_path_def)
  then have "REPLAY_ENCRYPTION_KEY_PATHS ?s = Inr paths"
    using replay_key_paths_plain [OF assms(4), of "[]"] assms(3) by (simp add: REPLAY_ENCRYPTION_KEY_PATHS_def)
  ultimately show ?thesis
    by (simp add: with_raw_fields_def normalize_audiences_def normalize_replay_paths_def raw_str_def)
qed

theorem structured_settings_roundtrip_witness:
  "\<exists>s'. with_raw_fields (RawItems ['' api'', ''ws'']) (RawDict [(''r1'', ''/run/key''), (''r2'', ''/run/old'')]) setup_security = Inr s' \<and>
     JWT_AUDIENCES s' = [''api'', ''ws''] \<and> REPLAY_ENCRYPTION_KEY_PATHS s' = Inr [(''r1'', ''/run/key''), (''r2'', ''/run/old'')]"
proof -
  let ?paths = "[(''r1'', ''/run/key''), (''r2'', ''/run/old'')]"
  have plain: "list_all plain_path ?paths" by (simp add: plain_path_def py_strip_def py_isspace_def)
  have audiences: "item \<in> set ['' api'', ''ws''] \<Longrightarrow> CHR '','' \<notin> set item" for item by auto
  have "\<exists>s'. with_raw_fields (RawItems ['' api'', ''ws'']) (RawDict ?paths) setup_security = Inr s' \<and>
      JWT_AUDIENCES s' = filter (\<lambda>a. a \<noteq> []) (map py_strip ['' api'', ''ws'']) \<and> REPLAY_ENCRYPTION_KEY_PATHS s' = Inr ?paths"
    by (rule structured_settings_roundtrip [OF audiences _ _ plain]) simp_all
  then show ?thesis by (simp add: py_strip_def py_isspace_def)
qed

text \<open>The process keeps the settings it has once loaded, whatever the environment says later.\<close>

lemma settings_are_loaded_once:
  assumes "get_settings load None = (Inr s, cached)"
  shows "get_settings load' cached = (Inr s, cached)"
  using assms by (auto simp: get_settings_def split: sum.splits)

text \<open>
  The query of a URL, and what the documentation of redis-py says of \<open>from_url\<close>: options of the query are
  used in place of keyword arguments of the same name.
\<close>

definition query_options :: "string \<Rightarrow> string list" where
  "query_options url = map (\<lambda>item. fst (partition_at (CHR ''='') item)) (split_on (CHR ''&'') (snd (snd (partition_at (CHR ''?'') url))))"

definition query_wins :: "(string \<Rightarrow> (string \<times> client_option) list \<Rightarrow> 'client) \<Rightarrow> bool" where
  "query_wins from_url \<longleftrightarrow>
     (\<forall>url kwargs kwargs'. filter (\<lambda>(k, _). k \<notin> set (query_options url)) kwargs =
        filter (\<lambda>(k, _). k \<notin> set (query_options url)) kwargs' \<longrightarrow> from_url url kwargs = from_url url kwargs')"

lemma VALKEY_URL_options:
  assumes "CHR ''?'' \<notin> set (vs_host s)"
  shows "query_options (VALKEY_URL s) = [''socket_connect_timeout'', ''socket_timeout'']"
proof -
  let ?base = "''redis://'' @ vs_host s @ '':'' @ int_str (vs_port s) @ ''/'' @ int_str (vs_db s)"
  have url: "VALKEY_URL s = ?base @ CHR ''?'' # ''socket_connect_timeout=2&socket_timeout=2''" by (simp add: VALKEY_URL_def)
  have digit: "CHR ''?'' \<notin> set (int_str i)" for i
    using nat_str_digits [of "nat i"] nat_str_digits [of "nat (- i)"]
    by (auto simp: int_str_def list_all_iff is_digit_def)
  have base: "CHR ''?'' \<notin> set ?base" using assms digit by simp
  show ?thesis unfolding query_options_def url partition_at_first [OF base] snd_conv by (simp add: partition_at_def)
qed

text \<open>The two time-outs of the settings have no effect: the URL fixes both at two seconds.\<close>

lemma valkey_timeouts_are_fixed:
  assumes "query_wins from_url" and "CHR ''?'' \<notin> set (vs_host s)"
  shows "provide_valkey from_url (s\<lparr>vs_socket_timeout := x, vs_socket_connect_timeout := y\<rparr>) = provide_valkey from_url s"
proof -
  have url: "VALKEY_URL (s\<lparr>vs_socket_timeout := x, vs_socket_connect_timeout := y\<rparr>) = VALKEY_URL s"
    by (simp add: VALKEY_URL_def)
  show ?thesis
    unfolding provide_valkey_def url
    by (rule assms(1) [unfolded query_wins_def, rule_format]) (simp add: VALKEY_URL_options [OF assms(2)])
qed

end
