(* ===== verification/Metrics.thy ===== *)
theory Metrics
  imports Sessions Profile_Client
begin

section \<open>Metrics\<close>

text \<open>
  \<open>infrastructure/observability\<close>: the Prometheus observers of the idempotency coordinator and of the registration.
  The calls of the observers are events of the trace; the counters are what these events add up to. The
  relay is built without an observer, so its events count nothing.
\<close>

subsection \<open>The observers\<close>

record metrics =
  idempotency_outcomes :: "string \<Rightarrow> nat"
  idempotency_hot_degraded :: "string \<Rightarrow> nat"
  registration_outcomes :: "string \<Rightarrow> nat"
  registration_recovery_claimed :: nat

definition no_metrics :: metrics where
  "no_metrics = \<lparr>idempotency_outcomes = (\<lambda>_. 0), idempotency_hot_degraded = (\<lambda>_. 0), registration_outcomes = (\<lambda>_. 0),
     registration_recovery_claimed = 0\<rparr>"

definition inc :: "string \<Rightarrow> (string \<Rightarrow> nat) \<Rightarrow> string \<Rightarrow> nat" where
  "inc label counter = counter(label := Suc (counter label))"

definition observe_outcome :: "string \<Rightarrow> metrics \<Rightarrow> metrics" where
  "observe_outcome outcome m = m\<lparr>idempotency_outcomes := inc outcome (idempotency_outcomes m)\<rparr>"

definition metric_hot_degraded :: "string \<Rightarrow> metrics \<Rightarrow> metrics" where
  "metric_hot_degraded stage m = m\<lparr>idempotency_hot_degraded := inc stage (idempotency_hot_degraded m)\<rparr>"

definition operation_completed :: "metrics \<Rightarrow> metrics" where
  "operation_completed m = m\<lparr>registration_outcomes := inc ''completed'' (registration_outcomes m)\<rparr>"

definition retry_scheduled :: "string \<Rightarrow> metrics \<Rightarrow> metrics" where
  "retry_scheduled error_class m = m\<lparr>registration_outcomes := inc ''retry_scheduled'' (registration_outcomes m)\<rparr>"

definition operation_blocked :: "string \<Rightarrow> metrics \<Rightarrow> metrics" where
  "operation_blocked error_class m = m\<lparr>registration_outcomes := inc ''blocked'' (registration_outcomes m)\<rparr>"

definition lost_claim :: "metrics \<Rightarrow> metrics" where
  "lost_claim m = m\<lparr>registration_outcomes := inc ''lost_claim'' (registration_outcomes m)\<rparr>"

definition recovery_batch_claimed :: "nat \<Rightarrow> metrics \<Rightarrow> metrics" where
  "recovery_batch_claimed count m = m\<lparr>registration_recovery_claimed := registration_recovery_claimed m + count\<rparr>"

text \<open>The events of the trace, by the method of the observer that they stand for.\<close>

definition observed :: "effect \<Rightarrow> metrics \<Rightarrow> metrics" where
  "observed x m =
     (case x of
        Observed what detail \<Rightarrow>
          if what = ''outcome'' then observe_outcome detail m
          else if what = ''hot_degraded'' then metric_hot_degraded detail m
          else if what = ''operation_completed'' then operation_completed m
          else if what = ''retry_scheduled'' then retry_scheduled detail m
          else if what = ''operation_blocked'' then operation_blocked detail m
          else if what = ''lost_claim'' then lost_claim m
          else if what = ''recovery_batch_claimed'' then recovery_batch_claimed (number_of_digits detail) m
          else m
      | _ \<Rightarrow> m)"

definition metrics_of :: "'e world \<Rightarrow> metrics" where
  "metrics_of w = fold observed (w_trace w) no_metrics"

lemmas observer_defs = observe_outcome_def metric_hot_degraded_def operation_completed_def retry_scheduled_def
  operation_blocked_def lost_claim_def recovery_batch_claimed_def

lemma metrics_of_trace: "w_trace w' = w_trace w \<Longrightarrow> metrics_of w' = metrics_of w"
  by (simp add: metrics_of_def)

lemma metrics_of_emit: "metrics_of (w\<lparr>w_trace := w_trace w @ [x]\<rparr>) = observed x (metrics_of w)"
  by (simp add: metrics_of_def)

subsection \<open>What counts and what does not\<close>

text \<open>A program that leaves \<open>c\<close> of the metrics alone.\<close>

abbreviation uncounted :: "(metrics \<Rightarrow> 'c) \<Rightarrow> ('e, 'a) io \<Rightarrow> bool" where
  "uncounted c m \<equiv> (\<forall>x. keeps (\<lambda>w. c (metrics_of w) = x) m)"

lemma keeps_metric_primitives [keeps_intros]:
  "keeps (\<lambda>w. c (metrics_of w) = x) utc_now" "keeps (\<lambda>w. c (metrics_of w) = x) new_uuid"
  "keeps (\<lambda>w. c (metrics_of w) = x) jitter_source" "keeps (\<lambda>w. c (metrics_of w) = x) db_now"
  "keeps (\<lambda>w. c (metrics_of w) = x) tx_locked" "keeps (\<lambda>w. c (metrics_of w) = x) (stmt f)"
  "keeps (\<lambda>w. c (metrics_of w) = x) (query g)"
  by (auto simp: keeps_def utc_now_def new_uuid_def jitter_source_def db_now_def tx_locked_def gets_def stmt_def query_def
      metrics_of_def split: sum.splits)

lemma keeps_metric_emit:
  "(\<And>m. c (observed e m) = c m) \<Longrightarrow> keeps (\<lambda>w. c (metrics_of w) = x) (emit e)"
  by (simp add: keeps_def emit_def modify_def metrics_of_emit)

lemma keeps_metric_uow [keeps_intros]:
  fixes body :: "('e, 'a) io"
  assumes "keeps (\<lambda>w. c (metrics_of w) = x) body"
  shows "keeps (\<lambda>w. c (metrics_of w) = x) (uow body)"
proof (rule keepsI)
  fix w :: "'e world" assume w: "c (metrics_of w) = x"
  obtain r w' where run: "uow body w = (r, w')" by fastforce
  have base: "c (metrics_of (begin_tx w)) = x" using w by (simp add: metrics_of_def)
  from run have "c (metrics_of w') = x"
  proof (cases rule: uow_cases)
    case committed
    with base assms show ?thesis by (auto dest: keepsD)
  next
    case rolled_back
    from rolled_back(3) show ?thesis
    proof (elim disjE exE conjE)
      fix res w2
      assume "body (begin_tx w) = (res, w2)" "w' = w2\<lparr>w_db := w_db (begin_tx w)\<rparr>"
      with keepsD [OF assms base] show ?thesis by (simp add: metrics_of_def)
    qed (use base in simp)
  next
    case lost
    with base assms show ?thesis by (auto dest: keepsD)
  qed
  with run show "c (metrics_of (snd (uow body w))) = x" by simp
qed

text \<open>
  A program that counts at most one label: \<open>ok\<close> relates its result to the label, \<open>err\<close> says what may have been
  counted when it raises.
\<close>

definition bump :: "string option \<Rightarrow> (string \<Rightarrow> nat) \<Rightarrow> string \<Rightarrow> nat" where
  "bump l f = (case l of None \<Rightarrow> f | Some label \<Rightarrow> inc label f)"

definition counted ::
    "(metrics \<Rightarrow> string \<Rightarrow> nat) \<Rightarrow> ('a \<Rightarrow> string option \<Rightarrow> bool) \<Rightarrow> (string option \<Rightarrow> bool) \<Rightarrow> ('e, 'a) io \<Rightarrow> bool" where
  "counted c ok err m \<longleftrightarrow>
     (\<forall>f. spec (\<lambda>w. c (metrics_of w) = f) m (\<lambda>a w. \<exists>l. ok a l \<and> c (metrics_of w) = bump l f)
        (\<lambda>w. \<exists>l. err l \<and> c (metrics_of w) = bump l f))"

lemma countedD:
  assumes "counted c ok err m" and "m w = (r, w')"
  shows "case r of Inr a \<Rightarrow> \<exists>l. ok a l \<and> c (metrics_of w') = bump l (c (metrics_of w))
     | Inl e \<Rightarrow> \<exists>l. err l \<and> c (metrics_of w') = bump l (c (metrics_of w))"
  using assms specD [of "\<lambda>v. c (metrics_of v) = c (metrics_of w)" m _ _ w] unfolding counted_def
  by (cases r) (fastforce split: sum.splits)+

lemma countedI:
  assumes "\<And>w a w'. m w = (Inr a, w') \<Longrightarrow> \<exists>l. ok a l \<and> c (metrics_of w') = bump l (c (metrics_of w))"
    and "\<And>w e w'. m w = (Inl e, w') \<Longrightarrow> \<exists>l. err l \<and> c (metrics_of w') = bump l (c (metrics_of w))"
  shows "counted c ok err m"
  unfolding counted_def using assms by (auto intro!: specI)

lemma counted_throw: "err None \<Longrightarrow> counted c ok err (throw e)"
  by (rule countedI) (auto simp: res_simps bump_def intro: exI [of _ None])

lemma counted_bind:
  assumes "uncounted c m" and "err None" and "\<And>a. counted c ok err (g a)"
  shows "counted c ok err (bind m g)"
proof (rule countedI)
  fix w b w' assume "bind m g w = (Inr b, w')"
  then obtain a w1 where m: "m w = (Inr a, w1)" "g a w1 = (Inr b, w')" by (auto simp: res_simps)
  with keepsD [OF assms(1) [rule_format] refl m(1)] countedD [OF assms(3) m(2)]
  show "\<exists>l. ok b l \<and> c (metrics_of w') = bump l (c (metrics_of w))" by simp
next
  fix w e w' assume "bind m g w = (Inl e, w')"
  then consider "m w = (Inl e, w')" | a w1 where "m w = (Inr a, w1)" "g a w1 = (Inl e, w')" by (auto simp: res_simps)
  then show "\<exists>l. err l \<and> c (metrics_of w') = bump l (c (metrics_of w))"
  proof cases
    case 1
    with keepsD [OF assms(1) [rule_format] refl] assms(2) show ?thesis by (intro exI [of _ None]) (simp add: bump_def)
  next
    case 2
    with keepsD [OF assms(1) [rule_format] refl 2(1)] countedD [OF assms(3) 2(2)] show ?thesis by simp
  qed
qed

lemma counted_try_else:
  assumes "uncounted c m" and "\<And>e. counted c ok err (h e)" and "\<And>a. counted c ok err (g a)"
  shows "counted c ok err (try_else m h g)"
proof -
  have "case r of Inr a \<Rightarrow> \<exists>l. ok a l \<and> c (metrics_of w') = bump l (c (metrics_of w))
     | Inl e \<Rightarrow> \<exists>l. err l \<and> c (metrics_of w') = bump l (c (metrics_of w))"
    if "try_else m h g w = (r, w')" for w r w'
  proof -
    from that consider e w1 where "m w = (Inl e, w1)" "h e w1 = (r, w')" | a w1 where "m w = (Inr a, w1)" "g a w1 = (r, w')"
      by (auto simp: res_simps)
    then show ?thesis
    proof cases
      case 1
      with keepsD [OF assms(1) [rule_format] refl 1(1)] countedD [OF assms(2) 1(2)] show ?thesis by (cases r) simp_all
    next
      case 2
      with keepsD [OF assms(1) [rule_format] refl 2(1)] countedD [OF assms(3) 2(2)] show ?thesis by (cases r) simp_all
    qed
  qed
  from this [of _ "Inr _"] this [of _ "Inl _"] show ?thesis by (intro countedI) simp_all
qed

lemma counted_then_throw:
  assumes "counted c ok1 err1 m" and "\<And>a l. ok1 a l \<Longrightarrow> err l" and "\<And>l. err1 l \<Longrightarrow> err l"
  shows "counted c ok err (bind m (\<lambda>_. throw e))"
proof (rule countedI)
  fix w d w' assume "bind m (\<lambda>_. throw e) w = (Inl d, w')"
  then obtain r where "m w = (r, w')" by (auto simp: res_simps)
  from countedD [OF assms(1) this] assms(2,3) show "\<exists>l. err l \<and> c (metrics_of w') = bump l (c (metrics_of w))"
    by (cases r) auto
qed (auto simp: res_simps)

lemma counted_if: "(b \<Longrightarrow> counted c ok err m) \<Longrightarrow> (\<not> b \<Longrightarrow> counted c ok err n) \<Longrightarrow> counted c ok err (if b then m else n)"
  by simp

lemma counted_option:
  "(x = None \<Longrightarrow> counted c ok err m) \<Longrightarrow> (\<And>a. x = Some a \<Longrightarrow> counted c ok err (g a)) \<Longrightarrow>
   counted c ok err (case x of None \<Rightarrow> m | Some a \<Rightarrow> g a)"
  by (cases x) auto

lemmas counted_intros = counted_throw counted_bind counted_try_else counted_if counted_option

subsection \<open>The coordinator\<close>

lemma find_existing_uncounted [keeps_intros]: "keeps (\<lambda>w. c (metrics_of w) = x) (find_existing i h)"
  unfolding find_existing_def lookup_completed_def by (intro keeps_intros)

lemma execute_once_uncounted:
  "uncounted c operation \<Longrightarrow> uncounted c (execute_once ret i h operation)"
  unfolding execute_once_def execution_tx_def add_completed_def after_failure_def
  by (intro allI keeps_intros) (auto intro: keeps_intros)

lemma observe_hot_degraded_uncounted [keeps_intros]:
  "keeps (\<lambda>w. idempotency_outcomes (metrics_of w) = x) (observe_hot_degraded stage)"
  unfolding observe_hot_degraded_def by (rule keeps_metric_emit) (simp add: observed_def observer_defs)

abbreviation silent_store :: "'e hot_store \<Rightarrow> bool" where
  "silent_store hot \<equiv> (\<forall>i h ow l c. uncounted idempotency_outcomes (hot_begin hot i h ow l) \<and>
     uncounted idempotency_outcomes (hot_renew hot i ow l) \<and> uncounted idempotency_outcomes (hot_complete hot i ow c) \<and>
     uncounted idempotency_outcomes (hot_abandon hot i ow))"

lemma best_effort_uncounted:
  "uncounted idempotency_outcomes call \<Longrightarrow> uncounted idempotency_outcomes (best_effort stage call)"
  unfolding best_effort_def by (intro allI keeps_intros) auto

lemma heartbeat_uncounted:
  "silent_store hot \<Longrightarrow> uncounted idempotency_outcomes (heartbeat hot i ow l k)"
proof (induction k)
  case (Suc k)
  have "keeps (\<lambda>w. idempotency_outcomes (metrics_of w) = x) (emit (Slept q))" for x q
    by (rule keeps_metric_emit) (simp add: observed_def)
  with Suc show ?case by (auto intro!: keeps_intros)
qed (auto intro: keeps_intros)

abbreviation outcome_label :: "execution_result \<Rightarrow> string option \<Rightarrow> bool" where
  "outcome_label res l \<equiv> l = Some (outcome_value (er_outcome res))"

lemma observe_result_counted: "counted idempotency_outcomes outcome_label (\<lambda>l. l = None) (observe_result res)"
  by (rule countedI) (auto simp: observe_result_def res_simps metrics_of_emit observed_def observer_defs bump_def)

lemma coordinator_counted:
  assumes "uncounted idempotency_outcomes operation" and "\<And>hot. store = Some hot \<Longrightarrow> silent_store hot"
  shows "counted idempotency_outcomes outcome_label (\<lambda>l. l = None)
     (coordinator_execute ret store beats i h operation ls)"
proof -
  note once = execute_once_uncounted [OF assms(1)]
  have owner: "counted idempotency_outcomes outcome_label (\<lambda>l. l = None) (run_as_owner ret hot beats i h operation ls ow)"
    if "silent_store hot" for hot ow
    unfolding run_as_owner_def heartbeat_task_def settle_hot_def
    by (intro counted_intros once observe_result_counted)
      (use that in \<open>auto intro!: keeps_intros heartbeat_uncounted [rule_format] best_effort_uncounted [rule_format]\<close>)
  show ?thesis
    unfolding coordinator_execute_def Let_def
    by (intro counted_intros once observe_result_counted)
      (use assms(2) in \<open>auto intro!: keeps_intros owner counted_intros once observe_result_counted split: begin_action.splits\<close>)
qed

text \<open>The store behind its breaker counts nothing itself.\<close>

lemma breaker_call_uncounted:
  assumes "uncounted c func"
  shows "uncounted c (breaker_call is_failure func)"
proof -
  have "keeps (\<lambda>w. c (metrics_of w) = x) monotonic" "keeps (\<lambda>w. c (metrics_of w) = x) fresh_token"
    "keeps (\<lambda>w. c (metrics_of w) = x) (on_breaker f)" "keeps (\<lambda>w. c (metrics_of w) = x) (leave_call how adm)" for x f how adm
    by (auto simp: keeps_def monotonic_def fresh_token_def on_breaker_def leave_call_def interleave_def modify_def bind_def
        metrics_of_def Let_def split: prod.splits sum.splits)
  with assms show ?thesis unfolding breaker_call_def by (intro allI keeps_intros) auto
qed

lemma redis_eval_uncounted [keeps_intros]: "keeps (\<lambda>w. c (metrics_of w) = x) (redis_eval script key)"
  by (auto simp: keeps_def redis_eval_def Let_def metrics_of_def split: redis_fate.splits)

lemma breaking_uncounted: "uncounted c call \<Longrightarrow> uncounted c (breaking call)"
  unfolding breaking_def using breaker_call_uncounted [of c call] by (intro allI keeps_intros) auto

lemma hot_store_silent: "silent_store (hot_idempotency_store vk)"
  unfolding hot_idempotency_store_def hot_store.simps valkey_begin_def valkey_renew_def valkey_complete_def
    valkey_abandon_def eval_flag_def
  by (intro allI conjI breaking_uncounted [rule_format] keeps_intros)

subsection \<open>The registration\<close>

definition attempt_label :: "registration_result \<Rightarrow> string option \<Rightarrow> bool" where
  "attempt_label res l \<longleftrightarrow> (case res_outcome res of
     OUTCOME_COMPLETED \<Rightarrow> l = Some ''completed'' | OUTCOME_PENDING \<Rightarrow> l \<in> {Some ''retry_scheduled'', Some ''lost_claim''})"

definition failed_label :: "string option \<Rightarrow> bool" where
  "failed_label l \<longleftrightarrow> l \<in> {None, Some ''blocked'', Some ''lost_claim''}"

lemmas label_simps = attempt_label_def failed_label_def observe_def res_simps metrics_of_emit observed_def observer_defs bump_def

lemma block_operation_counted:
  "counted registration_outcomes (\<lambda>_ l. l \<in> {Some ''blocked'', Some ''lost_claim''}) failed_label (block_operation op ow e)"
  unfolding block_operation_def
proof (intro counted_bind counted_if)
  show "counted registration_outcomes (\<lambda>_ l. l \<in> {Some ''blocked'', Some ''lost_claim''}) failed_label (observe ''lost_claim'' [])"
    "counted registration_outcomes (\<lambda>_ l. l \<in> {Some ''blocked'', Some ''lost_claim''}) failed_label
       (observe ''operation_blocked'' (class_name e))"
    by (rule countedI; auto simp: label_simps)+
qed (auto simp: failed_label_def intro: keeps_intros)

lemma pending_counted:
  assumes "what = ''lost_claim'' \<or> what = ''retry_scheduled''"
  shows "counted registration_outcomes attempt_label failed_label
     (bind (observe what d) (\<lambda>_. bind utc_now (\<lambda>now. liftr (pending_result op now ra))))"
proof -
  have "\<exists>res. pending_result op now ra = Inr res \<and> res_outcome res = OUTCOME_PENDING" for now
    using pending_result_eq [of op now ra] by auto
  note pending = this
  show ?thesis
  proof (rule countedI)
    fix w a w'
    assume "bind (observe what d) (\<lambda>_. bind utc_now (\<lambda>now. liftr (pending_result op now ra))) w = (Inr a, w')"
    then obtain t where t: "pending_result op t ra = Inr a" and "w_trace w' = w_trace w @ [Observed what d]"
      by (auto simp: observe_def res_simps)
    then have "metrics_of w' = observed (Observed what d) (metrics_of w)" by (simp add: metrics_of_def)
    moreover have "res_outcome a = OUTCOME_PENDING" using pending [of t] t by auto
    moreover have "registration_outcomes (observed (Observed what d) m) =
        bump (Some (if what = ''lost_claim'' then ''lost_claim'' else ''retry_scheduled'')) (registration_outcomes m)" for m
      using assms by (elim disjE) (simp_all add: observed_def observer_defs bump_def)
    ultimately show "\<exists>l. attempt_label a l \<and> registration_outcomes (metrics_of w') = bump l (registration_outcomes (metrics_of w))"
      by (intro exI conjI) (simp_all add: attempt_label_def)
  next
    fix w e w'
    assume "bind (observe what d) (\<lambda>_. bind utc_now (\<lambda>now. liftr (pending_result op now ra))) w = (Inl e, w')"
    then obtain t where "pending_result op t ra = Inl e" by (auto simp: observe_def res_simps)
    with pending [of t] have False by simp
    then show "\<exists>l. failed_label l \<and> registration_outcomes (metrics_of w') = bump l (registration_outcomes (metrics_of w))" ..
  qed
qed

lemma retry_or_block_counted:
  "counted registration_outcomes attempt_label failed_label (retry_or_block cfg op ow e)"
proof -
  have leaf: "counted registration_outcomes attempt_label failed_label
      (bind (if \<not> b then observe ''lost_claim'' [] else observe ''retry_scheduled'' d) (\<lambda>_.
         bind utc_now (\<lambda>now. liftr (pending_result op now ra))))" for b d ra
    by (cases b) (auto intro: pending_counted)
  show ?thesis
    unfolding retry_or_block_def Let_def
    by (intro leaf counted_if counted_then_throw [OF block_operation_counted] counted_bind)
      (auto simp: failed_label_def intro: keeps_intros)
qed

lemma put_profile_uncounted: "uncounted c (put_profile u payload)"
proof -
  have e: "keeps (\<lambda>w. c (metrics_of w) = x) (emit (HttpPut a b))" "keeps (\<lambda>w. c (metrics_of w) = x) (emit (ProfileCreated u))" for x a b
    by (rule keeps_metric_emit; simp add: observed_def)+
  show ?thesis
    unfolding put_profile_def client_put_def
    by (intro allI e keeps_intros) (simp add: keeps_def metrics_of_def)
qed

lemma profile_attempts_uncounted: "uncounted c (profile_attempts p u payload n)"
proof (induction n)
  case (Suc n)
  have "keeps (\<lambda>w. c (metrics_of w) = x) (emit (Slept q))" for x q
    by (rule keeps_metric_emit) (simp add: observed_def)
  with Suc have "uncounted c
     (case e of CircuitBreakerError \<Rightarrow> throw ProfileProvisioningUnavailableError
        | ProfileCallError retryable ra \<Rightarrow>
            if \<not> retryable then throw ProfileProvisioningRejectedError
            else if n = 0 then throw ProfileProvisioningUnavailableError
            else bind (emit (Slept (retry_sleep p ra))) (\<lambda>_. profile_attempts p u payload n)
        | _ \<Rightarrow> throw e)" for e
    by (cases e) (auto intro!: keeps_intros)
  then show ?case
    unfolding profile_attempts.simps
    using breaker_call_uncounted [where c = c, OF put_profile_uncounted [where c = c]] by (intro allI keeps_catch) blast+
qed (simp add: keeps_basic)

lemma http_create_profile_uncounted: "uncounted c (http_create_profile p u t)"
  unfolding http_create_profile_def using profile_attempts_uncounted [where c = c] by (intro allI keeps_intros) blast

lemma resume_counted:
  assumes "\<And>u t. uncounted registration_outcomes (create_profile u t)"
  shows "counted registration_outcomes attempt_label failed_label (resume_execute cfg create_profile op ow)"
proof -
  have fin: "uncounted registration_outcomes (finalize cfg op ow)"
    unfolding finalize_def finalize_tx_def by (intro allI keeps_intros)
  have completed: "counted registration_outcomes attempt_label failed_label
      (bind (observe ''operation_completed'' []) (\<lambda>_. liftr (completed_result_of op i)))" for i
    by (rule countedI) (auto simp: label_simps completed_result_of_def RegistrationResult_def)
  show ?thesis
    unfolding resume_execute_def
    by (intro counted_intros counted_then_throw [OF block_operation_counted] retry_or_block_counted pending_counted
        completed assms fin)
      (auto simp: failed_label_def)
qed

subsection \<open>Properties\<close>



end
