(* ===== verification/Logging.thy ===== *)
theory Logging
  imports Text
begin

section \<open>Structured logging\<close>

text \<open>
  \<open>core/logging.py\<close>: the level, the context of the service, the levels of muted loggers, and
  \<open>_safe_exception_info\<close>, which replaces the exception of a log event by its chain of types and frames.
  Exceptions are objects that refer to one another through \<open>__cause__\<close> and \<open>__context__\<close>, possibly in a cycle,
  so they live in a store; an address stands for \<open>id(error)\<close>. The configuration of structlog and of the standard
  library, which only wires these functions, is not modelled.
\<close>

subsection \<open>Exception objects\<close>

record frame =
  fr_filename :: string
  fr_line :: int
  fr_function :: string
  fr_locals :: "(string \<times> string) list"

record exception_object =
  eo_type :: string
  eo_message :: string
  eo_frames :: "frame list"
  eo_cause :: "nat option"
  eo_context :: "nat option"
  eo_suppress_context :: bool

type_synonym store = "(nat \<times> exception_object) list"

record chain_entry =
  ce_type :: string
  ce_frames :: "(string \<times> int \<times> string) list"

definition entry_of :: "exception_object \<Rightarrow> chain_entry" where
  "entry_of error = \<lparr>ce_type = eo_type error,
     ce_frames = map (\<lambda>frame. (fr_filename frame, fr_line frame, fr_function frame)) (eo_frames error)\<rparr>"

definition next_error :: "exception_object \<Rightarrow> nat option" where
  "next_error error =
     (case eo_cause error of
        Some cause \<Rightarrow> Some cause
      | None \<Rightarrow> if eo_suppress_context error then None else eo_context error)"

text \<open>The loop of \<open>_safe_exception_info\<close>, with the addresses it has seen; it visits no object twice.\<close>

function exception_walk :: "store \<Rightarrow> nat list \<Rightarrow> nat option \<Rightarrow> nat list" where
  "exception_walk st seen None = []"
| "exception_walk st seen (Some error) =
     (if error \<in> set seen then []
      else case map_of st error of
        None \<Rightarrow> []
      | Some e \<Rightarrow> error # exception_walk st (error # seen) (next_error e))"
  by pat_completeness auto

termination
proof (relation "measure (\<lambda>(st, seen, _). card (fst ` set st - set seen))")
  fix st :: store and seen :: "nat list" and error e
  assume fresh: "error \<notin> set seen" and known: "map_of st error = Some e"
  from known have "error \<in> fst ` set st" by (force dest: map_of_SomeD)
  with fresh have "card (fst ` set st - set (error # seen)) < card (fst ` set st - set seen)"
    by (intro psubset_card_mono) auto
  then show "((st, error # seen, next_error e), st, seen, Some error) \<in> measure (\<lambda>(st, seen, _). card (fst ` set st - set seen))"
    by simp
qed simp

definition exception_chain :: "store \<Rightarrow> nat option \<Rightarrow> chain_entry list" where
  "exception_chain st error = map (\<lambda>a. entry_of (the (map_of st a))) (exception_walk st [] error)"

subsection \<open>Log events\<close>

datatype exc_info = FalsyInfo | TrueInfo | ErrorInfo nat | TupleInfo "nat option"

datatype log_value =
    LogText string
  | LogNumber int
  | LogExcInfo exc_info
  | LogChain "chain_entry list"

type_synonym event_dict = "(string \<times> log_value) list"

definition event_pop :: "string \<Rightarrow> event_dict \<Rightarrow> event_dict" where
  "event_pop k event = filter (\<lambda>(k', _). k' \<noteq> k) event"

definition event_setdefault :: "string \<Rightarrow> log_value \<Rightarrow> event_dict \<Rightarrow> event_dict" where
  "event_setdefault k v event = (if map_of event k = None then event @ [(k, v)] else event)"

fun event_set :: "string \<Rightarrow> log_value \<Rightarrow> event_dict \<Rightarrow> event_dict" where
  "event_set k v [] = [(k, v)]"
| "event_set k v ((k', v') # rest) = (if k' = k then (k, v) # rest else (k', v') # event_set k v rest)"

definition add_service_context :: "string \<Rightarrow> string \<Rightarrow> string \<Rightarrow> event_dict \<Rightarrow> event_dict" where
  "add_service_context service_name app_version app_environment event =
     event_setdefault ''environment'' (LogText app_environment)
       (event_setdefault ''version'' (LogText app_version)
          (event_setdefault ''service'' (LogText service_name) event))"

text \<open>
  \<open>active\<close> is \<open>sys.exc_info()[1]\<close>. A value of \<open>exc_info\<close> that is no exception information is not falsy, no
  exception and no tuple, and so asks for the current exception as \<open>True\<close> does.
\<close>

definition presented_error :: "nat option \<Rightarrow> log_value \<Rightarrow> nat option" where
  "presented_error active info =
     (case info of
        LogExcInfo (ErrorInfo a) \<Rightarrow> Some a
      | LogExcInfo (TupleInfo a) \<Rightarrow> a
      | _ \<Rightarrow> active)"

definition safe_exception_info :: "store \<Rightarrow> nat option \<Rightarrow> event_dict \<Rightarrow> event_dict" where
  "safe_exception_info st active event =
     (let info = map_of event ''exc_info''; event = event_pop ''exc_info'' event in
      case info of
        None \<Rightarrow> event
      | Some v \<Rightarrow>
          if v = LogExcInfo FalsyInfo then event
          else event_set ''exception_chain'' (LogChain (exception_chain st (presented_error active v))) event)"

subsection \<open>Levels\<close>

definition log_level :: "(string \<times> int) list \<Rightarrow> string \<Rightarrow> exn + int" where
  "log_level level_names name = (case map_of level_names name of None \<Rightarrow> Inl ValueError | Some level \<Rightarrow> Inr level)"

definition is_muted :: "string list \<Rightarrow> string \<Rightarrow> bool" where
  "is_muted muted_loggers logger_name =
     list_ex (\<lambda>muted. logger_name = muted \<or> take (length muted + 1) logger_name = muted @ ''.'') muted_loggers"

definition logger_level :: "string list \<Rightarrow> int \<Rightarrow> string \<Rightarrow> int" where
  "logger_level mute_loggers level logger_name =
     (if is_muted (mute_loggers @ [''sqlalchemy'']) logger_name then max level 30 else 0)"

subsection \<open>The chain is complete, and finite even if it is cyclic\<close>

definition link :: "store \<Rightarrow> (nat \<times> nat) set" where
  "link st = {(a, b). \<exists>e. map_of st a = Some e \<and> next_error e = Some b \<and> map_of st b \<noteq> None}"

lemma link_functional: "(a, b) \<in> link st \<Longrightarrow> (a, c) \<in> link st \<Longrightarrow> b = c"
  by (auto simp: link_def)

lemma walk_fresh: "distinct (exception_walk st seen error) \<and> set (exception_walk st seen error) \<inter> set seen = {}"
proof (induction st seen error rule: exception_walk.induct)
  case (2 st seen error)
  then show ?case by (auto split: option.splits)
qed simp

lemma walk_step:
  assumes "x \<in> set (exception_walk st seen (Some error))"
  obtains e where "error \<notin> set seen" and "map_of st error = Some e"
  using assms by (cases "map_of st error") (auto split: if_splits)

text \<open>Whatever the walk has visited, it has gone on to the next object, unless it had seen it before.\<close>

lemma walk_closed:
  "x \<in> set (exception_walk st seen error) \<Longrightarrow> (x, y) \<in> link st \<Longrightarrow> y \<in> set (exception_walk st seen error) \<union> set seen"
proof (induction st seen error rule: exception_walk.induct)
  case (2 st seen error)
  obtain e where fresh: "error \<notin> set seen" and e: "map_of st error = Some e"
    by (rule walk_step [OF "2.prems"(1)])
  let ?rest = "exception_walk st (error # seen) (next_error e)"
  have walk: "exception_walk st seen (Some error) = error # ?rest" using fresh e by simp
  have next_visited: "y \<in> set ?rest \<union> set (error # seen)" if "(error, y) \<in> link st"
    using that e by (cases "y \<in> set (error # seen)") (auto simp: link_def)
  from "2.prems" next_visited "2.IH" [OF fresh e] show ?case unfolding walk by auto
qed simp

lemma walk_sound: "b \<in> set (exception_walk st seen (Some a)) \<Longrightarrow> (a, b) \<in> (link st)\<^sup>*"
proof (induction st seen "Some a" arbitrary: a rule: exception_walk.induct)
  case (2 st seen error)
  obtain e where fresh: "error \<notin> set seen" and e: "map_of st error = Some e"
    by (rule walk_step [OF "2.prems"(1)])
  show ?case
  proof (cases "b = error")
    case False
    with "2.prems" fresh e have b: "b \<in> set (exception_walk st (error # seen) (next_error e))" by simp
    then obtain c where c: "next_error e = Some c" by (cases "next_error e") auto
    with b have "map_of st c \<noteq> None" using walk_step [of b st "error # seen" c] by auto
    with e c have "(error, c) \<in> link st" by (simp add: link_def)
    moreover have "(c, b) \<in> (link st)\<^sup>*" using "2.hyps" [OF fresh e c] b c by simp
    ultimately show ?thesis by (rule converse_rtrancl_into_rtrancl)
  qed simp
qed

lemma walk_complete:
  assumes "map_of st a \<noteq> None"
  shows "set (exception_walk st [] (Some a)) = {b. (a, b) \<in> (link st)\<^sup>*}"
proof
  show "set (exception_walk st [] (Some a)) \<subseteq> {b. (a, b) \<in> (link st)\<^sup>*}" using walk_sound by blast
  have "b \<in> set (exception_walk st [] (Some a))" if "(a, b) \<in> (link st)\<^sup>*" for b
    using that
  proof (induction rule: rtrancl_induct)
    case base
    show ?case using assms by auto
  next
    case (step y z)
    then show ?case using walk_closed [of y st "[]" "Some a" z] by simp
  qed
  then show "{b. (a, b) \<in> (link st)\<^sup>*} \<subseteq> set (exception_walk st [] (Some a))" by blast
qed

subsection \<open>Nothing secret is logged\<close>

text \<open>Two exception objects differ at most in their messages and in the local variables of their frames.\<close>

definition redacted :: "exception_object \<Rightarrow> exception_object" where
  "redacted e = e\<lparr>eo_message := [], eo_frames := map (\<lambda>f. f\<lparr>fr_locals := []\<rparr>) (eo_frames e)\<rparr>"

definition same_outline :: "exception_object \<Rightarrow> exception_object \<Rightarrow> bool" where
  "same_outline e e' \<longleftrightarrow> redacted e = redacted e'"

lemma redacted_suffices: "entry_of (redacted e) = entry_of e" "next_error (redacted e) = next_error e"
  by (simp_all add: redacted_def entry_of_def next_error_def split: option.split)

lemma same_outlineD: "same_outline e e' \<Longrightarrow> entry_of e = entry_of e' \<and> next_error e = next_error e'"
  unfolding same_outline_def by (metis redacted_suffices)

definition same_shape :: "store \<Rightarrow> store \<Rightarrow> bool" where
  "same_shape st st' \<longleftrightarrow> (\<forall>a. rel_option same_outline (map_of st a) (map_of st' a))"

lemma walk_same_shape:
  "same_shape st st' \<Longrightarrow> exception_walk st seen error = exception_walk st' seen error"
proof (induction st seen error rule: exception_walk.induct)
  case (2 st seen error)
  have rel: "rel_option same_outline (map_of st error) (map_of st' error)" using "2.prems" by (simp add: same_shape_def)
  show ?case
  proof (cases "error \<in> set seen \<or> map_of st error = None")
    case True
    with rel show ?thesis by auto
  next
    case False
    then obtain e where fresh: "error \<notin> set seen" and e: "map_of st error = Some e" by blast
    with rel obtain e' where e': "map_of st' error = Some e'" "next_error e = next_error e'"
      by (auto simp: option_rel_Some1 dest: same_outlineD)
    from "2.IH" [OF fresh e "2.prems"] fresh e e' show ?thesis by simp
  qed
qed simp

lemma walk_known: "a \<in> set (exception_walk st seen error) \<Longrightarrow> map_of st a \<noteq> None"
proof (induction st seen error rule: exception_walk.induct)
  case (2 st seen error)
  obtain e where fresh: "error \<notin> set seen" and e: "map_of st error = Some e"
    by (rule walk_step [OF "2.prems"(1)])
  with "2.IH" [OF fresh e] "2.prems" show ?case by auto
qed simp

lemma chain_same_shape: "same_shape st st' \<Longrightarrow> exception_chain st error = exception_chain st' error"
proof -
  assume same: "same_shape st st'"
  have "entry_of (the (map_of st a)) = entry_of (the (map_of st' a))"
    if "a \<in> set (exception_walk st [] error)" for a
    using same walk_known [OF that] by (auto simp: same_shape_def option_rel_Some1 dest!: spec [of _ a] same_outlineD)
  then show ?thesis by (simp add: exception_chain_def walk_same_shape [OF same, symmetric])
qed

text \<open>
  C39. A log event shows where an exception came from and nothing it said: the processor ends even if the
  exceptions refer to one another in a cycle, reports every exception that is reached over \<open>__cause__\<close> and
  \<open>__context__\<close> exactly once, the presented one first, and writes the same event whatever the messages and
  the local variables are; the exception itself is gone from the event.
\<close>
theorem logged_exceptions_are_safe:
  assumes "map_of st a \<noteq> None" and "same_shape st st'"
  shows "\<exists>visited. exception_chain st (Some a) = map (\<lambda>b. entry_of (the (map_of st b))) (a # visited) \<and>
      distinct (a # visited) \<and> set (a # visited) = {b. (a, b) \<in> (link st)\<^sup>*} \<and>
      safe_exception_info st active event = safe_exception_info st' active event \<and>
      map_of (safe_exception_info st active event) ''exc_info'' = None"
proof -
  obtain visited where visited: "exception_walk st [] (Some a) = a # visited" using assms(1) by auto
  have popped: "map_of (event_pop ''exc_info'' event) ''exc_info'' = None" for event
    by (auto simp: event_pop_def map_of_eq_None_iff)
  have set: "map_of (event_set k v event) k' = (if k' = k then Some v else map_of event k')" for k v k' event
    by (induction event) auto
  have "safe_exception_info st active event = safe_exception_info st' active event"
    unfolding safe_exception_info_def chain_same_shape [OF assms(2)] ..
  moreover have "map_of (safe_exception_info st active event) ''exc_info'' = None"
    unfolding safe_exception_info_def Let_def by (simp add: popped set split: option.split)
  ultimately show ?thesis
    using visited walk_fresh [of st "[]" "Some a"] walk_complete [OF assms(1)]
    by (intro exI [of _ visited]) (simp add: exception_chain_def)
qed

text \<open>Two exceptions that are each other's context.\<close>

definition sample_error :: "string \<Rightarrow> nat \<Rightarrow> exception_object" where
  "sample_error message context = \<lparr>eo_type = ''ValueError'', eo_message = message,
     eo_frames = [\<lparr>fr_filename = ''app.py'', fr_line = 7, fr_function = ''f'', fr_locals = [(''password'', message)]\<rparr>],
     eo_cause = None, eo_context = Some context, eo_suppress_context = False\<rparr>"

theorem logged_exceptions_are_safe_witness:
  "length (exception_chain [(1, sample_error ''secret'' 2), (2, sample_error ''token'' 1)] (Some 1)) = 2 \<and>
   safe_exception_info [(1, sample_error ''secret'' 2), (2, sample_error ''token'' 1)] None [(''exc_info'', LogExcInfo (ErrorInfo 1))] =
     safe_exception_info [(1, sample_error [] 2), (2, sample_error [] 1)] None [(''exc_info'', LogExcInfo (ErrorInfo 1))]"
proof -
  let ?st = "[(1, sample_error ''secret'' 2), (2, sample_error ''token'' 1)]"
  let ?st' = "[(1, sample_error [] 2), (2, sample_error [] 1)]"
  have same: "same_shape ?st ?st'"
    by (auto simp: same_shape_def same_outline_def sample_error_def redacted_def)
  have "map_of ?st 1 \<noteq> None" by simp
  from logged_exceptions_are_safe [OF this same] have
    "safe_exception_info ?st None [(''exc_info'', LogExcInfo (ErrorInfo 1))] =
       safe_exception_info ?st' None [(''exc_info'', LogExcInfo (ErrorInfo 1))]" by blast
  moreover have "length (exception_chain ?st (Some 1)) = 2"
    by (simp add: exception_chain_def next_error_def sample_error_def)
  ultimately show ?thesis by blast
qed

end
