(* ===== verification/Processes.thy ===== *)
theory Processes
  imports Settings
begin

section \<open>The worker processes and their shutdown\<close>

text \<open>
  \<open>entrypoints/messaging/relay.py\<close> and \<open>entrypoints/maintenance/registration_reconciler.py\<close>: \<open>main\<close> installs
  the signal handlers, starts the loop of the worker as a task and waits. A process is a state machine
  whose steps are those of \<open>main\<close>, of the task and of the operating system, in any order. The loop itself is
  the subject of the theories \<open>Relay\<close> and \<open>Registration\<close>; here it matters only that it clears the stop
  event when it starts, reads it before and after every round, and returns when it is set. Time is
  left out: a time-out may end a wait that has a time limit at any moment. With \<open>--redrive\<close> the maintenance
  process runs no loop, but one transaction of the operator.
\<close>

subsection \<open>States\<close>

datatype ending = StoppedCleanly | ShutdownTimeout | TaskEnded

datatype main_phase =
    Starting      \<comment> \<open>no handlers yet\<close>
  | Connecting    \<comment> \<open>handlers installed, no task yet\<close>
  | Waiting       \<comment> \<open>the task exists; waiting for the shutdown event\<close>
  | Draining      \<comment> \<open>\<open>wait_for(task, timeout)\<close>\<close>
  | Ended ending

datatype task_phase = NoTask | Created | Looping | Returned | Cancelled

record process =
  pr_main :: main_phase
  pr_task :: task_phase
  pr_stop :: bool
  pr_shutdown :: bool

definition process_start :: process where
  "process_start = \<lparr>pr_main = Starting, pr_task = NoTask, pr_stop = False, pr_shutdown = False\<rparr>"

subsection \<open>Steps\<close>

text \<open>\<open>_handle_signal\<close>: the worker is told to stop, then \<open>main\<close> is woken up.\<close>

definition handle_signal :: "process \<Rightarrow> process" where
  "handle_signal p = p\<lparr>pr_stop := True, pr_shutdown := True\<rparr>"

text \<open>The steps of the task, the same for both workers: \<open>run\<close> begins with \<open>_stop_event.clear()\<close>.\<close>

inductive task_step :: "process \<Rightarrow> process \<Rightarrow> bool" where
  task_starts: "pr_task p = Created \<Longrightarrow> task_step p (p\<lparr>pr_task := Looping, pr_stop := False\<rparr>)"
| task_round: "pr_task p = Looping \<Longrightarrow> \<not> pr_stop p \<Longrightarrow> task_step p p"
| task_returns: "pr_task p = Looping \<Longrightarrow> pr_stop p \<Longrightarrow> task_step p (p\<lparr>pr_task := Returned\<rparr>)"

inductive relay_main_step :: "process \<Rightarrow> process \<Rightarrow> bool" where
  relay_installs: "pr_main p = Starting \<Longrightarrow> relay_main_step p (p\<lparr>pr_main := Connecting\<rparr>)"
| relay_connects: "pr_main p = Connecting \<Longrightarrow> relay_main_step p (p\<lparr>pr_main := Waiting, pr_task := Created\<rparr>)"
| relay_wakes: "pr_main p = Waiting \<Longrightarrow> pr_shutdown p \<Longrightarrow> relay_main_step p (p\<lparr>pr_main := Draining\<rparr>)"
| relay_drained: "pr_main p = Draining \<Longrightarrow> pr_task p = Returned \<Longrightarrow> relay_main_step p (p\<lparr>pr_main := Ended StoppedCleanly\<rparr>)"
| relay_times_out: "pr_main p = Draining \<Longrightarrow> pr_task p \<in> {Created, Looping} \<Longrightarrow>
     relay_main_step p (p\<lparr>pr_main := Ended ShutdownTimeout, pr_task := Cancelled\<rparr>)"

text \<open>The reconciler does not connect to a broker, and also wakes up when its task has ended.\<close>

inductive reconciler_main_step :: "process \<Rightarrow> process \<Rightarrow> bool" where
  reconciler_installs: "pr_main p = Starting \<Longrightarrow> reconciler_main_step p (p\<lparr>pr_main := Connecting\<rparr>)"
| reconciler_creates: "pr_main p = Connecting \<Longrightarrow> reconciler_main_step p (p\<lparr>pr_main := Waiting, pr_task := Created\<rparr>)"
| reconciler_task_ended: "pr_main p = Waiting \<Longrightarrow> pr_task p = Returned \<Longrightarrow>
     reconciler_main_step p (p\<lparr>pr_main := Ended TaskEnded\<rparr>)"
| reconciler_wakes: "pr_main p = Waiting \<Longrightarrow> pr_shutdown p \<Longrightarrow> pr_task p \<noteq> Returned \<Longrightarrow>
     reconciler_main_step p (p\<lparr>pr_main := Draining\<rparr>)"
| reconciler_drained: "pr_main p = Draining \<Longrightarrow> pr_task p = Returned \<Longrightarrow>
     reconciler_main_step p (p\<lparr>pr_main := Ended StoppedCleanly\<rparr>)"
| reconciler_times_out: "pr_main p = Draining \<Longrightarrow> pr_task p \<in> {Created, Looping} \<Longrightarrow>
     reconciler_main_step p (p\<lparr>pr_main := Ended ShutdownTimeout, pr_task := Cancelled\<rparr>)"

inductive_cases relay_main_stepE: "relay_main_step p q"
inductive_cases reconciler_main_stepE: "reconciler_main_step p q"
inductive_cases task_stepE: "task_step p q"

text \<open>
  A process does a step of \<open>main\<close> or of its task, or a signal arrives after the handlers have been
  installed; a quiet run is one without a signal.
\<close>

definition quiet_step :: "(process \<Rightarrow> process \<Rightarrow> bool) \<Rightarrow> process \<Rightarrow> process \<Rightarrow> bool" where
  "quiet_step main_step p q \<longleftrightarrow> main_step p q \<or> task_step p q"

inductive process_step :: "(process \<Rightarrow> process \<Rightarrow> bool) \<Rightarrow> process \<Rightarrow> process \<Rightarrow> bool" for main_step where
  own_step: "quiet_step main_step p q \<Longrightarrow> process_step main_step p q"
| signal_step: "pr_main p \<noteq> Starting \<Longrightarrow> pr_main p \<notin> range Ended \<Longrightarrow> process_step main_step p (handle_signal p)"

definition quiet_run :: "(process \<Rightarrow> process \<Rightarrow> bool) \<Rightarrow> process \<Rightarrow> process \<Rightarrow> bool" where
  "quiet_run main_step = (quiet_step main_step)\<^sup>*\<^sup>*"

subsection \<open>The redrive command\<close>

definition redrive_main :: "string \<Rightarrow> ('e, bool) io" where
  "redrive_main redrive_operation_id =
     (case uuid_of_str redrive_operation_id of
        None \<Rightarrow> throw ValueError
      | Some operation_id \<Rightarrow> redrive_execute operation_id)"

text \<open>A text that is no UUID is refused before the database is touched.\<close>

lemma redrive_main_malformed: "uuid_of_str s = None \<Longrightarrow> redrive_main s w = (Inl ValueError, w)"
  by (simp add: redrive_main_def throw_def)

text \<open>
  When the command reports success, the operation was blocked, and is now pending, available at once,
  with its attempts forgotten and the redrive counted; every other operation is as before.
\<close>

lemma redrive_main_reopens:
  fixes w :: "'e world"
  assumes "i < 2 ^ 128" and "redrive_main (uuid_str i) w = (Inr True, w')"
  shows "\<exists>t ts. db_registrations (w_db w') =
      update_where (\<lambda>r. r_id r = i \<and> r_status r = R_BLOCKED) (set_redriven t ts) (db_registrations (w_db (begin_tx w)))"
    and "\<exists>r \<in> set (db_registrations (w_db (begin_tx w))). r_id r = i \<and> r_status r = R_BLOCKED"
proof -
  from assms have "redrive_execute i w = (Inr True, w')" by (simp add: redrive_main_def uuid_of_str_str)
  then obtain t ts where "redrive_blocked i t ts (db_registrations (w_db (begin_tx w))) = Inr (True, db_registrations (w_db w'))"
    unfolding redrive_execute_def by (auto dest!: uow_Inr simp: res_simps on_registrations_def bind_res_iffs)
  then show "\<exists>t ts. db_registrations (w_db w') =
      update_where (\<lambda>r. r_id r = i \<and> r_status r = R_BLOCKED) (set_redriven t ts) (db_registrations (w_db (begin_tx w)))"
    and "\<exists>r \<in> set (db_registrations (w_db (begin_tx w))). r_id r = i \<and> r_status r = R_BLOCKED"
    by (auto simp: redrive_blocked_def dest: update_flag_Inr update_flag_True)
qed

subsection \<open>What both workers have in common\<close>

text \<open>
  \<open>main\<close> never touches the stop event, creates its task while it connects and cancels it when the time
  is up; it reports a clean stop only after the task has returned.
\<close>

locale worker =
  fixes main_step :: "process \<Rightarrow> process \<Rightarrow> bool"
  assumes keeps_stop: "main_step p q \<Longrightarrow> pr_stop q = pr_stop p"
    and task_touched: "main_step p q \<Longrightarrow>
          pr_task q = pr_task p \<or> pr_main p = Connecting \<and> pr_task q = Created \<or> pr_task q = Cancelled"
    and no_reconnect: "main_step p q \<Longrightarrow> pr_main q \<in> {Starting, Connecting} \<Longrightarrow> pr_main p = Starting"
    and clean: "main_step p q \<Longrightarrow> pr_main q = Ended StoppedCleanly \<Longrightarrow> pr_task p = Returned"
begin

text \<open>The loop has been told to stop, and will not begin another round.\<close>

definition stopping :: "process \<Rightarrow> bool" where
  "stopping p \<longleftrightarrow> pr_main p \<notin> {Starting, Connecting} \<and> pr_task p \<notin> {NoTask, Created} \<and>
     (pr_task p = Looping \<longrightarrow> pr_stop p)"

text \<open>The loop has not been told to stop since it began, and will not return.\<close>

definition unstoppable :: "process \<Rightarrow> bool" where
  "unstoppable p \<longleftrightarrow> pr_task p \<noteq> Returned \<and> pr_main p \<noteq> Ended StoppedCleanly \<and> (pr_task p = Looping \<longrightarrow> \<not> pr_stop p)"

lemma stopping_step: "quiet_step main_step p q \<Longrightarrow> stopping p \<Longrightarrow> stopping q"
  using keeps_stop [of p q] task_touched [of p q] no_reconnect [of p q]
  by (auto simp: quiet_step_def stopping_def elim!: task_stepE)

lemma unstoppable_step: "quiet_step main_step p q \<Longrightarrow> unstoppable p \<Longrightarrow> unstoppable q"
  using keeps_stop [of p q] task_touched [of p q] clean [of p q]
  by (auto simp: quiet_step_def unstoppable_def elim!: task_stepE)

lemma running_loop_stops:
  assumes "pr_main p \<in> {Waiting, Draining}" and "pr_task p = Looping" and run: "quiet_run main_step (handle_signal p) q"
  shows "pr_task q \<in> {Looping, Returned, Cancelled}" "pr_task q = Looping \<longrightarrow> pr_stop q"
proof -
  have "stopping (handle_signal p)" using assms(1,2) by (auto simp: stopping_def handle_signal_def)
  with run have "stopping q" unfolding quiet_run_def by (induction rule: rtranclp_induct) (auto intro: stopping_step)
  then show "pr_task q \<in> {Looping, Returned, Cancelled}" "pr_task q = Looping \<longrightarrow> pr_stop q"
    by (cases "pr_task q"; auto simp: stopping_def)+
qed

lemma early_signal_is_lost:
  assumes "pr_main p \<in> {Connecting, Waiting, Draining}" and "pr_task p \<in> {NoTask, Created}"
    and run: "quiet_run main_step (handle_signal p) q"
  shows "pr_task q \<noteq> Returned" "pr_main q \<noteq> Ended StoppedCleanly"
proof -
  have "unstoppable (handle_signal p)" using assms(1,2) by (auto simp: unstoppable_def handle_signal_def)
  with run have "unstoppable q" unfolding quiet_run_def by (induction rule: rtranclp_induct) (auto intro: unstoppable_step)
  then show "pr_task q \<noteq> Returned" "pr_main q \<noteq> Ended StoppedCleanly" by (simp_all add: unstoppable_def)
qed

end

interpretation relay_process: worker relay_main_step
  by unfold_locales (auto elim: relay_main_stepE)

interpretation reconciler_process: worker reconciler_main_step
  by unfold_locales (auto elim: reconciler_main_stepE)

subsection \<open>Properties\<close>


text \<open>The relay is told to stop while it connects to the broker; it goes on until the time-out.\<close>

definition lost_request :: process where
  "lost_request = \<lparr>pr_main = Draining, pr_task = Looping, pr_stop = False, pr_shutdown = True\<rparr>"

lemma lost_request_reachable:
  "process_step relay_main_step process_start \<lparr>pr_main = Connecting, pr_task = NoTask, pr_stop = False, pr_shutdown = False\<rparr>"
  "quiet_run relay_main_step
     (handle_signal \<lparr>pr_main = Connecting, pr_task = NoTask, pr_stop = False, pr_shutdown = False\<rparr>) lost_request"
proof -
  let ?c = "\<lparr>pr_main = Connecting, pr_task = NoTask, pr_stop = False, pr_shutdown = False\<rparr>"
  have "relay_main_step process_start ?c"
    using relay_installs [of process_start] by (simp add: process_start_def)
  then show "process_step relay_main_step process_start ?c" by (intro own_step) (simp add: quiet_step_def)
  let ?w = "\<lparr>pr_main = Waiting, pr_task = Created, pr_stop = True, pr_shutdown = True\<rparr>"
  let ?d = "\<lparr>pr_main = Draining, pr_task = Created, pr_stop = True, pr_shutdown = True\<rparr>"
  have connects: "quiet_step relay_main_step (handle_signal ?c) ?w"
    using relay_connects [of "handle_signal ?c"] by (simp add: handle_signal_def quiet_step_def)
  have wakes: "quiet_step relay_main_step ?w ?d" using relay_wakes [of ?w] by (simp add: quiet_step_def)
  have loops: "quiet_step relay_main_step ?d lost_request"
    using task_starts [of ?d] by (simp add: lost_request_def quiet_step_def)
  show "quiet_run relay_main_step (handle_signal ?c) lost_request"
    unfolding quiet_run_def
    by (intro converse_rtranclp_into_rtranclp [where r = "quiet_step relay_main_step", OF connects]
        converse_rtranclp_into_rtranclp [where r = "quiet_step relay_main_step", OF wakes]
        converse_rtranclp_into_rtranclp [where r = "quiet_step relay_main_step", OF loops] rtranclp.rtrancl_refl)
qed


end
