(* ===== verification/Fingerprint.thy ===== *)
theory Fingerprint
  imports Sessions "HOL-Library.Multiset"
begin

section \<open>The fingerprint of a request\<close>

text \<open>
  \<open>application/idempotency/fingerprint.py\<close>: a payload is brought into a canonical form, written as JSON and
  hashed. A set is the list of its elements in the order in which it is iterated, a mapping the list of its
  items; a key that is no string is \<open>None\<close>; a pydantic model is the mapping it dumps to. \<open>repr\<close> of a
  float is an argument, and a decimal has an exponent within the limits of the default context.
\<close>

subsection \<open>Values\<close>

datatype decimal = DecFinite (dec_negative: bool) (dec_coefficient: nat) (dec_exponent: int) | DecSpecial

datatype fp_value =
    FNone | FBool bool | FInt int | FStr string
  | FFloat pyfloat
  | FDecimal decimal
  | FUuid uuid
  | FDatetime datetime
  | FDate int
  | FEnum fp_value
  | FList "fp_value list"
  | FSet "fp_value list"
  | FMap "(string option \<times> fp_value) list"
  | FOther

datatype canon =
    CNull | CBool bool | CInt int | CFloat rat | CStr string
  | CList "canon list" | CObj "(string \<times> canon) list"

subsection \<open>Decimals\<close>

text \<open>\<open>normalize\<close> rounds to 28 digits, half to even, and drops trailing zeros.\<close>

definition dec_round :: "nat \<Rightarrow> int \<Rightarrow> nat \<times> int" where
  "dec_round c e =
     (let n = length (nat_str c) in
      if n \<le> 28 then (c, e)
      else let k = n - 28; q = c div 10 ^ k; r = c mod 10 ^ k;
               up = (10 ^ k < 2 * r \<or> 10 ^ k = 2 * r \<and> odd q)
           in (if up then Suc q else q, e + int k))"

function dec_strip :: "nat \<Rightarrow> int \<Rightarrow> nat \<times> int" where
  "dec_strip c e = (if 0 < c \<and> c mod 10 = 0 then dec_strip (c div 10) (e + 1) else (c, e))"
  by pat_completeness auto

termination
  by (relation "measure fst") auto

definition dec_format :: "bool \<Rightarrow> nat \<Rightarrow> int \<Rightarrow> string" where
  "dec_format negative c e =
     (let digits = nat_str c;
          places = nat (- e);
          padded = replicate (Suc places - length digits) (CHR ''0'') @ digits
      in (if negative then ''-'' else []) @
         (if 0 \<le> e then digits @ replicate (nat e) (CHR ''0'')
          else take (length padded - places) padded @ ''.'' @ drop (length padded - places) padded))"

definition decimal_str :: "decimal \<Rightarrow> exn + string" where
  "decimal_str d =
     (case d of
        DecSpecial \<Rightarrow> Inl ValueError
      | DecFinite negative c e \<Rightarrow>
          if c = 0 then Inr ''0''
          else case dec_round c e of (c1, e1) \<Rightarrow> case dec_strip c1 e1 of (c2, e2) \<Rightarrow> Inr (dec_format negative c2 e2))"

definition date_isoformat :: "int \<Rightarrow> string" where
  "date_isoformat days =
     (case civil_from_days days of (y, m, d) \<Rightarrow>
        Events.decimal 4 (nat y) @ ''-'' @ Events.decimal 2 (nat m) @ ''-'' @ Events.decimal 2 (nat d))"

subsection \<open>JSON text\<close>

fun join :: "string list \<Rightarrow> string" where
  "join [] = []"
| "join [s] = s"
| "join (s # t # ts) = s @ '','' @ join (t # ts)"

text \<open>\<open>json.dumps(item, ensure_ascii=False, separators=(",", ":"), sort_keys=True)\<close>.\<close>

primrec canon_dumps :: "(rat \<Rightarrow> string) \<Rightarrow> canon \<Rightarrow> string" where
  "canon_dumps float_repr CNull = ''null''"
| "canon_dumps float_repr (CBool b) = (if b then ''true'' else ''false'')"
| "canon_dumps float_repr (CInt i) = int_str i"
| "canon_dumps float_repr (CFloat q) = float_repr q"
| "canon_dumps float_repr (CStr s) = json_quote False s"
| "canon_dumps float_repr (CList cs) = ''['' @ join (map (canon_dumps float_repr) cs) @ '']''"
| "canon_dumps float_repr (CObj fs) =
     ''{'' @ join (map (\<lambda>(k, text). json_quote False k @ '':'' @ text)
       (sort_key fst (map (map_prod id (canon_dumps float_repr)) fs))) @ ''}''"

subsection \<open>The canonical form\<close>

fun traverse :: "('a \<Rightarrow> exn + 'b) \<Rightarrow> 'a list \<Rightarrow> exn + 'b list" where
  "traverse f [] = Inr []"
| "traverse f (x # xs) = bind_res (f x) (\<lambda>y. bind_res (traverse f xs) (\<lambda>ys. Inr (y # ys)))"

lemma traverse_cong [fundef_cong]:
  "xs = ys \<Longrightarrow> (\<And>x. x \<in> set ys \<Longrightarrow> f x = g x) \<Longrightarrow> traverse f xs = traverse g ys"
  by (induction ys arbitrary: xs) auto

definition by_text :: "(rat \<Rightarrow> string) \<Rightarrow> canon list \<Rightarrow> canon list" where
  "by_text float_repr items = sort_key (canon_dumps float_repr) items"

function canonicalize :: "(rat \<Rightarrow> string) \<Rightarrow> string list list \<Rightarrow> string list \<Rightarrow> fp_value \<Rightarrow> exn + canon" where
  "canonicalize fr unordered_paths path FNone = Inr CNull"
| "canonicalize fr unordered_paths path (FBool b) = Inr (CBool b)"
| "canonicalize fr unordered_paths path (FInt i) = Inr (CInt i)"
| "canonicalize fr unordered_paths path (FStr s) = Inr (CStr s)"
| "canonicalize fr unordered_paths path (FFloat x) = (case x of Finite q \<Rightarrow> Inr (CFloat q) | _ \<Rightarrow> Inl ValueError)"
| "canonicalize fr unordered_paths path (FDecimal d) = bind_res (decimal_str d) (\<lambda>s. Inr (CStr s))"
| "canonicalize fr unordered_paths path (FUuid u) = Inr (CStr (uuid_str u))"
| "canonicalize fr unordered_paths path (FDatetime t) =
     (if \<not> tz_aware t then Inl ValueError else Inr (CStr (isoformat t)))"
| "canonicalize fr unordered_paths path (FDate days) = Inr (CStr (date_isoformat days))"
| "canonicalize fr unordered_paths path (FEnum v) = canonicalize fr unordered_paths path v"
| "canonicalize fr unordered_paths path (FList xs) =
     bind_res (traverse (canonicalize fr unordered_paths (path @ [''[]''])) xs) (\<lambda>items.
       Inr (CList (if path \<in> set unordered_paths then by_text fr items else items)))"
| "canonicalize fr unordered_paths path (FSet xs) =
     bind_res (traverse (canonicalize fr unordered_paths (path @ [''{}''])) xs) (\<lambda>items. Inr (CList (by_text fr items)))"
| "canonicalize fr unordered_paths path (FMap fs) =
     (if list_ex (\<lambda>(k, _). k = None) fs then Inl TypeError
      else bind_res (traverse (\<lambda>(k, v). bind_res (canonicalize fr unordered_paths (path @ [the k]) v) (\<lambda>c. Inr (the k, c)))
             (sort_key (\<lambda>(k, _). the k) fs)) (\<lambda>items. Inr (CObj items)))"
| "canonicalize fr unordered_paths path FOther = Inl TypeError"
  by pat_completeness auto

termination
proof (relation "measure (\<lambda>(_, _, _, v). size v)")
  fix fs :: "(string option \<times> fp_value) list" and x k v
  assume "x \<in> set (sort_key (\<lambda>(k, _). the k) fs)" "(k, v) = x"
  then have "(k, v) \<in> set fs" by simp
  then have "size v < size (FMap fs)"
    by (induction fs) (auto simp: less_Suc_eq)
  then show "((fr, up, path @ [the k], v), fr, up, path, FMap fs) \<in> measure (\<lambda>(_, _, _, v). size v)" for fr up path by simp
qed (auto simp: less_Suc_eq_le size_list_estimation')

definition compute_request_hash ::
    "(bytes \<Rightarrow> bytes) \<Rightarrow> (rat \<Rightarrow> string) \<Rightarrow> string list list \<Rightarrow> fp_value \<Rightarrow> exn + bytes" where
  "compute_request_hash sha256 fr unordered_paths payload =
     bind_res (canonicalize fr unordered_paths [] payload) (\<lambda>canonical. Inr (sha256 (utf8 (canon_dumps fr canonical))))"

subsection \<open>What the fingerprint ignores\<close>

text \<open>
  Two payloads mean the same: they differ in the order of the items of a mapping, of the elements of a
  set or of a list whose path is declared to be unordered, at any depth.
\<close>

inductive same_payload :: "string list list \<Rightarrow> string list \<Rightarrow> fp_value \<Rightarrow> fp_value \<Rightarrow> bool" for up where
  same_refl: "same_payload up p v v"
| same_enum: "same_payload up p v v' \<Longrightarrow> same_payload up p (FEnum v) (FEnum v')"
| same_list: "length xs = length ys \<Longrightarrow> (\<And>i. i < length xs \<Longrightarrow> same_payload up (p @ [''[]'']) (xs ! i) (ys ! i)) \<Longrightarrow>
     same_payload up p (FList xs) (FList ys)"
| same_unordered: "p \<in> set up \<Longrightarrow> length xs = length zs \<Longrightarrow>
     (\<And>i. i < length xs \<Longrightarrow> same_payload up (p @ [''[]'']) (xs ! i) (zs ! i)) \<Longrightarrow> mset zs = mset ys \<Longrightarrow>
     same_payload up p (FList xs) (FList ys)"
| same_set: "length xs = length zs \<Longrightarrow> (\<And>i. i < length xs \<Longrightarrow> same_payload up (p @ [''{}'']) (xs ! i) (zs ! i)) \<Longrightarrow>
     mset zs = mset ys \<Longrightarrow> same_payload up p (FSet xs) (FSet ys)"
| same_map: "distinct (map fst fs) \<Longrightarrow> map fst fs = map fst hs \<Longrightarrow>
     (\<And>i. i < length fs \<Longrightarrow> same_payload up (p @ [the (fst (fs ! i))]) (snd (fs ! i)) (snd (hs ! i))) \<Longrightarrow>
     mset hs = mset gs \<Longrightarrow> same_payload up p (FMap fs) (FMap gs)"

lemma traverse_iff: "traverse f xs = Inr ys \<longleftrightarrow> (\<forall>x \<in> set xs. \<exists>y. f x = Inr y) \<and> ys = map (projr \<circ> f) xs"
proof (induction xs arbitrary: ys)
  case (Cons x xs)
  show ?case
  proof (cases "f x")
    case (Inr y)
    with Cons show ?thesis by (auto simp: bind_res_eq_Inr)
  qed simp
qed auto

text \<open>The text of the results survives a change of the elements one by one, and its multiset a change of order.\<close>

lemma traverse_pointwise:
  assumes "traverse f xs = Inr cs" and "length xs = length ys"
    and "\<And>i c. i < length xs \<Longrightarrow> f (xs ! i) = Inr c \<Longrightarrow> \<exists>c'. f (ys ! i) = Inr c' \<and> d c' = d c"
  shows "\<exists>cs'. traverse f ys = Inr cs' \<and> map d cs' = map d cs"
proof -
  from assms(1) have xs: "\<And>i. i < length xs \<Longrightarrow> \<exists>c. f (xs ! i) = Inr c" and cs: "cs = map (projr \<circ> f) xs"
    by (auto simp: traverse_iff)
  have ys: "\<exists>c'. f (ys ! i) = Inr c' \<and> d c' = d (projr (f (xs ! i)))" if "i < length ys" for i
    using that xs [of i] assms(2,3) by fastforce
  then have "\<forall>y \<in> set ys. \<exists>c. f y = Inr c" by (metis in_set_conv_nth)
  moreover have "map d (map (projr \<circ> f) ys) = map d cs"
    unfolding cs using ys assms(2) by (intro nth_equalityI) fastforce+
  ultimately show ?thesis by (auto simp: traverse_iff)
qed

lemma traverse_permuted:
  assumes "traverse f xs = Inr cs" and "mset xs = mset ys"
  shows "\<exists>cs'. traverse f ys = Inr cs' \<and> mset cs' = mset cs"
  using assms mset_eq_setD [OF assms(2)] unfolding traverse_iff by (auto simp: mset_map)

lemma by_text_dumps: "map (canon_dumps fr) (by_text fr cs) = sort (map (canon_dumps fr) cs)"
  unfolding by_text_def by (rule properties_for_sort [symmetric]) simp_all

lemma texts_permuted:
  "mset (map (canon_dumps fr) cs) = mset (map (canon_dumps fr) cs') \<Longrightarrow>
   canon_dumps fr (CList (by_text fr cs)) = canon_dumps fr (CList (by_text fr cs'))"
proof -
  assume "mset (map (canon_dumps fr) cs) = mset (map (canon_dumps fr) cs')"
  then have "sort (map (canon_dumps fr) cs) = sort (map (canon_dumps fr) cs')"
    by (metis sorted_list_of_multiset_mset)
  then show ?thesis unfolding canon_dumps.simps by_text_dumps by simp
qed


abbreviation canonical_item where
  "canonical_item fr up p \<equiv> (\<lambda>(k, v). bind_res (canonicalize fr up (p @ [the k]) v) (\<lambda>c. Inr (the k, c)))"

abbreviation item_text where
  "item_text fr \<equiv> map_prod id (canon_dumps fr)"

lemma canonical_item_iff:
  "canonical_item fr up p kv = Inr i \<longleftrightarrow>
   (\<exists>c. canonicalize fr up (p @ [the (fst kv)]) (snd kv) = Inr c \<and> i = (the (fst kv), c))"
  by (cases kv) (auto simp: bind_res_eq_Inr)

lemma canonical_item_keys:
  "traverse (canonical_item fr up p) fs = Inr is \<Longrightarrow> map fst is = map (the \<circ> fst) fs"
  by (induction fs arbitrary: "is") (auto simp: bind_res_eq_Inr)

lemma objects_permuted:
  assumes "mset (map (item_text fr) is) = mset (map (item_text fr) js)" and "distinct (map fst is)"
  shows "canon_dumps fr (CObj is) = canon_dumps fr (CObj js)"
proof -
  have "distinct (map fst (map (item_text fr) is))" using assms(2) by simp
  then have "inj_on fst (set (map (item_text fr) is))" unfolding distinct_map by (rule conjunct2)
  then have "sort_key fst (map (item_text fr) is) = sort_key fst (map (item_text fr) js)"
    by (intro sort_key_inj_key_eq) (use assms(1) in simp_all)
  then show ?thesis by simp
qed

text \<open>A change of the elements one by one, then of their order.\<close>

lemma traverse_changed:
  assumes "traverse f xs = Inr cs" and "length xs = length zs" and "mset zs = mset ys"
    and "\<And>i c. i < length xs \<Longrightarrow> f (xs ! i) = Inr c \<Longrightarrow> \<exists>c'. f (zs ! i) = Inr c' \<and> d c' = d c"
  shows "\<exists>cs'. traverse f ys = Inr cs' \<and> mset (map d cs') = mset (map d cs)"
proof -
  obtain ds where "traverse f zs = Inr ds" "map d ds = map d cs"
    using traverse_pointwise [OF assms(1,2), of d] assms(4) by blast
  with traverse_permuted [of f zs ds ys] assms(3) show ?thesis by (metis mset_map)
qed

lemma canonicalize_map_changed:
  assumes "canonicalize fr up p (FMap fs) = Inr c" and "distinct (map fst fs)" and "map fst fs = map fst hs"
    and "mset hs = mset gs"
    and item: "\<And>i c. i < length fs \<Longrightarrow> canonicalize fr up (p @ [the (fst (fs ! i))]) (snd (fs ! i)) = Inr c \<Longrightarrow>
      \<exists>c'. canonicalize fr up (p @ [the (fst (fs ! i))]) (snd (hs ! i)) = Inr c' \<and> canon_dumps fr c' = canon_dumps fr c"
  shows "\<exists>c'. canonicalize fr up p (FMap gs) = Inr c' \<and> canon_dumps fr c' = canon_dumps fr c"
proof -
  let ?g = "canonical_item fr up p" and ?s = "sort_key (\<lambda>(k, _). the k)"
  from assms(1) obtain "is" where named: "\<forall>kv \<in> set fs. fst kv \<noteq> None" and "is": "traverse ?g (?s fs) = Inr is" "c = CObj is"
    by (fastforce simp: bind_res_eq_Inr list_ex_iff split: if_splits)
  have "set (map fst gs) = set (map fst fs)" using mset_eq_setD [OF assms(4)] assms(3) by simp
  with named have gs: "\<not> list_ex (\<lambda>(k, _). k = None) gs" by (force simp: list_ex_iff)
  obtain js where js: "traverse ?g fs = Inr js" "mset js = mset is"
    using traverse_permuted [OF "is"(1), of fs] by auto
  have len: "length fs = length hs" using map_eq_imp_length_eq [OF assms(3)] .
  have same: "fst (hs ! i) = fst (fs ! i)" if "i < length fs" for i
    using that assms(3) len by (metis nth_map)
  have "mset hs = mset (?s gs)" using assms(4) by simp
  with traverse_changed [OF js(1) len this, of "item_text fr"] obtain ks
    where ks: "traverse ?g (?s gs) = Inr ks" "mset (map (item_text fr) ks) = mset (map (item_text fr) js)"
    using item same by (fastforce simp: canonical_item_iff)
  have "\<forall>k \<in> set (map fst fs). k \<noteq> None" using named by simp
  then have "inj_on the (set (map fst fs))" by (intro inj_onI) (metis option.expand)
  with assms(2) have "distinct (map (the \<circ> fst) fs)" by (metis distinct_map list.map_comp)
  then have "distinct (map fst js)" using canonical_item_keys [OF js(1)] by simp
  moreover have "mset (map fst is) = mset (map fst js)" using js(2) by (simp add: mset_map)
  ultimately have "distinct (map fst is)" by (metis mset_eq_imp_distinct_iff)
  then have "canon_dumps fr (CObj is) = canon_dumps fr (CObj ks)"
    using js(2) ks(2) by (intro objects_permuted) (metis mset_map)
  with ks(1) gs "is"(2) show ?thesis by simp
qed

lemma same_payload_text:
  assumes "same_payload up p v v'" and "canonicalize fr up p v = Inr c"
  shows "\<exists>c'. canonicalize fr up p v' = Inr c' \<and> canon_dumps fr c' = canon_dumps fr c"
  using assms
proof (induction arbitrary: c)
  case (same_list xs ys p)
  from same_list.prems obtain cs where cs: "traverse (canonicalize fr up (p @ [''[]''])) xs = Inr cs"
    and c: "c = CList (if p \<in> set up then by_text fr cs else cs)" by (auto simp: bind_res_eq_Inr)
  obtain ds where ds: "traverse (canonicalize fr up (p @ [''[]''])) ys = Inr ds" "map (canon_dumps fr) ds = map (canon_dumps fr) cs"
    using traverse_pointwise [OF cs same_list.hyps(1), of "canon_dumps fr"] same_list.IH by blast
  with c texts_permuted [of fr ds cs] show ?case by (cases "p \<in> set up") simp_all
next
  case (same_unordered p xs zs ys)
  from same_unordered.prems same_unordered.hyps(1) obtain cs
    where cs: "traverse (canonicalize fr up (p @ [''[]''])) xs = Inr cs" and c: "c = CList (by_text fr cs)"
    by (auto simp: bind_res_eq_Inr)
  obtain ds where "traverse (canonicalize fr up (p @ [''[]''])) ys = Inr ds"
    "mset (map (canon_dumps fr) ds) = mset (map (canon_dumps fr) cs)"
    using traverse_changed [OF cs same_unordered.hyps(2) same_unordered.hyps(4)] same_unordered.IH by blast
  with c texts_permuted [of fr ds cs] same_unordered.hyps(1) show ?case by simp
next
  case (same_set xs zs p ys)
  from same_set.prems obtain cs
    where cs: "traverse (canonicalize fr up (p @ [''{}''])) xs = Inr cs" and c: "c = CList (by_text fr cs)"
    by (auto simp: bind_res_eq_Inr)
  obtain ds where "traverse (canonicalize fr up (p @ [''{}''])) ys = Inr ds"
    "mset (map (canon_dumps fr) ds) = mset (map (canon_dumps fr) cs)"
    using traverse_changed [OF cs same_set.hyps(1) same_set.hyps(3)] same_set.IH by blast
  with c texts_permuted [of fr ds cs] show ?case by simp
next
  case (same_map fs hs p gs)
  then show ?case by (intro canonicalize_map_changed [of fr up p fs c hs gs]) blast+
qed auto

subsection \<open>Properties\<close>

text \<open>
  C23. Two payloads that differ only in the order of the items of their mappings, of the elements of their
  sets and of the lists declared unordered, at any depth, have the same request hash.
\<close>

theorem request_hash_ignores_order:
  assumes "same_payload unordered_paths [] payload payload'"
    and "compute_request_hash sha256 fr unordered_paths payload = Inr h"
  shows "compute_request_hash sha256 fr unordered_paths payload' = Inr h"
proof -
  from assms(2) obtain c where c: "canonicalize fr unordered_paths [] payload = Inr c"
    and h: "h = sha256 (utf8 (canon_dumps fr c))"
    by (auto simp: compute_request_hash_def bind_res_eq_Inr)
  from same_payload_text [OF assms(1) c] h show ?thesis
    by (auto simp: compute_request_hash_def)
qed

abbreviation order_a :: fp_value where
  "order_a \<equiv> FMap [(Some ''a'', FInt 1), (Some ''lines'', FList [FBool True, FNone])]"

abbreviation order_b :: fp_value where
  "order_b \<equiv> FMap [(Some ''lines'', FList [FNone, FBool True]), (Some ''a'', FInt 1)]"

lemma orders_same: "same_payload [[''lines'']] [] order_a order_b"
proof (rule same_map [where hs = "[(Some ''a'', FInt 1), (Some ''lines'', FList [FNone, FBool True])]"])
  fix i
  assume "i < length [(Some ''a'', FInt 1), (Some ''lines'', FList [FBool True, FNone])]"
  then consider "i = 0" | "i = 1" by fastforce
  then show "same_payload [[''lines'']] ([] @ [the (fst ([(Some ''a'', FInt 1), (Some ''lines'', FList [FBool True, FNone])] ! i))])
     (snd ([(Some ''a'', FInt 1), (Some ''lines'', FList [FBool True, FNone])] ! i))
     (snd ([(Some ''a'', FInt 1), (Some ''lines'', FList [FNone, FBool True])] ! i))"
  proof cases
    case 2
    show ?thesis unfolding 2
      by (simp, rule same_unordered [where zs = "[FBool True, FNone]"]) (auto intro: same_refl)
  qed (simp add: same_refl)
qed simp_all

theorem request_hash_ignores_order_witness:
  "compute_request_hash id (\<lambda>_. ''1.0'') [[''lines'']] order_b = Inr (utf8 (''{'' @ json_quote False ''a'' @ '':1,'' @
     json_quote False ''lines'' @ '':[null,true]}''))"
proof (rule request_hash_ignores_order [OF orders_same])
  show "compute_request_hash id (\<lambda>_. ''1.0'') [[''lines'']] order_a = Inr (utf8 (''{'' @ json_quote False ''a'' @ '':1,'' @
     json_quote False ''lines'' @ '':[null,true]}''))"
    by code_simp
qed

text \<open>The hash of the refresh use case is the one of its payload.\<close>

lemma refresh_request_hash_computed:
  "compute_request_hash (ti_sha256 (sp_issuer ports)) fr []
     (FMap [(Some ''refresh_token_digest'', FStr (bytes_hex (digest_of ports token)))]) =
   Inr (refresh_request_hash ports token)"
  by (simp add: compute_request_hash_def refresh_request_hash_def json_dumps_def)

end
